(* ===== verification/Prelude.thy ===== *)
theory Prelude
  imports Complex_Main "HOL-Library.Word" "HOL-Library.AList" "HOL-Library.List_Lexorder"
    "HOL-Library.Char_ord"
begin

text \<open>
  What every component of the development shares: the machine types of the Go source, Go's
  error values with \<open>%w\<close> wrapping and \<open>errors.Is\<close>, little-endian byte encodings, positional
  number printing and scanning (\<open>strconv\<close>, \<open>fmt\<close>), and the generic list facts the component
  proofs use. The collections \<open>go_err\<close>, \<open>bytes_simps\<close> and \<open>num_text\<close> gather the facts that
  the component theories hand to the simplifier as a group.
\<close>

named_theorems go_err \<open>error values and wrapping\<close>
named_theorems bytes_simps \<open>little-endian encodings\<close>
named_theorems num_text \<open>printing and scanning of numbers\<close>

subsection \<open>Machine types\<close>

type_synonym u8 = "8 word"
type_synonym u16 = "16 word"
type_synonym u32 = "32 word"
type_synonym u64 = "64 word"
type_synonym bytes = "8 word list"

text \<open>\<open>time.Time\<close> and \<open>time.Duration\<close> are counts of nanoseconds; \<open>float64\<close> values are rationals.\<close>

type_synonym time = int
type_synonym duration = int
type_synonym float64 = rat

abbreviation nanosecond :: duration where "nanosecond \<equiv> 1"
abbreviation millisecond :: duration where "millisecond \<equiv> 1000000"
abbreviation second :: duration where "second \<equiv> 1000000000"
abbreviation minute :: duration where "minute \<equiv> 60000000000"
abbreviation hour :: duration where "hour \<equiv> 3600000000000"

text \<open>The zero \<open>time.Time\<close>, January 1 of year 1, as nanoseconds from the Unix epoch; \<open>IsZero\<close> tests for it.\<close>

definition zero_time :: time where
  "zero_time = - 62135596800 * second"

definition IsZero :: "time \<Rightarrow> bool" where
  "IsZero t = (t = zero_time)"

text \<open>A Go \<open>map[string]string\<close>: an association list, read with the zero value for a missing key.\<close>

type_synonym labels = "(string \<times> string) list"

definition map_index :: "labels \<Rightarrow> string \<Rightarrow> string" where
  "map_index m k = (case map_of m k of None \<Rightarrow> [] | Some v \<Rightarrow> v)"

subsection \<open>Go errors\<close>

text \<open>
  The sentinels the source tests with \<open>errors.Is\<close> or through \<open>apierrors\<close>, and \<open>fmt.Errorf\<close>
  with its \<open>%w\<close> operands. A text stands for the constant part of the format string.
\<close>

datatype sentinel =
    E2BIG
  | ErrKeyNotExist
  | NotFound
  | Conflict
  | ErrNotExist
  | ErrPermission
  | ErrInterfaceNotFound
  | ErrPinPathNotBPFFS
  | ErrMapIncompatible
  | OtherErr string

datatype err = Sentinel sentinel | Errorf string "err list"

fun err_is :: "err \<Rightarrow> sentinel \<Rightarrow> bool" where
  "err_is (Sentinel t) s = (t = s)"
| "err_is (Errorf m es) s = list_ex (\<lambda>e. err_is e s) es"

abbreviation wrap :: "string \<Rightarrow> err \<Rightarrow> err" where
  "wrap m e \<equiv> Errorf m [e]"

abbreviation new_err :: "string \<Rightarrow> err" where
  "new_err m \<equiv> Errorf m []"

lemma err_is_wrap [simp, go_err]: "err_is (wrap m e) s = err_is e s"
  by simp

lemma err_is_new [simp, go_err]: "\<not> err_is (new_err m) s"
  by simp

subsection \<open>Little-endian encodings\<close>

fun le_bytes :: "nat \<Rightarrow> nat \<Rightarrow> bytes" where
  "le_bytes 0 n = []"
| "le_bytes (Suc k) n = word_of_nat n # le_bytes k (n div 256)"

fun le_nat :: "bytes \<Rightarrow> nat" where
  "le_nat [] = 0"
| "le_nat (b # bs) = unat b + 256 * le_nat bs"

lemma length_le_bytes [simp, bytes_simps]: "length (le_bytes k n) = k"
  by (induction k arbitrary: n) auto

lemma unat_byte_of_nat [simp]: "unat (word_of_nat n :: u8) = n mod 256"
  by (simp add: unat_of_nat)

lemma unat_u8_less: "unat (b :: u8) < 256"
  using unsigned_less [of b, where ?'a = nat] by simp

lemma le_nat_le_bytes [bytes_simps]: "le_nat (le_bytes k n) = n mod 256 ^ k"
proof (induction k arbitrary: n)
  case 0
  then show ?case by simp
next
  case (Suc k)
  have "n mod 256 + 256 * (n div 256 mod 256 ^ k) = n mod (256 * 256 ^ k)"
    by (simp add: mod_mult2_eq)
  with Suc show ?case by simp
qed

lemma le_nat_less: "le_nat bs < 256 ^ length bs"
proof (induction bs)
  case Nil
  then show ?case by simp
next
  case (Cons b bs)
  have "unat b < 256" by (rule unat_u8_less)
  moreover have "le_nat bs + 1 \<le> 256 ^ length bs" using Cons by simp
  then have "256 * (le_nat bs + 1) \<le> 256 * 256 ^ length bs" by (rule mult_le_mono2)
  ultimately show ?case by simp
qed

lemma le_bytes_le_nat [bytes_simps]: "length bs = k \<Longrightarrow> le_bytes k (le_nat bs) = bs"
proof (induction bs arbitrary: k)
  case Nil
  then show ?case by simp
next
  case (Cons b bs)
  have b: "unat b < 256" by (rule unat_u8_less)
  have "(word_of_nat (unat b + 256 * le_nat bs) :: u8) = b"
    using b by (intro word_unat_eq_iff [THEN iffD2]) (simp only: unat_byte_of_nat mod_mult_self2 mod_less)
  moreover have "(unat b + 256 * le_nat bs) div 256 = le_nat bs"
    using b by simp
  ultimately show ?case using Cons by (cases k) simp_all
qed

subsection \<open>Numbers as text\<close>

text \<open>\<open>strconv.AppendUint\<close> and the \<open>%x\<close> verb: lower-case digits, no leading zero.\<close>

definition digit_char :: "nat \<Rightarrow> char" where
  "digit_char d = char_of (if d < 10 then 48 + d else 87 + d)"

function print_base :: "nat \<Rightarrow> nat \<Rightarrow> string" where
  "print_base b n =
     (if n < b \<or> b < 2 then [digit_char n] else print_base b (n div b) @ [digit_char (n mod b)])"
  by pat_completeness auto
termination
  by (relation "measure (\<lambda>(b, n). n)") auto

declare print_base.simps [simp del]

text \<open>The value of a hexadecimal digit, either case; decimal digits are those below ten.\<close>

definition hex_val :: "char \<Rightarrow> nat option" where
  "hex_val c = (let n = of_char c :: nat in
     if 48 \<le> n \<and> n \<le> 57 then Some (n - 48)
     else if 97 \<le> n \<and> n \<le> 102 then Some (n - 87)
     else if 65 \<le> n \<and> n \<le> 70 then Some (n - 55)
     else None)"

definition dec_val :: "char \<Rightarrow> nat option" where
  "dec_val c = (let n = of_char c :: nat in if 48 \<le> n \<and> n \<le> 57 then Some (n - 48) else None)"

lemma hex_val_digit [simp, num_text]: "d < 16 \<Longrightarrow> hex_val (digit_char d) = Some d"
  by (auto simp: hex_val_def digit_char_def Let_def)

lemma dec_val_digit [simp, num_text]: "d < 10 \<Longrightarrow> dec_val (digit_char d) = Some d"
  by (auto simp: dec_val_def digit_char_def Let_def)

lemma hex_val_less: "hex_val c = Some d \<Longrightarrow> d < 16"
  by (auto simp: hex_val_def Let_def split: if_splits)

lemma dec_val_less: "dec_val c = Some d \<Longrightarrow> d < 10"
  by (auto simp: dec_val_def Let_def split: if_splits)

lemma print_base_nonempty [simp]: "print_base b n \<noteq> []"
  by (subst print_base.simps) simp

lemma print_base_small: "n < b \<Longrightarrow> print_base b n = [digit_char n]"
  by (subst print_base.simps) simp

text \<open>Every character printed is a digit of the base.\<close>

lemma print_base_digits: "2 \<le> b \<Longrightarrow> c \<in> set (print_base b n) \<Longrightarrow> \<exists>d < b. c = digit_char d"
proof (induction b n rule: print_base.induct)
  case (1 b n)
  show ?case
  proof (cases "n < b")
    case True
    with "1.prems" show ?thesis by (auto simp: print_base_small)
  next
    case False
    with "1.prems" have "c \<in> set (print_base b (n div b)) \<or> c = digit_char (n mod b)"
      by (subst (asm) print_base.simps) auto
    with False "1.IH" "1.prems" show ?thesis by (metis mod_less_divisor not_less zero_less_numeral less_le_trans)
  qed
qed

text \<open>
  The digits as numbers, most significant first. The printed text is their image, the scanning
  loops of the source fold over them, and there is a leading zero only in the text of zero.
\<close>

function digits_of :: "nat \<Rightarrow> nat \<Rightarrow> nat list" where
  "digits_of b n = (if n < b \<or> b < 2 then [n] else digits_of b (n div b) @ [n mod b])"
  by pat_completeness auto
termination
  by (relation "measure (\<lambda>(b, n). n)") auto

declare digits_of.simps [simp del]

abbreviation horner :: "nat \<Rightarrow> nat \<Rightarrow> nat list \<Rightarrow> nat" where
  "horner b acc ds \<equiv> foldl (\<lambda>a d. a * b + d) acc ds"

lemma print_base_digits_of: "print_base b n = map digit_char (digits_of b n)"
  by (induction b n rule: digits_of.induct) (simp add: print_base.simps digits_of.simps)

lemma digits_of_nonempty [simp]: "digits_of b n \<noteq> []"
  by (subst digits_of.simps) simp

lemma horner_digits_of [num_text]: "horner b 0 (digits_of b n) = n"
proof (induction b n rule: digits_of.induct)
  case (1 b n)
  then show ?case by (cases "n < b \<or> b < 2") (simp_all add: digits_of.simps [of b n])
qed

lemma digits_of_less: "2 \<le> b \<Longrightarrow> \<forall>d \<in> set (digits_of b n). d < b"
proof (induction b n rule: digits_of.induct)
  case (1 b n)
  then show ?case by (cases "n < b") (auto simp add: digits_of.simps [of b n])
qed

lemma length_digits_of: "2 \<le> b \<Longrightarrow> n < b ^ k \<Longrightarrow> 0 < k \<Longrightarrow> length (digits_of b n) \<le> k"
proof (induction b n arbitrary: k rule: digits_of.induct)
  case (1 b n)
  show ?case
  proof (cases "n < b")
    case True
    with "1.prems" show ?thesis by (simp add: digits_of.simps [of b n])
  next
    case False
    have "k \<noteq> 1" using False "1.prems" by auto
    then obtain j where j: "k = Suc j" "0 < j"
      using "1.prems" by (cases k) auto
    have "n div b < b ^ j"
      using "1.prems" j by (simp add: less_mult_imp_div_less mult.commute)
    then have "length (digits_of b (n div b)) \<le> j"
      using "1.IH" False "1.prems" j by auto
    with False "1.prems" j show ?thesis by (simp add: digits_of.simps [of b n])
  qed
qed

lemma digits_of_no_leading_zero: "2 \<le> b \<Longrightarrow> 0 < n \<Longrightarrow> hd (digits_of b n) \<noteq> 0"
proof (induction b n rule: digits_of.induct)
  case (1 b n)
  show ?case
  proof (cases "n < b")
    case True
    with "1.prems" show ?thesis by (simp add: digits_of.simps [of b n])
  next
    case False
    then have "0 < n div b" using "1.prems" by (simp add: div_greater_zero_iff)
    with False "1" show ?thesis by (simp add: digits_of.simps [of b n])
  qed
qed

lemma digits_of_zero: "2 \<le> b \<Longrightarrow> digits_of b 0 = [0]"
  by (simp add: digits_of.simps)

lemma horner_ge: "1 \<le> b \<Longrightarrow> acc \<le> horner b acc ds"
proof (induction ds arbitrary: acc)
  case Nil
  then show ?case by simp
next
  case (Cons d ds)
  have "acc * 1 \<le> acc * b" using Cons.prems by (intro mult_le_mono2) simp
  then have "acc \<le> acc * b + d" by linarith
  also have "\<dots> \<le> horner b (acc * b + d) ds" using Cons by blast
  finally show ?case by simp
qed

subsection \<open>Lists\<close>

fun join_with :: "char \<Rightarrow> string list \<Rightarrow> string" where
  "join_with c [] = []"
| "join_with c [s] = s"
| "join_with c (s # t # ss) = s @ c # join_with c (t # ss)"

lemma join_with_Cons: "ss \<noteq> [] \<Longrightarrow> join_with c (s # ss) = s @ c # join_with c ss"
  by (cases ss) auto

lemma join_with_chars: "x \<in> set (join_with c ss) \<Longrightarrow> x = c \<or> (\<exists>s \<in> set ss. x \<in> set s)"
  by (induction c ss rule: join_with.induct) auto

lemma takeWhile_append_stop: "\<forall>x \<in> set xs. P x \<Longrightarrow> \<not> P y \<Longrightarrow> takeWhile P (xs @ y # ys) = xs"
  by (induction xs) auto

text \<open>\<open>sortedKeys\<close>: a Go map with string keys, enumerated in ascending key order.\<close>

definition sortedKeys :: "(string \<times> 'v) list \<Rightarrow> string list" where
  "sortedKeys m = sort (map fst m)"

lemma set_sortedKeys [simp]: "set (sortedKeys m) = fst ` set m"
  by (simp add: sortedKeys_def)

lemma sorted_sortedKeys: "sorted (sortedKeys m)"
  by (simp add: sortedKeys_def)

lemma distinct_sortedKeys: "distinct (map fst m) \<Longrightarrow> distinct (sortedKeys m)"
  by (simp add: sortedKeys_def)

end
