(* ===== verification/Go_Net.thy ===== *)
theory Go_Net
  imports Prelude
begin

text \<open>
  The part of Go's \<open>net\<close> package the program uses: an address is a byte slice of length 4 or 16,
  \<open>ParseIP\<close> reads dotted decimal and colon-hexadecimal text into the 16-byte form, \<open>To4\<close> and
  \<open>To16\<close> convert, and \<open>String\<close> prints the canonical text that \<open>pkg/controller\<close> uses as a map key.
  The main facts: printing an address and parsing it again gives the 16-byte form back, so two
  addresses have the same text exactly when they have the same 16-byte form.
\<close>

type_synonym ip = bytes

subsection \<open>The two representations\<close>

definition v4InV6Prefix :: bytes where
  "v4InV6Prefix = replicate 10 0 @ [255, 255]"

definition To4 :: "ip \<Rightarrow> bytes option" where
  "To4 ip =
     (if length ip = 4 then Some ip
      else if length ip = 16 \<and> take 12 ip = v4InV6Prefix then Some (drop 12 ip)
      else None)"

definition To16 :: "ip \<Rightarrow> bytes option" where
  "To16 ip =
     (if length ip = 4 then Some (v4InV6Prefix @ ip)
      else if length ip = 16 then Some ip
      else None)"

text \<open>The slices \<open>net.IP\<close> treats as an address.\<close>

definition valid_ip :: "ip \<Rightarrow> bool" where
  "valid_ip ip \<longleftrightarrow> length ip = 4 \<or> length ip = 16"

subsection \<open>Parsing\<close>

text \<open>
  \<open>parseIPv4Fields\<close>: the loop over the text. \<open>sep\<close> says that the position is the first one or
  that the previous character was a dot; \<open>fields\<close> holds the octets completed so far.
\<close>

fun parseIPv4Fields :: "bool \<Rightarrow> nat \<Rightarrow> nat \<Rightarrow> nat list \<Rightarrow> string \<Rightarrow> nat list option" where
  "parseIPv4Fields sep val digLen fields [] =
     (if length fields < 3 then None else Some (fields @ [val]))"
| "parseIPv4Fields sep val digLen fields (c # cs) =
     (case dec_val c of
        Some d \<Rightarrow>
          if digLen = 1 \<and> val = 0 then None
          else if val * 10 + d > 255 then None
          else parseIPv4Fields False (val * 10 + d) (Suc digLen) fields cs
      | None \<Rightarrow>
          if c = CHR ''.'' then
            if sep \<or> cs = [] then None
            else if length fields = 3 then None
            else parseIPv4Fields True 0 0 (fields @ [val]) cs
          else None)"

definition parseIPv4 :: "string \<Rightarrow> bytes option" where
  "parseIPv4 s = map_option (map word_of_nat) (parseIPv4Fields True 0 0 [] s)"

text \<open>
  One hexadecimal group of \<open>parseIPv6\<close>: the digits read so far (\<open>off\<close>), their value, and the
  rest of the text. More than four digits, or a value above 16 bits, is an error.
\<close>

fun scanHex :: "nat \<Rightarrow> nat \<Rightarrow> string \<Rightarrow> (nat \<times> nat \<times> string) option" where
  "scanHex off acc [] = Some (off, acc, [])"
| "scanHex off acc (c # cs) =
     (case hex_val c of
        None \<Rightarrow> Some (off, acc, c # cs)
      | Some d \<Rightarrow>
          if off > 3 then None
          else if acc * 16 + d > 65535 then None
          else scanHex (Suc off) (acc * 16 + d) cs)"

definition group_bytes :: "nat \<Rightarrow> bytes" where
  "group_bytes g = [word_of_nat (g div 256), word_of_nat g]"

lemma scanHex_shrinks:
  "scanHex off acc s = Some (off', acc', r) \<Longrightarrow>
     off \<le> off' \<and> length s = (off' - off) + length r"
  by (induction off acc s rule: scanHex.induct) (fastforce split: option.splits if_splits)+

text \<open>
  The main loop of \<open>parseIPv6\<close>. \<open>ip\<close> holds the bytes saved so far, so its length is the source's
  \<open>i\<close>; \<open>ell\<close> is the source's \<open>ellipsis\<close> with \<open>None\<close> for \<open>-1\<close>. The result is the pair after
  the loop; every early \<open>return\<close> with an error, and unconsumed text after the loop, is \<open>None\<close>.
\<close>

function parseIPv6_loop :: "nat option \<Rightarrow> bytes \<Rightarrow> string \<Rightarrow> (nat option \<times> bytes) option" where
  "parseIPv6_loop ell ip s =
     (if length ip \<ge> 16 then (if s = [] then Some (ell, ip) else None)
      else case scanHex 0 0 s of
        None \<Rightarrow> None
      | Some (off, acc, r) \<Rightarrow>
          if off = 0 then None
          else (case r of
            [] \<Rightarrow> Some (ell, ip @ group_bytes acc)
          | c # r' \<Rightarrow>
              if c = CHR ''.'' then
                if ell = None \<and> length ip \<noteq> 12 then None
                else if length ip + 4 > 16 then None
                else (case parseIPv4 s of None \<Rightarrow> None | Some q \<Rightarrow> Some (ell, ip @ q))
              else if c \<noteq> CHR '':'' then None
              else (case r' of
                [] \<Rightarrow> None
              | c' # r'' \<Rightarrow>
                  if c' = CHR '':'' then
                    if ell \<noteq> None then None
                    else if r'' = [] then Some (Some (length ip + 2), ip @ group_bytes acc)
                    else parseIPv6_loop (Some (length ip + 2)) (ip @ group_bytes acc) r''
                  else parseIPv6_loop ell (ip @ group_bytes acc) r')))"
  by pat_completeness auto
termination
  by (relation "measure (\<lambda>(ell, ip, s). length s)") (auto dest!: scanHex_shrinks)

declare parseIPv6_loop.simps [simp del]

text \<open>After the loop: the ellipsis stands for at least one zero group.\<close>

definition expand_ellipsis :: "nat option \<Rightarrow> bytes \<Rightarrow> bytes option" where
  "expand_ellipsis ell ip =
     (if length ip < 16 then
        (case ell of
           None \<Rightarrow> None
         | Some e \<Rightarrow> Some (take e ip @ replicate (16 - length ip) 0 @ drop e ip))
      else if ell \<noteq> None then None
      else Some ip)"

text \<open>
  A text with a zone (\<open>%\<close>) is either rejected by \<open>parseIPv6\<close> or yields an address with a
  non-empty zone, which \<open>ParseIP\<close> rejects.
\<close>

definition parseIPv6 :: "string \<Rightarrow> bytes option" where
  "parseIPv6 s =
     (if CHR ''%'' \<in> set s then None
      else if take 2 s = ''::'' then
        (if drop 2 s = [] then Some (replicate 16 0)
         else (case parseIPv6_loop (Some 0) [] (drop 2 s) of
                 None \<Rightarrow> None | Some (ell, ip) \<Rightarrow> expand_ellipsis ell ip))
      else (case parseIPv6_loop None [] s of
              None \<Rightarrow> None | Some (ell, ip) \<Rightarrow> expand_ellipsis ell ip))"

text \<open>\<open>netip.ParseAddr\<close> dispatches on the first dot, colon or percent sign.\<close>

fun parseAddr_kind :: "string \<Rightarrow> char option" where
  "parseAddr_kind [] = None"
| "parseAddr_kind (c # cs) =
     (if c = CHR ''.'' \<or> c = CHR '':'' \<or> c = CHR ''%'' then Some c else parseAddr_kind cs)"

definition ParseIP :: "string \<Rightarrow> ip option" where
  "ParseIP s =
     (case parseAddr_kind s of
        None \<Rightarrow> None
      | Some c \<Rightarrow>
          if c = CHR ''.'' then map_option (\<lambda>b. v4InV6Prefix @ b) (parseIPv4 s)
          else if c = CHR '':'' then parseIPv6 s
          else None)"

subsection \<open>Printing\<close>

definition string4 :: "bytes \<Rightarrow> string" where
  "string4 b = join_with CHR ''.'' (map (\<lambda>x. print_base 10 (unat x)) b)"

text \<open>\<open>v6u16\<close>: the eight 16-bit groups of a 16-byte address.\<close>

fun groups16 :: "bytes \<Rightarrow> nat list" where
  "groups16 (a # b # bs) = (256 * unat a + unat b) # groups16 bs"
| "groups16 _ = []"

text \<open>The longest run of at least two zero groups, the leftmost of the longest.\<close>

definition zero_run_from :: "nat list \<Rightarrow> nat \<Rightarrow> nat" where
  "zero_run_from gs i = length (takeWhile (\<lambda>g. g = 0) (drop i gs))"

fun longest_zero_run :: "nat list \<Rightarrow> nat list \<Rightarrow> (nat \<times> nat) option \<Rightarrow> (nat \<times> nat) option" where
  "longest_zero_run gs [] best = best"
| "longest_zero_run gs (i # is) best =
     (let l = zero_run_from gs i;
          cur = (case best of None \<Rightarrow> 0 | Some (zs, ze) \<Rightarrow> ze - zs)
      in longest_zero_run gs is (if l \<ge> 2 \<and> l > cur then Some (i, i + l) else best))"

definition hex_groups :: "nat list \<Rightarrow> string" where
  "hex_groups gs = join_with CHR '':'' (map (print_base 16) gs)"

definition string6 :: "bytes \<Rightarrow> string" where
  "string6 b =
     (let gs = groups16 b in
      case longest_zero_run gs [0..<8] None of
        None \<Rightarrow> hex_groups gs
      | Some (zs, ze) \<Rightarrow> hex_groups (take zs gs) @ ''::'' @ hex_groups (drop ze gs))"

text \<open>\<open>IP.String\<close>; a slice of another length prints as \<open><nil>\<close> or as raw hexadecimal.\<close>

definition IP_String :: "ip \<Rightarrow> string" where
  "IP_String ip =
     (if ip = [] then ''<nil>''
      else if length ip \<noteq> 4 \<and> length ip \<noteq> 16 then
        CHR ''?'' # concat (map (\<lambda>b. [digit_char (unat b div 16), digit_char (unat b mod 16)]) ip)
      else case To4 ip of
        Some v4 \<Rightarrow> string4 v4
      | None \<Rightarrow> string6 ip)"

subsection \<open>Printing and parsing dotted decimal\<close>

lemma parseIPv4Fields_digits:
  assumes "\<forall>d \<in> set ds. d < 10" and "horner 10 val ds \<le> 255"
    and "ds = [] \<or> val \<noteq> 0 \<or> digLen = 0 \<and> (hd ds \<noteq> 0 \<or> length ds = 1)"
  shows "parseIPv4Fields sep val digLen fs (map digit_char ds @ r) =
    parseIPv4Fields (ds = [] \<and> sep) (horner 10 val ds) (digLen + length ds) fs r"
  using assms
proof (induction ds arbitrary: val digLen sep)
  case Nil
  then show ?case by simp
next
  case (Cons d ds)
  have le: "val * 10 + d \<le> 255"
    using Cons.prems(2) horner_ge [of 10 "val * 10 + d" ds] by simp
  have ok: "\<not> (digLen = 1 \<and> val = 0)" using Cons.prems(3) by auto
  have nz: "ds = [] \<or> val * 10 + d \<noteq> 0" using Cons.prems(3) by auto
  have "parseIPv4Fields sep val digLen fs (map digit_char (d # ds) @ r) =
      parseIPv4Fields False (val * 10 + d) (Suc digLen) fs (map digit_char ds @ r)"
    using Cons.prems(1) le ok by auto
  also have "\<dots> = parseIPv4Fields False (horner 10 (val * 10 + d) ds) (Suc digLen + length ds) fs r"
    using Cons.prems(1,2) nz by (subst Cons.IH) auto
  finally show ?case by simp
qed

lemma parseIPv4Fields_octet:
  assumes "v \<le> 255"
  shows "parseIPv4Fields sep 0 0 fs (print_base 10 v @ r) =
    parseIPv4Fields False v (length (digits_of 10 v)) fs r"
proof -
  have "hd (digits_of 10 v) \<noteq> 0 \<or> length (digits_of 10 v) = 1"
    by (cases "v = 0") (simp_all add: digits_of_zero digits_of_no_leading_zero)
  then show ?thesis
    using assms by (simp add: print_base_digits_of parseIPv4Fields_digits digits_of_less horner_digits_of)
qed

lemma dec_val_dot [simp]: "dec_val CHR ''.'' = None" and hex_val_dot [simp]: "hex_val CHR ''.'' = None"
  and hex_val_colon [simp]: "hex_val CHR '':'' = None"
  by (simp_all add: dec_val_def hex_val_def)

lemma unat_u8_le: "unat (b :: u8) \<le> 255"
  using unat_u8_less [of b] by simp

lemma parseIPv4_string4:
  assumes "length b = 4"
  shows "parseIPv4 (string4 b) = Some b"
proof -
  obtain w x y z where b: "b = [w, x, y, z]"
    using assms by (auto simp: numeral_eq_Suc length_Suc_conv)
  have last: "parseIPv4Fields True 0 0 fs (print_base 10 (unat z)) =
      parseIPv4Fields False (unat z) (length (digits_of 10 (unat z))) fs []" for fs
    using parseIPv4Fields_octet [OF unat_u8_le, of True fs z "[]"] by simp
  show ?thesis
    by (simp add: b parseIPv4_def string4_def parseIPv4Fields_octet unat_u8_le last)
qed

subsection \<open>Which texts are addresses\<close>

lemma digit_char_hex: "d < 16 \<Longrightarrow> hex_val (digit_char d) \<noteq> None"
  by simp

lemma print_base_hex_chars: "2 \<le> b \<Longrightarrow> b \<le> 16 \<Longrightarrow> c \<in> set (print_base b n) \<Longrightarrow> hex_val c \<noteq> None"
  using print_base_digits [of b c n] by auto

lemma parseAddr_kind_digits:
  assumes "\<forall>c \<in> set s. hex_val c \<noteq> None"
  shows "parseAddr_kind (s @ r) = parseAddr_kind r"
  using assms
proof (induction s)
  case (Cons c s)
  have "hex_val c \<noteq> None" using Cons.prems by simp
  then have "c \<noteq> CHR ''.''" "c \<noteq> CHR '':''" "c \<noteq> CHR ''%''"
    by (auto simp: hex_val_def)
  with Cons show ?case by simp
qed simp

lemma parseIPv4Fields_chars:
  "parseIPv4Fields sep val dl fs s = Some r \<Longrightarrow> c \<in> set s \<Longrightarrow> dec_val c \<noteq> None \<or> c = CHR ''.''"
  by (induction sep val dl fs s rule: parseIPv4Fields.induct) (auto split: option.splits if_splits)

lemma parseIPv4Fields_length:
  "parseIPv4Fields sep val dl fs s = Some r \<Longrightarrow> length fs \<le> 3 \<Longrightarrow> length r = 4"
  by (induction sep val dl fs s rule: parseIPv4Fields.induct) (auto split: option.splits if_splits)

lemma parseIPv4_length: "parseIPv4 s = Some b \<Longrightarrow> length b = 4"
  by (auto simp: parseIPv4_def dest: parseIPv4Fields_length)

lemma scanHex_chars:
  "scanHex off acc s = Some (off', acc', r) \<Longrightarrow> c \<in> set s \<Longrightarrow> hex_val c \<noteq> None \<or> c \<in> set r"
  by (induction off acc s rule: scanHex.induct) (auto split: option.splits if_splits)

definition addr_char :: "char \<Rightarrow> bool" where
  "addr_char c \<longleftrightarrow> hex_val c \<noteq> None \<or> c = CHR ''.'' \<or> c = CHR '':''"

lemma dec_hex: "dec_val c = Some d \<Longrightarrow> hex_val c = Some d"
  by (auto simp: dec_val_def hex_val_def Let_def split: if_splits)

lemma parseIPv4_chars: "parseIPv4 s = Some b \<Longrightarrow> c \<in> set s \<Longrightarrow> addr_char c"
  by (auto simp: parseIPv4_def addr_char_def dest!: parseIPv4Fields_chars dest: dec_hex)

lemma parseIPv6_loop_chars:
  "parseIPv6_loop ell ip s = Some r \<Longrightarrow> c \<in> set s \<Longrightarrow> addr_char c"
proof (induction ell ip s rule: parseIPv6_loop.induct)
  case (1 ell ip s)
  show ?case
  proof (cases "length ip \<ge> 16")
    case True
    with "1.prems" show ?thesis by (auto simp: parseIPv6_loop.simps [of ell ip s] split: if_splits)
  next
    case False
    with "1.prems" obtain off acc t where sc: "scanHex 0 0 s = Some (off, acc, t)" "off \<noteq> 0"
      by (auto simp: parseIPv6_loop.simps [of ell ip s] split: option.splits if_splits)
    from scanHex_chars [OF sc(1) "1.prems"(2)] have c: "addr_char c \<or> c \<in> set t"
      by (auto simp: addr_char_def)
    show ?thesis
    proof (cases t)
      case Nil
      with c show ?thesis by simp
    next
      case (Cons d t')
      show ?thesis
      proof (cases "d = CHR ''.''")
        case True
        with "1.prems" False sc Cons obtain q where "parseIPv4 s = Some q"
          by (auto simp: parseIPv6_loop.simps [of ell ip s] split: option.splits if_splits)
        with "1.prems"(2) show ?thesis by (blast intro: parseIPv4_chars)
      next
        case nd: False
        with "1.prems" False sc Cons obtain e t'' where d: "d = CHR '':''" "t' = e # t''"
          by (auto simp: parseIPv6_loop.simps [of ell ip s] split: option.splits if_splits list.splits)
        have colon: "addr_char CHR '':''" by (simp add: addr_char_def)
        show ?thesis
        proof (cases "e = CHR '':''")
          case True
          with "1.prems" False sc Cons nd d "1.IH"(1) [of "(off, acc, t)" off "(acc, t)" acc t d t' e t'']
          show ?thesis
            using c colon by (auto simp: parseIPv6_loop.simps [of ell ip s] split: if_splits)
        next
          case ne: False
          with "1.prems" False sc Cons nd d "1.IH"(2) [of "(off, acc, t)" off "(acc, t)" acc t d t' e t'']
          show ?thesis
            using c colon by (auto simp: parseIPv6_loop.simps [of ell ip s])
        qed
      qed
    qed
  qed
qed

lemma ParseIP_chars: 
  assumes "ParseIP s = Some ip" "c \<in> set s"
  shows "addr_char c"
proof (cases "parseAddr_kind s = Some CHR ''.''")
  case True
  with assms show ?thesis by (auto simp: ParseIP_def intro: parseIPv4_chars)
next
  case False
  with assms have p: "parseIPv6 s = Some ip"
    by (auto simp: ParseIP_def split: option.splits if_splits)
  have colon: "addr_char CHR '':''" by (simp add: addr_char_def)
  show ?thesis
  proof (cases "take 2 s = ''::''")
    case True
    then have s: "s = ''::'' @ drop 2 s" by (metis append_take_drop_id)
    have "c = CHR '':'' \<or> c \<in> set (drop 2 s)"
      using assms(2) by (subst (asm) s) auto
    moreover have "drop 2 s = [] \<or> (\<exists>r. parseIPv6_loop (Some 0) [] (drop 2 s) = Some r)"
      using p True by (auto simp: parseIPv6_def split: if_splits option.splits)
    ultimately show ?thesis using colon by (auto dest: parseIPv6_loop_chars)
  next
    case False
    then obtain r where "parseIPv6_loop None [] s = Some r"
      using p by (auto simp: parseIPv6_def split: if_splits option.splits)
    with assms(2) show ?thesis by (rule parseIPv6_loop_chars [rotated])
  qed
qed

lemma length_group_bytes [simp]: "length (group_bytes g) = 2"
  by (simp add: group_bytes_def)

lemma parseIPv6_loop_length:
  "parseIPv6_loop ell ip s = Some (ell', ip') \<Longrightarrow> even (length ip) \<Longrightarrow> length ip \<le> 16 \<Longrightarrow>
     even (length ip') \<and> length ip' \<le> 16"
proof (induction ell ip s rule: parseIPv6_loop.induct)
  case (1 ell ip s)
  show ?case
  proof (cases "length ip \<ge> 16")
    case True
    with "1.prems" show ?thesis by (auto simp: parseIPv6_loop.simps [of ell ip s] split: if_splits)
  next
    case False
    with "1.prems" have g: "even (length (ip @ group_bytes a))" "length (ip @ group_bytes a) \<le> 16" for a
      by auto
    from False "1.prems" obtain off acc t where sc: "scanHex 0 0 s = Some (off, acc, t)" "off \<noteq> 0"
      by (auto simp: parseIPv6_loop.simps [of ell ip s] split: option.splits if_splits)
    show ?thesis
    proof (cases t)
      case Nil
      with False sc "1.prems" g show ?thesis by (auto simp: parseIPv6_loop.simps [of ell ip s])
    next
      case (Cons d t')
      show ?thesis
      proof (cases "d = CHR ''.''")
        case True
        with "1.prems" False sc Cons show ?thesis
          by (auto simp: parseIPv6_loop.simps [of ell ip s] dest: parseIPv4_length
              split: option.splits if_splits)
      next
        case nd: False
        with "1.prems" False sc Cons obtain e t'' where d: "d = CHR '':''" "t' = e # t''"
          by (auto simp: parseIPv6_loop.simps [of ell ip s] split: option.splits if_splits list.splits)
        show ?thesis
        proof (cases "e = CHR '':''")
          case True
          with "1.prems" False sc Cons nd d g [of acc]
            "1.IH"(1) [of "(off, acc, t)" off "(acc, t)" acc t d t' e t'']
          show ?thesis
            by (auto simp: parseIPv6_loop.simps [of ell ip s] split: if_splits)
        next
          case ne: False
          with "1.prems" False sc Cons nd d g [of acc]
            "1.IH"(2) [of "(off, acc, t)" off "(acc, t)" acc t d t' e t'']
          show ?thesis
            by (auto simp: parseIPv6_loop.simps [of ell ip s])
        qed
      qed
    qed
  qed
qed

lemma expand_ellipsis_length:
  "expand_ellipsis ell ip = Some r \<Longrightarrow> length ip \<le> 16 \<Longrightarrow> length r = 16"
  by (auto simp: expand_ellipsis_def split: if_splits option.splits)

lemma length_v4InV6Prefix [simp]: "length v4InV6Prefix = 12"
  by (simp add: v4InV6Prefix_def)

lemma ParseIP_length: 
  assumes "ParseIP s = Some ip"
  shows "length ip = 16"
proof -
  have "length ip = 16" if p: "parseIPv6 s = Some ip"
  proof -
    have "ip = replicate 16 0 \<or> (\<exists>ell t e b. parseIPv6_loop ell [] t = Some (e, b) \<and> expand_ellipsis e b = Some ip)"
      using p by (auto simp: parseIPv6_def split: if_splits option.splits)
    then show ?thesis
      by (auto dest!: parseIPv6_loop_length expand_ellipsis_length)
  qed
  then show ?thesis
    using assms by (auto simp: ParseIP_def dest!: parseIPv4_length split: option.splits if_splits)
qed

lemma ParseIP_valid: "ParseIP s = Some ip \<Longrightarrow> valid_ip ip"
  by (simp add: valid_ip_def ParseIP_length)

subsection \<open>Printing and parsing colon-hexadecimal\<close>

lemma scanHex_digits:
  assumes "\<forall>d \<in> set ds. d < 16" and "horner 16 acc ds \<le> 65535" and "off + length ds \<le> 4"
    and "r = [] \<or> hex_val (hd r) = None"
  shows "scanHex off acc (map digit_char ds @ r) = Some (off + length ds, horner 16 acc ds, r)"
  using assms
proof (induction ds arbitrary: off acc)
  case Nil
  then show ?case by (cases r) auto
next
  case (Cons d ds)
  have "acc * 16 + d \<le> 65535"
    using Cons.prems(2) horner_ge [of 16 "acc * 16 + d" ds] by simp
  with Cons show ?case by auto
qed

lemma scanHex_print:
  assumes "g < 65536" and "r = [] \<or> hex_val (hd r) = None"
  shows "scanHex 0 0 (print_base 16 g @ r) = Some (length (digits_of 16 g), g, r)"
proof -
  have "length (digits_of 16 g) \<le> 4"
    using assms(1) by (intro length_digits_of) simp_all
  then show ?thesis
    using assms by (simp add: print_base_digits_of scanHex_digits digits_of_less horner_digits_of)
qed

lemma hex_groups_Cons: "gs \<noteq> [] \<Longrightarrow> hex_groups (g # gs) = print_base 16 g @ CHR '':'' # hex_groups gs"
  by (simp add: hex_groups_def join_with_Cons)

lemma hex_groups_single [simp]: "hex_groups [g] = print_base 16 g"
  by (simp add: hex_groups_def)

lemma hex_groups_Nil [simp]: "hex_groups [] = []"
  by (simp add: hex_groups_def)

lemma hd_print_base_hex: "hex_val (hd (print_base 16 g)) \<noteq> None"
  by (rule print_base_hex_chars [of 16 _ g]) simp_all

text \<open>A non-empty list of groups prints as text that starts with a digit.\<close>

lemma hex_groups_head: "gs \<noteq> [] \<Longrightarrow> \<exists>c r. hex_groups gs = c # r \<and> hex_val c \<noteq> None"
proof (cases gs)
  case (Cons g gs')
  then obtain r where "hex_groups gs = print_base 16 g @ r"
    by (cases "gs' = []") (auto simp: hex_groups_Cons)
  moreover obtain c r' where "print_base 16 g = c # r'" by (cases "print_base 16 g") auto
  ultimately show ?thesis using hd_print_base_hex [of g] by auto
qed simp

lemma parseIPv6_loop_groups:
  assumes "gs \<noteq> []" and "\<forall>g \<in> set gs. g < 65536" and "length ip + 2 * length gs \<le> 16"
  shows "parseIPv6_loop ell ip (hex_groups gs) = Some (ell, ip @ concat (map group_bytes gs))"
  using assms
proof (induction gs arbitrary: ip)
  case (Cons g gs)
  show ?case
  proof (cases "gs = []")
    case True
    with Cons.prems scanHex_print [of g "[]"] show ?thesis
      by (simp add: parseIPv6_loop.simps [of ell ip])
  next
    case False
    obtain c r where h: "hex_groups gs = c # r" "hex_val c \<noteq> None"
      using hex_groups_head [OF False] by blast
    have "c \<noteq> CHR '':''" using h(2) by auto
    moreover have "scanHex 0 0 (print_base 16 g @ CHR '':'' # c # r) =
        Some (length (digits_of 16 g), g, CHR '':'' # c # r)"
      using Cons.prems by (intro scanHex_print) auto
    moreover have "parseIPv6_loop ell (ip @ group_bytes g) (c # r) =
        Some (ell, (ip @ group_bytes g) @ concat (map group_bytes gs))"
      using Cons.IH [of "ip @ group_bytes g"] False Cons.prems h by simp
    ultimately show ?thesis
      using Cons.prems False h by (simp add: hex_groups_Cons parseIPv6_loop.simps [of ell ip])
  qed
qed simp

lemma parseIPv6_loop_ellipsis:
  assumes "as \<noteq> []" and "\<forall>g \<in> set (as @ bs). g < 65536"
    and "length ip + 2 * length (as @ bs) \<le> 16"
  shows "parseIPv6_loop None ip (hex_groups as @ ''::'' @ hex_groups bs) =
    Some (Some (length ip + 2 * length as), ip @ concat (map group_bytes (as @ bs)))"
  using assms
proof (induction as arbitrary: ip)
  case (Cons g gs)
  have len: "length ip < 16" using Cons.prems by simp
  show ?case
  proof (cases "gs = []")
    case True
    have sc: "scanHex 0 0 (print_base 16 g @ ''::'' @ hex_groups bs) =
        Some (length (digits_of 16 g), g, ''::'' @ hex_groups bs)"
      using Cons.prems by (intro scanHex_print) auto
    have rest: "bs \<noteq> [] \<Longrightarrow> parseIPv6_loop (Some (length ip + 2)) (ip @ group_bytes g) (hex_groups bs) =
        Some (Some (length ip + 2), (ip @ group_bytes g) @ concat (map group_bytes bs))"
      using Cons.prems by (intro parseIPv6_loop_groups) auto
    show ?thesis
    proof (cases "bs = []")
      case bs: True
      then show ?thesis using sc len True by (simp add: parseIPv6_loop.simps [of None ip])
    next
      case bs: False
      then have "hex_groups bs \<noteq> []" using hex_groups_head [OF bs] by auto
      with bs show ?thesis using sc rest len True by (simp add: parseIPv6_loop.simps [of None ip])
    qed
  next
    case False
    obtain c r where h: "hex_groups gs = c # r" "hex_val c \<noteq> None"
      using hex_groups_head [OF False] by blast
    have "c \<noteq> CHR '':''" using h(2) by auto
    moreover have "scanHex 0 0 (print_base 16 g @ CHR '':'' # c # r @ ''::'' @ hex_groups bs) =
        Some (length (digits_of 16 g), g, CHR '':'' # c # r @ ''::'' @ hex_groups bs)"
      using Cons.prems by (intro scanHex_print) auto
    moreover have "parseIPv6_loop None (ip @ group_bytes g) (c # r @ ''::'' @ hex_groups bs) =
        Some (Some (length ip + 2 + 2 * length gs), (ip @ group_bytes g) @ concat (map group_bytes (gs @ bs)))"
      using Cons.IH [of "ip @ group_bytes g"] False Cons.prems h by simp
    ultimately show ?thesis
      using len False h by (simp add: hex_groups_Cons parseIPv6_loop.simps [of None ip])
  qed
qed simp

lemma groups16_bound: "g \<in> set (groups16 b) \<Longrightarrow> g < 65536"
proof (induction b rule: groups16.induct)
  case (1 x y bs)
  have "256 * unat x + unat y < 65536"
    using unat_u8_less [of x] unat_u8_less [of y] by linarith
  with 1 show ?case by auto
qed simp_all

lemma group_bytes_pair [simp]: "group_bytes (256 * unat a + unat b) = [a, b]"
proof -
  have "(word_of_nat (256 * unat a + unat b) :: u8) = b"
    using unat_u8_less [of b]
    by (intro word_unat_eq_iff [THEN iffD2]) (simp only: unat_byte_of_nat mod_mult_self4 mod_less)
  then show ?thesis using unat_u8_less [of b] by (simp add: group_bytes_def)
qed

lemma groups16_bytes: "even (length b) \<Longrightarrow> concat (map group_bytes (groups16 b)) = b"
  by (induction b rule: groups16.induct) auto

lemma length_groups16: "length (groups16 b) = length b div 2"
  by (induction b rule: groups16.induct) auto

lemma concat_zero_groups: "concat (map group_bytes (replicate n 0)) = replicate (2 * n) 0"
  by (induction n) (simp_all add: group_bytes_def)

text \<open>The run that is elided really consists of zero groups.\<close>

definition zero_run :: "nat list \<Rightarrow> nat \<times> nat \<Rightarrow> bool" where
  "zero_run gs p \<longleftrightarrow> (case p of (zs, ze) \<Rightarrow>
     zs < ze \<and> ze \<le> length gs \<and> gs = take zs gs @ replicate (ze - zs) 0 @ drop ze gs)"

lemma takeWhile_replicate: "takeWhile (\<lambda>g. g = 0) xs = replicate (length (takeWhile (\<lambda>g. g = 0) xs)) 0"
  by (induction xs) auto

lemma zero_run_from_run:
  assumes "0 < zero_run_from gs i"
  shows "zero_run gs (i, i + zero_run_from gs i)"
proof -
  let ?n = "zero_run_from gs i" and ?z = "takeWhile (\<lambda>g. g = 0) (drop i gs)"
  have n: "?n = length ?z" by (simp add: zero_run_from_def)
  have len: "?n \<le> length gs - i" using length_takeWhile_le [of _ "drop i gs"] by (simp add: zero_run_from_def)
  have "drop i gs = ?z @ drop ?n (drop i gs)"
    using takeWhile_dropWhile_id [of "\<lambda>g. g = 0" "drop i gs"]
    by (simp only: n dropWhile_eq_drop)
  then have "gs = take i gs @ ?z @ drop (i + ?n) gs"
    by (metis append_take_drop_id drop_drop add.commute)
  moreover have "?z = replicate ?n 0" unfolding n by (rule takeWhile_replicate)
  ultimately show ?thesis using assms len by (simp add: zero_run_def)
qed

lemma longest_zero_run_run:
  "longest_zero_run gs is best = Some p \<Longrightarrow> (\<forall>q. best = Some q \<longrightarrow> zero_run gs q) \<Longrightarrow> zero_run gs p"
  by (induction gs "is" best rule: longest_zero_run.induct)
     (auto simp: Let_def zero_run_from_run split: if_splits)


subsection \<open>The canonical text\<close>

lemma hex_groups_chars: "c \<in> set (hex_groups gs) \<Longrightarrow> hex_val c \<noteq> None \<or> c = CHR '':''"
  by (auto simp: hex_groups_def dest!: join_with_chars print_base_hex_chars [rotated 2])

lemma parseAddr_kind_hex_groups:
  assumes "gs \<noteq> []"
  shows "parseAddr_kind (hex_groups gs @ CHR '':'' # r) = Some CHR '':''"
    and "2 \<le> length gs \<Longrightarrow> parseAddr_kind (hex_groups gs) = Some CHR '':''"
proof -
  obtain g gs' where gs: "gs = g # gs'" using assms by (cases gs) auto
  have d: "\<forall>c \<in> set (print_base 16 g). hex_val c \<noteq> None"
    using print_base_hex_chars [of 16 _ g] by auto
  show "parseAddr_kind (hex_groups gs @ CHR '':'' # r) = Some CHR '':''"
    using d by (cases "gs' = []") (simp_all add: gs hex_groups_Cons parseAddr_kind_digits)
  assume "2 \<le> length gs"
  then have "gs' \<noteq> []" using gs by auto
  then show "parseAddr_kind (hex_groups gs) = Some CHR '':''"
    using d by (simp add: gs hex_groups_Cons parseAddr_kind_digits)
qed

lemma not_ellipsis_start: "hex_val c \<noteq> None \<Longrightarrow> take 2 (c # r) \<noteq> ''::''"
  by (cases r) auto

lemma length_groups_bytes [simp]: "length (concat (map group_bytes gs)) = 2 * length gs"
  by (induction gs) simp_all

lemma hex_groups_no_zone: "CHR ''%'' \<notin> set (hex_groups gs)"
  using hex_groups_chars [of "CHR ''%''" gs] by (auto simp: hex_val_def)

lemma ParseIP_full:
  assumes len: "length gs = 8" and bnd: "\<forall>g \<in> set gs. g < 65536"
  shows "ParseIP (hex_groups gs) = Some (concat (map group_bytes gs))"
proof -
  have ne: "gs \<noteq> []" using len by auto
  obtain c r where h: "hex_groups gs = c # r" "hex_val c \<noteq> None"
    using hex_groups_head [OF ne] by blast
  have "parseIPv6_loop None [] (hex_groups gs) = Some (None, concat (map group_bytes gs))"
    using parseIPv6_loop_groups [OF ne bnd, of "[]" None] len by simp
  moreover have "take 2 (hex_groups gs) \<noteq> ''::''" using not_ellipsis_start h by simp
  ultimately have "parseIPv6 (hex_groups gs) = Some (concat (map group_bytes gs))"
    using len by (simp add: parseIPv6_def expand_ellipsis_def hex_groups_no_zone)
  moreover have "parseAddr_kind (hex_groups gs) = Some CHR '':''"
    using parseAddr_kind_hex_groups(2) [OF ne] len by simp
  ultimately show ?thesis by (simp add: ParseIP_def)
qed

lemma ParseIP_elided:
  assumes len: "length as + n + length bs = 8" and n: "0 < n"
    and bnd: "\<forall>g \<in> set (as @ bs). g < 65536"
  shows "ParseIP (hex_groups as @ ''::'' @ hex_groups bs) =
    Some (concat (map group_bytes as) @ replicate (2 * n) 0 @ concat (map group_bytes bs))"
    (is "ParseIP ?s = Some ?r")
proof -
  have arith: "2 * length as + 2 * length bs < 16" "16 - (2 * length as + 2 * length bs) = 2 * n"
    using len n by linarith+
  have expand: "expand_ellipsis (Some (2 * length as)) (concat (map group_bytes (as @ bs))) = Some ?r"
    using arith by (simp add: expand_ellipsis_def)
  have noz: "CHR ''%'' \<notin> set ?s" using hex_groups_no_zone by simp
  have "parseIPv6 ?s = Some ?r"
  proof (cases "as = []")
    case True
    show ?thesis
    proof (cases "bs = []")
      case bs: True
      with True len show ?thesis by (simp add: parseIPv6_def)
    next
      case bs: False
      then have "hex_groups bs \<noteq> []" using hex_groups_head by fastforce
      moreover have "parseIPv6_loop (Some 0) [] (hex_groups bs) = Some (Some 0, concat (map group_bytes bs))"
        using parseIPv6_loop_groups [OF bs, of "[]" "Some 0"] bnd len by simp
      ultimately show ?thesis using True noz expand by (simp add: parseIPv6_def)
    qed
  next
    case False
    obtain c r where h: "hex_groups as = c # r" "hex_val c \<noteq> None"
      using hex_groups_head [OF False] by blast
    have "take 2 ?s \<noteq> ''::''" using h by auto
    moreover have "parseIPv6_loop None [] ?s = Some (Some (2 * length as), concat (map group_bytes (as @ bs)))"
      using parseIPv6_loop_ellipsis [OF False bnd, of "[]"] len by simp
    ultimately show ?thesis using noz expand by (simp add: parseIPv6_def)
  qed
  moreover have "parseAddr_kind ?s = Some CHR '':''"
    using parseAddr_kind_hex_groups(1) [of as "CHR '':'' # hex_groups bs"]
    by (cases "as = []") simp_all
  ultimately show ?thesis by (simp add: ParseIP_def)
qed

lemma ParseIP_string6:
  assumes "length b = 16"
  shows "ParseIP (string6 b) = Some b"
proof -
  define gs where "gs = groups16 b"
  have len: "length gs = 8" using assms by (simp add: gs_def length_groups16)
  have bk: "concat (map group_bytes gs) = b" using assms by (simp add: gs_def groups16_bytes)
  have bnd: "\<forall>g \<in> set gs. g < 65536" by (auto simp: gs_def intro: groups16_bound)
  show ?thesis
  proof (cases "longest_zero_run gs [0..<8] None")
    case None
    then show ?thesis using ParseIP_full [OF len bnd] bk by (simp add: string6_def gs_def [symmetric])
  next
    case (Some p)
    obtain zs ze where p: "p = (zs, ze)" by (cases p)
    define as bs where "as = take zs gs" and "bs = drop ze gs"
    have "zero_run gs (zs, ze)"
      using longest_zero_run_run [of gs "[0..<8]" None "(zs, ze)"] Some p by simp
    then have z: "zs < ze" "ze \<le> 8" and parts: "gs = as @ replicate (ze - zs) 0 @ bs"
      using len by (auto simp: zero_run_def as_def bs_def)
    have "\<forall>g \<in> set (as @ bs). g < 65536" using bnd parts by auto
    moreover have "length as + (ze - zs) + length bs = 8" using z len by (simp add: as_def bs_def)
    moreover have "concat (map group_bytes as) @ replicate (2 * (ze - zs)) 0 @ concat (map group_bytes bs) = b"
      using bk by (simp only: parts map_append concat_append concat_zero_groups)
    moreover have "string6 b = hex_groups as @ ''::'' @ hex_groups bs"
      by (simp add: string6_def gs_def [symmetric] as_def bs_def Some p)
    ultimately show ?thesis using ParseIP_elided [of as "ze - zs" bs] z by simp
  qed
qed

lemma ParseIP_string4:
  assumes "length b = 4"
  shows "ParseIP (string4 b) = Some (v4InV6Prefix @ b)"
proof -
  obtain w x y z where b: "b = [w, x, y, z]"
    using assms by (auto simp: numeral_eq_Suc length_Suc_conv)
  have "\<forall>c \<in> set (print_base 10 (unat w)). hex_val c \<noteq> None"
    using print_base_hex_chars [of 10] by auto
  then have "parseAddr_kind (string4 b) = Some CHR ''.''"
    by (simp add: b string4_def parseAddr_kind_digits)
  with parseIPv4_string4 [OF assms] show ?thesis by (simp add: ParseIP_def)
qed

lemma ParseIP_IP_String:
  assumes "valid_ip ip"
  shows "ParseIP (IP_String ip) = To16 ip"
proof (cases "To4 ip")
  case None
  with assms have "length ip = 16" by (auto simp: To4_def valid_ip_def split: if_splits)
  moreover then have "ip \<noteq> []" by auto
  ultimately show ?thesis using None by (simp add: IP_String_def To16_def ParseIP_string6)
next
  case (Some v4)
  with assms have "length v4 = 4" "To16 ip = Some (v4InV6Prefix @ v4)"
    by (auto simp: To4_def To16_def valid_ip_def split: if_splits) (metis append_take_drop_id)
  with Some assms show ?thesis
    by (auto simp: IP_String_def ParseIP_string4 valid_ip_def)
qed

lemma To16_valid: "valid_ip ip \<Longrightarrow> \<exists>b. To16 ip = Some b \<and> length b = 16"
  by (auto simp: valid_ip_def To16_def)

text \<open>The canonical text identifies an address up to the 4-in-6 form.\<close>

lemma IP_String_eq_iff:
  assumes "valid_ip a" and "valid_ip b"
  shows "IP_String a = IP_String b \<longleftrightarrow> To16 a = To16 b"
proof
  assume "IP_String a = IP_String b"
  then show "To16 a = To16 b" using assms by (metis ParseIP_IP_String)
next
  have To4_To16: "To4 x = Option.bind (To16 x) To4" if "valid_ip x" for x
    using that by (auto simp: To4_def To16_def valid_ip_def)
  assume eq: "To16 a = To16 b"
  then have t4: "To4 a = To4 b" using assms To4_To16 by metis
  have "To4 a = None \<Longrightarrow> a = b"
    using eq t4 assms by (auto simp: To4_def To16_def valid_ip_def split: if_splits)
  with t4 show "IP_String a = IP_String b"
    using assms by (cases "To4 b") (auto simp: IP_String_def valid_ip_def)
qed

end
