(* ===== verification/Ebpf_Blocklist.thy ===== *)
theory Ebpf_Blocklist
  imports Go_Net
begin

text \<open>
  The platform-independent part of \<open>pkg/ebpf\<close> (\<open>blocklist.go\<close>, \<open>errors.go\<close>) and the binary
  layouts of \<open>loader_linux.go\<close>: the \<open>BlocklistUpdater\<close> and \<open>BlocklistInspector\<close> interfaces as
  records of operations on a state, the map keys, and the ring-buffer records with their decoders.
  Structures given to the map library are laid out field by field in little-endian order, padding
  included, as the comments of \<open>loader_linux.go\<close> describe.
\<close>

subsection \<open>Interfaces\<close>

record 's BlocklistUpdater =
  Block :: "ip \<Rightarrow> 's \<Rightarrow> err option \<times> 's"
  Unblock :: "ip \<Rightarrow> 's \<Rightarrow> err option \<times> 's"
  BlockTunnel :: "ip \<Rightarrow> u32 \<Rightarrow> 's \<Rightarrow> err option \<times> 's"
  UnblockTunnel :: "ip \<Rightarrow> u32 \<Rightarrow> 's \<Rightarrow> err option \<times> 's"

record BlockedTunnel =
  bt_IP :: ip
  bt_TEID :: u32

record 's BlocklistInspector =
  inspect_BlockedIPs :: "'s \<Rightarrow> (err + ip list) \<times> 's"
  inspect_BlockedTunnels :: "'s \<Rightarrow> (err + BlockedTunnel list) \<times> 's"
  PinPath :: "'s \<Rightarrow> string"
  PinReset :: "'s \<Rightarrow> bool"
  MapCapacity :: "'s \<Rightarrow> u32 \<times> u32"
  ObservationOccupancy :: "'s \<Rightarrow> (err + u32 \<times> u32) \<times> 's"

type_synonym SignalProtocol = u8

definition SignalProtoUnknown :: SignalProtocol where "SignalProtoUnknown = 0"
definition SignalProtoGTPU :: SignalProtocol where "SignalProtoGTPU = 1"
definition SignalProtoSIP :: SignalProtocol where "SignalProtoSIP = 2"
definition SignalProtoPortScan :: SignalProtocol where "SignalProtoPortScan = 3"

definition gtpuPort :: u16 where "gtpuPort = 2152"
definition sipPort :: u16 where "sipPort = 5060"

record SignalingEvent =
  se_ObservedAt :: time
  se_SourceIP :: ip
  se_DestIP :: ip
  se_DestPort :: u16
  se_PayloadSize :: u16
  se_Protocol :: SignalProtocol
  se_Malformed :: bool
  se_VLANID :: u16
  se_TEID :: u32
  se_TunnelRate :: u32

text \<open>\<open>EventSource\<close>: the lookup the ingestion layer uses.\<close>

record 's EventSource =
  SignalRate :: "ip \<Rightarrow> u16 \<Rightarrow> 's \<Rightarrow> (u32 \<times> bool) \<times> 's"
  TunnelRate :: "ip \<Rightarrow> u32 \<Rightarrow> 's \<Rightarrow> (u32 \<times> bool) \<times> 's"

subsection \<open>Keys\<close>

definition isIPv4 :: "ip \<Rightarrow> bool" where
  "isIPv4 ip = (To4 ip \<noteq> None)"

definition ipv4Key :: "ip \<Rightarrow> err + bytes" where
  "ipv4Key ip =
     (case To4 ip of
        None \<Rightarrow> Inl (new_err ''blocklist only supports IPv4 addresses'')
      | Some v4 \<Rightarrow> Inr v4)"

definition ipv6Key :: "ip \<Rightarrow> err + bytes" where
  "ipv6Key ip =
     (if isIPv4 ip then Inl (new_err ''blocklist_v6 only supports IPv6 addresses'')
      else case To16 ip of
        None \<Rightarrow> Inl (new_err ''blocklist_v6 only supports IPv6 addresses'')
      | Some v6 \<Rightarrow> Inr v6)"

text \<open>\<open>binary.LittleEndian\<close>: reading and writing at the front of a slice.\<close>

definition le_Uint16 :: "bytes \<Rightarrow> u16" where
  "le_Uint16 b = word_of_nat (le_nat (take 2 b))"

definition le_Uint32 :: "bytes \<Rightarrow> u32" where
  "le_Uint32 b = word_of_nat (le_nat (take 4 b))"

definition le_Uint64 :: "bytes \<Rightarrow> u64" where
  "le_Uint64 b = word_of_nat (le_nat (take 8 b))"

definition put_u16 :: "u16 \<Rightarrow> bytes" where "put_u16 w = le_bytes 2 (unat w)"
definition put_u32 :: "u32 \<Rightarrow> bytes" where "put_u32 w = le_bytes 4 (unat w)"
definition put_u64 :: "u64 \<Rightarrow> bytes" where "put_u64 w = le_bytes 8 (unat w)"

record tunnelRateKey =
  tk_Saddr :: u32
  tk_TEID :: u32

definition tunnelRateKey_bytes :: "tunnelRateKey \<Rightarrow> bytes" where
  "tunnelRateKey_bytes k = put_u32 (tk_Saddr k) @ put_u32 (tk_TEID k)"

definition tunnelRateKey_of :: "bytes \<Rightarrow> tunnelRateKey" where
  "tunnelRateKey_of b = \<lparr>tk_Saddr = le_Uint32 b, tk_TEID = le_Uint32 (drop 4 b)\<rparr>"

record tunnelRateKeyV6 =
  tk6_Saddr :: bytes
  tk6_TEID :: u32

definition tunnelRateKeyV6_bytes :: "tunnelRateKeyV6 \<Rightarrow> bytes" where
  "tunnelRateKeyV6_bytes k = tk6_Saddr k @ put_u32 (tk6_TEID k) @ put_u32 0"

definition tunnelRateKeyV6_of :: "bytes \<Rightarrow> tunnelRateKeyV6" where
  "tunnelRateKeyV6_of b = \<lparr>tk6_Saddr = take 16 b, tk6_TEID = le_Uint32 (drop 16 b)\<rparr>"

definition scanRateKey_bytes :: "u32 \<Rightarrow> u16 \<Rightarrow> bytes" where
  "scanRateKey_bytes saddr destPort = put_u32 saddr @ put_u16 destPort @ put_u16 0"

definition scanRateKeyV6_bytes :: "bytes \<Rightarrow> u16 \<Rightarrow> bytes" where
  "scanRateKeyV6_bytes saddr destPort = saddr @ put_u16 destPort @ put_u16 0 @ replicate 4 0"

text \<open>The value of the rate maps; a value of another size is a lookup error.\<close>

record signalRateEntry =
  re_WindowStartNs :: u64
  re_Count :: u32

definition signalRateEntry_of :: "bytes \<Rightarrow> signalRateEntry option" where
  "signalRateEntry_of b =
     (if length b = 16 then Some \<lparr>re_WindowStartNs = le_Uint64 b, re_Count = le_Uint32 (drop 8 b)\<rparr> else None)"

definition ipv4FromU32 :: "u32 \<Rightarrow> ip" where
  "ipv4FromU32 raw = put_u32 raw"

subsection \<open>Ring-buffer records\<close>

record rawSignalingEvent =
  TimestampNs :: u64
  Saddr :: u32
  Daddr :: u32
  r_DestPort :: u16
  r_PayloadSize :: u16
  r_Protocol :: u8
  r_Malformed :: u8
  r_VlanID :: u16
  r_TEID :: u32
  r_TunnelRate :: u32

definition rawSignalingEvent_bytes :: "rawSignalingEvent \<Rightarrow> bytes" where
  "rawSignalingEvent_bytes r =
     put_u64 (TimestampNs r) @ put_u32 (Saddr r) @ put_u32 (Daddr r) @ put_u16 (r_DestPort r) @
     put_u16 (r_PayloadSize r) @ [r_Protocol r] @ [r_Malformed r] @ put_u16 (r_VlanID r) @
     put_u32 (r_TEID r) @ put_u32 (r_TunnelRate r)"

record rawSignalingEventV6 =
  v6_TimestampNs :: u64
  v6_Saddr :: bytes
  v6_Daddr :: bytes
  v6_DestPort :: u16
  v6_PayloadSize :: u16
  v6_Protocol :: u8
  v6_Malformed :: u8
  v6_VlanID :: u16
  v6_TEID :: u32
  v6_TunnelRate :: u32

definition rawSignalingEventV6_bytes :: "rawSignalingEventV6 \<Rightarrow> bytes" where
  "rawSignalingEventV6_bytes r =
     put_u64 (v6_TimestampNs r) @ v6_Saddr r @ v6_Daddr r @ put_u16 (v6_DestPort r) @
     put_u16 (v6_PayloadSize r) @ [v6_Protocol r] @ [v6_Malformed r] @ put_u16 (v6_VlanID r) @
     put_u32 (v6_TEID r) @ put_u32 (v6_TunnelRate r)"

text \<open>\<open>binary.Size\<close> of the two structures, field by field.\<close>

definition rawSignalingEventSize :: nat where
  "rawSignalingEventSize = 8 + 4 + 4 + 2 + 2 + 1 + 1 + 2 + 4 + 4"

definition rawSignalingEventV6Size :: nat where
  "rawSignalingEventV6Size = 8 + 16 + 16 + 2 + 2 + 1 + 1 + 2 + 4 + 4"

text \<open>\<open>time.Duration(u)\<close> reads the 64 bits as a signed number.\<close>

definition decodeSignalingEvent :: "time \<Rightarrow> bytes \<Rightarrow> err + SignalingEvent" where
  "decodeSignalingEvent bootTime sample =
     (if length sample < rawSignalingEventSize then Inl (new_err ''signaling_events record is short'')
      else Inr \<lparr>
        se_ObservedAt = bootTime + sint (le_Uint64 (drop 0 sample)),
        se_SourceIP = ipv4FromU32 (le_Uint32 (drop 8 sample)),
        se_DestIP = ipv4FromU32 (le_Uint32 (drop 12 sample)),
        se_DestPort = le_Uint16 (drop 16 sample),
        se_PayloadSize = le_Uint16 (drop 18 sample),
        se_Protocol = sample ! 20,
        se_Malformed = (sample ! 21 \<noteq> 0),
        se_VLANID = le_Uint16 (drop 22 sample),
        se_TEID = le_Uint32 (drop 24 sample),
        se_TunnelRate = le_Uint32 (drop 28 sample)\<rparr>)"

definition decodeSignalingEventV6 :: "time \<Rightarrow> bytes \<Rightarrow> err + SignalingEvent" where
  "decodeSignalingEventV6 bootTime sample =
     (if length sample < rawSignalingEventV6Size then Inl (new_err ''signaling_events_v6 record is short'')
      else Inr \<lparr>
        se_ObservedAt = bootTime + sint (le_Uint64 (drop 0 sample)),
        se_SourceIP = take 16 (drop 8 sample),
        se_DestIP = take 16 (drop 24 sample),
        se_DestPort = le_Uint16 (drop 40 sample),
        se_PayloadSize = le_Uint16 (drop 42 sample),
        se_Protocol = sample ! 44,
        se_Malformed = (sample ! 45 \<noteq> 0),
        se_VLANID = le_Uint16 (drop 46 sample),
        se_TEID = le_Uint32 (drop 48 sample),
        se_TunnelRate = le_Uint32 (drop 52 sample)\<rparr>)"

text \<open>
  The reader goroutine as a function of what its calls return: each round is one \<open>Read\<close> with the
  state of the context at the test after an error and at the send.
\<close>

datatype read_result = ReadClosed | ReadError | Record bytes

record read_round =
  rd_result :: read_result
  rd_ctxErr :: bool
  rd_ctxDone :: bool

fun read_loop :: "(bytes \<Rightarrow> err + SignalingEvent) \<Rightarrow> read_round list \<Rightarrow> SignalingEvent list" where
  "read_loop decode [] = []"
| "read_loop decode (r # rs) =
     (case rd_result r of
        ReadClosed \<Rightarrow> []
      | ReadError \<Rightarrow> if rd_ctxErr r then [] else read_loop decode rs
      | Record sample \<Rightarrow>
          (case decode sample of
             Inl _ \<Rightarrow> read_loop decode rs
           | Inr evt \<Rightarrow> if rd_ctxDone r then [] else evt # read_loop decode rs))"

definition readSignalingEvents :: "time \<Rightarrow> read_round list \<Rightarrow> SignalingEvent list" where
  "readSignalingEvents bootTime rs = read_loop (decodeSignalingEvent bootTime) rs"

definition readSignalingEventsV6 :: "time \<Rightarrow> read_round list \<Rightarrow> SignalingEvent list" where
  "readSignalingEventsV6 bootTime rs = read_loop (decodeSignalingEventV6 bootTime) rs"

subsection \<open>Errors\<close>

definition IsMapFull :: "err \<Rightarrow> bool" where
  "IsMapFull e = err_is e E2BIG"

datatype attach_cause =
    NoCause
  | ObjectNotFound
  | InsufficientPrivileges
  | InterfaceMissing
  | Unrecognized

definition ClassifyAttachError :: "err option \<Rightarrow> attach_cause" where
  "ClassifyAttachError e = (case e of
       None \<Rightarrow> NoCause
     | Some x \<Rightarrow>
         if err_is x ErrNotExist then ObjectNotFound
         else if err_is x ErrPermission then InsufficientPrivileges
         else if err_is x ErrInterfaceNotFound then InterfaceMissing
         else Unrecognized)"

subsection \<open>Encodings are faithful\<close>

lemma length_put [simp]: "length (put_u16 a) = 2" "length (put_u32 b) = 4" "length (put_u64 c) = 8"
  by (simp_all add: put_u16_def put_u32_def put_u64_def)

lemma unat_u16: "unat (a :: u16) mod 65536 = unat a"
  using unsigned_less [of a, where ?'a = nat] by simp

lemma unat_u32: "unat (a :: u32) mod 4294967296 = unat a"
  using unsigned_less [of a, where ?'a = nat] by simp

lemma unat_u64: "unat (a :: u64) mod 18446744073709551616 = unat a"
  using unsigned_less [of a, where ?'a = nat] by simp

lemma le_Uint_put [simp, bytes_simps]:
  "le_Uint16 (put_u16 a @ r) = a" "le_Uint32 (put_u32 b @ r) = b" "le_Uint64 (put_u64 c @ r) = c"
  "le_Uint16 (put_u16 a) = a" "le_Uint32 (put_u32 b) = b" "le_Uint64 (put_u64 c) = c"
  by (simp_all add: le_Uint16_def le_Uint32_def le_Uint64_def put_u16_def put_u32_def put_u64_def
      le_nat_le_bytes unat_u16 unat_u32 unat_u64)

lemma put_u32_le_Uint32: "length b = 4 \<Longrightarrow> put_u32 (le_Uint32 b) = b"
  using le_nat_less [of b] by (simp add: put_u32_def le_Uint32_def unat_of_nat le_bytes_le_nat)

lemma length_raw:
  "length (rawSignalingEvent_bytes r) = rawSignalingEventSize"
  "length (v6_Saddr q) = 16 \<Longrightarrow> length (v6_Daddr q) = 16 \<Longrightarrow> length (rawSignalingEventV6_bytes q) = rawSignalingEventV6Size"
  by (simp_all add: rawSignalingEvent_bytes_def rawSignalingEventSize_def rawSignalingEventV6_bytes_def
      rawSignalingEventV6Size_def)

lemma tunnelRateKey_of_bytes [bytes_simps]: "tunnelRateKey_of (tunnelRateKey_bytes k) = k"
  by (simp add: tunnelRateKey_of_def tunnelRateKey_bytes_def)

lemma tunnelRateKeyV6_of_bytes [bytes_simps]:
  "length (tk6_Saddr k) = 16 \<Longrightarrow> tunnelRateKeyV6_of (tunnelRateKeyV6_bytes k) = k"
  by (simp add: tunnelRateKeyV6_of_def tunnelRateKeyV6_bytes_def)

lemma decode_record:
  "decodeSignalingEvent bootTime (rawSignalingEvent_bytes r @ rest) =
     Inr \<lparr>se_ObservedAt = bootTime + sint (TimestampNs r),
          se_SourceIP = put_u32 (Saddr r), se_DestIP = put_u32 (Daddr r),
          se_DestPort = r_DestPort r, se_PayloadSize = r_PayloadSize r,
          se_Protocol = r_Protocol r, se_Malformed = (r_Malformed r \<noteq> 0), se_VLANID = r_VlanID r,
          se_TEID = r_TEID r, se_TunnelRate = r_TunnelRate r\<rparr>"
  by (simp add: decodeSignalingEvent_def rawSignalingEvent_bytes_def rawSignalingEventSize_def ipv4FromU32_def
      nth_append drop_append)

text \<open>
  Every field of a kernel record reaches the event it belongs to. Decoding the 32-byte record
  \<open>signaling_events\<close> layout of any field values, with any bytes behind it, gives exactly those values: the
  addresses in wire order, the two same-typed tail fields TEID and tunnel rate in their own places,
  and the kernel's monotonic timestamp added to the boot time.
\<close>

theorem decodeSignalingEvent_roundtrip:
  "decodeSignalingEvent bootTime (rawSignalingEvent_bytes r @ rest) =
     Inr \<lparr>se_ObservedAt = bootTime + sint (TimestampNs r),
          se_SourceIP = put_u32 (Saddr r), se_DestIP = put_u32 (Daddr r),
          se_DestPort = r_DestPort r, se_PayloadSize = r_PayloadSize r,
          se_Protocol = r_Protocol r, se_Malformed = (r_Malformed r \<noteq> 0), se_VLANID = r_VlanID r,
          se_TEID = r_TEID r, se_TunnelRate = r_TunnelRate r\<rparr>"
  by (rule decode_record)

text \<open>
  The same for the 56-byte IPv6 record, whose addresses are carried as their 16 wire bytes.
\<close>

theorem decodeSignalingEventV6_roundtrip:
  assumes "length (v6_Saddr r) = 16" "length (v6_Daddr r) = 16"
  shows "decodeSignalingEventV6 bootTime (rawSignalingEventV6_bytes r @ rest) =
     Inr \<lparr>se_ObservedAt = bootTime + sint (v6_TimestampNs r),
          se_SourceIP = v6_Saddr r, se_DestIP = v6_Daddr r,
          se_DestPort = v6_DestPort r, se_PayloadSize = v6_PayloadSize r,
          se_Protocol = v6_Protocol r, se_Malformed = (v6_Malformed r \<noteq> 0), se_VLANID = v6_VlanID r,
          se_TEID = v6_TEID r, se_TunnelRate = v6_TunnelRate r\<rparr>"
  using assms
  by (simp add: decodeSignalingEventV6_def rawSignalingEventV6_bytes_def rawSignalingEventV6Size_def
      nth_append drop_append)

theorem decodeSignalingEventV6_roundtrip_witness:
  "decodeSignalingEventV6 0 (rawSignalingEventV6_bytes \<lparr>v6_TimestampNs = 1, v6_Saddr = replicate 16 1, v6_Daddr = replicate 16 2,
     v6_DestPort = 2152, v6_PayloadSize = 64, v6_Protocol = 1, v6_Malformed = 0, v6_VlanID = 0, v6_TEID = 7, v6_TunnelRate = 3\<rparr> @ []) =
   Inr \<lparr>se_ObservedAt = 1, se_SourceIP = replicate 16 1, se_DestIP = replicate 16 2, se_DestPort = 2152,
     se_PayloadSize = 64, se_Protocol = 1, se_Malformed = False, se_VLANID = 0, se_TEID = 7, se_TunnelRate = 3\<rparr>"
  by (subst decodeSignalingEventV6_roundtrip) simp_all

text \<open>A short record is refused, whatever it holds.\<close>

lemma decode_short:
  "length sample < 32 \<Longrightarrow> \<exists>e. decodeSignalingEvent bt sample = Inl e"
  "length sample < 56 \<Longrightarrow> \<exists>e. decodeSignalingEventV6 bt sample = Inl e"
  by (simp_all add: decodeSignalingEvent_def decodeSignalingEventV6_def rawSignalingEventSize_def rawSignalingEventV6Size_def)

text \<open>
  As long as the ring buffer is open and the context live, the reader hands on exactly the records that
  decode, in order: a bad record or a transient read error costs no other record.
\<close>

lemma read_loop_all:
  assumes "\<forall>r \<in> set rs. rd_result r \<noteq> ReadClosed \<and> \<not> rd_ctxErr r \<and> \<not> rd_ctxDone r"
  shows "read_loop decode rs =
     List.map_filter (\<lambda>r. case rd_result r of Record b \<Rightarrow> (case decode b of Inr e \<Rightarrow> Some e | Inl _ \<Rightarrow> None) | _ \<Rightarrow> None) rs"
  using assms by (induction rs) (auto simp: List.map_filter_simps split: read_result.split sum.split)

end
