(* ===== verification/Ebpf_Loader.thy ===== *)
theory Ebpf_Loader
  imports Ebpf_Blocklist
begin

text \<open>
  The Linux loader of \<open>pkg/ebpf\<close> (\<open>loader_linux.go\<close>, \<open>inspect_linux.go\<close>): blocking and unblocking of
  addresses and tunnels, the rate lookups, and reading back what the kernel enforces. The map
  operations of \<open>cilium/ebpf\<close> are parameters (\<open>bpf_sys\<close>) on handles \<open>'h\<close> and a world \<open>'w\<close>;
  \<open>kernel_map\<close> is the content of a map, which only specifications mention. The locale \<open>enforcer\<close> is
  the contract of a \<open>BlocklistUpdater\<close> that is also a \<open>BlocklistInspector\<close>; the loader is an instance.
\<close>

subsection \<open>State\<close>

record ('h, 'w) bpf_sys =
  map_Put :: "'h \<Rightarrow> bytes \<Rightarrow> bytes \<Rightarrow> 'w \<Rightarrow> err option \<times> 'w"
  map_Delete :: "'h \<Rightarrow> bytes \<Rightarrow> 'w \<Rightarrow> err option \<times> 'w"
  map_Lookup :: "'h \<Rightarrow> bytes \<Rightarrow> 'w \<Rightarrow> (err + bytes) \<times> 'w"
  map_Iterate :: "'h \<Rightarrow> 'w \<Rightarrow> ((bytes \<times> bytes) list \<times> err option) \<times> 'w"
  map_MaxEntries :: "'h \<Rightarrow> u32"
  kernel_map :: "'h \<Rightarrow> 'w \<Rightarrow> bytes \<rightharpoonup> bytes"

record 'h Loader =
  collection :: 'h
  link :: 'h
  blocklist :: 'h
  signalRate :: 'h
  scanRate :: 'h
  tunnelRate :: 'h
  tunnelBlocklist :: 'h
  signalingEvents :: 'h
  blocklistV6 :: 'h
  signalRateV6 :: 'h
  scanRateV6 :: 'h
  tunnelRateV6 :: 'h
  tunnelBlocklistV6 :: 'h
  signalingEventsV6 :: 'h
  pinPath :: string
  pinReset :: bool
  bootTime :: time

record ('h, 'w) kernel =
  k_sys :: "('h, 'w) bpf_sys"
  k_loader :: "'h Loader"
  k_world :: 'w

definition blockedValue :: bytes where
  "blockedValue = [1]"

subsection \<open>Blocking\<close>

definition blocklistMapAndKey :: "'h Loader \<Rightarrow> ip \<Rightarrow> err + ('h \<times> bytes)" where
  "blocklistMapAndKey l ip =
     (if isIPv4 ip then (case ipv4Key ip of Inl e \<Rightarrow> Inl e | Inr key \<Rightarrow> Inr (blocklist l, key))
      else (case ipv6Key ip of Inl e \<Rightarrow> Inl e | Inr key \<Rightarrow> Inr (blocklistV6 l, key)))"

definition tunnelBlocklistMapAndKey :: "'h Loader \<Rightarrow> ip \<Rightarrow> u32 \<Rightarrow> err + ('h \<times> bytes)" where
  "tunnelBlocklistMapAndKey l ip teid =
     (if teid = 0 then Inl (new_err ''refusing to block tunnel 0'')
      else case To4 ip of
        Some v4 \<Rightarrow> Inr (tunnelBlocklist l, tunnelRateKey_bytes \<lparr>tk_Saddr = le_Uint32 v4, tk_TEID = teid\<rparr>)
      | None \<Rightarrow>
          (case ipv6Key ip of
             Inl e \<Rightarrow> Inl e
           | Inr v6 \<Rightarrow> Inr (tunnelBlocklistV6 l, tunnelRateKeyV6_bytes \<lparr>tk6_Saddr = v6, tk6_TEID = teid\<rparr>)))"

definition Loader_Block :: "ip \<Rightarrow> ('h, 'w) kernel \<Rightarrow> err option \<times> ('h, 'w) kernel" where
  "Loader_Block ip k =
     (case blocklistMapAndKey (k_loader k) ip of
        Inl e \<Rightarrow> (Some e, k)
      | Inr (m, key) \<Rightarrow>
          (case map_Put (k_sys k) m key blockedValue (k_world k) of
             (Some e, w) \<Rightarrow> (Some (wrap ''insert into blocklist map'' e), k\<lparr>k_world := w\<rparr>)
           | (None, w) \<Rightarrow> (None, k\<lparr>k_world := w\<rparr>)))"

definition Loader_Unblock :: "ip \<Rightarrow> ('h, 'w) kernel \<Rightarrow> err option \<times> ('h, 'w) kernel" where
  "Loader_Unblock ip k =
     (case blocklistMapAndKey (k_loader k) ip of
        Inl e \<Rightarrow> (Some e, k)
      | Inr (m, key) \<Rightarrow>
          (case map_Delete (k_sys k) m key (k_world k) of
             (Some e, w) \<Rightarrow>
               (if err_is e ErrKeyNotExist then (None, k\<lparr>k_world := w\<rparr>)
                else (Some (wrap ''remove from blocklist map'' e), k\<lparr>k_world := w\<rparr>))
           | (None, w) \<Rightarrow> (None, k\<lparr>k_world := w\<rparr>)))"

definition Loader_BlockTunnel :: "ip \<Rightarrow> u32 \<Rightarrow> ('h, 'w) kernel \<Rightarrow> err option \<times> ('h, 'w) kernel" where
  "Loader_BlockTunnel ip teid k =
     (case tunnelBlocklistMapAndKey (k_loader k) ip teid of
        Inl e \<Rightarrow> (Some e, k)
      | Inr (m, key) \<Rightarrow>
          (case map_Put (k_sys k) m key blockedValue (k_world k) of
             (Some e, w) \<Rightarrow> (Some (wrap ''insert tunnel into tunnel blocklist map'' e), k\<lparr>k_world := w\<rparr>)
           | (None, w) \<Rightarrow> (None, k\<lparr>k_world := w\<rparr>)))"

definition Loader_UnblockTunnel :: "ip \<Rightarrow> u32 \<Rightarrow> ('h, 'w) kernel \<Rightarrow> err option \<times> ('h, 'w) kernel" where
  "Loader_UnblockTunnel ip teid k =
     (case tunnelBlocklistMapAndKey (k_loader k) ip teid of
        Inl e \<Rightarrow> (Some e, k)
      | Inr (m, key) \<Rightarrow>
          (case map_Delete (k_sys k) m key (k_world k) of
             (Some e, w) \<Rightarrow>
               (if err_is e ErrKeyNotExist then (None, k\<lparr>k_world := w\<rparr>)
                else (Some (wrap ''remove tunnel from tunnel blocklist map'' e), k\<lparr>k_world := w\<rparr>))
           | (None, w) \<Rightarrow> (None, k\<lparr>k_world := w\<rparr>)))"

definition loader_updater :: "('h, 'w) kernel BlocklistUpdater" where
  "loader_updater = \<lparr>Block = Loader_Block, Unblock = Loader_Unblock, BlockTunnel = Loader_BlockTunnel,
     UnblockTunnel = Loader_UnblockTunnel\<rparr>"

subsection \<open>Rates\<close>

definition rate_lookup :: "'h \<Rightarrow> bytes \<Rightarrow> ('h, 'w) kernel \<Rightarrow> (u32 \<times> bool) \<times> ('h, 'w) kernel" where
  "rate_lookup m key k =
     (case map_Lookup (k_sys k) m key (k_world k) of
        (Inl _, w) \<Rightarrow> ((0, False), k\<lparr>k_world := w\<rparr>)
      | (Inr v, w) \<Rightarrow>
          (case signalRateEntry_of v of
             None \<Rightarrow> ((0, False), k\<lparr>k_world := w\<rparr>)
           | Some entry \<Rightarrow> ((re_Count entry, True), k\<lparr>k_world := w\<rparr>)))"

definition Loader_SignalRate :: "ip \<Rightarrow> u16 \<Rightarrow> ('h, 'w) kernel \<Rightarrow> (u32 \<times> bool) \<times> ('h, 'w) kernel" where
  "Loader_SignalRate ip destPort k =
     (let l = k_loader k; signaling = (destPort = gtpuPort \<or> destPort = sipPort) in
      case To4 ip of
        Some v4 \<Rightarrow>
          if signaling then rate_lookup (signalRate l) v4 k
          else rate_lookup (scanRate l) (scanRateKey_bytes (le_Uint32 v4) destPort) k
      | None \<Rightarrow>
          (case ipv6Key ip of
             Inl _ \<Rightarrow> ((0, False), k)
           | Inr v6 \<Rightarrow>
               if signaling then rate_lookup (signalRateV6 l) v6 k
               else rate_lookup (scanRateV6 l) (scanRateKeyV6_bytes v6 destPort) k))"

definition Loader_TunnelRate :: "ip \<Rightarrow> u32 \<Rightarrow> ('h, 'w) kernel \<Rightarrow> (u32 \<times> bool) \<times> ('h, 'w) kernel" where
  "Loader_TunnelRate ip teid k =
     (let l = k_loader k in
      case To4 ip of
        Some v4 \<Rightarrow> rate_lookup (tunnelRate l) (tunnelRateKey_bytes \<lparr>tk_Saddr = le_Uint32 v4, tk_TEID = teid\<rparr>) k
      | None \<Rightarrow>
          (case ipv6Key ip of
             Inl _ \<Rightarrow> ((0, False), k)
           | Inr v6 \<Rightarrow> rate_lookup (tunnelRateV6 l) (tunnelRateKeyV6_bytes \<lparr>tk6_Saddr = v6, tk6_TEID = teid\<rparr>) k))"

definition loader_source :: "('h, 'w) kernel EventSource" where
  "loader_source = \<lparr>SignalRate = Loader_SignalRate, TunnelRate = Loader_TunnelRate\<rparr>"

subsection \<open>Inspection\<close>

definition Loader_BlockedIPs :: "('h, 'w) kernel \<Rightarrow> (err + ip list) \<times> ('h, 'w) kernel" where
  "Loader_BlockedIPs k =
     (case map_Iterate (k_sys k) (blocklist (k_loader k)) (k_world k) of
        ((_, Some e), w) \<Rightarrow> (Inl (wrap ''iterate blocklist map'' e), k\<lparr>k_world := w\<rparr>)
      | ((kvs, None), w) \<Rightarrow>
          (let out = map fst kvs in
           case map_Iterate (k_sys k) (blocklistV6 (k_loader k)) w of
             ((_, Some e), w2) \<Rightarrow> (Inl (wrap ''iterate blocklist_v6 map'' e), k\<lparr>k_world := w2\<rparr>)
           | ((kvs6, None), w2) \<Rightarrow> (Inr (out @ map fst kvs6), k\<lparr>k_world := w2\<rparr>)))"

definition tunnel_of_key :: "bytes \<Rightarrow> BlockedTunnel" where
  "tunnel_of_key b = (let key = tunnelRateKey_of b in \<lparr>bt_IP = put_u32 (tk_Saddr key), bt_TEID = tk_TEID key\<rparr>)"

definition tunnel_of_keyV6 :: "bytes \<Rightarrow> BlockedTunnel" where
  "tunnel_of_keyV6 b = (let key = tunnelRateKeyV6_of b in \<lparr>bt_IP = tk6_Saddr key, bt_TEID = tk6_TEID key\<rparr>)"

definition Loader_BlockedTunnels :: "('h, 'w) kernel \<Rightarrow> (err + BlockedTunnel list) \<times> ('h, 'w) kernel" where
  "Loader_BlockedTunnels k =
     (case map_Iterate (k_sys k) (tunnelBlocklist (k_loader k)) (k_world k) of
        ((_, Some e), w) \<Rightarrow> (Inl (wrap ''iterate tunnel_blocklist map'' e), k\<lparr>k_world := w\<rparr>)
      | ((kvs, None), w) \<Rightarrow>
          (let out = map (tunnel_of_key \<circ> fst) kvs in
           case map_Iterate (k_sys k) (tunnelBlocklistV6 (k_loader k)) w of
             ((_, Some e), w2) \<Rightarrow> (Inl (wrap ''iterate tunnel_blocklist_v6 map'' e), k\<lparr>k_world := w2\<rparr>)
           | ((kvs6, None), w2) \<Rightarrow> (Inr (out @ map (tunnel_of_keyV6 \<circ> fst) kvs6), k\<lparr>k_world := w2\<rparr>)))"

text \<open>The counter is a \<open>uint32\<close>.\<close>

definition countMapEntries :: "('h, 'w) bpf_sys \<Rightarrow> 'h \<Rightarrow> 'w \<Rightarrow> (err + u32) \<times> 'w" where
  "countMapEntries sys m w =
     (case map_Iterate sys m w of
        ((_, Some e), w1) \<Rightarrow> (Inl (wrap ''iterate map while counting'' e), w1)
      | ((kvs, None), w1) \<Rightarrow> (Inr (of_nat (length kvs)), w1))"

definition Loader_ObservationOccupancy :: "('h, 'w) kernel \<Rightarrow> (err + u32 \<times> u32) \<times> ('h, 'w) kernel" where
  "Loader_ObservationOccupancy k =
     (case countMapEntries (k_sys k) (tunnelRate (k_loader k)) (k_world k) of
        (Inl e, w) \<Rightarrow> (Inl e, k\<lparr>k_world := w\<rparr>)
      | (Inr n, w) \<Rightarrow>
          (case countMapEntries (k_sys k) (tunnelRateV6 (k_loader k)) w of
             (Inl e, w2) \<Rightarrow> (Inl e, k\<lparr>k_world := w2\<rparr>)
           | (Inr n6, w2) \<Rightarrow>
               (Inr (n + n6, map_MaxEntries (k_sys k) (tunnelRate (k_loader k))), k\<lparr>k_world := w2\<rparr>)))"

definition Loader_MapCapacity :: "('h, 'w) kernel \<Rightarrow> u32 \<times> u32" where
  "Loader_MapCapacity k =
     (map_MaxEntries (k_sys k) (blocklist (k_loader k)), map_MaxEntries (k_sys k) (tunnelBlocklist (k_loader k)))"

definition loader_inspector :: "('h, 'w) kernel BlocklistInspector" where
  "loader_inspector = \<lparr>inspect_BlockedIPs = Loader_BlockedIPs, inspect_BlockedTunnels = Loader_BlockedTunnels,
     PinPath = (\<lambda>k. pinPath (k_loader k)), PinReset = (\<lambda>k. pinReset (k_loader k)),
     MapCapacity = Loader_MapCapacity, ObservationOccupancy = Loader_ObservationOccupancy\<rparr>"

subsection \<open>The contract\<close>

definition canon :: "ip \<Rightarrow> bytes" where
  "canon ip = (case To16 ip of Some b \<Rightarrow> b | None \<Rightarrow> [])"

text \<open>
  \<open>drops s\<close> are the source addresses being dropped, in 16-byte form, \<open>tdrops s\<close> the tunnels.
\<close>

locale enforcer =
  fixes u :: "'s BlocklistUpdater"
    and ins :: "'s BlocklistInspector"
    and inv :: "'s \<Rightarrow> bool"
    and drops :: "'s \<Rightarrow> bytes set"
    and tdrops :: "'s \<Rightarrow> (bytes \<times> u32) set"
  assumes block: "inv s \<Longrightarrow> valid_ip ip \<Longrightarrow> Block u ip s = (r, s') \<Longrightarrow>
      inv s' \<and> tdrops s' = tdrops s \<and> drops s' = (if r = None then insert (canon ip) (drops s) else drops s)"
    and unblock: "inv s \<Longrightarrow> valid_ip ip \<Longrightarrow> Unblock u ip s = (r, s') \<Longrightarrow>
      inv s' \<and> tdrops s' = tdrops s \<and> drops s' = (if r = None then drops s - {canon ip} else drops s)"
    and block_tunnel: "inv s \<Longrightarrow> valid_ip ip \<Longrightarrow> BlockTunnel u ip t s = (r, s') \<Longrightarrow>
      inv s' \<and> drops s' = drops s \<and> (t = 0 \<longrightarrow> r \<noteq> None) \<and>
      tdrops s' = (if r = None then insert (canon ip, t) (tdrops s) else tdrops s)"
    and unblock_tunnel: "inv s \<Longrightarrow> valid_ip ip \<Longrightarrow> UnblockTunnel u ip t s = (r, s') \<Longrightarrow>
      inv s' \<and> drops s' = drops s \<and> (t = 0 \<longrightarrow> r \<noteq> None) \<and>
      tdrops s' = (if r = None then tdrops s - {(canon ip, t)} else tdrops s)"
    and blocked_ips: "inv s \<Longrightarrow> inspect_BlockedIPs ins s = (ri, s') \<Longrightarrow>
      inv s' \<and> drops s' = drops s \<and> tdrops s' = tdrops s \<and>
      (\<forall>ips. ri = Inr ips \<longrightarrow> (\<forall>ip \<in> set ips. valid_ip ip) \<and> canon ` set ips = drops s)"
    and blocked_tunnels: "inv s \<Longrightarrow> inspect_BlockedTunnels ins s = (rt, s') \<Longrightarrow>
      inv s' \<and> drops s' = drops s \<and> tdrops s' = tdrops s \<and>
      (\<forall>ts. rt = Inr ts \<longrightarrow> (\<forall>t \<in> set ts. valid_ip (bt_IP t)) \<and> (\<lambda>t. (canon (bt_IP t), bt_TEID t)) ` set ts = tdrops s)"
begin

text \<open>Unblocking twice is as good as once, and undoes a block.\<close>

lemma block_then_unblock:
  assumes "inv s" "valid_ip ip" "Block u ip s = (None, s1)" "Unblock u ip s1 = (None, s2)"
  shows "drops s2 = drops s - {canon ip} \<and> tdrops s2 = tdrops s"
  using block [OF assms(1-3)] unblock [of s1, OF _ assms(2,4)] by auto

lemma unblock_idempotent:
  assumes "inv s" "valid_ip ip" "Unblock u ip s = (None, s1)" "Unblock u ip s1 = (r, s2)"
  shows "drops s2 = drops s1"
  using unblock [OF assms(1-3)] unblock [of s1, OF _ assms(2,4)] by auto

end

subsection \<open>The loader keeps the contract\<close>

text \<open>The documented behaviour of the map operations on BPF hash maps.\<close>

definition bpf_lawful :: "('h, 'w) bpf_sys \<Rightarrow> bool" where
  "bpf_lawful sys \<longleftrightarrow>
     (\<forall>m k v w r w'. map_Put sys m k v w = (r, w') \<longrightarrow>
        (\<forall>m'. kernel_map sys m' w' = (if m' = m \<and> r = None then (kernel_map sys m w)(k \<mapsto> v) else kernel_map sys m' w))) \<and>
     (\<forall>m k w r w'. map_Delete sys m k w = (r, w') \<longrightarrow>
        (\<forall>m'. kernel_map sys m' w' = (if m' = m \<and> r = None then (kernel_map sys m w)(k := None) else kernel_map sys m' w)) \<and>
        (\<forall>e. r = Some e \<and> err_is e ErrKeyNotExist \<longrightarrow> kernel_map sys m w k = None)) \<and>
     (\<forall>m k w r w'. map_Lookup sys m k w = (r, w') \<longrightarrow>
        (\<forall>m'. kernel_map sys m' w' = kernel_map sys m' w) \<and> (\<forall>v. r = Inr v \<longrightarrow> kernel_map sys m w k = Some v)) \<and>
     (\<forall>m w kvs r w'. map_Iterate sys m w = ((kvs, r), w') \<longrightarrow>
        (\<forall>m'. kernel_map sys m' w' = kernel_map sys m' w) \<and>
        (r = None \<longrightarrow> set kvs = Map.graph (kernel_map sys m w) \<and> distinct (map fst kvs)))"

lemma bpf_lawfulD:
  assumes "bpf_lawful sys"
  shows "map_Put sys m k v w = (r, w') \<Longrightarrow>
      kernel_map sys m' w' = (if m' = m \<and> r = None then (kernel_map sys m w)(k \<mapsto> v) else kernel_map sys m' w)"
    and "map_Delete sys m k w = (r, w') \<Longrightarrow>
      kernel_map sys m' w' = (if m' = m \<and> r = None then (kernel_map sys m w)(k := None) else kernel_map sys m' w)"
    and "map_Delete sys m k w = (Some e, w') \<Longrightarrow> err_is e ErrKeyNotExist \<Longrightarrow> kernel_map sys m w k = None"
    and "map_Iterate sys m w = ((kvs, ro), w') \<Longrightarrow> kernel_map sys m' w' = kernel_map sys m' w"
    and "map_Iterate sys m w = ((kvs, None), w') \<Longrightarrow> fst ` set kvs = dom (kernel_map sys m w)"
proof -
  note laws = assms [unfolded bpf_lawful_def]
  show "map_Put sys m k v w = (r, w') \<Longrightarrow>
      kernel_map sys m' w' = (if m' = m \<and> r = None then (kernel_map sys m w)(k \<mapsto> v) else kernel_map sys m' w)"
    by (rule laws [THEN conjunct1, rule_format])
  show "map_Delete sys m k w = (r, w') \<Longrightarrow>
      kernel_map sys m' w' = (if m' = m \<and> r = None then (kernel_map sys m w)(k := None) else kernel_map sys m' w)"
    by (rule laws [THEN conjunct2, THEN conjunct1, rule_format, THEN conjunct1, rule_format])
  show "map_Delete sys m k w = (Some e, w') \<Longrightarrow> err_is e ErrKeyNotExist \<Longrightarrow> kernel_map sys m w k = None"
    using laws [THEN conjunct2, THEN conjunct1, rule_format, THEN conjunct2, rule_format] by simp
  show "map_Iterate sys m w = ((kvs, ro), w') \<Longrightarrow> kernel_map sys m' w' = kernel_map sys m' w"
    by (rule laws [THEN conjunct2, THEN conjunct2, THEN conjunct2, rule_format, THEN conjunct1, rule_format])
  show "map_Iterate sys m w = ((kvs, None), w') \<Longrightarrow> fst ` set kvs = dom (kernel_map sys m w)"
    using laws [THEN conjunct2, THEN conjunct2, THEN conjunct2, rule_format, THEN conjunct2, rule_format]
    by (simp add: fst_graph_eq_dom)
qed

text \<open>
  The four enforcement maps are different maps, and their keys have the layout the loader writes:
  addresses in the family's own map, tunnel keys with their padding zero.
\<close>

definition content :: "('h, 'w) kernel \<Rightarrow> ('h Loader \<Rightarrow> 'h) \<Rightarrow> bytes set" where
  "content k m = dom (kernel_map (k_sys k) (m (k_loader k)) (k_world k))"

definition key4_ok :: "bytes \<Rightarrow> bool" where "key4_ok b = (length b = 4)"
definition key6_ok :: "bytes \<Rightarrow> bool" where "key6_ok b = (length b = 16 \<and> To4 b = None)"
definition tkey4_ok :: "bytes \<Rightarrow> bool" where "tkey4_ok b = (length b = 8)"
definition tkey6_ok :: "bytes \<Rightarrow> bool" where
  "tkey6_ok b = (length b = 24 \<and> To4 (take 16 b) = None \<and> drop 20 b = put_u32 0)"

definition loader_inv :: "('h, 'w) kernel \<Rightarrow> bool" where
  "loader_inv k \<longleftrightarrow> bpf_lawful (k_sys k) \<and>
     distinct [blocklist (k_loader k), blocklistV6 (k_loader k), tunnelBlocklist (k_loader k), tunnelBlocklistV6 (k_loader k)] \<and>
     (\<forall>b \<in> content k blocklist. key4_ok b) \<and> (\<forall>b \<in> content k blocklistV6. key6_ok b) \<and>
     (\<forall>b \<in> content k tunnelBlocklist. tkey4_ok b) \<and> (\<forall>b \<in> content k tunnelBlocklistV6. tkey6_ok b)"

definition tview4 :: "bytes \<Rightarrow> bytes \<times> u32" where
  "tview4 b = (canon (take 4 b), le_Uint32 (drop 4 b))"

definition tview6 :: "bytes \<Rightarrow> bytes \<times> u32" where
  "tview6 b = (take 16 b, le_Uint32 (drop 16 b))"

definition loader_drops :: "('h, 'w) kernel \<Rightarrow> bytes set" where
  "loader_drops k = canon ` content k blocklist \<union> content k blocklistV6"

definition loader_tdrops :: "('h, 'w) kernel \<Rightarrow> (bytes \<times> u32) set" where
  "loader_tdrops k = tview4 ` content k tunnelBlocklist \<union> tview6 ` content k tunnelBlocklistV6"

subsubsection \<open>Keys and addresses\<close>

lemma canon_4: "length b = 4 \<Longrightarrow> canon b = v4InV6Prefix @ b"
  by (simp add: canon_def To16_def)

lemma canon_inj4: "length a = 4 \<Longrightarrow> length b = 4 \<Longrightarrow> canon a = canon b \<Longrightarrow> a = b"
  by (simp add: canon_4)

lemma To4_canon: "length b = 4 \<Longrightarrow> To4 (canon b) = Some b"
  by (simp add: canon_4 To4_def v4InV6Prefix_def)

lemma canon_not_key6: "length b = 4 \<Longrightarrow> key6_ok c \<Longrightarrow> canon b \<noteq> c"
  by (auto simp: key6_ok_def dest: To4_canon)

lemma valid_ip_cases:
  assumes "valid_ip ip"
  obtains (v4) b where "To4 ip = Some b" "length b = 4" "canon b = canon ip"
    | (v6) "To4 ip = None" "length ip = 16" "canon ip = ip"
proof (cases "To4 ip")
  case (Some b)
  have "v4InV6Prefix @ drop 12 ip = ip" if "take 12 ip = v4InV6Prefix" using that by (metis append_take_drop_id)
  then have "length b = 4 \<and> canon b = canon ip"
    using assms Some by (cases "length ip = 4") (auto simp: To4_def canon_def To16_def valid_ip_def split: if_splits)
  then show ?thesis using Some v4 by blast
next
  case None
  then have "length ip = 16" using assms by (auto simp: To4_def valid_ip_def split: if_splits)
  then show ?thesis using None v6 by (simp add: canon_def To16_def)
qed

lemma mapAndKey_cases:
  assumes "valid_ip ip"
  obtains (v4) b where "blocklistMapAndKey l ip = Inr (blocklist l, b)" "key4_ok b" "canon b = canon ip"
    | (v6) "blocklistMapAndKey l ip = Inr (blocklistV6 l, ip)" "key6_ok ip" "canon ip = ip"
proof (rule valid_ip_cases [OF assms])
  fix b
  assume "To4 ip = Some b" "length b = 4" "canon b = canon ip"
  then show thesis using v4 by (simp add: blocklistMapAndKey_def isIPv4_def ipv4Key_def key4_ok_def)
next
  assume "To4 ip = None" "length ip = 16" "canon ip = ip"
  then show thesis using v6 by (simp add: blocklistMapAndKey_def isIPv4_def ipv6Key_def To16_def key6_ok_def)
qed

lemma tmapAndKey_cases:
  assumes "valid_ip ip" "t \<noteq> 0"
  obtains (v4) b where "tunnelBlocklistMapAndKey l ip t = Inr (tunnelBlocklist l, b)" "tkey4_ok b" "tview4 b = (canon ip, t)"
    | (v6) b where "tunnelBlocklistMapAndKey l ip t = Inr (tunnelBlocklistV6 l, b)" "tkey6_ok b" "tview6 b = (canon ip, t)"
proof (rule valid_ip_cases [OF assms(1)])
  fix b
  assume "To4 ip = Some b" "length b = 4" "canon b = canon ip"
  then show thesis using assms(2) v4 [of "tunnelRateKey_bytes \<lparr>tk_Saddr = le_Uint32 b, tk_TEID = t\<rparr>"]
    by (simp add: tunnelBlocklistMapAndKey_def tunnelRateKey_bytes_def tkey4_ok_def tview4_def put_u32_le_Uint32)
next
  assume "To4 ip = None" "length ip = 16" "canon ip = ip"
  then show thesis using assms(2) v6 [of "tunnelRateKeyV6_bytes \<lparr>tk6_Saddr = ip, tk6_TEID = t\<rparr>"]
    by (simp add: tunnelBlocklistMapAndKey_def ipv6Key_def isIPv4_def To16_def tunnelRateKeyV6_bytes_def tkey6_ok_def
        tview6_def)
qed

lemma le_Uint32_inj: "length a = 4 \<Longrightarrow> length b = 4 \<Longrightarrow> le_Uint32 a = le_Uint32 b \<Longrightarrow> a = b"
  by (metis put_u32_le_Uint32)

lemma tview4_inj: "tkey4_ok a \<Longrightarrow> tkey4_ok b \<Longrightarrow> tview4 a = tview4 b \<Longrightarrow> a = b"
  using canon_inj4 [of "take 4 a" "take 4 b"] le_Uint32_inj [of "drop 4 a" "drop 4 b"]
  by (auto simp: tkey4_ok_def tview4_def) (metis append_take_drop_id)

lemma le_Uint32_take: "le_Uint32 (take 4 b) = le_Uint32 b"
  by (simp add: le_Uint32_def)

lemma tview6_inj:
  assumes "tkey6_ok a" "tkey6_ok b" "tview6 a = tview6 b"
  shows "a = b"
proof -
  have "take 4 (drop 16 a) = take 4 (drop 16 b)"
    using assms le_Uint32_inj [of "take 4 (drop 16 a)" "take 4 (drop 16 b)"]
    by (simp add: tkey6_ok_def tview6_def le_Uint32_take)
  moreover have "drop 4 (drop 16 a) = drop 4 (drop 16 b)" using assms by (simp add: tkey6_ok_def)
  ultimately have "drop 16 a = drop 16 b" by (metis append_take_drop_id)
  then show ?thesis using assms(3) by (metis append_take_drop_id prod.inject tview6_def)
qed

lemma tview_differ: "tkey4_ok a \<Longrightarrow> tkey6_ok b \<Longrightarrow> tview4 a \<noteq> tview6 b"
  using To4_canon [of "take 4 a"] by (auto simp: tkey4_ok_def tkey6_ok_def tview4_def tview6_def)

subsubsection \<open>Effects of the operations\<close>

lemma content_put:
  assumes "bpf_lawful (k_sys k)" "map_Put (k_sys k) h key v (k_world k) = (r, w')"
  shows "content (k\<lparr>k_world := w'\<rparr>) m' =
     (if m' (k_loader k) = h \<and> r = None then insert key (content k m') else content k m')"
  using bpf_lawfulD(1) [OF assms] by (simp add: content_def)

lemma content_delete:
  assumes "bpf_lawful (k_sys k)" "map_Delete (k_sys k) h key (k_world k) = (r, w')"
  shows "content (k\<lparr>k_world := w'\<rparr>) m' =
     (if m' (k_loader k) = h \<and> r = None then content k m' - {key} else content k m')"
  using bpf_lawfulD(2) [OF assms] by (auto simp: content_def)

lemma content_delete_absent:
  assumes "bpf_lawful (k_sys k)" "map_Delete (k_sys k) h key (k_world k) = (Some e, w')" "err_is e ErrKeyNotExist"
  shows "m (k_loader k) = h \<Longrightarrow> key \<notin> content k m"
  using bpf_lawfulD(3) [OF assms] by (auto simp: content_def)

lemma content_iterate:
  assumes "bpf_lawful (k_sys k)" "map_Iterate (k_sys k) h (k_world k) = ((kvs, r), w')"
  shows "content (k\<lparr>k_world := w'\<rparr>) m' = content k m'"
  using bpf_lawfulD(4) [OF assms] by (simp add: content_def)

lemma content_iterated:
  assumes "bpf_lawful (k_sys k)" "map_Iterate (k_sys k) (m (k_loader k)) (k_world k) = ((kvs, None), w')"
  shows "fst ` set kvs = content k m"
  using bpf_lawfulD(5) [OF assms] by (simp add: content_def)

text \<open>Adding or removing a key of the right shape keeps the invariant and changes the view by one element.\<close>

lemmas loader_view = loader_inv_def loader_drops_def loader_tdrops_def

lemma put_effect:
  assumes "loader_inv k" "map_Put (k_sys k) h key v (k_world k) = (r, w')"
  shows "h = blocklist (k_loader k) \<Longrightarrow> key4_ok key \<Longrightarrow> loader_inv (k\<lparr>k_world := w'\<rparr>) \<and>
      loader_tdrops (k\<lparr>k_world := w'\<rparr>) = loader_tdrops k \<and>
      loader_drops (k\<lparr>k_world := w'\<rparr>) = (if r = None then insert (canon key) (loader_drops k) else loader_drops k)"
    and "h = blocklistV6 (k_loader k) \<Longrightarrow> key6_ok key \<Longrightarrow> loader_inv (k\<lparr>k_world := w'\<rparr>) \<and>
      loader_tdrops (k\<lparr>k_world := w'\<rparr>) = loader_tdrops k \<and>
      loader_drops (k\<lparr>k_world := w'\<rparr>) = (if r = None then insert key (loader_drops k) else loader_drops k)"
    and "h = tunnelBlocklist (k_loader k) \<Longrightarrow> tkey4_ok key \<Longrightarrow> loader_inv (k\<lparr>k_world := w'\<rparr>) \<and>
      loader_drops (k\<lparr>k_world := w'\<rparr>) = loader_drops k \<and>
      loader_tdrops (k\<lparr>k_world := w'\<rparr>) = (if r = None then insert (tview4 key) (loader_tdrops k) else loader_tdrops k)"
    and "h = tunnelBlocklistV6 (k_loader k) \<Longrightarrow> tkey6_ok key \<Longrightarrow> loader_inv (k\<lparr>k_world := w'\<rparr>) \<and>
      loader_drops (k\<lparr>k_world := w'\<rparr>) = loader_drops k \<and>
      loader_tdrops (k\<lparr>k_world := w'\<rparr>) = (if r = None then insert (tview6 key) (loader_tdrops k) else loader_tdrops k)"
  using assms(1) content_put [OF _ assms(2)] by (auto simp: loader_view)

text \<open>A key that was absent counts as removed.\<close>

lemma image_minus_inj:
  "(\<And>x. x \<in> A \<Longrightarrow> f x = f a \<Longrightarrow> x = a) \<Longrightarrow> f ` (A - {a}) = f ` A - {f a}"
  by auto

lemma un_minus: "x \<notin> B \<Longrightarrow> A - {x} \<union> B = A \<union> B - {x}" "x \<notin> A \<Longrightarrow> A \<union> (B - {x}) = A \<union> B - {x}"
  by auto

lemma delete_effect:
  assumes "loader_inv k" "map_Delete (k_sys k) h key (k_world k) = (r, w')"
  defines "gone \<equiv> (case r of None \<Rightarrow> True | Some e \<Rightarrow> err_is e ErrKeyNotExist)"
  shows "h = blocklist (k_loader k) \<Longrightarrow> key4_ok key \<Longrightarrow> loader_inv (k\<lparr>k_world := w'\<rparr>) \<and>
      loader_tdrops (k\<lparr>k_world := w'\<rparr>) = loader_tdrops k \<and>
      loader_drops (k\<lparr>k_world := w'\<rparr>) = (if gone then loader_drops k - {canon key} else loader_drops k)"
    and "h = blocklistV6 (k_loader k) \<Longrightarrow> key6_ok key \<Longrightarrow> loader_inv (k\<lparr>k_world := w'\<rparr>) \<and>
      loader_tdrops (k\<lparr>k_world := w'\<rparr>) = loader_tdrops k \<and>
      loader_drops (k\<lparr>k_world := w'\<rparr>) = (if gone then loader_drops k - {key} else loader_drops k)"
    and "h = tunnelBlocklist (k_loader k) \<Longrightarrow> tkey4_ok key \<Longrightarrow> loader_inv (k\<lparr>k_world := w'\<rparr>) \<and>
      loader_drops (k\<lparr>k_world := w'\<rparr>) = loader_drops k \<and>
      loader_tdrops (k\<lparr>k_world := w'\<rparr>) = (if gone then loader_tdrops k - {tview4 key} else loader_tdrops k)"
    and "h = tunnelBlocklistV6 (k_loader k) \<Longrightarrow> tkey6_ok key \<Longrightarrow> loader_inv (k\<lparr>k_world := w'\<rparr>) \<and>
      loader_drops (k\<lparr>k_world := w'\<rparr>) = loader_drops k \<and>
      loader_tdrops (k\<lparr>k_world := w'\<rparr>) = (if gone then loader_tdrops k - {tview6 key} else loader_tdrops k)"
proof -
  have law: "bpf_lawful (k_sys k)" using assms(1) by (simp add: loader_inv_def)
  note del = content_delete [OF law assms(2)]
  have set: "content (k\<lparr>k_world := w'\<rparr>) m = (if gone then content k m - {key} else content k m)" if "m (k_loader k) = h" for m
    using del [of m] content_delete_absent [OF law, of h key] assms(2) that
    by (auto simp: gone_def split: option.splits)
  have no6: "key4_ok key \<Longrightarrow> canon key \<notin> content k blocklistV6"
    using assms(1) canon_not_key6 [of key "canon key"] by (auto simp: loader_inv_def key4_ok_def)
  have no4: "key6_ok key \<Longrightarrow> key \<notin> canon ` content k blocklist"
    using assms(1) canon_not_key6 [of _ key] by (auto simp: loader_inv_def key4_ok_def)
  have nt6: "tkey4_ok key \<Longrightarrow> tview4 key \<notin> tview6 ` content k tunnelBlocklistV6"
    using assms(1) tview_differ unfolding loader_inv_def by blast
  have nt4: "tkey6_ok key \<Longrightarrow> tview6 key \<notin> tview4 ` content k tunnelBlocklist"
    using assms(1) tview_differ [symmetric] unfolding loader_inv_def by blast
  have other: "content (k\<lparr>k_world := w'\<rparr>) m = content k m" if "m (k_loader k) \<noteq> h" for m
    using del [of m] that by simp
  have "blocklistV6 (k_loader k) \<noteq> blocklist (k_loader k)" "tunnelBlocklist (k_loader k) \<noteq> blocklist (k_loader k)"
    "tunnelBlocklistV6 (k_loader k) \<noteq> blocklist (k_loader k)" "tunnelBlocklist (k_loader k) \<noteq> blocklistV6 (k_loader k)"
    "tunnelBlocklistV6 (k_loader k) \<noteq> blocklistV6 (k_loader k)" "tunnelBlocklistV6 (k_loader k) \<noteq> tunnelBlocklist (k_loader k)"
    using assms(1) by (auto simp: loader_inv_def)
  note others = this other [of blocklist] other [of blocklistV6] other [of tunnelBlocklist] other [of tunnelBlocklistV6]
  show "h = blocklist (k_loader k) \<Longrightarrow> key4_ok key \<Longrightarrow> loader_inv (k\<lparr>k_world := w'\<rparr>) \<and>
      loader_tdrops (k\<lparr>k_world := w'\<rparr>) = loader_tdrops k \<and>
      loader_drops (k\<lparr>k_world := w'\<rparr>) = (if gone then loader_drops k - {canon key} else loader_drops k)"
    using assms(1) set [of blocklist] other no6 image_minus_inj [of "content k blocklist" canon key]
    by (auto simp: loader_view key4_ok_def canon_inj4)
  show "h = blocklistV6 (k_loader k) \<Longrightarrow> key6_ok key \<Longrightarrow> loader_inv (k\<lparr>k_world := w'\<rparr>) \<and>
      loader_tdrops (k\<lparr>k_world := w'\<rparr>) = loader_tdrops k \<and>
      loader_drops (k\<lparr>k_world := w'\<rparr>) = (if gone then loader_drops k - {key} else loader_drops k)"
    using assms(1) set [of blocklistV6] other no4
    by (auto simp: loader_view key4_ok_def)
  show "h = tunnelBlocklist (k_loader k) \<Longrightarrow> tkey4_ok key \<Longrightarrow> loader_inv (k\<lparr>k_world := w'\<rparr>) \<and>
      loader_drops (k\<lparr>k_world := w'\<rparr>) = loader_drops k \<and>
      loader_tdrops (k\<lparr>k_world := w'\<rparr>) = (if gone then loader_tdrops k - {tview4 key} else loader_tdrops k)"
    using assms(1) set [of tunnelBlocklist] others nt6 image_minus_inj [of "content k tunnelBlocklist" tview4 key]
    by (simp add: loader_view tview4_inj un_minus)
  show "h = tunnelBlocklistV6 (k_loader k) \<Longrightarrow> tkey6_ok key \<Longrightarrow> loader_inv (k\<lparr>k_world := w'\<rparr>) \<and>
      loader_drops (k\<lparr>k_world := w'\<rparr>) = loader_drops k \<and>
      loader_tdrops (k\<lparr>k_world := w'\<rparr>) = (if gone then loader_tdrops k - {tview6 key} else loader_tdrops k)"
    using assms(1) set [of tunnelBlocklistV6] others nt4 image_minus_inj [of "content k tunnelBlocklistV6" tview6 key]
    by (simp add: loader_view tview6_inj un_minus)
qed

lemma Loader_Block_contract:
  assumes "loader_inv k" "valid_ip ip" "Loader_Block ip k = (r, k')"
  shows "loader_inv k' \<and> loader_tdrops k' = loader_tdrops k \<and>
     loader_drops k' = (if r = None then insert (canon ip) (loader_drops k) else loader_drops k)"
  by (rule mapAndKey_cases [OF assms(2), of "k_loader k"])
    (use assms put_effect(1,2) [OF assms(1)] in \<open>auto simp: Loader_Block_def split: prod.splits option.splits\<close>)

lemma Loader_Unblock_contract:
  assumes "loader_inv k" "valid_ip ip" "Loader_Unblock ip k = (r, k')"
  shows "loader_inv k' \<and> loader_tdrops k' = loader_tdrops k \<and>
     loader_drops k' = (if r = None then loader_drops k - {canon ip} else loader_drops k)"
  by (rule mapAndKey_cases [OF assms(2), of "k_loader k"])
    (use assms delete_effect(1,2) [OF assms(1)] in
      \<open>auto simp: Loader_Unblock_def split: prod.splits option.splits if_splits\<close>)

lemma tunnel0: "tunnelBlocklistMapAndKey l ip 0 = Inl (new_err ''refusing to block tunnel 0'')"
  by (simp add: tunnelBlocklistMapAndKey_def)

lemma Loader_BlockTunnel_contract:
  assumes "loader_inv k" "valid_ip ip" "Loader_BlockTunnel ip t k = (r, k')"
  shows "loader_inv k' \<and> loader_drops k' = loader_drops k \<and> (t = 0 \<longrightarrow> r \<noteq> None) \<and>
     loader_tdrops k' = (if r = None then insert (canon ip, t) (loader_tdrops k) else loader_tdrops k)"
proof (cases "t = 0")
  case True
  then show ?thesis using assms by (auto simp: Loader_BlockTunnel_def tunnel0)
next
  case False
  show ?thesis
    by (rule tmapAndKey_cases [OF assms(2) False, of "k_loader k"])
      (use assms False put_effect(3,4) [OF assms(1)] in
        \<open>auto simp: Loader_BlockTunnel_def split: prod.splits option.splits\<close>)
qed

lemma Loader_UnblockTunnel_contract:
  assumes "loader_inv k" "valid_ip ip" "Loader_UnblockTunnel ip t k = (r, k')"
  shows "loader_inv k' \<and> loader_drops k' = loader_drops k \<and> (t = 0 \<longrightarrow> r \<noteq> None) \<and>
     loader_tdrops k' = (if r = None then loader_tdrops k - {(canon ip, t)} else loader_tdrops k)"
proof (cases "t = 0")
  case True
  then show ?thesis using assms by (auto simp: Loader_UnblockTunnel_def tunnel0)
next
  case False
  show ?thesis
    by (rule tmapAndKey_cases [OF assms(2) False, of "k_loader k"])
      (use assms False delete_effect(3,4) [OF assms(1)] in
        \<open>auto simp: Loader_UnblockTunnel_def split: prod.splits option.splits if_splits\<close>)
qed

lemma iterate_frame:
  assumes "loader_inv k" "map_Iterate (k_sys k) h (k_world k) = ((kvs, r), w')"
  shows "loader_inv (k\<lparr>k_world := w'\<rparr>)" "loader_drops (k\<lparr>k_world := w'\<rparr>) = loader_drops k"
    "loader_tdrops (k\<lparr>k_world := w'\<rparr>) = loader_tdrops k" "content (k\<lparr>k_world := w'\<rparr>) m = content k m"
  using assms(1) content_iterate [OF _ assms(2)] by (auto simp: loader_view)

lemma key_ok_valid: "key4_ok b \<Longrightarrow> valid_ip b" "key6_ok b \<Longrightarrow> valid_ip b" "key6_ok b \<Longrightarrow> canon b = b"
  by (auto simp: key4_ok_def key6_ok_def valid_ip_def canon_def To16_def)

lemma Loader_BlockedIPs_contract:
  assumes inv: "loader_inv k" and call: "Loader_BlockedIPs k = (r, k')"
  shows "loader_inv k' \<and> loader_drops k' = loader_drops k \<and> loader_tdrops k' = loader_tdrops k \<and>
     (\<forall>ips. r = Inr ips \<longrightarrow> (\<forall>ip \<in> set ips. valid_ip ip) \<and> canon ` set ips = loader_drops k)"
proof -
  let ?l = "k_loader k"
  obtain kvs e w where i1: "map_Iterate (k_sys k) (blocklist ?l) (k_world k) = ((kvs, e), w)" by (metis surj_pair)
  note f1 = iterate_frame [OF inv i1]
  let ?k1 = "k\<lparr>k_world := w\<rparr>"
  obtain kvs6 e6 w6 where i2: "map_Iterate (k_sys ?k1) (blocklistV6 ?l) (k_world ?k1) = ((kvs6, e6), w6)" by (metis surj_pair)
  note f2 = iterate_frame [OF f1(1) i2]
  have law: "bpf_lawful (k_sys k)" "bpf_lawful (k_sys ?k1)" using inv by (simp_all add: loader_inv_def)
  have c: "e = None \<Longrightarrow> fst ` set kvs = content k blocklist" "e6 = None \<Longrightarrow> fst ` set kvs6 = content k blocklistV6"
    using content_iterated [of k blocklist kvs w] content_iterated [of ?k1 blocklistV6 kvs6 w6] law i1 i2 f1(4) by auto
  have shapes: "b \<in> content k blocklist \<Longrightarrow> key4_ok b" "b \<in> content k blocklistV6 \<Longrightarrow> key6_ok b" for b
    using inv by (simp_all add: loader_inv_def)
  have v6: "canon ` content k blocklistV6 = content k blocklistV6"
    using shapes(2) key_ok_valid(3) by (force simp: image_iff)
  show ?thesis
  proof (cases "e = None \<and> e6 = None")
    case True
    then have "r = Inr (map fst kvs @ map fst kvs6)" "k' = ?k1\<lparr>k_world := w6\<rparr>"
      using call i1 i2 by (simp_all add: Loader_BlockedIPs_def Let_def)
    then show ?thesis
      using True f1 f2 c shapes key_ok_valid v6 by (auto simp: loader_drops_def image_Un)
  next
    case False
    then show ?thesis
      using call i1 i2 f1 f2 by (auto simp: Loader_BlockedIPs_def Let_def split: option.splits)
  qed
qed

lemma Loader_BlockedTunnels_contract:
  assumes inv: "loader_inv k" and call: "Loader_BlockedTunnels k = (r, k')"
  shows "loader_inv k' \<and> loader_drops k' = loader_drops k \<and> loader_tdrops k' = loader_tdrops k \<and>
     (\<forall>ts. r = Inr ts \<longrightarrow> (\<forall>t \<in> set ts. valid_ip (bt_IP t)) \<and> (\<lambda>t. (canon (bt_IP t), bt_TEID t)) ` set ts = loader_tdrops k)"
proof -
  let ?l = "k_loader k" and ?v = "\<lambda>t. (canon (bt_IP t), bt_TEID t)"
  obtain kvs e w where i1: "map_Iterate (k_sys k) (tunnelBlocklist ?l) (k_world k) = ((kvs, e), w)" by (metis surj_pair)
  note f1 = iterate_frame [OF inv i1]
  let ?k1 = "k\<lparr>k_world := w\<rparr>"
  obtain kvs6 e6 w6 where i2: "map_Iterate (k_sys ?k1) (tunnelBlocklistV6 ?l) (k_world ?k1) = ((kvs6, e6), w6)" by (metis surj_pair)
  note f2 = iterate_frame [OF f1(1) i2]
  have law: "bpf_lawful (k_sys k)" "bpf_lawful (k_sys ?k1)" using inv by (simp_all add: loader_inv_def)
  have c: "e = None \<Longrightarrow> fst ` set kvs = content k tunnelBlocklist" "e6 = None \<Longrightarrow> fst ` set kvs6 = content k tunnelBlocklistV6"
    using content_iterated [of k tunnelBlocklist kvs w] content_iterated [of ?k1 tunnelBlocklistV6 kvs6 w6] law i1 i2 f1(4) by auto
  have v4: "?v (tunnel_of_key b) = tview4 b \<and> valid_ip (bt_IP (tunnel_of_key b))" if "b \<in> content k tunnelBlocklist" for b
    using that inv put_u32_le_Uint32 [of "take 4 b"]
    by (auto simp: loader_inv_def tkey4_ok_def tunnel_of_key_def tunnelRateKey_of_def tview4_def valid_ip_def le_Uint32_take)
  have v6: "?v (tunnel_of_keyV6 b) = tview6 b \<and> valid_ip (bt_IP (tunnel_of_keyV6 b))" if "b \<in> content k tunnelBlocklistV6" for b
    using that inv
    by (auto simp: loader_inv_def tkey6_ok_def tunnel_of_keyV6_def tunnelRateKeyV6_of_def tview6_def valid_ip_def canon_def To16_def)
  show ?thesis
  proof (cases "e = None \<and> e6 = None")
    case True
    then have r: "r = Inr (map (tunnel_of_key \<circ> fst) kvs @ map (tunnel_of_keyV6 \<circ> fst) kvs6)" "k' = ?k1\<lparr>k_world := w6\<rparr>"
      using call i1 i2 by (simp_all add: Loader_BlockedTunnels_def Let_def)
    have "?v ` set (map (tunnel_of_key \<circ> fst) kvs @ map (tunnel_of_keyV6 \<circ> fst) kvs6) =
        (?v \<circ> tunnel_of_key) ` content k tunnelBlocklist \<union> (?v \<circ> tunnel_of_keyV6) ` content k tunnelBlocklistV6"
      unfolding c(1) [OF conjunct1 [OF True], symmetric] c(2) [OF conjunct2 [OF True], symmetric]
      by (simp add: image_Un image_image)
    also have "\<dots> = loader_tdrops k"
      unfolding loader_tdrops_def using v4 v6 by (intro arg_cong2 [where f = "(\<union>)"] image_cong) auto
    finally have view: "?v ` set (map (tunnel_of_key \<circ> fst) kvs @ map (tunnel_of_keyV6 \<circ> fst) kvs6) = loader_tdrops k" .
    have "valid_ip (bt_IP t)" if "t \<in> set (map (tunnel_of_key \<circ> fst) kvs @ map (tunnel_of_keyV6 \<circ> fst) kvs6)" for t
      using that v4 v6 unfolding c(1) [OF conjunct1 [OF True], symmetric] c(2) [OF conjunct2 [OF True], symmetric] by auto
    then show ?thesis using r f1 f2 view by simp
  next
    case False
    then show ?thesis
      using call i1 i2 f1 f2 by (auto simp: Loader_BlockedTunnels_def Let_def split: option.splits)
  qed
qed

interpretation loader: enforcer loader_updater loader_inspector loader_inv loader_drops loader_tdrops
proof (unfold_locales, goal_cases)
  case (1 s ip r s')
  then show ?case by (intro Loader_Block_contract) (simp_all add: loader_updater_def)
next
  case (2 s ip r s')
  then show ?case by (intro Loader_Unblock_contract) (simp_all add: loader_updater_def)
next
  case (3 s ip t r s')
  then show ?case by (intro Loader_BlockTunnel_contract) (simp_all add: loader_updater_def)
next
  case (4 s ip t r s')
  then show ?case by (intro Loader_UnblockTunnel_contract) (simp_all add: loader_updater_def)
next
  case (5 s r s')
  then show ?case by (intro Loader_BlockedIPs_contract) (simp_all add: loader_inspector_def)
next
  case (6 s r s')
  then show ?case by (intro Loader_BlockedTunnels_contract) (simp_all add: loader_inspector_def)
qed

subsection \<open>Maps in memory\<close>

text \<open>A map library over association lists, for concrete instances: it satisfies the assumed laws.\<close>

type_synonym mem = "nat \<Rightarrow> (bytes \<times> bytes) list"

definition mem_sys :: "(nat, mem) bpf_sys" where
  "mem_sys = \<lparr>
     map_Put = (\<lambda>m k v w. (None, w(m := AList.update k v (w m)))),
     map_Delete = (\<lambda>m k w. if map_of (w m) k = None then (Some (Sentinel ErrKeyNotExist), w)
                            else (None, w(m := AList.delete k (w m)))),
     map_Lookup = (\<lambda>m k w. (case map_of (w m) k of None \<Rightarrow> Inl (Sentinel ErrKeyNotExist) | Some v \<Rightarrow> Inr v, w)),
     map_Iterate = (\<lambda>m w. ((AList.clearjunk (w m), None), w)),
     map_MaxEntries = (\<lambda>m. 65536),
     kernel_map = (\<lambda>m w. map_of (w m))\<rparr>"

lemma set_clearjunk_graph: "set (AList.clearjunk m) = Map.graph (map_of m)"
  by (simp add: graph_map_of_if_distinct_dom [symmetric] map_of_clearjunk distinct_clearjunk)

lemma mem_sys_lawful: "bpf_lawful mem_sys"
  unfolding bpf_lawful_def
  by (intro conjI)
    (auto simp: mem_sys_def update_conv' delete_conv' set_clearjunk_graph distinct_clearjunk
      split: if_splits option.splits)

definition mem_loader :: "nat Loader" where
  "mem_loader = \<lparr>collection = 0, link = 1, blocklist = 2, signalRate = 3, scanRate = 4, tunnelRate = 5, tunnelBlocklist = 6,
     signalingEvents = 7, blocklistV6 = 8, signalRateV6 = 9, scanRateV6 = 10, tunnelRateV6 = 11, tunnelBlocklistV6 = 12,
     signalingEventsV6 = 13, pinPath = [], pinReset = False, bootTime = 0\<rparr>"

definition mem_kernel :: "(nat, mem) kernel" where
  "mem_kernel = \<lparr>k_sys = mem_sys, k_loader = mem_loader, k_world = (\<lambda>_. [])\<rparr>"

lemma mem_kernel_inv: "loader_inv mem_kernel"
  by (simp add: loader_inv_def mem_kernel_def mem_sys_lawful mem_loader_def content_def) (simp add: mem_sys_def)

lemma mem_kernel_empty: "loader_drops mem_kernel = {}" "loader_tdrops mem_kernel = {}"
  by (simp_all add: loader_drops_def loader_tdrops_def content_def mem_kernel_def mem_sys_def)

subsection \<open>Properties\<close>

text \<open>
  A tunnel block is precise. When \<open>BlockTunnel\<close> reports success the kernel drops exactly one pair of
  source address and TEID more than before: no source address is dropped as a whole, no other tunnel
  is touched, and the TEID is not the \<open>no tunnel identity\<close> value 0.
\<close>

theorem Loader_BlockTunnel_precise:
  assumes "loader_inv k" "valid_ip ip" "Loader_BlockTunnel ip teid k = (None, k')"
  shows "teid \<noteq> 0 \<and> loader_inv k' \<and> loader_drops k' = loader_drops k \<and>
    loader_tdrops k' = insert (canon ip, teid) (loader_tdrops k)"
  using Loader_BlockTunnel_contract [OF assms] by auto

theorem Loader_BlockTunnel_precise_witness:
  "loader_tdrops (snd (Loader_BlockTunnel [10, 0, 0, 1] 7 mem_kernel)) = {(canon [10, 0, 0, 1], 7)}"
proof -
  have "fst (Loader_BlockTunnel [10, 0, 0, 1] 7 mem_kernel) = None"
    by (simp add: Loader_BlockTunnel_def tunnelBlocklistMapAndKey_def To4_def mem_kernel_def mem_sys_def)
  then have "Loader_BlockTunnel [10, 0, 0, 1] 7 mem_kernel = (None, snd (Loader_BlockTunnel [10, 0, 0, 1] 7 mem_kernel))"
    by (metis prod.collapse)
  from Loader_BlockTunnel_precise [OF mem_kernel_inv _ this] show ?thesis
    by (simp add: valid_ip_def mem_kernel_empty)
qed

text \<open>
  Blocking an address and unblocking it again leaves the kernel's set of dropped addresses as it was
  without that address, in either spelling: an IPv4 address and its IPv4-mapped IPv6 form are one
  entry. Tunnel drops are never affected, and unblocking something absent succeeds.
\<close>

theorem Loader_block_unblock:
  assumes "loader_inv k" "valid_ip ip" "valid_ip ip'" "To16 ip = To16 ip'"
    and "Loader_Block ip k = (None, k1)" "Loader_Unblock ip' k1 = (None, k2)"
  shows "canon ip \<in> loader_drops k1 \<and> loader_drops k2 = loader_drops k - {canon ip} \<and> loader_tdrops k2 = loader_tdrops k"
proof -
  have "canon ip' = canon ip" using assms(4) by (simp add: canon_def)
  then show ?thesis
    using Loader_Block_contract [OF assms(1,2,5)] Loader_Unblock_contract [OF _ assms(3,6)] by auto
qed

theorem Loader_block_unblock_witness:
  "loader_drops (snd (Loader_Unblock (v4InV6Prefix @ [10, 0, 0, 1]) (snd (Loader_Block [10, 0, 0, 1] mem_kernel)))) = {}"
proof -
  let ?k1 = "snd (Loader_Block [10, 0, 0, 1] mem_kernel)"
  let ?k2 = "snd (Loader_Unblock (v4InV6Prefix @ [10, 0, 0, 1]) ?k1)"
  have "fst (Loader_Block [10, 0, 0, 1] mem_kernel) = None"
    by (simp add: Loader_Block_def blocklistMapAndKey_def isIPv4_def ipv4Key_def To4_def mem_kernel_def mem_sys_def)
  then have b: "Loader_Block [10, 0, 0, 1] mem_kernel = (None, ?k1)" by (metis prod.collapse)
  have "fst (Loader_Unblock (v4InV6Prefix @ [10, 0, 0, 1]) ?k1) = None"
    by (simp add: Loader_Block_def Loader_Unblock_def blocklistMapAndKey_def isIPv4_def ipv4Key_def To4_def mem_kernel_def
        mem_sys_def v4InV6Prefix_def)
  then have u: "Loader_Unblock (v4InV6Prefix @ [10, 0, 0, 1]) ?k1 = (None, ?k2)" by (metis prod.collapse)
  show ?thesis
    using Loader_block_unblock [OF mem_kernel_inv _ _ _ b u]
    by (simp add: mem_kernel_empty valid_ip_def v4InV6Prefix_def To16_def)
qed

end
