(* ===== verification/Ebpf_Attach.thy ===== *)
theory Ebpf_Attach
  imports Ebpf_Loader
begin

text \<open>
  Attaching the XDP program (\<open>loader_linux.go\<close>) and the pins that keep the enforcement maps alive (\<open>pin_linux.go\<close>, \<open>inspect_linux.go\<close>). The BPF
  library and the system calls are the record \<open>bpf_lib\<close>. The theorems: a failed attach leaves nothing open, a restart keeps every drop
  or says that it lost them, and the search for the mount point ends.
\<close>

subsection \<open>Paths (\<open>path/filepath\<close>)\<close>

fun split_path :: "string \<Rightarrow> string list" where
  "split_path [] = [[]]"
| "split_path (ch # s) =
     (if ch = CHR ''/'' then [] # split_path s
      else case split_path s of e # es \<Rightarrow> (ch # e) # es | [] \<Rightarrow> [[ch]])"

text \<open>The elements kept by \<open>Clean\<close>, last one first.\<close>

fun clean_elems :: "bool \<Rightarrow> string list \<Rightarrow> string list \<Rightarrow> string list" where
  "clean_elems rooted st [] = st"
| "clean_elems rooted st (e # es) =
     (if e = [] \<or> e = ''.'' then clean_elems rooted st es
      else if e = ''..'' then
        (if st \<noteq> [] \<and> hd st \<noteq> ''..'' then clean_elems rooted (tl st) es
         else if rooted then clean_elems rooted st es
         else clean_elems rooted (e # st) es)
      else clean_elems rooted (e # st) es)"

definition rooted :: "string \<Rightarrow> bool" where
  "rooted p = (p \<noteq> [] \<and> hd p = CHR ''/'')"

definition Clean :: "string \<Rightarrow> string" where
  "Clean p =
     (let st = rev (clean_elems (rooted p) [] (split_path p)) in
      if rooted p then CHR ''/'' # join_with (CHR ''/'') st
      else if st = [] then ''.'' else join_with (CHR ''/'') st)"

text \<open>The path up to and with its last slash.\<close>

definition dir_part :: "string \<Rightarrow> string" where
  "dir_part p = rev (dropWhile (\<lambda>ch. ch \<noteq> CHR ''/'') (rev p))"

definition Dir :: "string \<Rightarrow> string" where
  "Dir p = Clean (dir_part p)"

definition Join :: "string \<Rightarrow> string \<Rightarrow> string" where
  "Join a b = (if a = [] \<and> b = [] then [] else if a = [] then Clean b else if b = [] then Clean a else Clean (a @ ''/'' @ b))"

subsection \<open>Cleaning does not lengthen a path\<close>

definition elems_size :: "string list \<Rightarrow> nat" where
  "elems_size es = sum_list (map (\<lambda>e. Suc (length e)) es)"

lemma elems_size_simps [simp]: "elems_size [] = 0" "elems_size (e # es) = Suc (length e) + elems_size es" "elems_size (es @ fs) = elems_size es + elems_size fs"
  by (simp_all add: elems_size_def)

lemma elems_size_rev [simp]: "elems_size (rev es) = elems_size es"
  by (induction es) simp_all

lemma split_path_nonempty [simp]: "split_path s \<noteq> []"
  by (induction s) (auto split: list.splits)

lemma split_path_size: "elems_size (split_path s) = Suc (length s)"
  by (induction s) (auto split: list.splits)

lemma join_with_size: "es \<noteq> [] \<Longrightarrow> Suc (length (join_with ch es)) = elems_size es"
  by (induction ch es rule: join_with.induct) auto

definition kept :: "string list \<Rightarrow> string list" where
  "kept es = filter (\<lambda>e. e \<noteq> []) es"

lemma clean_elems_size: "elems_size (clean_elems r st es) \<le> elems_size st + elems_size (kept es)"
proof (induction r st es rule: clean_elems.induct)
  case (2 r st e es)
  show ?case
  proof (cases "e = ''..'' \<and> st \<noteq> [] \<and> hd st \<noteq> ''..''")
    case True
    then have "elems_size (tl st) \<le> elems_size st" by (cases st) simp_all
    then show ?thesis using 2 True by (simp add: kept_def)
  next
    case False
    then show ?thesis using 2 by (auto simp: kept_def)
  qed
qed simp

lemma kept_size: "elems_size (kept es) + length (filter (\<lambda>e. e = []) es) = elems_size es"
  by (induction es) (simp_all add: kept_def)

lemma split_path_hd: "rooted p \<Longrightarrow> hd (split_path p) = []"
  by (cases p) (simp_all add: rooted_def)

lemma split_path_last: "split_path (s @ ''/'') = split_path s @ [[]]"
  by (induction s) (auto split: list.splits)

lemma Clean_length:
  assumes "p \<noteq> []"
  shows "length (Clean p) + length (filter (\<lambda>e. e = []) (split_path p)) \<le> length p + (if rooted p then 1 else 0) \<or> length (Clean p) = 1"
proof -
  let ?st = "clean_elems (rooted p) [] (split_path p)"
  have le: "elems_size ?st + length (filter (\<lambda>e. e = []) (split_path p)) \<le> Suc (length p)"
    using clean_elems_size [of "rooted p" "[]" "split_path p"] kept_size [of "split_path p"] split_path_size [of p] by simp
  show ?thesis
  proof (cases "?st = []")
    case True
    then show ?thesis by (simp add: Clean_def)
  next
    case False
    then have "Suc (length (join_with (CHR ''/'') (rev ?st))) = elems_size ?st" using join_with_size [of "rev ?st"] by simp
    then show ?thesis using le False by (auto simp: Clean_def Let_def)
  qed
qed

lemma Clean_dir_shorter:
  assumes "s \<noteq> []"
  shows "length (Clean (s @ ''/'')) < length (s @ ''/'')"
proof -
  have "(if rooted (s @ ''/'') then 2 else 1) \<le> length (filter (\<lambda>e. e = []) (split_path (s @ ''/'')))"
  proof (cases "rooted s")
    case True
    then obtain es where "split_path s = [] # es" using split_path_hd [OF True] by (metis list.collapse split_path_nonempty)
    then show ?thesis by (simp add: split_path_last)
  next
    case False
    then have "\<not> rooted (s @ ''/'')" using assms by (simp add: rooted_def)
    then show ?thesis by (simp add: split_path_last)
  qed
  then show ?thesis using Clean_length [of "s @ ''/''"] assms by (cases s) (auto split: if_splits)
qed

definition path_measure :: "string \<Rightarrow> nat" where
  "path_measure p = (if p = [] then 3 else 2 * length p + (if p = ''.'' then 0 else 1))"

lemma dir_part_cases:
  obtains "dir_part p = []" | s where "dir_part p = s @ ''/''" "length (dir_part p) \<le> length p"
proof (cases "dropWhile (\<lambda>ch. ch \<noteq> CHR ''/'') (rev p)")
  case Nil
  then show ?thesis using that(1) by (simp add: dir_part_def)
next
  case (Cons ch rest)
  then have "ch = CHR ''/''" using hd_dropWhile [of "\<lambda>ch. ch \<noteq> CHR ''/''" "rev p"] by simp
  moreover have "length (dir_part p) \<le> length p" using length_dropWhile_le [of "\<lambda>ch. ch \<noteq> CHR ''/''" "rev p"] by (simp add: dir_part_def)
  ultimately show ?thesis using that(2) [of "rev rest"] Cons by (simp add: dir_part_def)
qed

lemma Clean_values: "Clean [] = ''.''" "Clean ''/'' = ''/''"
  by (simp_all add: Clean_def rooted_def)

lemma Dir_smaller: "Dir p \<noteq> p \<Longrightarrow> path_measure (Dir p) < path_measure p"
proof (cases p rule: dir_part_cases)
  case 1
  moreover assume "Dir p \<noteq> p"
  ultimately show ?thesis by (auto simp: Dir_def Clean_values path_measure_def neq_Nil_conv)
next
  case (2 s)
  assume neq: "Dir p \<noteq> p"
  show ?thesis
  proof (cases "s = []")
    case True
    then have "Dir p = ''/''" using 2 by (simp add: Dir_def Clean_values)
    moreover have "2 \<le> length p"
    proof (rule ccontr)
      assume "\<not> 2 \<le> length p"
      then have "length p = 1" using 2 True by simp
      moreover have "CHR ''/'' \<in> set p" using 2 True set_dropWhileD [of "CHR ''/''" "\<lambda>ch. ch \<noteq> CHR ''/''" "rev p"] by (auto simp: dir_part_def)
      ultimately have "p = ''/''" by (cases p) auto
      then show False using neq \<open>Dir p = ''/''\<close> by simp
    qed
    ultimately show ?thesis by (auto simp: path_measure_def)
  next
    case False
    from Clean_dir_shorter [OF this] have "length (Dir p) < length p" using 2 by (simp add: Dir_def)
    moreover have "2 \<le> length p" using 2 False by (cases s) auto
    ultimately show ?thesis by (auto simp: path_measure_def)
  qed
qed

lemma rooted_Clean: "rooted p \<Longrightarrow> rooted (Clean p)"
  by (simp add: Clean_def rooted_def Let_def)

lemma rooted_dir_part: "rooted p \<Longrightarrow> rooted (dir_part p)"
proof (cases p rule: dir_part_cases)
  case 1
  assume "rooted p"
  then have "CHR ''/'' \<in> set p" by (cases p) (auto simp: rooted_def)
  then have "dir_part p \<noteq> []" by (auto simp: dir_part_def)
  with 1 show ?thesis by simp
next
  case (2 s)
  assume r: "rooted p"
  obtain t where "p = dir_part p @ t" unfolding dir_part_def by (metis rev_append rev_rev_ident takeWhile_dropWhile_id)
  with r 2 show ?thesis by (metis append_is_Nil_conv hd_append2 list.distinct(1) rooted_def)
qed

lemma rooted_Dir: "rooted p \<Longrightarrow> rooted (Dir p)"
  by (simp add: Dir_def rooted_Clean rooted_dir_part)

lemma rooted_Dir_fix:
  assumes "rooted p" "Dir p = p"
  shows "p = ''/''"
proof (cases p rule: dir_part_cases)
  case 1
  with rooted_dir_part [OF assms(1)] show ?thesis by (simp add: rooted_def)
next
  case (2 s)
  show ?thesis
  proof (cases "s = []")
    case True
    then show ?thesis using assms(2) 2 by (simp add: Dir_def Clean_values)
  next
    case False
    from Clean_dir_shorter [OF this] show ?thesis using assms(2) 2 by (simp add: Dir_def)
  qed
qed

subsection \<open>The platform\<close>

record MapSpec =
  ms_KeySize :: nat
  ms_MaxEntries :: nat
  ms_PinByName :: bool

record CollectionSpec =
  cs_Programs :: "string list"
  cs_Maps :: "(string \<times> MapSpec) list"

record 'h Collection =
  co_handle :: 'h
  co_Programs :: "(string \<times> 'h) list"
  co_Maps :: "(string \<times> 'h) list"

text \<open>
  \<open>cilium/ebpf\<close>, \<open>net\<close>, \<open>os\<close> and \<open>unix\<close> as far as they are used. \<open>NewCollection\<close> takes the pin path of its options, empty for none; \<open>Statfs\<close> returns the type of the file
  system.
\<close>

record ('h, 'w) bpf_lib =
  lib_InterfaceByName :: "string \<Rightarrow> 'w \<Rightarrow> (err + int) \<times> 'w"
  lib_LoadCollectionSpec :: "string \<Rightarrow> 'w \<Rightarrow> (err + CollectionSpec) \<times> 'w"
  lib_NewCollection :: "CollectionSpec \<Rightarrow> string \<Rightarrow> 'w \<Rightarrow> (err + 'h Collection) \<times> 'w"
  lib_CloseCollection :: "'h \<Rightarrow> 'w \<Rightarrow> 'w"
  lib_KeySize :: "'h \<Rightarrow> nat"
  lib_AttachXDP :: "'h \<Rightarrow> int \<Rightarrow> 'w \<Rightarrow> (err + 'h) \<times> 'w"
  lib_CloseLink :: "'h \<Rightarrow> 'w \<Rightarrow> err option \<times> 'w"
  lib_ClockGettime :: "'w \<Rightarrow> (err + int \<times> int) \<times> 'w"
  lib_Now :: "'w \<Rightarrow> time \<times> 'w"
  lib_Stat :: "string \<Rightarrow> 'w \<Rightarrow> err option \<times> 'w"
  lib_Statfs :: "string \<Rightarrow> 'w \<Rightarrow> (err + int) \<times> 'w"
  lib_MkdirAll :: "string \<Rightarrow> 'w \<Rightarrow> err option \<times> 'w"
  lib_Remove :: "string \<Rightarrow> 'w \<Rightarrow> err option \<times> 'w"

subsection \<open>Pins (\<open>pin_linux.go\<close>)\<close>

definition blocklistMapName :: string where "blocklistMapName = ''blocklist''"
definition signalRateMapName :: string where "signalRateMapName = ''signal_rate''"
definition scanRateMapName :: string where "scanRateMapName = ''scan_rate''"
definition tunnelRateMapName :: string where "tunnelRateMapName = ''tunnel_rate''"
definition tunnelBlocklistMapName :: string where "tunnelBlocklistMapName = ''tunnel_blocklist''"
definition signalingEventsMapName :: string where "signalingEventsMapName = ''signaling_events''"
definition blocklistV6MapName :: string where "blocklistV6MapName = ''blocklist_v6''"
definition signalRateV6MapName :: string where "signalRateV6MapName = ''signal_rate_v6''"
definition scanRateV6MapName :: string where "scanRateV6MapName = ''scan_rate_v6''"
definition tunnelRateV6MapName :: string where "tunnelRateV6MapName = ''tunnel_rate_v6''"
definition tunnelBlocklistV6MapName :: string where "tunnelBlocklistV6MapName = ''tunnel_blocklist_v6''"
definition signalingEventsV6MapName :: string where "signalingEventsV6MapName = ''signaling_events_v6''"
definition xdpProgramName :: string where "xdpProgramName = ''xdp_packet_filter''"

definition pinnedMapNames :: "string list" where
  "pinnedMapNames = [blocklistMapName, blocklistV6MapName, tunnelBlocklistMapName, tunnelBlocklistV6MapName]"

text \<open>The nearest ancestor that exists; \<open>None\<close> when the root of the path is reached without one.\<close>

function nearest_existing :: "('h, 'w) bpf_lib \<Rightarrow> string \<Rightarrow> 'w \<Rightarrow> string option \<times> 'w" where
  "nearest_existing lib existing w =
     (case lib_Stat lib existing w of
        (None, w1) \<Rightarrow> (Some existing, w1)
      | (Some _, w1) \<Rightarrow>
          (let parent = Dir existing in
           if parent = existing then (None, w1) else nearest_existing lib parent w1))"
  by pat_completeness auto
termination
  by (relation "measure (\<lambda>(lib, p, w). path_measure p)") (auto simp: Dir_smaller)

declare nearest_existing.simps [simp del]

definition BPF_FS_MAGIC :: int where
  "BPF_FS_MAGIC = 0xcafe4a11"

definition ensurePinDir :: "('h, 'w) bpf_lib \<Rightarrow> string \<Rightarrow> 'w \<Rightarrow> err option \<times> 'w" where
  "ensurePinDir lib path w =
     (case nearest_existing lib (Clean path) w of
        (None, w1) \<Rightarrow> (Some (new_err ''resolve pin path: no existing ancestor directory''), w1)
      | (Some existing, w1) \<Rightarrow>
          (case lib_Statfs lib existing w1 of
             (Inl e, w2) \<Rightarrow> (Some (wrap ''statfs'' e), w2)
           | (Inr fs_type, w2) \<Rightarrow>
               if fs_type \<noteq> BPF_FS_MAGIC then (Some (wrap ''pin path'' (Sentinel ErrPinPathNotBPFFS)), w2)
               else (case lib_MkdirAll lib path w2 of
                       (Some e, w3) \<Rightarrow> (Some (wrap ''create pin directory'' e), w3)
                     | (None, w3) \<Rightarrow> (None, w3))))"

fun mark_maps :: "string list \<Rightarrow> CollectionSpec \<Rightarrow> err + CollectionSpec" where
  "mark_maps [] spec = Inr spec"
| "mark_maps (name # names) spec =
     (case map_of (cs_Maps spec) name of
        None \<Rightarrow> Inl (new_err ''bpf object does not export map, so it cannot be pinned'')
      | Some m \<Rightarrow> mark_maps names (spec\<lparr>cs_Maps := AList.update name (m\<lparr>ms_PinByName := True\<rparr>) (cs_Maps spec)\<rparr>))"

definition markPinnedMaps :: "CollectionSpec \<Rightarrow> err + CollectionSpec" where
  "markPinnedMaps spec = mark_maps pinnedMapNames spec"

fun remove_pins :: "('h, 'w) bpf_lib \<Rightarrow> string \<Rightarrow> string list \<Rightarrow> 'w \<Rightarrow> err list \<times> 'w" where
  "remove_pins lib pin [] w = ([], w)"
| "remove_pins lib pin (name # names) w =
     (let (r, w1) = lib_Remove lib (Join pin name) w;
          (errs, w2) = remove_pins lib pin names w1
      in (case r of Some e \<Rightarrow> if \<not> err_is e ErrNotExist then wrap ''remove pin'' e # errs else errs | None \<Rightarrow> errs, w2))"

text \<open>\<open>errors.Join\<close> of no errors is no error.\<close>

definition RemovePins :: "('h, 'w) bpf_lib \<Rightarrow> string \<Rightarrow> 'w \<Rightarrow> err option \<times> 'w" where
  "RemovePins lib pin w =
     (let (errs, w1) = remove_pins lib pin pinnedMapNames w in (if errs = [] then None else Some (Errorf [] errs), w1))"

definition newPinnedCollection :: "('h, 'w) bpf_lib \<Rightarrow> CollectionSpec \<Rightarrow> string \<Rightarrow> 'w \<Rightarrow> (err + 'h Collection \<times> bool) \<times> 'w" where
  "newPinnedCollection lib spec pin w =
     (case lib_NewCollection lib spec pin w of
        (Inr coll, w1) \<Rightarrow> (Inr (coll, False), w1)
      | (Inl e, w1) \<Rightarrow>
          if \<not> err_is e ErrMapIncompatible then (Inl e, w1)
          else (case RemovePins lib pin w1 of
                  (Some rmErr, w2) \<Rightarrow> (Inl (Errorf ''pinned maps are incompatible'' [e, rmErr]), w2)
                | (None, w2) \<Rightarrow>
                    (case lib_NewCollection lib spec pin w2 of
                       (Inl retryErr, w3) \<Rightarrow> (Inl (Errorf ''pinned maps were incompatible'' [e, retryErr]), w3)
                     | (Inr coll, w3) \<Rightarrow> (Inr (coll, True), w3))))"

subsection \<open>Attaching (\<open>loader_linux.go\<close>)\<close>

text \<open>\<open>binary.Size\<close> of the two key structures is the length of their encoding.\<close>

definition enforcement_key_sizes :: "(string \<times> nat) list" where
  "enforcement_key_sizes = [(blocklistMapName, 4), (blocklistV6MapName, 16), (tunnelBlocklistMapName, 8), (tunnelBlocklistV6MapName, 24)]"

definition verifyEnforcementKeySizes :: "('h, 'w) bpf_lib \<Rightarrow> (string \<times> 'h) list \<Rightarrow> err option" where
  "verifyEnforcementKeySizes lib maps =
     (if list_all (\<lambda>(name, size). case map_of maps name of None \<Rightarrow> True | Some m \<Rightarrow> lib_KeySize lib m = size) enforcement_key_sizes
      then None else Some (new_err ''bpf/packet_filter.c and pkg/ebpf are out of sync''))"

definition monotonicToWallClockOffset :: "('h, 'w) bpf_lib \<Rightarrow> 'w \<Rightarrow> (err + time) \<times> 'w" where
  "monotonicToWallClockOffset lib w =
     (case lib_ClockGettime lib w of
        (Inl e, w1) \<Rightarrow> (Inl (wrap ''clock_gettime(CLOCK_MONOTONIC)'' e), w1)
      | (Inr (sec, nsec), w1) \<Rightarrow> (case lib_Now lib w1 of (now, w2) \<Rightarrow> (Inr (now - (sec * second + nsec)), w2)))"

text \<open>The collection, with pins if a path is given, and whether stale pins were discarded.\<close>

definition open_collection :: "('h, 'w) bpf_lib \<Rightarrow> CollectionSpec \<Rightarrow> string \<Rightarrow> 'w \<Rightarrow> (err + 'h Collection \<times> bool) \<times> 'w" where
  "open_collection lib spec pin w =
     (if pin \<noteq> [] then
        (case ensurePinDir lib pin w of
           (Some pinErr, w1) \<Rightarrow> (Inl (wrap ''prepare pin path'' pinErr), w1)
         | (None, w1) \<Rightarrow>
             (case markPinnedMaps spec of
                Inl pinErr \<Rightarrow> (Inl (wrap ''prepare pin path'' pinErr), w1)
              | Inr marked \<Rightarrow>
                  (case newPinnedCollection lib marked pin w1 of
                     (Inl e, w2) \<Rightarrow> (Inl (wrap ''instantiate bpf collection'' e), w2)
                   | (Inr r, w2) \<Rightarrow> (Inr r, w2))))
      else (case lib_NewCollection lib spec [] w of
              (Inl e, w1) \<Rightarrow> (Inl (wrap ''instantiate bpf collection'' e), w1)
            | (Inr coll, w1) \<Rightarrow> (Inr (coll, False), w1)))"

text \<open>Each handle the object must export: a missing one closes the collection.\<close>

definition exported :: "('h, 'w) bpf_lib \<Rightarrow> 'h Collection \<Rightarrow> (string \<times> 'h) list \<Rightarrow> string \<Rightarrow> ('h \<Rightarrow> 'w \<Rightarrow> (err + 'a) \<times> 'w) \<Rightarrow> 'w \<Rightarrow> (err + 'a) \<times> 'w" where
  "exported lib coll table name rest w =
     (case map_of table name of
        None \<Rightarrow> (Inl (new_err ''bpf object does not export''), lib_CloseCollection lib (co_handle coll) w)
      | Some m \<Rightarrow> rest m w)"

definition attach_link :: "('h, 'w) bpf_lib \<Rightarrow> 'h Collection \<Rightarrow> 'h \<Rightarrow> int \<Rightarrow> ('h \<Rightarrow> time \<Rightarrow> 'h Loader) \<Rightarrow> 'w \<Rightarrow> (err + 'h Loader) \<times> 'w" where
  "attach_link lib coll prog ifi mk w =
     (case verifyEnforcementKeySizes lib (co_Maps coll) of
        Some keyErr \<Rightarrow> (Inl keyErr, lib_CloseCollection lib (co_handle coll) w)
      | None \<Rightarrow>
          (case lib_AttachXDP lib prog ifi w of
             (Inl e, w1) \<Rightarrow> (Inl (wrap ''attach xdp program'' e), lib_CloseCollection lib (co_handle coll) w1)
           | (Inr xdpLink, w1) \<Rightarrow>
               (case monotonicToWallClockOffset lib w1 of
                  (Inl e, w2) \<Rightarrow>
                    (Inl (wrap ''compute monotonic-to-wall-clock offset'' e),
                     lib_CloseCollection lib (co_handle coll) (snd (lib_CloseLink lib xdpLink w2)))
                | (Inr boot, w2) \<Rightarrow> (Inr (mk xdpLink boot), w2))))"

text \<open>The part after the collection is open: every handle, the key sizes, the link and the clock.\<close>

definition attach_collection :: "('h, 'w) bpf_lib \<Rightarrow> 'h Collection \<Rightarrow> int \<Rightarrow> string \<Rightarrow> bool \<Rightarrow> 'w \<Rightarrow> (err + 'h Loader) \<times> 'w" where
  "attach_collection lib coll ifi pin reset =
          exported lib coll (co_Programs coll) xdpProgramName (\<lambda>prog.
          exported lib coll (co_Maps coll) blocklistMapName (\<lambda>bl.
          exported lib coll (co_Maps coll) signalRateMapName (\<lambda>sr.
          exported lib coll (co_Maps coll) scanRateMapName (\<lambda>sc.
          exported lib coll (co_Maps coll) tunnelRateMapName (\<lambda>tr.
          exported lib coll (co_Maps coll) tunnelBlocklistMapName (\<lambda>tb.
          exported lib coll (co_Maps coll) signalingEventsMapName (\<lambda>se.
          exported lib coll (co_Maps coll) blocklistV6MapName (\<lambda>bl6.
          exported lib coll (co_Maps coll) signalRateV6MapName (\<lambda>sr6.
          exported lib coll (co_Maps coll) scanRateV6MapName (\<lambda>sc6.
          exported lib coll (co_Maps coll) tunnelRateV6MapName (\<lambda>tr6.
          exported lib coll (co_Maps coll) tunnelBlocklistV6MapName (\<lambda>tb6.
          exported lib coll (co_Maps coll) signalingEventsV6MapName (\<lambda>se6.
          attach_link lib coll prog ifi (\<lambda>xdpLink boot.
            \<lparr>collection = co_handle coll, link = xdpLink, blocklist = bl, signalRate = sr, scanRate = sc, tunnelRate = tr, tunnelBlocklist = tb,
             signalingEvents = se, blocklistV6 = bl6, signalRateV6 = sr6, scanRateV6 = sc6, tunnelRateV6 = tr6, tunnelBlocklistV6 = tb6,
             signalingEventsV6 = se6, pinPath = pin, pinReset = reset, bootTime = boot\<rparr>)
          )))))))))))))"

definition AttachWithOptions :: "('h, 'w) bpf_lib \<Rightarrow> string \<Rightarrow> string \<Rightarrow> string \<Rightarrow> 'w \<Rightarrow> (err + 'h Loader) \<times> 'w" where
  "AttachWithOptions lib objPath iface pin w =
     (case lib_InterfaceByName lib iface w of
        (Inl e, w1) \<Rightarrow> (Inl (Errorf ''resolve interface'' [Sentinel ErrInterfaceNotFound, e]), w1)
      | (Inr ifi, w1) \<Rightarrow>
     (case lib_LoadCollectionSpec lib objPath w1 of
        (Inl e, w2) \<Rightarrow> (Inl (wrap ''load bpf collection spec'' e), w2)
      | (Inr spec, w2) \<Rightarrow>
     (case open_collection lib spec pin w2 of
        (Inl e, w3) \<Rightarrow> (Inl e, w3)
      | (Inr (coll, reset), w3) \<Rightarrow> attach_collection lib coll ifi pin reset w3)))"

definition Attach :: "('h, 'w) bpf_lib \<Rightarrow> string \<Rightarrow> string \<Rightarrow> 'w \<Rightarrow> (err + 'h Loader) \<times> 'w" where
  "Attach lib objPath iface w = AttachWithOptions lib objPath iface [] w"

definition Loader_Close :: "('h, 'w) bpf_lib \<Rightarrow> 'h Loader \<Rightarrow> 'w \<Rightarrow> err option \<times> 'w" where
  "Loader_Close lib l w =
     (let (e, w1) = lib_CloseLink lib (link l) w in (map_option (wrap ''detach xdp link'') e, lib_CloseCollection lib (collection l) w1))"

text \<open>The two readers; what the channel delivers is some interleaving of what they decode.\<close>

definition Loader_SignalingEvents ::
  "'h Loader \<Rightarrow> ('h \<Rightarrow> 'w \<Rightarrow> (err + 'r) \<times> 'w) \<Rightarrow> ('r \<Rightarrow> 'w \<Rightarrow> 'w) \<Rightarrow> 'w \<Rightarrow> (err + 'r \<times> 'r) \<times> 'w" where
  "Loader_SignalingEvents l newReader closeReader w =
     (case newReader (signalingEvents l) w of
        (Inl e, w1) \<Rightarrow> (Inl (wrap ''open signaling_events ring buffer'' e), w1)
      | (Inr reader, w1) \<Rightarrow>
          (case newReader (signalingEventsV6 l) w1 of
             (Inl e, w2) \<Rightarrow> (Inl (wrap ''open signaling_events_v6 ring buffer'' e), closeReader reader w2)
           | (Inr readerV6, w2) \<Rightarrow> (Inr (reader, readerV6), w2)))"

definition event_channel :: "'h Loader \<Rightarrow> read_round list \<Rightarrow> read_round list \<Rightarrow> SignalingEvent list set" where
  "event_channel l rs rs6 = shuffles (readSignalingEvents (bootTime l) rs) (readSignalingEventsV6 (bootTime l) rs6)"

subsection \<open>What the platform promises\<close>

lemma key_sizes_encoded:
  "length (tunnelRateKey_bytes k) = 8" "length (tk6_Saddr k6) = 16 \<Longrightarrow> length (tunnelRateKeyV6_bytes k6) = 24"
  by (simp_all add: tunnelRateKey_bytes_def tunnelRateKeyV6_bytes_def put_u32_def)

text \<open>
  \<open>held\<close> counts the collections and links that are open, \<open>pins\<close> gives the map pinned under a file name. Opening a collection uses the maps that are pinned under the
  names asked for and pins an empty one where there is none; closing leaves the pins alone.
\<close>

locale bpf_platform =
  fixes lib :: "('h, 'w) bpf_lib" and sys :: "('h, 'w) bpf_sys" and held :: "'w \<Rightarrow> int" and pins :: "'w \<Rightarrow> string \<Rightarrow> 'h option"
  assumes quiet: "w' \<in> {snd (lib_InterfaceByName lib f w), snd (lib_LoadCollectionSpec lib f w), snd (lib_ClockGettime lib w), snd (lib_Now lib w),
      snd (lib_Stat lib f w), snd (lib_Statfs lib f w), snd (lib_MkdirAll lib f w)} \<Longrightarrow>
      held w' = held w \<and> pins w' = pins w \<and> (\<forall>f m. pins w f = Some m \<longrightarrow> kernel_map sys m w' = kernel_map sys m w)"
    and new_collection: "lib_NewCollection lib spec pin w = (r, w') \<Longrightarrow>
      held w' = held w + (case r of Inr _ \<Rightarrow> 1 | Inl _ \<Rightarrow> 0) \<and>
      (\<forall>f m. pins w f = Some m \<longrightarrow> pins w' f = Some m \<and> kernel_map sys m w' = kernel_map sys m w) \<and>
      (\<forall>coll name ms. r = Inr coll \<and> pin \<noteq> [] \<and> map_of (cs_Maps spec) name = Some ms \<and> ms_PinByName ms \<longrightarrow>
         (\<exists>m. map_of (co_Maps coll) name = Some m \<and> pins w' (Join pin name) = Some m \<and>
            (pins w (Join pin name) = None \<longrightarrow> kernel_map sys m w' = Map.empty)))"
    and attach: "lib_AttachXDP lib h i w = (ra, w') \<Longrightarrow>
      held w' = held w + (case ra of Inr _ \<Rightarrow> 1 | Inl _ \<Rightarrow> 0) \<and> pins w' = pins w \<and> (\<forall>f m. pins w f = Some m \<longrightarrow> kernel_map sys m w' = kernel_map sys m w)"
    and close: "w' \<in> {lib_CloseCollection lib h w, snd (lib_CloseLink lib h w)} \<Longrightarrow>
      held w' = held w - 1 \<and> pins w' = pins w \<and> (\<forall>f m. pins w f = Some m \<longrightarrow> kernel_map sys m w' = kernel_map sys m w)"
    and remove: "lib_Remove lib f w = (rm, w') \<Longrightarrow> held w' = held w \<and>
      pins w' = (if rm = None \<or> (\<exists>e. rm = Some e \<and> err_is e ErrNotExist) then (pins w)(f := None) else pins w)"
begin

text \<open>The pins that are there stay, with their maps as they were.\<close>

definition keeps_pins :: "'w \<Rightarrow> 'w \<Rightarrow> bool" where
  "keeps_pins w w' \<longleftrightarrow> (\<forall>f m. pins w f = Some m \<longrightarrow> pins w' f = Some m \<and> kernel_map sys m w' = kernel_map sys m w)"

definition same_pins :: "'w \<Rightarrow> 'w \<Rightarrow> bool" where
  "same_pins w w' \<longleftrightarrow> pins w' = pins w \<and> (\<forall>f m. pins w f = Some m \<longrightarrow> kernel_map sys m w' = kernel_map sys m w)"

lemma same_pins_trans: "same_pins w1 w2 \<Longrightarrow> same_pins w2 w3 \<Longrightarrow> same_pins w1 w3"
  and same_pins_keeps: "same_pins w1 w2 \<Longrightarrow> keeps_pins w2 w3 \<Longrightarrow> keeps_pins w1 w3"
  by (auto simp: same_pins_def keeps_pins_def)

lemma quiet_calls:
  "lib_InterfaceByName lib f w = (ri, w') \<Longrightarrow> held w' = held w \<and> same_pins w w'"
  "lib_LoadCollectionSpec lib f w = (rs, w') \<Longrightarrow> held w' = held w \<and> same_pins w w'"
  "lib_ClockGettime lib w = (rc, w') \<Longrightarrow> held w' = held w \<and> same_pins w w'"
  "lib_Now lib w = (rn, w') \<Longrightarrow> held w' = held w \<and> same_pins w w'"
  "lib_Stat lib f w = (rt, w') \<Longrightarrow> held w' = held w \<and> same_pins w w'"
  "lib_Statfs lib f w = (rf, w') \<Longrightarrow> held w' = held w \<and> same_pins w w'"
  "lib_MkdirAll lib f w = (rm, w') \<Longrightarrow> held w' = held w \<and> same_pins w w'"
  using quiet [of w' f w] by (simp_all add: same_pins_def)

lemma nearest_existing_quiet: "nearest_existing lib p w = (r, w') \<Longrightarrow> held w' = held w \<and> same_pins w w'"
proof (induction "path_measure p" arbitrary: p w rule: less_induct)
  case less
  obtain s w1 where st: "lib_Stat lib p w = (s, w1)" by (rule prod.exhaust)
  note q = quiet_calls(5) [OF st]
  show ?case
  proof (cases "s = None \<or> Dir p = p")
    case True
    then have "w' = w1" using less.prems st by (auto simp: nearest_existing.simps [of lib p w] Let_def split: option.splits)
    then show ?thesis using q by simp
  next
    case False
    then have "nearest_existing lib (Dir p) w1 = (r, w')"
      using less.prems st by (auto simp: nearest_existing.simps [of lib p w] Let_def split: option.splits)
    from less.hyps [OF Dir_smaller this] show ?thesis using False q same_pins_trans by auto
  qed
qed

lemma ensurePinDir_quiet: "ensurePinDir lib p w = (r, w') \<Longrightarrow> held w' = held w \<and> same_pins w w'"
  unfolding ensurePinDir_def
  by (auto split: prod.splits option.splits sum.splits if_splits dest!: nearest_existing_quiet quiet_calls(6,7) intro: same_pins_trans)

lemma clock_quiet: "monotonicToWallClockOffset lib w = (r, w') \<Longrightarrow> held w' = held w \<and> same_pins w w'"
  unfolding monotonicToWallClockOffset_def
  by (auto split: prod.splits sum.splits dest!: quiet_calls(3,4) intro: same_pins_trans)

lemma remove_pins:
  assumes "remove_pins lib pin names w = (errs, w')"
  shows "held w' = held w" and "pins w f = None \<Longrightarrow> pins w' f = None" and "errs = [] \<Longrightarrow> n \<in> set names \<Longrightarrow> pins w' (Join pin n) = None"
proof -
  have "held w' = held w \<and> (\<forall>f. pins w f = None \<longrightarrow> pins w' f = None) \<and> (errs = [] \<longrightarrow> (\<forall>n \<in> set names. pins w' (Join pin n) = None))"
    using assms
  proof (induction names arbitrary: w errs)
    case (Cons name names)
    obtain r w1 where R: "lib_Remove lib (Join pin name) w = (r, w1)" by (rule prod.exhaust)
    obtain es where rest: "remove_pins lib pin names w1 = (es, w')" using Cons.prems R by (auto split: prod.splits)
    show ?case
      using Cons.prems Cons.IH [OF rest] remove [OF R] R rest by (auto split: option.splits if_splits)
  qed simp
  then show "held w' = held w" and "pins w f = None \<Longrightarrow> pins w' f = None" and "errs = [] \<Longrightarrow> n \<in> set names \<Longrightarrow> pins w' (Join pin n) = None" by blast+
qed

lemma newPinnedCollection:
  assumes "newPinnedCollection lib spec pin w = (r, w')" and "pin \<noteq> []"
    and "\<forall>name \<in> set pinnedMapNames. \<exists>ms. map_of (cs_Maps spec) name = Some ms \<and> ms_PinByName ms"
  shows "held w' = held w + (case r of Inr _ \<Rightarrow> 1 | Inl _ \<Rightarrow> 0)"
    and "r = Inr (coll, reset) \<Longrightarrow> \<not> reset \<Longrightarrow> keeps_pins w w'"
    and "r = Inr (coll, reset) \<Longrightarrow> name \<in> set pinnedMapNames \<Longrightarrow> \<exists>m. map_of (co_Maps coll) name = Some m \<and> pins w' (Join pin name) = Some m \<and>
      (reset \<or> pins w (Join pin name) = None \<longrightarrow> kernel_map sys m w' = Map.empty)"
proof -
  obtain r1 w1 where first: "lib_NewCollection lib spec pin w = (r1, w1)" by (rule prod.exhaust)
  note n1 = new_collection [OF first]
  have "held w' = held w + (case r of Inr _ \<Rightarrow> 1 | Inl _ \<Rightarrow> 0) \<and>
    (\<forall>coll reset. r = Inr (coll, reset) \<longrightarrow> (\<not> reset \<longrightarrow> keeps_pins w w') \<and>
      (\<forall>name \<in> set pinnedMapNames. \<exists>m. map_of (co_Maps coll) name = Some m \<and> pins w' (Join pin name) = Some m \<and>
        (reset \<or> pins w (Join pin name) = None \<longrightarrow> kernel_map sys m w' = Map.empty)))"
  proof (cases r1)
    case (Inr c1)
    then have r: "r = Inr (c1, False)" "w' = w1" using assms(1) first by (simp_all add: newPinnedCollection_def)
    show ?thesis using n1 assms(2,3) Inr unfolding r keeps_pins_def by simp
  next
    case (Inl e)
    show ?thesis
    proof (cases "err_is e ErrMapIncompatible")
      case False
      then show ?thesis using assms(1) first Inl n1 by (auto simp: newPinnedCollection_def)
    next
      case True
      obtain errs w2 where R: "remove_pins lib pin pinnedMapNames w1 = (errs, w2)" by (rule prod.exhaust)
      note rm = remove_pins [OF R]
      show ?thesis
      proof (cases "errs = []")
        case False
        then show ?thesis using assms(1) first Inl True R n1 rm(1) by (auto simp: newPinnedCollection_def RemovePins_def)
      next
        case none: True
        obtain r2 w3 where second: "lib_NewCollection lib spec pin w2 = (r2, w3)" by (rule prod.exhaust)
        note n2 = new_collection [OF second]
        have w': "w' = w3" "r = (case r2 of Inl e2 \<Rightarrow> Inl (Errorf ''pinned maps were incompatible'' [e, e2]) | Inr c2 \<Rightarrow> Inr (c2, True))"
          using assms(1) first Inl True R none second by (auto simp: newPinnedCollection_def RemovePins_def split: sum.splits)
        have h: "held w2 = held w" using n1 rm(1) Inl by simp
        show ?thesis
        proof (cases r2)
          case (Inr c2)
          have "\<exists>m. map_of (co_Maps c2) name = Some m \<and> pins w3 (Join pin name) = Some m \<and> kernel_map sys m w3 = Map.empty"
            if "name \<in> set pinnedMapNames" for name
            using n2 [THEN conjunct2, THEN conjunct2] Inr assms(2,3) that rm(3) [OF none that] by blast
          then show ?thesis using n2 [THEN conjunct1] w' h Inr by simp
        next
          case Inl2: (Inl e2)
          then show ?thesis using n2 [THEN conjunct1] w' h by simp
        qed
      qed
    qed
  qed
  then show "held w' = held w + (case r of Inr _ \<Rightarrow> 1 | Inl _ \<Rightarrow> 0)"
    and "r = Inr (coll, reset) \<Longrightarrow> \<not> reset \<Longrightarrow> keeps_pins w w'"
    and "r = Inr (coll, reset) \<Longrightarrow> name \<in> set pinnedMapNames \<Longrightarrow> \<exists>m. map_of (co_Maps coll) name = Some m \<and> pins w' (Join pin name) = Some m \<and>
      (reset \<or> pins w (Join pin name) = None \<longrightarrow> kernel_map sys m w' = Map.empty)" by blast+
qed

lemma mark_maps:
  assumes "mark_maps names spec = Inr spec'"
  shows "\<forall>name. (name \<in> set names \<or> (\<exists>ms. map_of (cs_Maps spec) name = Some ms \<and> ms_PinByName ms)) \<longrightarrow>
    (\<exists>ms. map_of (cs_Maps spec') name = Some ms \<and> ms_PinByName ms)"
  using assms
proof (induction names arbitrary: spec)
  case (Cons n names)
  then obtain ms where ms: "map_of (cs_Maps spec) n = Some ms" by (auto split: option.splits)
  from Cons have "mark_maps names (spec\<lparr>cs_Maps := AList.update n (ms\<lparr>ms_PinByName := True\<rparr>) (cs_Maps spec)\<rparr>) = Inr spec'" by (simp add: ms)
  from Cons.IH [OF this] show ?case by (auto simp: update_conv')
qed simp

lemma open_collection:
  assumes "open_collection lib spec pin w = (r, w')"
  shows "held w' = held w + (case r of Inr _ \<Rightarrow> 1 | Inl _ \<Rightarrow> 0)"
    and "r = Inr (coll, reset) \<Longrightarrow> pin \<noteq> [] \<Longrightarrow> \<not> reset \<Longrightarrow> keeps_pins w w'"
    and "r = Inr (coll, reset) \<Longrightarrow> pin \<noteq> [] \<Longrightarrow> name \<in> set pinnedMapNames \<Longrightarrow>
      \<exists>m. map_of (co_Maps coll) name = Some m \<and> pins w' (Join pin name) = Some m \<and>
        (reset \<or> pins w (Join pin name) = None \<longrightarrow> kernel_map sys m w' = Map.empty)"
proof -
  obtain e w1 where E: "ensurePinDir lib pin w = (e, w1)" by (rule prod.exhaust)
  note q = ensurePinDir_quiet [OF E]
  have "held w' = held w + (case r of Inr _ \<Rightarrow> 1 | Inl _ \<Rightarrow> 0) \<and>
    (\<forall>coll reset. r = Inr (coll, reset) \<and> pin \<noteq> [] \<longrightarrow> (\<not> reset \<longrightarrow> keeps_pins w w') \<and>
      (\<forall>name \<in> set pinnedMapNames. \<exists>m. map_of (co_Maps coll) name = Some m \<and> pins w' (Join pin name) = Some m \<and>
        (reset \<or> pins w (Join pin name) = None \<longrightarrow> kernel_map sys m w' = Map.empty)))"
  proof (cases "pin = []")
    case True
    obtain r1 w2 where N: "lib_NewCollection lib spec [] w = (r1, w2)" by (rule prod.exhaust)
    show ?thesis using assms True new_collection [OF N, THEN conjunct1] N by (cases r1) (auto simp: open_collection_def)
  next
    case pin: False
    show ?thesis
    proof (cases "e = None \<and> (\<exists>spec'. markPinnedMaps spec = Inr spec')")
      case False
      then show ?thesis using assms pin E q by (auto simp: open_collection_def split: option.splits sum.splits)
    next
      case True
      then obtain spec' where spec': "markPinnedMaps spec = Inr spec'" by blast
      obtain r1 w2 where N: "newPinnedCollection lib spec' pin w1 = (r1, w2)" by (rule prod.exhaust)
      have "\<forall>name \<in> set pinnedMapNames. \<exists>ms. map_of (cs_Maps spec') name = Some ms \<and> ms_PinByName ms"
        using mark_maps [OF spec' [unfolded markPinnedMaps_def]] by blast
      note n = newPinnedCollection [OF N pin this]
      have w': "w' = w2" and r: "r = (case r1 of Inl e \<Rightarrow> Inl (wrap ''instantiate bpf collection'' e) | Inr x \<Rightarrow> Inr x)"
        using assms pin E True spec' N by (auto simp: open_collection_def split: sum.splits)
      have pins1: "pins w1 = pins w" using q by (simp add: same_pins_def)
      show ?thesis
      proof (cases r1)
        case (Inl e1)
        then show ?thesis using n(1) r w' q by simp
      next
        case (Inr x)
        then have rx: "r = Inr x" using r by simp
        show ?thesis
          unfolding rx w' using n q Inr pins1 same_pins_keeps [of w w1 w2] by auto
      qed
    qed
  qed
  then show "held w' = held w + (case r of Inr _ \<Rightarrow> 1 | Inl _ \<Rightarrow> 0)"
    and "r = Inr (coll, reset) \<Longrightarrow> pin \<noteq> [] \<Longrightarrow> \<not> reset \<Longrightarrow> keeps_pins w w'"
    and "r = Inr (coll, reset) \<Longrightarrow> pin \<noteq> [] \<Longrightarrow> name \<in> set pinnedMapNames \<Longrightarrow>
      \<exists>m. map_of (co_Maps coll) name = Some m \<and> pins w' (Join pin name) = Some m \<and>
        (reset \<or> pins w (Join pin name) = None \<longrightarrow> kernel_map sys m w' = Map.empty)" by blast+
qed

text \<open>The steps after the collection is open: all or nothing.\<close>

definition balanced :: "('w \<Rightarrow> (err + 'a) \<times> 'w) \<Rightarrow> bool" where
  "balanced f \<longleftrightarrow> (\<forall>w r w'. f w = (r, w') \<longrightarrow> same_pins w w' \<and> held w' = held w + (case r of Inr _ \<Rightarrow> 1 | Inl _ \<Rightarrow> - 1))"

lemma closed: "held (lib_CloseCollection lib h w) = held w - 1" "same_pins w (lib_CloseCollection lib h w)"
  "held (snd (lib_CloseLink lib h w)) = held w - 1" "same_pins w (snd (lib_CloseLink lib h w))"
  using close [of "lib_CloseCollection lib h w" h w] close [of "snd (lib_CloseLink lib h w)" h w] by (simp_all add: same_pins_def)

lemma balanced_exported: "(\<And>m. balanced (rest m)) \<Longrightarrow> balanced (exported lib coll table name rest)"
  by (auto simp: balanced_def exported_def closed split: option.splits)

lemma balanced_attach_link: "balanced (attach_link lib coll prog ifi mk)"
  unfolding balanced_def
proof (intro allI impI)
  fix w r w'
  assume run: "attach_link lib coll prog ifi mk w = (r, w')"
  obtain ra w1 where A: "lib_AttachXDP lib prog ifi w = (ra, w1)" by (rule prod.exhaust)
  have a: "same_pins w w1" "held w1 = held w + (case ra of Inr _ \<Rightarrow> 1 | Inl _ \<Rightarrow> 0)" using attach [OF A] by (auto simp: same_pins_def)
  obtain rc w2 where C: "monotonicToWallClockOffset lib w1 = (rc, w2)" by (rule prod.exhaust)
  note c = clock_quiet [OF C]
  show "same_pins w w' \<and> held w' = held w + (case r of Inr _ \<Rightarrow> 1 | Inl _ \<Rightarrow> - 1)"
  proof (cases "verifyEnforcementKeySizes lib (co_Maps coll)")
    case (Some e)
    then show ?thesis using run by (auto simp: attach_link_def closed)
  next
    case None
    show ?thesis
    proof (cases ra)
      case (Inl e)
      then show ?thesis using run None A a closed same_pins_trans by (auto simp: attach_link_def)
    next
      case (Inr l)
      have "same_pins w w2" using a(1) c same_pins_trans by blast
      then have "same_pins w (lib_CloseCollection lib h (snd (lib_CloseLink lib l w2)))" for h using closed(2,4) same_pins_trans by blast
      then show ?thesis
        using run None A a(2) C c \<open>same_pins w w2\<close> Inr by (cases rc) (auto simp: attach_link_def closed)
    qed
  qed
qed

lemma balanced_attach_collection: "balanced (attach_collection lib coll ifi pin reset)"
  unfolding attach_collection_def by (intro balanced_exported balanced_attach_link)

lemma balanced_pins: "balanced f \<Longrightarrow> f w = (r, w') \<Longrightarrow> same_pins w w'"
  and balanced_held: "balanced f \<Longrightarrow> f w = (r, w') \<Longrightarrow> held w' = held w + (case r of Inr _ \<Rightarrow> 1 | Inl _ \<Rightarrow> - 1)"
  by (auto simp: balanced_def)

lemma exported_Inr: "exported lib coll table name rest w = (Inr x, w') \<longleftrightarrow> (\<exists>m. map_of table name = Some m \<and> rest m w = (Inr x, w'))"
  by (auto simp: exported_def split: option.splits)

lemma attach_link_Inr: "attach_link lib coll prog ifi mk w = (Inr x, w') \<Longrightarrow> verifyEnforcementKeySizes lib (co_Maps coll) = None \<and> (\<exists>l b. x = mk l b)"
  by (auto simp: attach_link_def split: option.splits sum.splits prod.splits)

lemma AttachWithOptions_held:
  assumes "AttachWithOptions lib objPath iface pin w = (r, w')"
  shows "held w' = held w + (case r of Inr _ \<Rightarrow> 2 | Inl _ \<Rightarrow> 0)"
proof -
  obtain ri w1 where I: "lib_InterfaceByName lib iface w = (ri, w1)" by (rule prod.exhaust)
  obtain rs w2 where S: "lib_LoadCollectionSpec lib objPath w1 = (rs, w2)" by (rule prod.exhaust)
  note q = quiet_calls(1) [OF I] quiet_calls(2) [OF S]
  show ?thesis
  proof (cases "\<exists>ifi spec. ri = Inr ifi \<and> rs = Inr spec")
    case False
    then show ?thesis using assms I S q by (auto simp: AttachWithOptions_def split: sum.splits)
  next
    case True
    then obtain ifi spec where ok: "ri = Inr ifi" "rs = Inr spec" by blast
    obtain ro w3 where O: "open_collection lib spec pin w2 = (ro, w3)" by (rule prod.exhaust)
    note o = open_collection(1) [OF O]
    show ?thesis
    proof (cases ro)
      case (Inl e)
      then show ?thesis using assms I S O ok q o by (auto simp: AttachWithOptions_def)
    next
      case (Inr x)
      obtain coll reset where x: "x = (coll, reset)" by (rule prod.exhaust)
      note run = assms [unfolded AttachWithOptions_def I S O ok Inr x prod.case sum.case]
      have "held w' = held w3 + (case r of Inr _ \<Rightarrow> 1 | Inl _ \<Rightarrow> - 1)"
        by (rule balanced_held [OF balanced_attach_collection run])
      then show ?thesis using q o Inr by (cases r) simp_all
    qed
  qed
qed

lemma AttachWithOptions_success:
  assumes "AttachWithOptions lib objPath iface pin w = (Inr l, w')"
  obtains spec w2 coll w3 where "same_pins w w2" "open_collection lib spec pin w2 = (Inr (coll, pinReset l), w3)" "same_pins w3 w'"
    "map_of (co_Maps coll) blocklistMapName = Some (blocklist l)" "map_of (co_Maps coll) blocklistV6MapName = Some (blocklistV6 l)"
    "map_of (co_Maps coll) tunnelBlocklistMapName = Some (tunnelBlocklist l)" "map_of (co_Maps coll) tunnelBlocklistV6MapName = Some (tunnelBlocklistV6 l)"
    "verifyEnforcementKeySizes lib (co_Maps coll) = None" "pinPath l = pin" "collection l = co_handle coll"
proof -
  obtain ri w1 where I: "lib_InterfaceByName lib iface w = (ri, w1)" by (rule prod.exhaust)
  obtain rs w2 where S: "lib_LoadCollectionSpec lib objPath w1 = (rs, w2)" by (rule prod.exhaust)
  obtain ifi spec where ok: "ri = Inr ifi" "rs = Inr spec"
    using assms I S by (cases ri; cases rs) (auto simp: AttachWithOptions_def)
  obtain ro w3 where O: "open_collection lib spec pin w2 = (ro, w3)" by (rule prod.exhaust)
  obtain coll reset where x: "ro = Inr (coll, reset)"
    using assms I S O ok by (cases ro) (auto simp: AttachWithOptions_def)
  note run = assms [unfolded AttachWithOptions_def I S O ok x prod.case sum.case]
  have "same_pins w3 w'" by (rule balanced_pins [OF balanced_attach_collection run])
  moreover have "same_pins w w2" using quiet_calls(1) [OF I] quiet_calls(2) [OF S] same_pins_trans by blast
  ultimately show ?thesis
    using that O x run unfolding attach_collection_def exported_Inr by (elim exE conjE) (drule attach_link_Inr, auto)
qed

lemma attached_map:
  assumes "AttachWithOptions lib objPath iface pin w = (Inr l, w')" "pin \<noteq> []"
    and "(name, m) \<in> {(blocklistMapName, blocklist l), (blocklistV6MapName, blocklistV6 l), (tunnelBlocklistMapName, tunnelBlocklist l), (tunnelBlocklistV6MapName, tunnelBlocklistV6 l)}"
  shows "pins w' (Join pin name) = Some m"
    and "pinReset l \<or> pins w (Join pin name) = None \<Longrightarrow> kernel_map sys m w' = Map.empty"
    and "\<not> pinReset l \<Longrightarrow> pins w (Join pin name) = Some m0 \<Longrightarrow> m = m0 \<and> kernel_map sys m w' = kernel_map sys m w"
proof -
  obtain spec w2 coll w3 where w2: "same_pins w w2" and o: "open_collection lib spec pin w2 = (Inr (coll, pinReset l), w3)" and w': "same_pins w3 w'"
    and maps: "map_of (co_Maps coll) blocklistMapName = Some (blocklist l)" "map_of (co_Maps coll) blocklistV6MapName = Some (blocklistV6 l)"
    "map_of (co_Maps coll) tunnelBlocklistMapName = Some (tunnelBlocklist l)" "map_of (co_Maps coll) tunnelBlocklistV6MapName = Some (tunnelBlocklistV6 l)"
    using AttachWithOptions_success [OF assms(1)] by metis
  have "name \<in> set pinnedMapNames" using assms(3) by (auto simp: pinnedMapNames_def)
  moreover have m: "map_of (co_Maps coll) name = Some m" using assms(3) maps by auto
  ultimately have p3: "pins w3 (Join pin name) = Some m"
    and e: "pinReset l \<or> pins w2 (Join pin name) = None \<Longrightarrow> kernel_map sys m w3 = Map.empty"
    using open_collection(3) [OF o refl assms(2), of name] by auto
  have p2: "pins w2 = pins w" and keep2: "pins w f = Some h \<Longrightarrow> kernel_map sys h w2 = kernel_map sys h w" for f h
    using w2 by (auto simp: same_pins_def)
  have keep3: "kernel_map sys m w' = kernel_map sys m w3" using w' p3 by (auto simp: same_pins_def)
  show "pins w' (Join pin name) = Some m" using w' p3 by (simp add: same_pins_def)
  show "kernel_map sys m w' = Map.empty" if "pinReset l \<or> pins w (Join pin name) = None" using e that keep3 p2 by simp
  show "m = m0 \<and> kernel_map sys m w' = kernel_map sys m w" if "\<not> pinReset l" "pins w (Join pin name) = Some m0"
    using open_collection(2) [OF o refl assms(2) that(1)] that(2) p2 p3 keep2 keep3 by (auto simp: keeps_pins_def)
qed

lemma restart_map:
  assumes "AttachWithOptions lib objPath iface pin w = (Inr l, w1)" "AttachWithOptions lib objPath' iface' pin w2 = (Inr l', w3)" "pin \<noteq> []"
    and "pins w2 (Join pin name) = pins w1 (Join pin name)"
    and "(name, get) \<in> {(blocklistMapName, blocklist), (blocklistV6MapName, blocklistV6), (tunnelBlocklistMapName, tunnelBlocklist), (tunnelBlocklistV6MapName, tunnelBlocklistV6)}"
  shows "content \<lparr>k_sys = sys, k_loader = l', k_world = w3\<rparr> get =
    (if pinReset l' then {} else content \<lparr>k_sys = sys, k_loader = l, k_world = w2\<rparr> get)"
proof -
  have n: "(name, get l) \<in> {(blocklistMapName, blocklist l), (blocklistV6MapName, blocklistV6 l), (tunnelBlocklistMapName, tunnelBlocklist l), (tunnelBlocklistV6MapName, tunnelBlocklistV6 l)}"
    and n': "(name, get l') \<in> {(blocklistMapName, blocklist l'), (blocklistV6MapName, blocklistV6 l'), (tunnelBlocklistMapName, tunnelBlocklist l'), (tunnelBlocklistV6MapName, tunnelBlocklistV6 l')}"
    using assms(5) by auto
  have "pins w2 (Join pin name) = Some (get l)" using attached_map(1) [OF assms(1,3) n] assms(4) by simp
  then show ?thesis using attached_map(2,3) [OF assms(2,3) n'] by (auto simp: content_def)
qed

end

subsection \<open>A simulated platform\<close>

text \<open>Maps are numbered and carry their key size; pins are files.\<close>

datatype sim_handle = SimMap (sim_id: nat) (sim_size: nat)

record sim_bpf =
  sb_maps :: "sim_handle \<Rightarrow> (bytes \<times> bytes) list"
  sb_files :: "(string \<times> sim_handle) list"
  sb_next :: nat
  sb_held :: int

definition sim_sys :: "(sim_handle, sim_bpf) bpf_sys" where
  "sim_sys = \<lparr>
     map_Put = (\<lambda>m k v w. (None, w\<lparr>sb_maps := (sb_maps w)(m := AList.update k v (sb_maps w m))\<rparr>)),
     map_Delete = (\<lambda>m k w. if map_of (sb_maps w m) k = None then (Some (Sentinel ErrKeyNotExist), w)
                            else (None, w\<lparr>sb_maps := (sb_maps w)(m := AList.delete k (sb_maps w m))\<rparr>)),
     map_Lookup = (\<lambda>m k w. (case map_of (sb_maps w m) k of None \<Rightarrow> Inl (Sentinel ErrKeyNotExist) | Some v \<Rightarrow> Inr v, w)),
     map_Iterate = (\<lambda>m w. ((AList.clearjunk (sb_maps w m), None), w)),
     map_MaxEntries = (\<lambda>m. 65536),
     kernel_map = (\<lambda>m w. map_of (sb_maps w m))\<rparr>"

definition sim_fresh :: "sim_bpf \<Rightarrow> nat" where
  "sim_fresh w = Suc (fold max (map (sim_id \<circ> snd) (sb_files w)) (sb_next w))"

definition sim_create :: "nat \<Rightarrow> string option \<Rightarrow> sim_bpf \<Rightarrow> sim_handle \<times> sim_bpf" where
  "sim_create ksize file w =
     (let m = SimMap (sim_fresh w) ksize in
      (m, w\<lparr>sb_maps := (sb_maps w)(m := []), sb_next := sim_fresh w,
            sb_files := (case file of Some f \<Rightarrow> (f, m) # sb_files w | None \<Rightarrow> sb_files w)\<rparr>))"

definition sim_map :: "string \<Rightarrow> string \<times> MapSpec \<Rightarrow> sim_bpf \<Rightarrow> sim_handle \<times> sim_bpf" where
  "sim_map pin entry w =
     (case entry of (name, ms) \<Rightarrow>
        if ms_PinByName ms \<and> pin \<noteq> []
        then (case map_of (sb_files w) (Join pin name) of Some m \<Rightarrow> (m, w) | None \<Rightarrow> sim_create (ms_KeySize ms) (Some (Join pin name)) w)
        else sim_create (ms_KeySize ms) None w)"

fun sim_open :: "string \<Rightarrow> (string \<times> MapSpec) list \<Rightarrow> sim_bpf \<Rightarrow> (string \<times> sim_handle) list \<times> sim_bpf" where
  "sim_open pin [] w = ([], w)"
| "sim_open pin (entry # entries) w =
     (let (m, w1) = sim_map pin entry w; (table, w2) = sim_open pin entries w1 in ((fst entry, m) # table, w2))"

definition sim_object :: CollectionSpec where
  "sim_object = \<lparr>cs_Programs = [xdpProgramName], cs_Maps = map (\<lambda>(name, ksize). (name, \<lparr>ms_KeySize = ksize, ms_MaxEntries = 64, ms_PinByName = False\<rparr>))
     [(blocklistMapName, 4), (signalRateMapName, 4), (scanRateMapName, 8), (tunnelRateMapName, 8), (tunnelBlocklistMapName, 8), (signalingEventsMapName, 0),
      (blocklistV6MapName, 16), (signalRateV6MapName, 16), (scanRateV6MapName, 20), (tunnelRateV6MapName, 24), (tunnelBlocklistV6MapName, 24),
      (signalingEventsV6MapName, 0)]\<rparr>"

definition sim_lib :: "(sim_handle, sim_bpf) bpf_lib" where
  "sim_lib = \<lparr>
     lib_InterfaceByName = (\<lambda>i w. (if i = ''eth0'' then Inr 2 else Inl (new_err ''no such network interface''), w)),
     lib_LoadCollectionSpec = (\<lambda>p w. (if p = ''packet_filter.o'' then Inr sim_object else Inl (Sentinel ErrNotExist), w)),
     lib_NewCollection = (\<lambda>spec pin w. case sim_open pin (cs_Maps spec) w of
        (table, w1) \<Rightarrow> (Inr \<lparr>co_handle = SimMap 0 0, co_Programs = map (\<lambda>p. (p, SimMap 0 0)) (cs_Programs spec), co_Maps = table\<rparr>, w1\<lparr>sb_held := sb_held w + 1\<rparr>)),
     lib_CloseCollection = (\<lambda>h w. w\<lparr>sb_held := sb_held w - 1\<rparr>),
     lib_KeySize = sim_size,
     lib_AttachXDP = (\<lambda>h i w. (Inr (SimMap 0 0), w\<lparr>sb_held := sb_held w + 1\<rparr>)),
     lib_CloseLink = (\<lambda>h w. (None, w\<lparr>sb_held := sb_held w - 1\<rparr>)),
     lib_ClockGettime = (\<lambda>w. (Inr (5, 7), w)),
     lib_Now = (\<lambda>w. (100 * second, w)),
     lib_Stat = (\<lambda>p w. (if p \<in> {''/'', ''/sys/fs/bpf''} then None else Some (Sentinel ErrNotExist), w)),
     lib_Statfs = (\<lambda>p w. (Inr (if p = ''/sys/fs/bpf'' then BPF_FS_MAGIC else 0), w)),
     lib_MkdirAll = (\<lambda>p w. (None, w)),
     lib_Remove = (\<lambda>f w. if map_of (sb_files w) f = None then (Some (Sentinel ErrNotExist), w)
                          else (None, w\<lparr>sb_files := filter (\<lambda>(g, _). g \<noteq> f) (sb_files w)\<rparr>))\<rparr>"

lemma le_fold_max: "n \<le> fold max ns (n :: nat)" "k \<in> set ns \<Longrightarrow> k \<le> fold max ns (n :: nat)"
proof -
  have mono: "n \<le> fold max ns (n :: nat)" for n ns by (induction ns arbitrary: n) (auto intro: order_trans [OF max.cobounded2])
  then show "n \<le> fold max ns n" .
  show "k \<in> set ns \<Longrightarrow> k \<le> fold max ns (n :: nat)" by (induction ns arbitrary: n) (auto intro: order_trans [OF max.cobounded1 mono])
qed

lemma sim_fresh: "map_of (sb_files w) f = Some m \<Longrightarrow> sim_id m \<noteq> sim_fresh w"
  using le_fold_max(2) [of "sim_id m" "map (sim_id \<circ> snd) (sb_files w)" "sb_next w"] by (force simp: sim_fresh_def dest!: map_of_SomeD)

lemma sim_map:
  assumes "sim_map pin entry w = (m, w')"
  shows "map_of (sb_files w) f = Some h \<Longrightarrow> map_of (sb_files w') f = Some h \<and> sb_maps w' h = sb_maps w h"
    and "map_of (sb_files w) f = None \<Longrightarrow> map_of (sb_files w') f = Some h \<Longrightarrow> sb_maps w' h = []"
    and "ms_PinByName (snd entry) \<Longrightarrow> pin \<noteq> [] \<Longrightarrow> map_of (sb_files w') (Join pin (fst entry)) = Some m"
  using assms sim_fresh [of w f h]
  by (auto simp: sim_map_def sim_create_def Let_def split: prod.splits if_splits option.splits)

lemma sim_open:
  assumes "sim_open pin entries w = (table, w')"
  shows "(\<forall>f h. map_of (sb_files w) f = Some h \<longrightarrow> map_of (sb_files w') f = Some h \<and> sb_maps w' h = sb_maps w h) \<and>
    (\<forall>f h. map_of (sb_files w) f = None \<longrightarrow> map_of (sb_files w') f = Some h \<longrightarrow> sb_maps w' h = []) \<and>
    (\<forall>name ms. map_of entries name = Some ms \<and> ms_PinByName ms \<and> pin \<noteq> [] \<longrightarrow>
       (\<exists>m. map_of table name = Some m \<and> map_of (sb_files w') (Join pin name) = Some m))"
  using assms
proof (induction entries arbitrary: w table)
  case (Cons entry entries)
  obtain m w1 where m: "sim_map pin entry w = (m, w1)" by (rule prod.exhaust)
  obtain rest where rest: "sim_open pin entries w1 = (rest, w')" "table = (fst entry, m) # rest" using Cons.prems m by (auto split: prod.splits)
  note IH = Cons.IH [OF rest(1)] and s = sim_map [OF m]
  show ?case
  proof (intro conjI allI impI)
    fix f h assume "map_of (sb_files w) f = Some h"
    from s(1) [OF this] show "map_of (sb_files w') f = Some h" "sb_maps w' h = sb_maps w h" using IH by metis+
  next
    fix f h assume "map_of (sb_files w) f = None" "map_of (sb_files w') f = Some h"
    then show "sb_maps w' h = []" using IH s(2) [of f] by (metis option.collapse option.inject)
  next
    fix name ms assume "map_of (entry # entries) name = Some ms \<and> ms_PinByName ms \<and> pin \<noteq> []"
    then show "\<exists>m. map_of table name = Some m \<and> map_of (sb_files w') (Join pin name) = Some m"
      using IH s(3) rest(2) by (cases "name = fst entry"; cases entry) auto
  qed
qed simp

lemma map_of_filter_neq: "map_of (filter (\<lambda>(g, _). g \<noteq> f) xs) = (map_of xs)(f := None)"
  by (induction xs) (auto simp: fun_eq_iff)

interpretation sim_platform: bpf_platform sim_lib sim_sys sb_held "\<lambda>w. map_of (sb_files w)"
proof
  fix spec pin w r w'
  assume run: "lib_NewCollection sim_lib spec pin w = (r, w')"
  obtain table w1 where o: "sim_open pin (cs_Maps spec) w = (table, w1)" by (rule prod.exhaust)
  have w': "r = Inr \<lparr>co_handle = SimMap 0 0, co_Programs = map (\<lambda>p. (p, SimMap 0 0)) (cs_Programs spec), co_Maps = table\<rparr>" "w' = w1\<lparr>sb_held := sb_held w + 1\<rparr>"
    using run o by (auto simp: sim_lib_def)
  note s = sim_open [OF o]
  show "sb_held w' = sb_held w + (case r of Inr _ \<Rightarrow> 1 | Inl _ \<Rightarrow> 0) \<and>
    (\<forall>f m. map_of (sb_files w) f = Some m \<longrightarrow> map_of (sb_files w') f = Some m \<and> kernel_map sim_sys m w' = kernel_map sim_sys m w) \<and>
    (\<forall>coll name ms. r = Inr coll \<and> pin \<noteq> [] \<and> map_of (cs_Maps spec) name = Some ms \<and> ms_PinByName ms \<longrightarrow>
      (\<exists>m. map_of (co_Maps coll) name = Some m \<and> map_of (sb_files w') (Join pin name) = Some m \<and>
        (map_of (sb_files w) (Join pin name) = None \<longrightarrow> kernel_map sim_sys m w' = Map.empty)))"
  proof (intro conjI allI impI)
    show "sb_held w' = sb_held w + (case r of Inr _ \<Rightarrow> 1 | Inl _ \<Rightarrow> 0)" by (simp add: w')
  next
    fix f m assume "map_of (sb_files w) f = Some m"
    then show "map_of (sb_files w') f = Some m" "kernel_map sim_sys m w' = kernel_map sim_sys m w" using s by (simp_all add: w' sim_sys_def)
  next
    fix coll name ms assume "r = Inr coll \<and> pin \<noteq> [] \<and> map_of (cs_Maps spec) name = Some ms \<and> ms_PinByName ms"
    then show "\<exists>m. map_of (co_Maps coll) name = Some m \<and> map_of (sb_files w') (Join pin name) = Some m \<and>
        (map_of (sb_files w) (Join pin name) = None \<longrightarrow> kernel_map sim_sys m w' = Map.empty)"
      using s by (force simp: w' sim_sys_def)
  qed
qed (auto simp: sim_lib_def sim_sys_def map_of_filter_neq fun_eq_iff split: if_splits)

subsection \<open>Properties\<close>

text \<open>
  C36: a restart loses no drop silently. The operator attaches with a pin path, blocks and unblocks, and ends in whatever way; as long as its pins are still there, the next attach
  with that path has the kernel drop exactly what it dropped before, whole addresses and single tunnels, unless the loader says that it had to
  discard the pins, and then nothing is dropped.
\<close>

theorem drops_survive_restart:
  assumes "bpf_platform lib sys held pins" and "pin \<noteq> []"
    and "AttachWithOptions lib objPath iface pin w = (Inr l, w1)" and "AttachWithOptions lib objPath' iface' pin w2 = (Inr l', w3)"
    and "\<forall>name \<in> set pinnedMapNames. pins w2 (Join pin name) = pins w1 (Join pin name)"
  shows "let old = \<lparr>k_sys = sys, k_loader = l, k_world = w2\<rparr>; new = \<lparr>k_sys = sys, k_loader = l', k_world = w3\<rparr>
    in loader_drops new = (if pinReset l' then {} else loader_drops old) \<and> loader_tdrops new = (if pinReset l' then {} else loader_tdrops old)"
proof -
  note r = bpf_platform.restart_map [OF assms(1,3,4,2)]
  show ?thesis
    using r [of blocklistMapName blocklist] r [of blocklistV6MapName blocklistV6] r [of tunnelBlocklistMapName tunnelBlocklist]
      r [of tunnelBlocklistV6MapName tunnelBlocklistV6] assms(5)
    by (simp add: loader_drops_def loader_tdrops_def pinnedMapNames_def)
qed

definition sim_boot :: sim_bpf where
  "sim_boot = \<lparr>sb_maps = (\<lambda>_. []), sb_files = [], sb_next = 0, sb_held = 0\<rparr>"

definition sim_pin :: string where
  "sim_pin = ''/sys/fs/bpf/s5g''"

definition sim_attach :: "sim_bpf \<Rightarrow> (err + sim_handle Loader) \<times> sim_bpf" where
  "sim_attach w = AttachWithOptions sim_lib ''packet_filter.o'' ''eth0'' sim_pin w"

lemma sim_open_sizes:
  assumes "sim_open pin entries w = (table, w')" "distinct (map (Join pin \<circ> fst) entries)"
    and "\<forall>(name, ms) \<in> set entries. \<forall>h. map_of (sb_files w) (Join pin name) = Some h \<longrightarrow> sim_size h = ms_KeySize ms"
  shows "map fst table = map fst entries \<and> map (sim_size \<circ> snd) table = map (ms_KeySize \<circ> snd) entries"
  using assms
proof (induction entries arbitrary: w table)
  case (Cons entry entries)
  obtain name ms where entry: "entry = (name, ms)" by (rule prod.exhaust)
  obtain m w1 where m: "sim_map pin entry w = (m, w1)" by (rule prod.exhaust)
  obtain rest where rest: "sim_open pin entries w1 = (rest, w')" "table = (name, m) # rest" using Cons.prems(1) m entry by (auto split: prod.splits)
  have size: "sim_size m = ms_KeySize ms"
    using m Cons.prems(3) by (auto simp: entry sim_map_def sim_create_def Let_def split: if_splits option.splits)
  have "map_of (sb_files w1) (Join pin n) = map_of (sb_files w) (Join pin n)" if "(n, s) \<in> set entries" for n s
  proof -
    have "Join pin n \<noteq> Join pin name" using Cons.prems(2) that by (force simp: entry)
    then show ?thesis using m by (auto simp: entry sim_map_def sim_create_def Let_def split: if_splits option.splits)
  qed
  then have "\<forall>(n, s) \<in> set entries. \<forall>h. map_of (sb_files w1) (Join pin n) = Some h \<longrightarrow> sim_size h = ms_KeySize s"
    using Cons.prems(3) by (auto split: prod.splits)
  with Cons.IH [OF rest(1)] Cons.prems(2) show ?case by (simp add: rest(2) entry size)
qed simp

definition sim_marked :: CollectionSpec where
  "sim_marked = projr (markPinnedMaps sim_object)"

lemmas map_names = blocklistMapName_def signalRateMapName_def scanRateMapName_def tunnelRateMapName_def tunnelBlocklistMapName_def signalingEventsMapName_def
  blocklistV6MapName_def signalRateV6MapName_def scanRateV6MapName_def tunnelRateV6MapName_def tunnelBlocklistV6MapName_def signalingEventsV6MapName_def

lemma sim_marked:
  "markPinnedMaps sim_object = Inr sim_marked" "cs_Programs sim_marked = [xdpProgramName]"
  "map (\<lambda>(name, ms). (name, ms_KeySize ms)) (cs_Maps sim_marked) =
     [(blocklistMapName, 4), (signalRateMapName, 4), (scanRateMapName, 8), (tunnelRateMapName, 8), (tunnelBlocklistMapName, 8), (signalingEventsMapName, 0),
      (blocklistV6MapName, 16), (signalRateV6MapName, 16), (scanRateV6MapName, 20), (tunnelRateV6MapName, 24), (tunnelBlocklistV6MapName, 24),
      (signalingEventsV6MapName, 0)]"
  by (simp_all add: sim_marked_def markPinnedMaps_def pinnedMapNames_def sim_object_def map_names)

lemma sim_joins: "distinct (map (Join sim_pin \<circ> fst) (cs_Maps sim_marked))"
  by code_simp

lemma sim_dir: "ensurePinDir sim_lib sim_pin w = (None, w)"
proof -
  have "Clean ''/sys/fs/bpf/s5g'' = ''/sys/fs/bpf/s5g''" "Dir ''/sys/fs/bpf/s5g'' = ''/sys/fs/bpf''" by code_simp+
  then show ?thesis by (simp add: ensurePinDir_def sim_pin_def nearest_existing.simps sim_lib_def)
qed

lemma map_pair: "map (\<lambda>(n, h). (n, f h)) xs = zip (map fst xs) (map (f \<circ> snd) xs)"
  by (induction xs) auto

definition sim_compatible :: "sim_bpf \<Rightarrow> bool" where
  "sim_compatible w \<longleftrightarrow> (\<forall>name ms h. (name, ms) \<in> set (cs_Maps sim_marked) \<longrightarrow> map_of (sb_files w) (Join sim_pin name) = Some h \<longrightarrow> sim_size h = ms_KeySize ms)"

lemma sim_open_compatible:
  assumes "sim_open sim_pin entries w = (table, w')" "sim_compatible w" "set entries \<subseteq> set (cs_Maps sim_marked)"
  shows "sim_compatible w'"
  using assms
proof (induction entries arbitrary: w table)
  case (Cons entry entries)
  obtain m w1 where m: "sim_map sim_pin entry w = (m, w1)" by (rule prod.exhaust)
  have "ms = snd entry" if "(n, ms) \<in> set (cs_Maps sim_marked)" "Join sim_pin n = Join sim_pin (fst entry)" for n ms
    using inj_onD [OF sim_joins [unfolded distinct_map, THEN conjunct2], of "(n, ms)" entry] that Cons.prems(3) by auto
  note same = this
  have "sim_size h = ms_KeySize ms" if n: "(n, ms) \<in> set (cs_Maps sim_marked)" and h: "map_of (sb_files w1) (Join sim_pin n) = Some h" for n ms h
  proof (cases "map_of (sb_files w) (Join sim_pin n) = Some h")
    case True
    then show ?thesis using Cons.prems(2) n unfolding sim_compatible_def by blast
  next
    case False
    then have "Join sim_pin n = Join sim_pin (fst entry)" "sim_size h = ms_KeySize (snd entry)"
      using m h by (auto simp: sim_map_def sim_create_def Let_def split: if_splits option.splits prod.splits)
    then show ?thesis using same [OF n] by simp
  qed
  then have "sim_compatible w1" unfolding sim_compatible_def by blast
  moreover obtain rest where "sim_open sim_pin entries w1 = (rest, w')" using Cons.prems(1) m by (auto split: prod.splits)
  ultimately show ?case using Cons.IH [of w1 rest] Cons.prems(3) by simp
qed simp

lemma sim_attaches:
  assumes "sim_compatible w"
  shows "\<exists>l w'. sim_attach w = (Inr l, w') \<and> \<not> pinReset l \<and> sim_compatible w'"
proof -
  obtain table w1 where o: "sim_open sim_pin (cs_Maps sim_marked) w = (table, w1)" by (rule prod.exhaust)
  have compat: "\<forall>(name, ms) \<in> set (cs_Maps sim_marked). \<forall>h. map_of (sb_files w) (Join sim_pin name) = Some h \<longrightarrow> sim_size h = ms_KeySize ms"
    using assms unfolding sim_compatible_def by blast
  have "map (\<lambda>(n, h). (n, sim_size h)) table = map (\<lambda>(name, ms). (name, ms_KeySize ms)) (cs_Maps sim_marked)"
    using sim_open_sizes [OF o sim_joins compat] by (simp add: map_pair)
  note sizes = this [unfolded sim_marked(3)]
  have verified: "verifyEnforcementKeySizes sim_lib table = None"
    using sizes by (auto simp: map_eq_Cons_conv verifyEnforcementKeySizes_def enforcement_key_sizes_def map_names sim_lib_def)
  have new: "open_collection sim_lib sim_object sim_pin w =
    (Inr (\<lparr>co_handle = SimMap 0 0, co_Programs = [(xdpProgramName, SimMap 0 0)], co_Maps = table\<rparr>, False), w1\<lparr>sb_held := sb_held w + 1\<rparr>)"
    using o sim_dir [of w] sim_marked(1,2)
    by (simp add: open_collection_def newPinnedCollection_def sim_pin_def [THEN arg_cong, of "\<lambda>p. p = []"]) (simp add: sim_lib_def)
  have "lib_InterfaceByName sim_lib ''eth0'' w = (Inr 2, w)" "lib_LoadCollectionSpec sim_lib ''packet_filter.o'' w = (Inr sim_object, w)" for w
    by (simp_all add: sim_lib_def)
  then have run: "sim_attach w = attach_collection sim_lib \<lparr>co_handle = SimMap 0 0, co_Programs = [(xdpProgramName, SimMap 0 0)], co_Maps = table\<rparr> 2 sim_pin False
      (w1\<lparr>sb_held := sb_held w + 1\<rparr>)"
    using new by (simp add: sim_attach_def AttachWithOptions_def)
  have link: "attach_link sim_lib \<lparr>co_handle = SimMap 0 0, co_Programs = ps, co_Maps = table\<rparr> prog ifi mk v =
      (Inr (mk (SimMap 0 0) 94999999993), v\<lparr>sb_held := sb_held v + 1\<rparr>)" for ps prog ifi mk v
    by (simp add: attach_link_def verified) (simp add: sim_lib_def monotonicToWallClockOffset_def)
  have "fst ` set table = fst ` set (map (\<lambda>(n, h). (n, sim_size h)) table)" by force
  then have "map_of table n \<noteq> None" if "n \<in> fst ` set (map (\<lambda>(n, h). (n, sim_size h)) table)" for n
    using that map_of_eq_None_iff [of table n] by auto
  then have "\<exists>m. map_of table n = Some m" if "n \<in> {blocklistMapName, signalRateMapName, scanRateMapName, tunnelRateMapName, tunnelBlocklistMapName, signalingEventsMapName,
      blocklistV6MapName, signalRateV6MapName, scanRateV6MapName, tunnelRateV6MapName, tunnelBlocklistV6MapName, signalingEventsV6MapName}" for n
    using that unfolding sizes by fastforce
  then obtain get where "\<And>n. n \<in> {blocklistMapName, signalRateMapName, scanRateMapName, tunnelRateMapName, tunnelBlocklistMapName, signalingEventsMapName,
      blocklistV6MapName, signalRateV6MapName, scanRateV6MapName, tunnelRateV6MapName, tunnelBlocklistV6MapName, signalingEventsV6MapName} \<Longrightarrow> map_of table n = Some (get n)"
    by metis
  moreover have "sim_compatible w1" by (rule sim_open_compatible [OF o assms subset_refl])
  ultimately show ?thesis unfolding run attach_collection_def by (simp add: exported_def link sim_compatible_def)
qed

definition sim_first :: "sim_handle Loader" where
  "sim_first = projr (fst (sim_attach sim_boot))"

definition sim_blocked :: sim_bpf where
  "sim_blocked = snd (map_Put sim_sys (blocklist sim_first) [10, 0, 0, 9] blockedValue (snd (Loader_Close sim_lib sim_first (snd (sim_attach sim_boot)))))"

definition sim_second :: "sim_handle Loader" where
  "sim_second = projr (fst (sim_attach sim_blocked))"

lemma sim_runs:
  shows "AttachWithOptions sim_lib ''packet_filter.o'' ''eth0'' sim_pin sim_boot = (Inr sim_first, snd (sim_attach sim_boot))"
    and "AttachWithOptions sim_lib ''packet_filter.o'' ''eth0'' sim_pin sim_blocked = (Inr sim_second, snd (sim_attach sim_blocked))"
    and "\<not> pinReset sim_second" and "sb_files sim_blocked = sb_files (snd (sim_attach sim_boot))"
proof -
  show files: "sb_files sim_blocked = sb_files (snd (sim_attach sim_boot))"
    by (simp add: sim_blocked_def sim_sys_def Loader_Close_def sim_lib_def)
  have "sim_compatible sim_boot" by (simp add: sim_compatible_def sim_boot_def)
  from sim_attaches [OF this] show first: "AttachWithOptions sim_lib ''packet_filter.o'' ''eth0'' sim_pin sim_boot = (Inr sim_first, snd (sim_attach sim_boot))"
    by (auto simp: sim_first_def sim_attach_def)
  have "sim_compatible (snd (sim_attach sim_boot))" using sim_attaches [OF \<open>sim_compatible sim_boot\<close>] by auto
  then have "sim_compatible sim_blocked" by (simp add: sim_compatible_def files)
  from sim_attaches [OF this] show "AttachWithOptions sim_lib ''packet_filter.o'' ''eth0'' sim_pin sim_blocked = (Inr sim_second, snd (sim_attach sim_blocked))"
    "\<not> pinReset sim_second"
    by (auto simp: sim_second_def sim_attach_def)
qed

theorem drops_survive_restart_witness:
  "canon [10, 0, 0, 9] \<in> loader_drops \<lparr>k_sys = sim_sys, k_loader = sim_second, k_world = snd (sim_attach sim_blocked)\<rparr>"
proof -
  have "canon [10, 0, 0, 9] \<in> loader_drops \<lparr>k_sys = sim_sys, k_loader = sim_first, k_world = sim_blocked\<rparr>"
    by (simp add: loader_drops_def content_def sim_blocked_def sim_sys_def update_conv')
  moreover have "sim_pin \<noteq> []" by (simp add: sim_pin_def)
  ultimately show ?thesis
    using drops_survive_restart [OF sim_platform.bpf_platform_axioms _ sim_runs(1,2)] sim_runs(3,4) by (simp add: Let_def)
qed





end
