(* ===== verification/Events.thy ===== *)
theory Events
  imports Prelude
begin

text \<open>
  The wire schema and the message bus of \<open>pkg/events\<close>: the two event types with their JSON
  form, the bus operations over an abstract NATS client (\<open>nats\<close>, whose operations thread a
  world \<open>'w\<close>), the acknowledgement decision of the threat-score subscription, and the
  connector's retry loop. A JSON document is a tree; \<open>None\<close> stands for data that does not parse.
\<close>

subsection \<open>Event types (\<open>types.go\<close>)\<close>

datatype Protocol =
    ProtocolGTPU
  | ProtocolSIP
  | ProtocolSMPP
  | ProtocolHTTP2
  | ProtocolPortScan
  | ProtocolUnknown

fun protocol_text :: "Protocol \<Rightarrow> string" where
  "protocol_text ProtocolGTPU = ''GTP-U''"
| "protocol_text ProtocolSIP = ''SIP''"
| "protocol_text ProtocolSMPP = ''SMPP''"
| "protocol_text ProtocolHTTP2 = ''HTTP2''"
| "protocol_text ProtocolPortScan = ''PORT_SCAN''"
| "protocol_text ProtocolUnknown = ''UNKNOWN''"

record NormalizedEvent =
  ne_EventID :: string
  ne_ObservedAt :: time
  ne_Namespace :: string
  ne_PodName :: string
  ne_NodeName :: string
  ne_SourceIP :: string
  ne_DestIP :: string
  ne_DestPort :: u16
  ne_Protocol :: Protocol
  ne_PayloadSize :: u32
  ne_RatePerSecond :: float64
  ne_Malformed :: bool
  ne_VLANID :: u16
  ne_TEID :: u32
  ne_TunnelRatePerSecond :: float64

record ThreatScoreEvent =
  ts_SourceEventID :: string
  ts_Namespace :: string
  ts_PodName :: string
  ts_SourceIP :: string
  ts_TEID :: u32
  ts_Score :: float64
  ts_Model :: string
  ts_DetectedAt :: time

definition zero_score :: ThreatScoreEvent where
  "zero_score = \<lparr>ts_SourceEventID = [], ts_Namespace = [], ts_PodName = [], ts_SourceIP = [],
     ts_TEID = 0, ts_Score = 0, ts_Model = [], ts_DetectedAt = zero_time\<rparr>"

subsection \<open>JSON (\<open>encoding/json\<close>)\<close>

text \<open>
  \<open>JInt\<close> is a number literal without fraction and exponent, \<open>JNum\<close> one with them, \<open>JTime\<close> a
  string that is a time in RFC 3339 form.
\<close>

datatype json =
    JNull
  | JBool bool
  | JInt int
  | JNum rat
  | JString string
  | JTime time
  | JArray "json list"
  | JObject "(string \<times> json) list"

definition json_float :: "float64 \<Rightarrow> json" where
  "json_float r = (if of_int \<lfloor>r\<rfloor> = r \<and> \<bar>r\<bar> < 10 ^ 21 then JInt \<lfloor>r\<rfloor> else JNum r)"

definition marshal_normalized :: "NormalizedEvent \<Rightarrow> json" where
  "marshal_normalized e = JObject [
     (''eventId'', JString (ne_EventID e)),
     (''observedAt'', JTime (ne_ObservedAt e)),
     (''namespace'', JString (ne_Namespace e)),
     (''podName'', JString (ne_PodName e)),
     (''nodeName'', JString (ne_NodeName e)),
     (''sourceIp'', JString (ne_SourceIP e)),
     (''destIp'', JString (ne_DestIP e)),
     (''destPort'', JInt (uint (ne_DestPort e))),
     (''protocol'', JString (protocol_text (ne_Protocol e))),
     (''payloadSize'', JInt (uint (ne_PayloadSize e))),
     (''ratePerSecond'', json_float (ne_RatePerSecond e)),
     (''malformed'', JBool (ne_Malformed e)),
     (''vlanId'', JInt (uint (ne_VLANID e))),
     (''teid'', JInt (uint (ne_TEID e))),
     (''tunnelRatePerSecond'', json_float (ne_TunnelRatePerSecond e))]"

definition marshal_score :: "ThreatScoreEvent \<Rightarrow> json" where
  "marshal_score e = JObject [
     (''sourceEventId'', JString (ts_SourceEventID e)),
     (''namespace'', JString (ts_Namespace e)),
     (''podName'', JString (ts_PodName e)),
     (''sourceIp'', JString (ts_SourceIP e)),
     (''teid'', JInt (uint (ts_TEID e))),
     (''score'', json_float (ts_Score e)),
     (''model'', JString (ts_Model e)),
     (''detectedAt'', JTime (ts_DetectedAt e))]"

text \<open>
  Decoding into a struct walks the object's members in order. A member selects the field with the
  same name up to letter case, \<open>null\<close> leaves a field alone, and a value of the wrong type is
  remembered as an error while the walk goes on. A decoder of one field returns \<open>None\<close> for a
  mismatch.
\<close>

definition ascii_lower :: "char \<Rightarrow> char" where
  "ascii_lower c = (if 65 \<le> (of_char c :: nat) \<and> (of_char c :: nat) \<le> 90 then char_of ((of_char c :: nat) + 32) else c)"

definition field_named :: "string \<Rightarrow> string \<Rightarrow> bool" where
  "field_named k name = (map ascii_lower k = map ascii_lower name)"

fun dec_string :: "json \<Rightarrow> (string \<Rightarrow> 'a) \<Rightarrow> 'a \<Rightarrow> 'a option" where
  "dec_string (JString s) f x = Some (f s)"
| "dec_string JNull f x = Some x"
| "dec_string _ f x = None"

fun dec_uint32 :: "json \<Rightarrow> (u32 \<Rightarrow> 'a) \<Rightarrow> 'a \<Rightarrow> 'a option" where
  "dec_uint32 (JInt i) f x = (if 0 \<le> i \<and> i < 2 ^ 32 then Some (f (word_of_int i)) else None)"
| "dec_uint32 JNull f x = Some x"
| "dec_uint32 _ f x = None"

fun dec_float :: "json \<Rightarrow> (float64 \<Rightarrow> 'a) \<Rightarrow> 'a \<Rightarrow> 'a option" where
  "dec_float (JInt i) f x = Some (f (of_int i))"
| "dec_float (JNum r) f x = Some (f r)"
| "dec_float JNull f x = Some x"
| "dec_float _ f x = None"

fun dec_time :: "json \<Rightarrow> (time \<Rightarrow> 'a) \<Rightarrow> 'a \<Rightarrow> 'a option" where
  "dec_time (JTime t) f x = Some (f t)"
| "dec_time JNull f x = Some x"
| "dec_time _ f x = None"

definition dec_score_field :: "string \<Rightarrow> json \<Rightarrow> ThreatScoreEvent \<Rightarrow> ThreatScoreEvent option" where
  "dec_score_field k v e =
     (if field_named k ''sourceEventId'' then dec_string v (\<lambda>s. e\<lparr>ts_SourceEventID := s\<rparr>) e
      else if field_named k ''namespace'' then dec_string v (\<lambda>s. e\<lparr>ts_Namespace := s\<rparr>) e
      else if field_named k ''podName'' then dec_string v (\<lambda>s. e\<lparr>ts_PodName := s\<rparr>) e
      else if field_named k ''sourceIp'' then dec_string v (\<lambda>s. e\<lparr>ts_SourceIP := s\<rparr>) e
      else if field_named k ''teid'' then dec_uint32 v (\<lambda>n. e\<lparr>ts_TEID := n\<rparr>) e
      else if field_named k ''score'' then dec_float v (\<lambda>r. e\<lparr>ts_Score := r\<rparr>) e
      else if field_named k ''model'' then dec_string v (\<lambda>s. e\<lparr>ts_Model := s\<rparr>) e
      else if field_named k ''detectedAt'' then dec_time v (\<lambda>t. e\<lparr>ts_DetectedAt := t\<rparr>) e
      else Some e)"

fun dec_score_members :: "(string \<times> json) list \<Rightarrow> ThreatScoreEvent \<times> bool \<Rightarrow> ThreatScoreEvent \<times> bool" where
  "dec_score_members [] (e, ok) = (e, ok)"
| "dec_score_members ((k, v) # ms) (e, ok) =
     (case dec_score_field k v e of
        Some e' \<Rightarrow> dec_score_members ms (e', ok)
      | None \<Rightarrow> dec_score_members ms (e, False))"

definition unmarshal_score :: "json option \<Rightarrow> err + ThreatScoreEvent" where
  "unmarshal_score d = (case d of
       Some (JObject ms) \<Rightarrow>
         (case dec_score_members ms (zero_score, True) of
            (e, True) \<Rightarrow> Inr e
          | (e, False) \<Rightarrow> Inl (new_err ''json: cannot unmarshal''))
     | Some JNull \<Rightarrow> Inr zero_score
     | Some _ \<Rightarrow> Inl (new_err ''json: cannot unmarshal'')
     | None \<Rightarrow> Inl (new_err ''invalid character''))"

subsection \<open>The bus (\<open>nats.go\<close>)\<close>

record Config =
  URL :: string
  StreamName :: string
  EventsSubject :: string
  ThreatsSubject :: string
  ConnectTimeout :: duration
  CredentialsFile :: string
  Username :: string
  Password :: string
  TLSCAFile :: string
  TLSCertFile :: string
  TLSKeyFile :: string

text \<open>\<open>nats.DefaultURL\<close> belongs to the client library and is an argument.\<close>

definition DefaultConfig :: "string \<Rightarrow> Config" where
  "DefaultConfig defaultURL = \<lparr>URL = defaultURL, StreamName = ''SENTINEL5G'',
     EventsSubject = ''sentinel5g.events.normalized'', ThreatsSubject = ''sentinel5g.threats.scored'',
     ConnectTimeout = 5 * second, CredentialsFile = [], Username = [], Password = [],
     TLSCAFile = [], TLSCertFile = [], TLSKeyFile = []\<rparr>"

datatype nats_option =
    Timeout duration
  | RetryOnFailedConnect bool
  | MaxReconnects int
  | UserCredentials string
  | UserInfo string string
  | ClientCert string string
  | RootCAs string
  | Durable string
  | ManualAck
  | MaxDeliver int

datatype storage = FileStorage
datatype retention = LimitsPolicy

record StreamConfig =
  sc_Name :: string
  sc_Subjects :: "string list"
  sc_Storage :: storage
  sc_Retention :: retention
  sc_MaxAge :: duration

record ('c, 'w) nats =
  nats_Connect :: "string \<Rightarrow> nats_option list \<Rightarrow> 'w \<Rightarrow> (err + 'c) \<times> 'w"
  nats_JetStream :: "'c \<Rightarrow> 'w \<Rightarrow> err option \<times> 'w"
  nats_Close :: "'c \<Rightarrow> 'w \<Rightarrow> 'w"
  nats_Drain :: "'c \<Rightarrow> 'w \<Rightarrow> err option \<times> 'w"
  js_StreamInfo :: "'c \<Rightarrow> string \<Rightarrow> 'w \<Rightarrow> err option \<times> 'w"
  js_AddStream :: "'c \<Rightarrow> StreamConfig \<Rightarrow> 'w \<Rightarrow> err option \<times> 'w"
  js_Publish :: "'c \<Rightarrow> string \<Rightarrow> json \<Rightarrow> 'w \<Rightarrow> err option \<times> 'w"
  js_Subscribe :: "'c \<Rightarrow> string \<Rightarrow> nats_option list \<Rightarrow> 'w \<Rightarrow> err option \<times> 'w"

definition ensureStream :: "('c, 'w) nats \<Rightarrow> 'c \<Rightarrow> Config \<Rightarrow> 'w \<Rightarrow> err option \<times> 'w" where
  "ensureStream n js cfg w =
     (let subjects = [EventsSubject cfg, ThreatsSubject cfg] in
      case js_StreamInfo n js (StreamName cfg) w of
        (Some _, w1) \<Rightarrow>
          (case js_AddStream n js \<lparr>sc_Name = StreamName cfg, sc_Subjects = subjects, sc_Storage = FileStorage,
                 sc_Retention = LimitsPolicy, sc_MaxAge = 24 * hour\<rparr> w1 of
             (Some e, w2) \<Rightarrow> (Some (wrap ''create jetstream stream'' e), w2)
           | (None, w2) \<Rightarrow> (None, w2))
      | (None, w1) \<Rightarrow> (None, w1))"

definition connect_options :: "Config \<Rightarrow> nats_option list" where
  "connect_options cfg =
     [Timeout (ConnectTimeout cfg), RetryOnFailedConnect True, MaxReconnects (-1)] @
     (if CredentialsFile cfg \<noteq> [] then [UserCredentials (CredentialsFile cfg)]
      else if Username cfg \<noteq> [] then [UserInfo (Username cfg) (Password cfg)] else []) @
     (if TLSCertFile cfg \<noteq> [] then [ClientCert (TLSCertFile cfg) (TLSKeyFile cfg)] else []) @
     (if TLSCAFile cfg \<noteq> [] then [RootCAs (TLSCAFile cfg)] else [])"

definition Connect :: "('c, 'w) nats \<Rightarrow> Config \<Rightarrow> 'w \<Rightarrow> (err + 'c) \<times> 'w" where
  "Connect n cfg w =
     (case nats_Connect n (URL cfg) (connect_options cfg) w of
        (Inl e, w1) \<Rightarrow> (Inl (wrap ''connect to nats'' e), w1)
      | (Inr conn, w1) \<Rightarrow>
          (case nats_JetStream n conn w1 of
             (Some e, w2) \<Rightarrow> (Inl (wrap ''open jetstream context'' e), nats_Close n conn w2)
           | (None, w2) \<Rightarrow>
               (case ensureStream n conn cfg w2 of
                  (Some e, w3) \<Rightarrow> (Inl e, nats_Close n conn w3)
                | (None, w3) \<Rightarrow> (Inr conn, w3))))"

definition Close :: "('c, 'w) nats \<Rightarrow> 'c option \<Rightarrow> 'w \<Rightarrow> 'w" where
  "Close n conn w = (case conn of Some c \<Rightarrow> snd (nats_Drain n c w) | None \<Rightarrow> w)"

definition PublishNormalizedEvent ::
  "('c, 'w) nats \<Rightarrow> 'c \<Rightarrow> string \<Rightarrow> NormalizedEvent \<Rightarrow> 'w \<Rightarrow> err option \<times> 'w" where
  "PublishNormalizedEvent n b subject event w =
     (case js_Publish n b subject (marshal_normalized event) w of
        (Some e, w1) \<Rightarrow> (Some (wrap ''publish normalized event'' e), w1)
      | (None, w1) \<Rightarrow> (None, w1))"

definition PublishNormalizedEventBatch ::
  "('c, 'w) nats \<Rightarrow> 'c \<Rightarrow> string \<Rightarrow> NormalizedEvent list \<Rightarrow> 'w \<Rightarrow> err option \<times> 'w" where
  "PublishNormalizedEventBatch n b subject batch w =
     (if length batch = 0 then (None, w)
      else case js_Publish n b subject (JArray (map marshal_normalized batch)) w of
        (Some e, w1) \<Rightarrow> (Some (wrap ''publish normalized event batch'' e), w1)
      | (None, w1) \<Rightarrow> (None, w1))"

definition PublishThreatScore ::
  "('c, 'w) nats \<Rightarrow> 'c \<Rightarrow> string \<Rightarrow> ThreatScoreEvent \<Rightarrow> 'w \<Rightarrow> err option \<times> 'w" where
  "PublishThreatScore n b subject event w =
     (case js_Publish n b subject (marshal_score event) w of
        (Some e, w1) \<Rightarrow> (Some (wrap ''publish threat score'' e), w1)
      | (None, w1) \<Rightarrow> (None, w1))"

definition maxThreatScoreDeliveries :: int where
  "maxThreatScoreDeliveries = 5"

datatype disposition = Ack | Nak | Term

text \<open>The callback of the subscription: what happens to one delivered message.\<close>

definition on_threat_message ::
  "(ThreatScoreEvent \<Rightarrow> 's \<Rightarrow> err option \<times> 's) \<Rightarrow> json option \<Rightarrow> 's \<Rightarrow> disposition \<times> 's" where
  "on_threat_message handler data s =
     (case unmarshal_score data of
        Inl _ \<Rightarrow> (Term, s)
      | Inr event \<Rightarrow>
          (case handler event s of
             (Some _, s1) \<Rightarrow> (Nak, s1)
           | (None, s1) \<Rightarrow> (Ack, s1)))"

definition SubscribeThreatScores ::
  "('c, 'w) nats \<Rightarrow> 'c \<Rightarrow> string \<Rightarrow> string \<Rightarrow> 'w \<Rightarrow> err option \<times> 'w" where
  "SubscribeThreatScores n b subject durable w =
     (case js_Subscribe n b subject [Durable durable, ManualAck, MaxDeliver maxThreatScoreDeliveries] w of
        (Some e, w1) \<Rightarrow> (Some (wrap ''subscribe to'' e), w1)
      | (None, w1) \<Rightarrow> (None, w1))"

subsection \<open>The connector (\<open>connector.go\<close>)\<close>

text \<open>\<open>ready\<close> is the channel: \<open>True\<close> once closed. \<open>bus\<close> is set before it closes.\<close>

record 'c Connector =
  cn_cfg :: Config
  cn_ready :: bool
  cn_bus :: "'c option"

definition NewConnector :: "Config \<Rightarrow> 'c Connector" where
  "NewConnector cfg = \<lparr>cn_cfg = cfg, cn_ready = False, cn_bus = None\<rparr>"

definition NewConnectedConnector :: "Config \<Rightarrow> 'c \<Rightarrow> 'c Connector" where
  "NewConnectedConnector zeroConfig b = \<lparr>cn_cfg = zeroConfig, cn_ready = True, cn_bus = Some b\<rparr>"

definition maxBackoff :: duration where
  "maxBackoff = 30 * second"

definition nextBackoff :: "duration \<Rightarrow> duration" where
  "nextBackoff b =
     (if b < maxBackoff then (let b2 = b * 2 in if b2 > maxBackoff then maxBackoff else b2) else b)"

text \<open>
  The retry loop may run for ever, so it is a partial function. \<open>sleep d\<close> is the \<open>select\<close> on the
  context and a timer of \<open>d\<close>: it says whether the context was done.
\<close>

partial_function (option) connector_loop ::
  "('w \<Rightarrow> (err + 'c) \<times> 'w) \<Rightarrow> (duration \<Rightarrow> 'w \<Rightarrow> bool \<times> 'w) \<Rightarrow> duration \<Rightarrow> 'c Connector \<Rightarrow> 'w \<Rightarrow>
   ('c Connector \<times> 'w) option" where
  "connector_loop connect sleep backoff c w =
     (case connect w of
        (Inr b, w1) \<Rightarrow> Some (c\<lparr>cn_bus := Some b, cn_ready := True\<rparr>, w1)
      | (Inl e, w1) \<Rightarrow>
          (case sleep backoff w1 of
             (isDone, w2) \<Rightarrow>
               if isDone then Some (c, w2)
               else connector_loop connect sleep (nextBackoff backoff) c w2))"

definition Connector_Run ::
  "('c, 'w) nats \<Rightarrow> (duration \<Rightarrow> 'w \<Rightarrow> bool \<times> 'w) \<Rightarrow> 'c Connector \<Rightarrow> 'w \<Rightarrow> ('c Connector \<times> 'w) option" where
  "Connector_Run n sleep c w = connector_loop (Connect n (cn_cfg c)) sleep second c w"

definition Connected :: "'c Connector \<Rightarrow> bool" where
  "Connected c = cn_ready c"

definition Connector_Bus :: "'c Connector \<Rightarrow> 'c option \<times> bool" where
  "Connector_Bus c = (if cn_ready c then (cn_bus c, True) else (None, False))"

text \<open>\<open>Wait\<close> when it returns: \<open>ctxErr\<close> is the context's error if that became ready first.\<close>

definition Wait :: "'c Connector \<Rightarrow> err option \<Rightarrow> err + 'c option" where
  "Wait c ctxErr = (case ctxErr of Some e \<Rightarrow> Inl e | None \<Rightarrow> Inr (cn_bus c))"

subsection \<open>Properties\<close>

lemma dec_float_json_float: "dec_float (json_float r) f x = Some (f r)"
  by (auto simp: json_float_def)

lemma dec_uint32_uint: "dec_uint32 (JInt (uint (v :: u32))) f x = Some (f v)"
  using uint_bounded [of v] by simp

lemma unmarshal_marshal: "unmarshal_score (Some (marshal_score e)) = Inr e"
  using uint_bounded [of "ts_TEID e"]
  by (simp add: unmarshal_score_def marshal_score_def dec_score_field_def field_named_def ascii_lower_def
      dec_float_json_float zero_score_def)

text \<open>
  A threat score put on the bus by \<open>PublishThreatScore\<close> and read by the subscription is the
  same event, field by field: the JSON form of \<open>ThreatScoreEvent\<close> loses nothing.
\<close>

theorem unmarshal_marshal_score: "unmarshal_score (Some (marshal_score e)) = Inr e"
  by (rule unmarshal_marshal)

text \<open>
  What becomes of a message depends only on whether it decodes and what the handler answers; a
  message that does not decode never reaches the handler.
\<close>

lemma on_threat_message_disposition:
  "fst (on_threat_message h d s) =
     (case unmarshal_score d of Inl _ \<Rightarrow> Term | Inr e \<Rightarrow> if fst (h e s) = None then Ack else Nak)"
  by (auto simp: on_threat_message_def split: sum.split prod.split option.split)

lemma on_threat_message_term_keeps: "fst (on_threat_message h d s) = Term \<Longrightarrow> snd (on_threat_message h d s) = s"
  by (auto simp: on_threat_message_def split: sum.splits prod.splits option.splits)

text \<open>A connection that was opened and then found unusable is closed before the error is returned.\<close>

lemma Connect_failure_closes:
  assumes "nats_Connect n (URL cfg) (connect_options cfg) w = (Inr conn, w1)"
    and "Connect n cfg w = (Inl e, w')"
  shows "\<exists>w2. w' = nats_Close n conn w2"
  using assms by (auto simp: Connect_def split: prod.splits option.splits)

subsubsection \<open>The retry loop\<close>

lemma nextBackoff_iter: "(nextBackoff ^^ k) second = min (2 ^ k * second) maxBackoff"
  by (induction k) (auto simp: nextBackoff_def maxBackoff_def Let_def min_def)

text \<open>The loop with every wait written down beside the world.\<close>

definition log_connect :: "('w \<Rightarrow> (err + 'c) \<times> 'w) \<Rightarrow> 'w \<times> duration list \<Rightarrow> (err + 'c) \<times> ('w \<times> duration list)" where
  "log_connect connect s = (case connect (fst s) of (r, w) \<Rightarrow> (r, (w, snd s)))"

definition log_sleep :: "(duration \<Rightarrow> 'w \<Rightarrow> bool \<times> 'w) \<Rightarrow> duration \<Rightarrow> 'w \<times> duration list \<Rightarrow> bool \<times> ('w \<times> duration list)" where
  "log_sleep sleep d s = (case sleep d (fst s) of (b, w) \<Rightarrow> (b, (w, snd s @ [d])))"

definition waits_from :: "duration \<Rightarrow> duration list \<Rightarrow> duration list \<Rightarrow> bool" where
  "waits_from b ds ds' = (\<exists>n. ds' = ds @ map (\<lambda>k. (nextBackoff ^^ k) b) [0..<n])"

lemma waits_from_refl: "waits_from b ds ds"
  unfolding waits_from_def by (intro exI [of _ 0]) simp

lemma waits_from_one: "waits_from b ds (ds @ [b])"
  unfolding waits_from_def by (intro exI [of _ 1]) simp

lemma waits_from_step: "waits_from (nextBackoff b) (ds @ [b]) ds' \<Longrightarrow> waits_from b ds ds'"
proof -
  assume "waits_from (nextBackoff b) (ds @ [b]) ds'"
  then obtain n where "ds' = (ds @ [b]) @ map (\<lambda>k. (nextBackoff ^^ k) (nextBackoff b)) [0..<n]"
    by (auto simp: waits_from_def)
  then have "ds' = ds @ map (\<lambda>k. (nextBackoff ^^ k) b) [0..<Suc n]"
    by (simp add: map_upt_Suc funpow_swap1 del: upt_Suc)
  then show ?thesis unfolding waits_from_def by blast
qed

lemma connector_loop_waits:
  assumes "connector_loop (log_connect connect) (log_sleep sleep) b c s = Some r"
  shows "waits_from b (snd s) (snd (snd r))"
proof -
  let ?P = "\<lambda>p q b c s r. p = log_connect connect \<longrightarrow> q = log_sleep sleep \<longrightarrow> waits_from b (snd s) (snd (snd r))"
  have "?P (log_connect connect) (log_sleep sleep) b c s r"
  proof (rule connector_loop.raw_induct [where P = ?P, OF _ assms], intro impI)
    fix loop p q b c s r
    assume IH: "\<And>p q b c s r. loop p q b c s = Some r \<Longrightarrow> ?P p q b c s r"
      and p: "p = log_connect connect" and q: "q = log_sleep sleep"
      and ret: "(case p s of (Inl e, w1) \<Rightarrow> (case q b w1 of (isDone, w2) \<Rightarrow>
          if isDone then Some (c, w2) else loop p q (nextBackoff b) c w2)
        | (Inr b, w1) \<Rightarrow> Some (c\<lparr>cn_bus := Some b, cn_ready := True\<rparr>, w1)) = Some r"
    obtain w ds x w1 y w2 where s: "s = (w, ds)" and c1: "connect w = (x, w1)" and s1: "sleep b w1 = (y, w2)"
      by (metis surj_pair)
    consider "snd (snd r) = ds" | "snd (snd r) = ds @ [b]"
      | "loop p q (nextBackoff b) c (w2, ds @ [b]) = Some r"
      using ret s c1 s1 by (auto simp: p q log_connect_def log_sleep_def split: sum.splits if_splits)
    then show "waits_from b (snd s) (snd (snd r))"
    proof cases
      case 3
      then show ?thesis using IH [OF 3] p q s by (auto intro: waits_from_step)
    qed (auto simp: s waits_from_refl waits_from_one)
  qed
  then show ?thesis by simp
qed

text \<open>The world in which attempt \<open>k\<close> is made when all earlier ones fail.\<close>

fun round_world where
  "round_world connect sleep b w 0 = w"
| "round_world connect sleep b w (Suc k) =
     round_world connect sleep (nextBackoff b) (snd (sleep b (snd (connect w)))) k"

lemma connector_loop_rounds:
  assumes "\<forall>j < k. isl (fst (connect (round_world connect sleep b w j))) \<and>
      \<not> fst (sleep ((nextBackoff ^^ j) b) (snd (connect (round_world connect sleep b w j))))"
  shows "connector_loop connect sleep b c w =
    connector_loop connect sleep ((nextBackoff ^^ k) b) c (round_world connect sleep b w k)"
  using assms
proof (induction k arbitrary: b w)
  case (Suc k)
  have r0: "isl (fst (connect w))" "\<not> fst (sleep b (snd (connect w)))"
    using Suc.prems [rule_format, of 0] by auto
  have "connector_loop connect sleep b c w =
      connector_loop connect sleep (nextBackoff b) c (snd (sleep b (snd (connect w))))"
    using r0 by (subst connector_loop.simps) (auto simp: isl_def split: prod.splits)
  also have "\<dots> = connector_loop connect sleep ((nextBackoff ^^ k) (nextBackoff b)) c
      (round_world connect sleep (nextBackoff b) (snd (sleep b (snd (connect w)))) k)"
    by (rule Suc.IH) (use Suc.prems in \<open>force simp: funpow_swap1\<close>)
  finally show ?case by (simp add: funpow_swap1)
qed simp

text \<open>
  The connector's waits are exactly the doubling schedule 1s, 2s, 4s, 8s, 16s, 30s, 30s, ...: in
  every run that returns, wait number \<open>k\<close> lasts the smaller of \<open>2^k\<close> seconds and 30 seconds, so
  the backoff never exceeds its cap and never falls below one second.
\<close>

theorem connector_backoff_schedule:
  assumes "connector_loop (log_connect (Connect n cfg)) (log_sleep sleep) second c (w, []) = Some (c', w', ds)"
    and "k < length ds"
  shows "ds ! k = min (2 ^ k * second) (30 * second)"
proof -
  obtain m where "ds = map (\<lambda>k. (nextBackoff ^^ k) second) [0..<m]"
    using connector_loop_waits [OF assms(1)] by (auto simp: waits_from_def)
  then show ?thesis using assms(2) nextBackoff_iter [of k] by (simp add: maxBackoff_def)
qed

text \<open>A server that refuses the first \<open>w\<close> connections, for the concrete instances below.\<close>

definition flaky_nats :: "(unit, nat) nats" where
  "flaky_nats = \<lparr>
     nats_Connect = (\<lambda>_ _ w. if w = 0 then (Inr (), 0) else (Inl (new_err ''no servers''), w - 1)),
     nats_JetStream = (\<lambda>_ w. (None, w)),
     nats_Close = (\<lambda>_ w. w),
     nats_Drain = (\<lambda>_ w. (None, w)),
     js_StreamInfo = (\<lambda>_ _ w. (None, w)),
     js_AddStream = (\<lambda>_ _ w. (None, w)),
     js_Publish = (\<lambda>_ _ _ w. (None, w)),
     js_Subscribe = (\<lambda>_ _ _ w. (None, w))\<rparr>"

lemmas flaky_simps = flaky_nats_def Connect_def ensureStream_def

lemma flaky_logged_run:
  "connector_loop (log_connect (Connect flaky_nats cfg)) (log_sleep (\<lambda>d w. (False, w))) second c (2, []) =
     Some (c\<lparr>cn_bus := Some (), cn_ready := True\<rparr>, 0, [second, 2 * second])"
  by (simp add: connector_loop.simps [of _ _ _ c "(2, _)"] connector_loop.simps [of _ _ _ c "(Suc 0, _)"]
      connector_loop.simps [of _ _ _ c "(0, _)"] log_connect_def log_sleep_def flaky_simps nextBackoff_def
      maxBackoff_def)

theorem connector_backoff_schedule_witness:
  "[second, 2 * second] ! 1 = min (2 ^ 1 * second) (30 * second)"
  using connector_backoff_schedule [OF flaky_logged_run [of "DefaultConfig []" "NewConnector (DefaultConfig [])"], of 1]
  by simp

text \<open>
  The connector does not give up and does not get stuck: when attempt number \<open>k\<close> is the first to
  succeed and the context is not done during the waits before it, \<open>Run\<close> returns with the bus of that
  attempt stored and the ready channel closed, so \<open>Connected\<close> and \<open>Bus\<close> report it.
\<close>

theorem Connector_Run_connects:
  assumes "\<forall>j < k. isl (fst (Connect n (cn_cfg c) (round_world (Connect n (cn_cfg c)) sleep second w j))) \<and>
      \<not> fst (sleep (min (2 ^ j * second) maxBackoff)
              (snd (Connect n (cn_cfg c) (round_world (Connect n (cn_cfg c)) sleep second w j))))"
    and "fst (Connect n (cn_cfg c) (round_world (Connect n (cn_cfg c)) sleep second w k)) = Inr b"
  shows "\<exists>c' w'. Connector_Run n sleep c w = Some (c', w') \<and> Connected c' \<and> Connector_Bus c' = (Some b, True)"
proof -
  have "Connector_Run n sleep c w = connector_loop (Connect n (cn_cfg c)) sleep ((nextBackoff ^^ k) second) c
      (round_world (Connect n (cn_cfg c)) sleep second w k)"
    unfolding Connector_Run_def by (rule connector_loop_rounds) (use assms(1) in \<open>simp add: nextBackoff_iter\<close>)
  also have "\<dots> = Some (c\<lparr>cn_bus := Some b, cn_ready := True\<rparr>,
      snd (Connect n (cn_cfg c) (round_world (Connect n (cn_cfg c)) sleep second w k)))"
    using assms(2) by (subst connector_loop.simps) (auto split: prod.splits)
  finally show ?thesis by (simp add: Connected_def Connector_Bus_def)
qed

theorem Connector_Run_connects_witness:
  "\<exists>c' w'. Connector_Run flaky_nats (\<lambda>d w. (False, w)) (NewConnector (DefaultConfig ''nats'')) 2 = Some (c', w') \<and>
     Connected c' \<and> Connector_Bus c' = (Some (), True)"
  by (rule Connector_Run_connects [where k = 2])
    (auto simp: flaky_simps less_Suc_eq numeral_2_eq_2)

end
