(* ===== verification/Mesh.thy ===== *)
theory Mesh
  imports Events
begin

text \<open>
  The service-mesh adapters of \<open>pkg/mesh\<close>. The Kubernetes API is a record of functions on a world; unstructured objects carry their spec as a
  JSON tree. An adapter is the pair of its two operations, and one contract covers the three that act: the last call decides.
\<close>

unbundle bit_operations_syntax

subsection \<open>Objects and the API client\<close>

record GroupVersionKind =
  gv_Group :: string
  gv_Version :: string
  gv_Kind :: string

record unstructured =
  un_GVK :: GroupVersionKind
  un_Namespace :: string
  un_Name :: string
  un_ResourceVersion :: string
  un_Labels :: labels
  un_Spec :: json

type_synonym object_key = "GroupVersionKind \<times> string \<times> string"

definition object_key :: "unstructured \<Rightarrow> object_key" where
  "object_key ob = (un_GVK ob, un_Namespace ob, un_Name ob)"

text \<open>\<open>ListPods\<close> gives for each Pod that matches the declared ports of each container.\<close>

record 'w kube =
  kube_Get :: "GroupVersionKind \<Rightarrow> string \<Rightarrow> string \<Rightarrow> 'w \<Rightarrow> (err + unstructured) \<times> 'w"
  kube_Create :: "unstructured \<Rightarrow> 'w \<Rightarrow> err option \<times> 'w"
  kube_Update :: "unstructured \<Rightarrow> 'w \<Rightarrow> err option \<times> 'w"
  kube_Delete :: "unstructured \<Rightarrow> 'w \<Rightarrow> err option \<times> 'w"
  kube_List :: "GroupVersionKind \<Rightarrow> string \<Rightarrow> labels \<Rightarrow> 'w \<Rightarrow> (err + unstructured list) \<times> 'w"
  kube_ListPods :: "string \<Rightarrow> labels \<Rightarrow> 'w \<Rightarrow> (err + int list list list) \<times> 'w"

text \<open>\<open>unstructured.SetNestedField\<close>: intermediate objects are created, and nothing happens where one is not an object.\<close>

fun set_nested :: "string list \<Rightarrow> json \<Rightarrow> json \<Rightarrow> json" where
  "set_nested [] v ob = v"
| "set_nested (f # fs) v (JObject ms) =
     JObject (AList.update f (set_nested fs v (case map_of ms f of Some ob \<Rightarrow> ob | None \<Rightarrow> JObject [])) ms)"
| "set_nested (f # fs) v ob = ob"

text \<open>The copy of the selector into the object; a Go map has no order, and its members are kept in key order here.\<close>

definition matchLabels_of :: "labels \<Rightarrow> json" where
  "matchLabels_of selector = JObject (map (\<lambda>k. (k, JString (map_index selector k))) (sortedKeys selector))"

subsection \<open>The shared operations (\<open>adapter.go\<close>)\<close>

definition createOrUpdateUnstructured :: "'w kube \<Rightarrow> unstructured \<Rightarrow> 'w \<Rightarrow> err option \<times> 'w" where
  "createOrUpdateUnstructured c ob w =
     (case kube_Get c (un_GVK ob) (un_Namespace ob) (un_Name ob) w of
        (Inl e, w1) \<Rightarrow>
          if err_is e NotFound
          then (case kube_Create c ob w1 of (Some createErr, w2) \<Rightarrow> (Some (wrap ''create'' createErr), w2) | (None, w2) \<Rightarrow> (None, w2))
          else (Some (wrap ''get existing'' e), w1)
      | (Inr existing, w1) \<Rightarrow>
          (case kube_Update c (ob\<lparr>un_ResourceVersion := un_ResourceVersion existing\<rparr>) w1 of
             (Some e, w2) \<Rightarrow> (Some (wrap ''update'' e), w2)
           | (None, w2) \<Rightarrow> (None, w2)))"

definition deleteUnstructuredIfExists :: "'w kube \<Rightarrow> unstructured \<Rightarrow> 'w \<Rightarrow> err option \<times> 'w" where
  "deleteUnstructuredIfExists c ob w =
     (case kube_Delete c ob w of
        (Some e, w1) \<Rightarrow> if \<not> err_is e NotFound then (Some (wrap ''delete'' e), w1) else (None, w1)
      | (None, w1) \<Rightarrow> (None, w1))"

record 'w Adapter =
  ad_Quarantine :: "string \<Rightarrow> labels \<Rightarrow> 'w \<Rightarrow> err option \<times> 'w"
  ad_Release :: "string \<Rightarrow> labels \<Rightarrow> 'w \<Rightarrow> err option \<times> 'w"

definition NoopAdapter :: "'w Adapter" where
  "NoopAdapter = \<lparr>ad_Quarantine = (\<lambda>ns selector w. (None, w)), ad_Release = (\<lambda>ns selector w. (None, w))\<rparr>"

subsection \<open>Istio (\<open>istio_adapter.go\<close>)\<close>

definition authorizationPolicyGVK :: GroupVersionKind where
  "authorizationPolicyGVK = \<lparr>gv_Group = ''security.istio.io'', gv_Version = ''v1'', gv_Kind = ''AuthorizationPolicy''\<rparr>"

definition quarantineNamePrefix :: string where
  "quarantineNamePrefix = ''sentinel5g-quarantine-''"

text \<open>\<open>hash/fnv\<close>, the 32-bit FNV-1a hash.\<close>

definition fnv32a :: "string \<Rightarrow> u32" where
  "fnv32a s = fold (\<lambda>c h. (h XOR of_char c) * 16777619) s 2166136261"

text \<open>The verb \<open>%08x\<close>.\<close>

definition padded_hex :: "u32 \<Rightarrow> string" where
  "padded_hex h = (let s = print_base 16 (unat h) in replicate (8 - length s) (CHR ''0'') @ s)"

definition selector_text :: "labels \<Rightarrow> string" where
  "selector_text selector = concat (map (\<lambda>k. k @ ''='' @ map_index selector k @ '';'') (sortedKeys selector))"

definition quarantineName :: "labels \<Rightarrow> string" where
  "quarantineName selector = quarantineNamePrefix @ padded_hex (fnv32a (selector_text selector))"

definition managed_by :: labels where
  "managed_by = [(''app.kubernetes.io/managed-by'', ''sentinel5g'')]"

definition newAuthorizationPolicy :: "string \<Rightarrow> labels \<Rightarrow> unstructured" where
  "newAuthorizationPolicy ns selector =
     \<lparr>un_GVK = authorizationPolicyGVK, un_Namespace = ns, un_Name = quarantineName selector, un_ResourceVersion = [], un_Labels = managed_by,
      un_Spec = set_nested [''action''] (JString ''DENY'')
        (set_nested [''rules''] (JArray [JObject []])
          (set_nested [''selector'', ''matchLabels''] (matchLabels_of selector) (JObject [])))\<rparr>"

definition IstioAdapter :: "'w kube \<Rightarrow> 'w Adapter" where
  "IstioAdapter c =
     \<lparr>ad_Quarantine = (\<lambda>ns selector. createOrUpdateUnstructured c (newAuthorizationPolicy ns selector)),
      ad_Release = (\<lambda>ns selector. deleteUnstructuredIfExists c (newAuthorizationPolicy ns selector))\<rparr>"

subsection \<open>Cilium (\<open>cilium_adapter.go\<close>)\<close>

definition ciliumNetworkPolicyGVK :: GroupVersionKind where
  "ciliumNetworkPolicyGVK = \<lparr>gv_Group = ''cilium.io'', gv_Version = ''v2'', gv_Kind = ''CiliumNetworkPolicy''\<rparr>"

definition newCiliumNetworkPolicy :: "string \<Rightarrow> labels \<Rightarrow> unstructured" where
  "newCiliumNetworkPolicy ns selector =
     (let allEntity = JArray [JString ''all''] in
     \<lparr>un_GVK = ciliumNetworkPolicyGVK, un_Namespace = ns, un_Name = quarantineName selector, un_ResourceVersion = [], un_Labels = managed_by,
      un_Spec = set_nested [''egressDeny''] (JArray [JObject [(''toEntities'', allEntity)]])
        (set_nested [''ingressDeny''] (JArray [JObject [(''fromEntities'', allEntity)]])
          (set_nested [''endpointSelector'', ''matchLabels''] (matchLabels_of selector) (JObject [])))\<rparr>)"

definition CiliumAdapter :: "'w kube \<Rightarrow> 'w Adapter" where
  "CiliumAdapter c =
     \<lparr>ad_Quarantine = (\<lambda>ns selector. createOrUpdateUnstructured c (newCiliumNetworkPolicy ns selector)),
      ad_Release = (\<lambda>ns selector. deleteUnstructuredIfExists c (newCiliumNetworkPolicy ns selector))\<rparr>"

subsection \<open>Linkerd (\<open>linkerd_adapter.go\<close>)\<close>

definition serverGVK :: GroupVersionKind where
  "serverGVK = \<lparr>gv_Group = ''policy.linkerd.io'', gv_Version = ''v1beta3'', gv_Kind = ''Server''\<rparr>"

definition quarantineForLabel :: string where
  "quarantineForLabel = ''sentinel5g.io/quarantine-for''"

text \<open>\<open>strconv.Itoa\<close>.\<close>

definition Itoa :: "int \<Rightarrow> string" where
  "Itoa i = (if i < 0 then ''-'' @ print_base 10 (nat (- i)) else print_base 10 (nat i))"

definition newLinkerdServer :: "string \<Rightarrow> string \<Rightarrow> labels \<Rightarrow> int \<Rightarrow> unstructured" where
  "newLinkerdServer ns quarantineHash selector port =
     \<lparr>un_GVK = serverGVK, un_Namespace = ns, un_Name = quarantineHash @ ''-'' @ Itoa port, un_ResourceVersion = [],
      un_Labels = managed_by @ [(quarantineForLabel, quarantineHash)],
      un_Spec = set_nested [''accessPolicy''] (JString ''deny'')
        (set_nested [''port''] (JInt port)
          (set_nested [''podSelector'', ''matchLabels''] (matchLabels_of selector) (JObject [])))\<rparr>"

definition discoverPorts :: "'w kube \<Rightarrow> string \<Rightarrow> labels \<Rightarrow> 'w \<Rightarrow> (err + int list) \<times> 'w" where
  "discoverPorts c ns selector w =
     (case kube_ListPods c ns selector w of
        (Inl e, w1) \<Rightarrow> (Inl (wrap ''list pods for selector'' e), w1)
      | (Inr pods, w1) \<Rightarrow> (Inr (sort (remdups (concat (concat pods)))), w1))"

fun quarantine_ports :: "'w kube \<Rightarrow> string \<Rightarrow> string \<Rightarrow> labels \<Rightarrow> int list \<Rightarrow> 'w \<Rightarrow> err option \<times> 'w" where
  "quarantine_ports c ns hash selector [] w = (None, w)"
| "quarantine_ports c ns hash selector (port # ports) w =
     (case createOrUpdateUnstructured c (newLinkerdServer ns hash selector port) w of
        (Some e, w1) \<Rightarrow> (Some (wrap ''quarantine port'' e), w1)
      | (None, w1) \<Rightarrow> quarantine_ports c ns hash selector ports w1)"

definition linkerd_Quarantine :: "'w kube \<Rightarrow> string \<Rightarrow> labels \<Rightarrow> 'w \<Rightarrow> err option \<times> 'w" where
  "linkerd_Quarantine c ns selector w =
     (case discoverPorts c ns selector w of
        (Inl e, w1) \<Rightarrow> (Some e, w1)
      | (Inr ports, w1) \<Rightarrow>
          if ports = [] then (Some (new_err ''linkerd: no declared container ports found''), w1)
          else quarantine_ports c ns (quarantineName selector) selector ports w1)"

fun delete_servers :: "'w kube \<Rightarrow> unstructured list \<Rightarrow> 'w \<Rightarrow> err option \<times> 'w" where
  "delete_servers c [] w = (None, w)"
| "delete_servers c (srv # srvs) w =
     (case deleteUnstructuredIfExists c srv w of
        (Some e, w1) \<Rightarrow> (Some e, w1)
      | (None, w1) \<Rightarrow> delete_servers c srvs w1)"

definition linkerd_Release :: "'w kube \<Rightarrow> string \<Rightarrow> labels \<Rightarrow> 'w \<Rightarrow> err option \<times> 'w" where
  "linkerd_Release c ns selector w =
     (case kube_List c (serverGVK\<lparr>gv_Kind := gv_Kind serverGVK @ ''List''\<rparr>) ns [(quarantineForLabel, quarantineName selector)] w of
        (Inl e, w1) \<Rightarrow> (Some (wrap ''list quarantine Servers'' e), w1)
      | (Inr items, w1) \<Rightarrow> delete_servers c items w1)"

definition LinkerdAdapter :: "'w kube \<Rightarrow> 'w Adapter" where
  "LinkerdAdapter c = \<lparr>ad_Quarantine = linkerd_Quarantine c, ad_Release = linkerd_Release c\<rparr>"

definition NewAdapter :: "string \<Rightarrow> 'w kube \<Rightarrow> err + 'w Adapter" where
  "NewAdapter kind c =
     (if kind = ''istio'' then Inr (IstioAdapter c)
      else if kind = ''cilium'' then Inr (CiliumAdapter c)
      else if kind = ''linkerd'' then Inr (LinkerdAdapter c)
      else if kind = ''noop'' \<or> kind = [] then Inr NoopAdapter
      else Inl (new_err ''mesh: unsupported adapter kind''))"

subsection \<open>Names\<close>

lemma print_base_length: "n < 16 ^ k \<Longrightarrow> 0 < k \<Longrightarrow> length (print_base 16 n) \<le> k"
  by (simp add: print_base_digits_of length_digits_of)

lemma length_padded_hex: "length (padded_hex h) = 8"
proof -
  have "unat h < 16 ^ 8" using unsigned_less [of h, where ?'a = nat] by simp
  from print_base_length [OF this] show ?thesis by (simp add: padded_hex_def Let_def)
qed

lemma length_quarantineName: "length (quarantineName selector) = 30"
  by (simp add: quarantineName_def quarantineNamePrefix_def length_padded_hex)

definition dns_char :: "char \<Rightarrow> bool" where
  "dns_char ch = (let n = of_char ch :: nat in 97 \<le> n \<and> n \<le> 122 \<or> 48 \<le> n \<and> n \<le> 57)"

definition dns1123_label :: "string \<Rightarrow> bool" where
  "dns1123_label s \<longleftrightarrow> s \<noteq> [] \<and> length s \<le> 63 \<and> dns_char (hd s) \<and> dns_char (last s) \<and> (\<forall>ch \<in> set s. dns_char ch \<or> ch = CHR ''-'')"

lemma dns_digit: "d < 16 \<Longrightarrow> dns_char (digit_char d)"
  by (auto simp: dns_char_def digit_char_def Let_def)

lemma dns_padded_hex: "ch \<in> set (padded_hex h) \<Longrightarrow> dns_char ch"
  using print_base_digits [of 16 ch "unat h"] dns_digit by (auto simp: padded_hex_def Let_def dns_char_def split: if_splits)

lemma dns_quarantineName: "dns1123_label (quarantineName selector)"
proof -
  have "padded_hex h \<noteq> []" for h using length_padded_hex [of h] by auto
  then have "dns_char (last (padded_hex h))" for h using dns_padded_hex last_in_set by blast
  moreover have start: "dns_char (hd (quarantineNamePrefix @ xs))" for xs by (simp add: quarantineNamePrefix_def dns_char_def)
  moreover have "ch \<in> set quarantineNamePrefix \<Longrightarrow> dns_char ch \<or> ch = CHR ''-''" for ch
    by (auto simp: quarantineNamePrefix_def dns_char_def Let_def)
  ultimately show ?thesis
    using length_quarantineName [of selector] length_padded_hex [of "fnv32a (selector_text selector)"] dns_padded_hex
    by (auto simp: dns1123_label_def quarantineName_def last_append start)
qed

lemma sortedKeys_unique:
  assumes "distinct (map fst m)" "distinct (map fst m')" "map_of m = map_of m'"
  shows "sortedKeys m = sortedKeys m'"
proof -
  have "fst ` set m = fst ` set m'" using assms(3) by (metis dom_map_of_conv_image_fst)
  then show ?thesis
    using assms(1,2) by (metis sorted_distinct_set_unique distinct_sortedKeys sorted_sortedKeys set_sortedKeys)
qed

lemma selector_text_unique:
  assumes "distinct (map fst m)" "distinct (map fst m')" "map_of m = map_of m'"
  shows "selector_text m = selector_text m'" "matchLabels_of m = matchLabels_of m'"
  using sortedKeys_unique [OF assms] assms(3) by (simp_all add: selector_text_def matchLabels_of_def map_index_def)

subsection \<open>The API server\<close>

definition labels_match :: "labels \<Rightarrow> unstructured \<Rightarrow> bool" where
  "labels_match want ob = list_all (\<lambda>(k, v). map_of (un_Labels ob) k = Some v) want"

text \<open>
  What the adapters rely on. \<open>objects\<close> are the stored objects, and \<open>up\<close> says that the server answers and nobody else writes: then reads are current, a create of a
  new object and an update that names the stored resource version are accepted, and a delete removes the object. Whether it is up or not, a write
  touches no other object, and one that succeeds has the effect asked for.
\<close>

locale object_store =
  fixes c :: "'w kube" and objects :: "'w \<Rightarrow> object_key \<Rightarrow> unstructured option" and up :: "'w \<Rightarrow> bool"
  assumes key: "objects w k = Some ob \<Longrightarrow> object_key ob = k"
    and reads: "w' \<in> {snd (kube_Get c g ns n w), snd (kube_List c g ns sel w), snd (kube_ListPods c ns sel w)} \<Longrightarrow>
      objects w' = objects w \<and> (up w \<longrightarrow> up w')"
    and get: "kube_Get c g ns n w = (got, w') \<Longrightarrow>
      (case got of Inr ob \<Rightarrow> objects w (g, ns, n) = Some ob | Inl e \<Rightarrow> (err_is e NotFound \<or> up w) \<longrightarrow> err_is e NotFound \<and> objects w (g, ns, n) = None)"
    and list: "kube_List c (g\<lparr>gv_Kind := gv_Kind g @ ''List''\<rparr>) ns sel w = (found, w') \<Longrightarrow>
      (case found of Inr obs \<Rightarrow> set obs = {ob. \<exists>n. objects w (g, ns, n) = Some ob \<and> labels_match sel ob} | Inl e \<Rightarrow> \<not> up w)"
    and pods: "kube_ListPods c ns sel w = (Inl e, w') \<Longrightarrow> \<not> up w"
    and create: "kube_Create c ob w = (r, w') \<Longrightarrow> (\<forall>k. k \<noteq> object_key ob \<longrightarrow> objects w' k = objects w k) \<and>
      (r = None \<longrightarrow> (\<exists>rv. objects w' (object_key ob) = Some (ob\<lparr>un_ResourceVersion := rv\<rparr>))) \<and>
      (up w \<longrightarrow> up w' \<and> (objects w (object_key ob) = None \<longrightarrow> r = None))"
    and update: "kube_Update c ob w = (r, w') \<Longrightarrow> (\<forall>k. k \<noteq> object_key ob \<longrightarrow> objects w' k = objects w k) \<and>
      (r = None \<longrightarrow> (\<exists>rv. objects w' (object_key ob) = Some (ob\<lparr>un_ResourceVersion := rv\<rparr>))) \<and>
      (up w \<longrightarrow> up w' \<and> (\<forall>cur. objects w (object_key ob) = Some cur \<and> un_ResourceVersion cur = un_ResourceVersion ob \<longrightarrow> r = None))"
    and delete: "kube_Delete c ob w = (r, w') \<Longrightarrow> (\<forall>k. k \<noteq> object_key ob \<longrightarrow> objects w' k = objects w k) \<and>
      objects w' (object_key ob) \<in> {None, objects w (object_key ob)} \<and>
      (r = None \<or> (\<exists>e. r = Some e \<and> err_is e NotFound) \<longrightarrow> objects w' (object_key ob) = None) \<and>
      (up w \<longrightarrow> up w' \<and> (r = None \<or> (\<exists>e. r = Some e \<and> err_is e NotFound)))"
begin

text \<open>The stored objects up to the resource version the server assigns.\<close>

definition content :: "'w \<Rightarrow> object_key \<Rightarrow> unstructured option" where
  "content w k = map_option (\<lambda>ob. ob\<lparr>un_ResourceVersion := []\<rparr>) (objects w k)"

lemma content_Some: "objects w k = Some ob \<Longrightarrow> content w k = Some (ob\<lparr>un_ResourceVersion := []\<rparr>)"
  and content_None: "content w k = None \<longleftrightarrow> objects w k = None"
  by (simp_all add: content_def)

lemma content_cong: "objects w k = objects w' k \<Longrightarrow> content w k = content w' k"
  by (simp add: content_def)

lemma createOrUpdate:
  assumes "createOrUpdateUnstructured c ob w = (r, w')" "un_ResourceVersion ob = []"
  shows "k \<noteq> object_key ob \<Longrightarrow> content w' k = content w k"
    and "r = None \<Longrightarrow> content w' (object_key ob) = Some ob"
    and "up w \<Longrightarrow> r = None \<and> up w'"
proof -
  obtain g w1 where G: "kube_Get c (un_GVK ob) (un_Namespace ob) (un_Name ob) w = (g, w1)" by (rule prod.exhaust)
  have obj1: "objects w1 = objects w" "up w \<Longrightarrow> up w1" using reads [of w1] G by (metis insert_iff snd_conv)+
  note found = get [OF G, folded object_key_def]
  have key_rv: "object_key (ob\<lparr>un_ResourceVersion := rv\<rparr>) = object_key ob" for rv by (simp add: object_key_def)
  have same: "ob\<lparr>un_ResourceVersion := rv, un_ResourceVersion := []\<rparr> = ob" for rv using assms(2) by simp
  have "(k \<noteq> object_key ob \<longrightarrow> objects w' k = objects w k) \<and>
    (r = None \<longrightarrow> (\<exists>rv. objects w' (object_key ob) = Some (ob\<lparr>un_ResourceVersion := rv\<rparr>))) \<and> (up w \<longrightarrow> r = None \<and> up w')" for k
  proof (cases g)
    case (Inl e)
    show ?thesis
    proof (cases "err_is e NotFound")
      case True
      obtain r2 w2 where C: "kube_Create c ob w1 = (r2, w2)" by (rule prod.exhaust)
      show ?thesis
        using create [OF C] assms(1) G C Inl True obj1 found
        by (cases r2) (auto simp: createOrUpdateUnstructured_def simp del: split_paired_All)
    next
      case False
      then show ?thesis using assms(1) G Inl obj1 found by (auto simp: createOrUpdateUnstructured_def)
    qed
  next
    case (Inr old)
    obtain r2 w2 where U: "kube_Update c (ob\<lparr>un_ResourceVersion := un_ResourceVersion old\<rparr>) w1 = (r2, w2)" by (rule prod.exhaust)
    show ?thesis
      using update [OF U] assms(1) G U Inr obj1 found
      by (cases r2) (auto simp: createOrUpdateUnstructured_def key_rv simp del: split_paired_All)
  qed
  note all = this
  show "k \<noteq> object_key ob \<Longrightarrow> content w' k = content w k" using all by (metis content_cong)
  show "content w' (object_key ob) = Some ob" if "r = None"
  proof -
    obtain rv where "objects w' (object_key ob) = Some (ob\<lparr>un_ResourceVersion := rv\<rparr>)" using all \<open>r = None\<close> by blast
    from content_Some [OF this] same show ?thesis by simp
  qed
  show "up w \<Longrightarrow> r = None \<and> up w'" using all by blast
qed

lemma deleteIfExists:
  assumes "deleteUnstructuredIfExists c ob w = (r, w')"
  shows "k \<noteq> object_key ob \<Longrightarrow> content w' k = content w k"
    and "r = None \<Longrightarrow> content w' (object_key ob) = None"
    and "content w' k = None \<or> content w' k = content w k"
    and "up w \<Longrightarrow> r = None \<and> up w'"
proof -
  obtain d w1 where D: "kube_Delete c ob w = (d, w1)" by (rule prod.exhaust)
  note del = delete [OF D]
  have w': "w' = w1" and r: "r = None \<longleftrightarrow> d = None \<or> (\<exists>e. d = Some e \<and> err_is e NotFound)"
    using assms D by (auto simp: deleteUnstructuredIfExists_def split: option.splits if_splits)
  show "k \<noteq> object_key ob \<Longrightarrow> content w' k = content w k" using del w' by (metis content_cong)
  show "r = None \<Longrightarrow> content w' (object_key ob) = None" using del w' r by (simp add: content_None)
  show "content w' k = None \<or> content w' k = content w k" using del [THEN conjunct1, rule_format, of k] del [THEN conjunct2, THEN conjunct1] w'
    by (cases "k = object_key ob") (auto simp: content_def)
  show "up w \<Longrightarrow> r = None \<and> up w'" using del w' r by simp
qed

text \<open>What isolates a workload: for Istio and Cilium one policy, for Linkerd a server on at least one port.\<close>

definition single_isolated :: "(string \<Rightarrow> labels \<Rightarrow> unstructured) \<Rightarrow> 'w \<Rightarrow> string \<Rightarrow> labels \<Rightarrow> bool" where
  "single_isolated mk w ns sel \<longleftrightarrow> content w (object_key (mk ns sel)) = Some (mk ns sel)"

definition server_isolated :: "'w \<Rightarrow> string \<Rightarrow> labels \<Rightarrow> bool" where
  "server_isolated w ns sel \<longleftrightarrow>
     (\<exists>p. content w (object_key (newLinkerdServer ns (quarantineName sel) sel p)) = Some (newLinkerdServer ns (quarantineName sel) sel p))"

end

subsection \<open>The contract of an adapter\<close>

datatype mesh_call = Quarantine string labels | Release string labels

fun call_target :: "mesh_call \<Rightarrow> string \<times> string" where
  "call_target (Quarantine ns sel) = (ns, quarantineName sel)"
| "call_target (Release ns sel) = (ns, quarantineName sel)"

fun mesh_do :: "'w Adapter \<Rightarrow> mesh_call \<Rightarrow> 'w \<Rightarrow> err option \<times> 'w" where
  "mesh_do ad (Quarantine ns sel) w = ad_Quarantine ad ns sel w"
| "mesh_do ad (Release ns sel) w = ad_Release ad ns sel w"

definition mesh_run :: "'w Adapter \<Rightarrow> mesh_call list \<Rightarrow> 'w \<Rightarrow> 'w" where
  "mesh_run ad calls w = fold (\<lambda>call w. snd (mesh_do ad call w)) calls w"

lemma mesh_run_simps [simp]:
  "mesh_run ad [] w = w" "mesh_run ad (call # calls) w = mesh_run ad calls (snd (mesh_do ad call w))"
  "mesh_run ad (xs @ ys) w = mesh_run ad ys (mesh_run ad xs w)"
  by (simp_all add: mesh_run_def)

locale quarantine_adapter =
  fixes ad :: "'w Adapter" and isolated :: "'w \<Rightarrow> string \<Rightarrow> labels \<Rightarrow> bool"
  assumes quarantined: "ad_Quarantine ad ns sel w = (None, w') \<Longrightarrow> isolated w' ns sel"
    and released: "ad_Release ad ns sel w = (None, w') \<Longrightarrow> quarantineName sel' = quarantineName sel \<Longrightarrow> \<not> isolated w' ns sel'"
    and separate: "w' \<in> {snd (ad_Quarantine ad ns sel w), snd (ad_Release ad ns sel w)} \<Longrightarrow>
      (ns', quarantineName sel') \<noteq> (ns, quarantineName sel) \<Longrightarrow> isolated w' ns' sel' = isolated w ns' sel'"
begin

lemma do_separate:
  assumes "call_target call \<noteq> (ns, quarantineName sel)"
  shows "isolated (snd (mesh_do ad call w)) ns sel = isolated w ns sel"
  using assms separate by (cases call) (metis call_target.simps insertI1 insert_iff mesh_do.simps)+

lemma run_separate:
  assumes "\<forall>call \<in> set calls. call_target call \<noteq> (ns, quarantineName sel)"
  shows "isolated (mesh_run ad calls w) ns sel = isolated w ns sel"
  using assms by (induction calls arbitrary: w) (auto simp: do_separate)

lemma last_call_decides:
  assumes "fst (mesh_do ad call (mesh_run ad before w)) = None" "call \<in> {Quarantine ns sel, Release ns sel}"
    and "\<forall>later \<in> set after. call_target later \<noteq> (ns, quarantineName sel)"
  shows "isolated (mesh_run ad (before @ call # after) w) ns sel \<longleftrightarrow> call = Quarantine ns sel"
proof -
  obtain w1 where w1: "mesh_do ad call (mesh_run ad before w) = (None, w1)" using assms(1) by (metis prod.collapse)
  then have "mesh_run ad (before @ call # after) w = mesh_run ad after w1" by simp
  moreover have "isolated (mesh_run ad after w1) ns sel = isolated w1 ns sel" by (rule run_separate [OF assms(3)])
  moreover have "isolated w1 ns sel \<longleftrightarrow> call = Quarantine ns sel"
    using assms(2) w1 quarantined released by (elim insertE emptyE) auto
  ultimately show ?thesis by simp
qed

end

subsection \<open>Istio and Cilium\<close>

context object_store
begin

lemma single_object_adapter:
  assumes ad: "ad = \<lparr>ad_Quarantine = (\<lambda>ns sel. createOrUpdateUnstructured c (mk ns sel)), ad_Release = (\<lambda>ns sel. deleteUnstructuredIfExists c (mk ns sel))\<rparr>"
    and mk: "\<And>ns sel. object_key (mk ns sel) = (g, ns, quarantineName sel)" "\<And>ns sel. un_ResourceVersion (mk ns sel) = []"
  shows "quarantine_adapter ad (single_isolated mk)"
proof
  fix ns sel w w'
  assume "ad_Quarantine ad ns sel w = (None, w')"
  then show "single_isolated mk w' ns sel"
    using createOrUpdate(2) [OF _ mk(2) refl] by (simp add: ad single_isolated_def)
next
  fix ns sel w w' sel'
  assume "ad_Release ad ns sel w = (None, w')" "quarantineName sel' = quarantineName sel"
  then show "\<not> single_isolated mk w' ns sel'"
    using deleteIfExists(2) [of "mk ns sel" w None w'] by (simp add: ad single_isolated_def mk(1) content_def)
next
  fix w' ns sel w ns' sel'
  assume w': "w' \<in> {snd (ad_Quarantine ad ns sel w), snd (ad_Release ad ns sel w)}"
    and "(ns', quarantineName sel') \<noteq> (ns, quarantineName sel)"
  then have "object_key (mk ns' sel') \<noteq> object_key (mk ns sel)" by (auto simp: mk(1))
  then have "content w' (object_key (mk ns' sel')) = content w (object_key (mk ns' sel'))"
    using w' createOrUpdate(1) [OF _ mk(2)] deleteIfExists(1) by (auto simp: ad) (metis prod.collapse)+
  then show "single_isolated mk w' ns' sel' = single_isolated mk w ns' sel'" by (simp add: single_isolated_def)
qed

end

sublocale object_store \<subseteq> istio: quarantine_adapter "IstioAdapter c" "single_isolated newAuthorizationPolicy"
  by (rule single_object_adapter) (simp_all add: IstioAdapter_def newAuthorizationPolicy_def object_key_def)

sublocale object_store \<subseteq> cilium: quarantine_adapter "CiliumAdapter c" "single_isolated newCiliumNetworkPolicy"
  by (rule single_object_adapter) (simp_all add: CiliumAdapter_def newCiliumNetworkPolicy_def object_key_def Let_def)

subsection \<open>Linkerd\<close>

lemma print_base_inj: "2 \<le> b \<Longrightarrow> b \<le> 10 \<Longrightarrow> print_base b m = print_base b n \<Longrightarrow> m = n"
proof -
  assume b: "2 \<le> b" "b \<le> 10" and eq: "print_base b m = print_base b n"
  have vals: "map (the \<circ> dec_val) (print_base b k) = digits_of b k" for k
    using digits_of_less [of b k] b by (simp add: print_base_digits_of o_def) (metis (no_types, lifting) dec_val_digit map_idI option.sel order_less_le_trans)
  show "m = n" using vals [of m] vals [of n] eq horner_digits_of by metis
qed

lemma Itoa_inj: "Itoa i = Itoa j \<Longrightarrow> i = j"
proof -
  assume eq: "Itoa i = Itoa j"
  have nodash: "CHR ''-'' \<notin> set (print_base 10 n)" for n
    using print_base_digits [of 10 "CHR ''-''" n] by (auto simp: digit_char_def dest!: arg_cong [of "CHR ''-''" _ "of_char :: char \<Rightarrow> nat"])
  have sign: "(i < 0) = (j < 0)" using eq nodash by (auto simp: Itoa_def split: if_splits) (metis list.set_intros(1))+
  show "i = j" using eq sign print_base_inj [of 10 "nat (- i)" "nat (- j)"] print_base_inj [of 10 "nat i" "nat j"]
    by (auto simp: Itoa_def split: if_splits)
qed

lemma server_key:
  "object_key (newLinkerdServer ns hash sel p) = (serverGVK, ns, hash @ ''-'' @ Itoa p)"
  "un_ResourceVersion (newLinkerdServer ns hash sel p) = []"
  "labels_match [(quarantineForLabel, h)] (newLinkerdServer ns hash sel p) \<longleftrightarrow> h = hash"
  by (auto simp: object_key_def newLinkerdServer_def labels_match_def managed_by_def quarantineForLabel_def)

lemma server_key_target:
  assumes "object_key (newLinkerdServer ns (quarantineName sel) s p) = object_key (newLinkerdServer ns' (quarantineName sel') s' p')"
  shows "ns = ns'" "quarantineName sel = quarantineName sel'" "p = p'"
  using assms length_quarantineName Itoa_inj by (auto simp: server_key)

context object_store
begin

lemma quarantine_ports_all:
  assumes "quarantine_ports c ns hash sel ports w = (r, w')"
  shows "(k \<notin> (\<lambda>p. object_key (newLinkerdServer ns hash sel p)) ` set ports \<longrightarrow> content w' k = content w k) \<and>
    (r = None \<and> p \<in> set ports \<longrightarrow> content w' (object_key (newLinkerdServer ns hash sel p)) = Some (newLinkerdServer ns hash sel p)) \<and>
    (up w \<longrightarrow> r = None \<and> up w')"
  using assms
proof (induction ports arbitrary: w k)
  case (Cons port ports)
  let ?key = "\<lambda>p. object_key (newLinkerdServer ns hash sel p)"
  obtain r1 w1 where one: "createOrUpdateUnstructured c (newLinkerdServer ns hash sel port) w = (r1, w1)" by (rule prod.exhaust)
  note step = createOrUpdate [OF one server_key(2)]
  show ?case
  proof (cases r1)
    case None
    then have rest: "quarantine_ports c ns hash sel ports w1 = (r, w')" using Cons.prems one by simp
    note IH = Cons.IH [OF rest]
    have "content w' (?key p) = Some (newLinkerdServer ns hash sel p)" if "r = None" "p \<in> set (port # ports)"
    proof (cases "p \<in> set ports")
      case True
      then show ?thesis using IH \<open>r = None\<close> by simp
    next
      case False
      then have "p = port" "?key p \<notin> ?key ` set ports" using that Itoa_inj by (auto simp: server_key(1))
      then show ?thesis using IH [of "?key p"] step(2) None by simp
    qed
    moreover have "content w' k = content w k" if "k \<notin> ?key ` set (port # ports)" using that IH [of k] step(1) [of k] by simp
    moreover have "r = None \<and> up w'" if "up w" using that step(3) IH by simp
    ultimately show ?thesis by blast
  next
    case (Some e)
    then have "w' = w1" "r \<noteq> None" using Cons.prems one by auto
    then show ?thesis using step(1) [of k] step(3) Some by auto
  qed
qed simp

lemmas quarantine_ports = quarantine_ports_all [THEN conjunct1, rule_format] quarantine_ports_all [THEN conjunct2, THEN conjunct1, rule_format, OF _ conjI]
  quarantine_ports_all [THEN conjunct2, THEN conjunct2, rule_format]

lemma delete_servers_all:
  assumes "delete_servers c srvs w = (r, w')"
  shows "(k \<notin> object_key ` set srvs \<longrightarrow> content w' k = content w k) \<and> (content w' k = None \<or> content w' k = content w k) \<and>
    (r = None \<and> k \<in> object_key ` set srvs \<longrightarrow> content w' k = None) \<and> (up w \<longrightarrow> r = None \<and> up w')"
  using assms
proof (induction srvs arbitrary: w)
  case (Cons srv srvs)
  obtain r1 w1 where one: "deleteUnstructuredIfExists c srv w = (r1, w1)" by (rule prod.exhaust)
  note step = deleteIfExists [OF one]
  show ?case
  proof (cases r1)
    case None
    then have "delete_servers c srvs w1 = (r, w')" using Cons.prems one by simp
    note IH = Cons.IH [OF this]
    show ?thesis
    proof (cases "k = object_key srv")
      case True
      then have "content w1 k = None" using step(2) None by simp
      then show ?thesis using IH step(4) True by auto
    next
      case False
      then show ?thesis using IH step(1) [of k] step(4) by auto
    qed
  next
    case (Some e)
    then have "w' = w1" "r \<noteq> None" using Cons.prems one by auto
    then show ?thesis using step(1,3) [of k] step(4) Some by auto
  qed
qed simp

lemmas delete_servers = delete_servers_all [THEN conjunct1, rule_format] delete_servers_all [THEN conjunct2, THEN conjunct1, rule_format]
  delete_servers_all [THEN conjunct2, THEN conjunct2, THEN conjunct1, rule_format, OF _ conjI]
  delete_servers_all [THEN conjunct2, THEN conjunct2, THEN conjunct2, rule_format]

lemma linkerd_Quarantine:
  assumes "linkerd_Quarantine c ns sel w = (r, w')"
  shows "(\<And>p. k \<noteq> object_key (newLinkerdServer ns (quarantineName sel) sel p)) \<Longrightarrow> content w' k = content w k"
    and "r = None \<Longrightarrow> kube_ListPods c ns sel w = (Inr ps, w1) \<Longrightarrow> p \<in> set (concat (concat ps)) \<Longrightarrow>
      content w' (object_key (newLinkerdServer ns (quarantineName sel) sel p)) = Some (newLinkerdServer ns (quarantineName sel) sel p)"
    and "r = None \<Longrightarrow> \<exists>ps w1. kube_ListPods c ns sel w = (Inr ps, w1) \<and> concat (concat ps) \<noteq> []"
    and "up w \<Longrightarrow> up w' \<and> (r = None \<longleftrightarrow> (\<exists>ps. fst (kube_ListPods c ns sel w) = Inr ps \<and> concat (concat ps) \<noteq> []))"
proof -
  obtain pl w2 where P: "kube_ListPods c ns sel w = (pl, w2)" by (rule prod.exhaust)
  have w2: "objects w2 = objects w" "up w \<Longrightarrow> up w2" using reads [of w2] P by (metis insert_iff snd_conv)+
  then have c2: "content w2 = content w" by (auto simp: content_def)
  have "sort (remdups xs) = [] \<longleftrightarrow> xs = []" for xs :: "int list" by (metis remdups_eq_nil_iff set_empty set_sort)
  note run = assms [unfolded linkerd_Quarantine_def discoverPorts_def P] this
  show "content w' k = content w k" if "\<And>p. k \<noteq> object_key (newLinkerdServer ns (quarantineName sel) sel p)"
    using run that quarantine_ports(1) [of ns "quarantineName sel" sel _ w2 r w' k] c2 by (cases pl) (auto split: if_splits)
  show "content w' (object_key (newLinkerdServer ns (quarantineName sel) sel p)) = Some (newLinkerdServer ns (quarantineName sel) sel p)"
    if "r = None" "kube_ListPods c ns sel w = (Inr ps, w1)" "p \<in> set (concat (concat ps))"
    using run that P quarantine_ports(2) [of ns "quarantineName sel" sel "sort (remdups (concat (concat ps)))" w2 r w' p] by (auto split: if_splits)
  show "\<exists>ps w1. kube_ListPods c ns sel w = (Inr ps, w1) \<and> concat (concat ps) \<noteq> []" if "r = None"
    using run that P by (cases pl) (auto split: if_splits)
  show "up w' \<and> (r = None \<longleftrightarrow> (\<exists>ps. fst (kube_ListPods c ns sel w) = Inr ps \<and> concat (concat ps) \<noteq> []))" if "up w"
    using run that P w2(2) quarantine_ports(3) [of ns "quarantineName sel" sel _ w2 r w'] pods [of ns sel w _ w2]
    by (cases pl) (auto split: if_splits)
qed

lemma linkerd_Release:
  assumes "linkerd_Release c ns sel w = (r, w')"
  shows "(\<forall>n ob. k = (serverGVK, ns, n) \<longrightarrow> objects w k = Some ob \<longrightarrow> \<not> labels_match [(quarantineForLabel, quarantineName sel)] ob) \<Longrightarrow> content w' k = content w k"
    and "content w' k = None \<or> content w' k = content w k"
    and "r = None \<Longrightarrow> objects w (serverGVK, ns, n) = Some ob \<Longrightarrow> labels_match [(quarantineForLabel, quarantineName sel)] ob \<Longrightarrow>
      content w' (serverGVK, ns, n) = None"
    and "up w \<Longrightarrow> r = None \<and> up w'"
proof -
  obtain ls w2 where L: "kube_List c (serverGVK\<lparr>gv_Kind := gv_Kind serverGVK @ ''List''\<rparr>) ns [(quarantineForLabel, quarantineName sel)] w = (ls, w2)"
    by (rule prod.exhaust)
  have w2: "objects w2 = objects w" "up w \<Longrightarrow> up w2" using reads [of w2] L by (metis insert_iff snd_conv)+
  then have c2: "content w2 = content w" by (auto simp: content_def)
  note run = assms [unfolded linkerd_Release_def L]
  have items: "k \<in> object_key ` set obs \<longleftrightarrow> (\<exists>n ob. k = (serverGVK, ns, n) \<and> objects w k = Some ob \<and> labels_match [(quarantineForLabel, quarantineName sel)] ob)"
    if "ls = Inr obs" for obs k
    using list [OF L] that key by (fastforce simp: image_iff)
  show "content w' k = content w k"
    if "\<forall>n ob. k = (serverGVK, ns, n) \<longrightarrow> objects w k = Some ob \<longrightarrow> \<not> labels_match [(quarantineForLabel, quarantineName sel)] ob"
    using run that items [of _ k] delete_servers(1) [of _ w2 r w' k] c2 by (cases ls) auto
  show "content w' k = None \<or> content w' k = content w k"
    using run delete_servers(2) [of _ w2 r w' k] c2 by (cases ls) auto
  show "content w' (serverGVK, ns, n) = None" if "r = None" "objects w (serverGVK, ns, n) = Some ob" "labels_match [(quarantineForLabel, quarantineName sel)] ob"
    using run that items [of _ "(serverGVK, ns, n)"] delete_servers(3) [of _ w2 r w' "(serverGVK, ns, n)"] by (cases ls) auto
  show "r = None \<and> up w'" if "up w"
    using run that delete_servers(4) [of _ w2 r w'] w2(2) list [OF L] by (cases ls) auto
qed

end

context object_store
begin

lemma server_released:
  assumes r: "linkerd_Release c ns sel w = (None, w')" and name: "quarantineName sel' = quarantineName sel"
  shows "content w' (object_key (newLinkerdServer ns (quarantineName sel') sel' p)) \<noteq> Some (newLinkerdServer ns (quarantineName sel') sel' p)"
proof
  let ?srv = "newLinkerdServer ns (quarantineName sel') sel' p"
  assume p: "content w' (object_key ?srv) = Some ?srv"
  then have "content w (object_key ?srv) = Some ?srv" using linkerd_Release(2) [OF r, of "object_key ?srv"] by simp
  moreover obtain n where k: "object_key ?srv = (serverGVK, ns, n)" by (simp add: server_key)
  ultimately obtain ob where ob: "objects w (serverGVK, ns, n) = Some ob" "ob\<lparr>un_ResourceVersion := []\<rparr> = ?srv"
    by (auto simp: content_def)
  have "un_Labels ob = un_Labels ?srv" using arg_cong [OF ob(2), of un_Labels] by simp
  then have "labels_match [(quarantineForLabel, quarantineName sel)] ob" using name server_key(3) [of _ ns _ sel' p] by (simp add: labels_match_def)
  then show False using linkerd_Release(3) [OF r refl ob(1)] p k by simp
qed

lemma server_separate:
  assumes "linkerd_Quarantine c ns sel w = (r, w') \<or> linkerd_Release c ns sel w = (r, w')"
    and other: "(ns', quarantineName sel') \<noteq> (ns, quarantineName sel)" and srv: "srv = newLinkerdServer ns' (quarantineName sel') sel' p"
  shows "content w' (object_key srv) = Some srv \<longleftrightarrow> content w (object_key srv) = Some srv"
  using assms(1)
proof
  assume q: "linkerd_Quarantine c ns sel w = (r, w')"
  have "object_key srv \<noteq> object_key (newLinkerdServer ns (quarantineName sel) sel q)" for q
    using other server_key_target unfolding srv by metis
  then show ?thesis using linkerd_Quarantine(1) [OF q, of "object_key srv"] by simp
next
  assume r: "linkerd_Release c ns sel w = (r, w')"
  show ?thesis
  proof (cases "content w' (object_key srv) = content w (object_key srv)")
    case False
    then obtain n ob where ob: "object_key srv = (serverGVK, ns, n)" "objects w (object_key srv) = Some ob"
      "labels_match [(quarantineForLabel, quarantineName sel)] ob"
      using linkerd_Release(1) [OF r, of "object_key srv"] by blast
    have "content w (object_key srv) \<noteq> Some srv"
    proof
      assume "content w (object_key srv) = Some srv"
      then have "srv = ob\<lparr>un_ResourceVersion := []\<rparr>" using ob(2) by (simp add: content_def)
      then have "labels_match [(quarantineForLabel, quarantineName sel)] srv" using ob(3) by (simp add: labels_match_def)
      then have "quarantineName sel' = quarantineName sel" using srv server_key(3) by metis
      moreover have "ns' = ns" using ob(1) srv by (simp add: server_key)
      ultimately show False using other by simp
    qed
    moreover have "content w' (object_key srv) = None" using False linkerd_Release(2) [OF r, of "object_key srv"] by simp
    ultimately show ?thesis by simp
  qed simp
qed

end

sublocale object_store \<subseteq> linkerd: quarantine_adapter "LinkerdAdapter c" server_isolated
proof
  fix ns sel w w'
  assume "ad_Quarantine (LinkerdAdapter c) ns sel w = (None, w')"
  then have q: "linkerd_Quarantine c ns sel w = (None, w')" by (simp add: LinkerdAdapter_def)
  obtain ps w1 where ps: "kube_ListPods c ns sel w = (Inr ps, w1)" "concat (concat ps) \<noteq> []" using linkerd_Quarantine(3) [OF q] by blast
  then have "hd (concat (concat ps)) \<in> set (concat (concat ps))" by (metis hd_in_set)
  then show "server_isolated w' ns sel" unfolding server_isolated_def using linkerd_Quarantine(2) [OF q refl ps(1)] by blast
next
  fix ns sel w w' sel'
  assume "ad_Release (LinkerdAdapter c) ns sel w = (None, w')" "quarantineName sel' = quarantineName sel"
  then show "\<not> server_isolated w' ns sel'" using server_released [of ns sel w w' sel'] by (simp add: server_isolated_def LinkerdAdapter_def)
next
  fix w' ns sel w ns' sel'
  assume w': "w' \<in> {snd (ad_Quarantine (LinkerdAdapter c) ns sel w), snd (ad_Release (LinkerdAdapter c) ns sel w)}"
    and other: "(ns', quarantineName sel') \<noteq> (ns, quarantineName sel)"
  obtain r where "linkerd_Quarantine c ns sel w = (r, w') \<or> linkerd_Release c ns sel w = (r, w')"
    using w' by (auto simp: LinkerdAdapter_def) (metis prod.collapse)+
  from server_separate [OF this other refl] show "server_isolated w' ns' sel' = server_isolated w ns' sel'"
    unfolding server_isolated_def by blast
qed

subsection \<open>A simulated API server\<close>

record api_world =
  aw_objects :: "unstructured list"
  aw_pods :: "(string \<times> labels \<times> int list list) list"
  aw_version :: nat

definition aw_find :: "api_world \<Rightarrow> object_key \<Rightarrow> unstructured option" where
  "aw_find w k = find (\<lambda>ob. object_key ob = k) (aw_objects w)"

definition aw_store :: "unstructured \<Rightarrow> api_world \<Rightarrow> api_world" where
  "aw_store ob w =
     w\<lparr>aw_objects := ob\<lparr>un_ResourceVersion := print_base 10 (aw_version w)\<rparr> # filter (\<lambda>o2. object_key o2 \<noteq> object_key ob) (aw_objects w),
       aw_version := Suc (aw_version w)\<rparr>"

definition aw_remove :: "object_key \<Rightarrow> api_world \<Rightarrow> api_world" where
  "aw_remove k w = w\<lparr>aw_objects := filter (\<lambda>o2. object_key o2 \<noteq> k) (aw_objects w)\<rparr>"

definition sim_kube :: "api_world kube" where
  "sim_kube =
     \<lparr>kube_Get = (\<lambda>g ns n w. (case aw_find w (g, ns, n) of Some ob \<Rightarrow> Inr ob | None \<Rightarrow> Inl (Sentinel NotFound), w)),
      kube_Create = (\<lambda>ob w. case aw_find w (object_key ob) of Some _ \<Rightarrow> (Some (new_err ''already exists''), w) | None \<Rightarrow> (None, aw_store ob w)),
      kube_Update = (\<lambda>ob w. case aw_find w (object_key ob) of
           None \<Rightarrow> (Some (Sentinel NotFound), w)
         | Some cur \<Rightarrow> if un_ResourceVersion cur = un_ResourceVersion ob then (None, aw_store ob w) else (Some (Sentinel Conflict), w)),
      kube_Delete = (\<lambda>ob w. case aw_find w (object_key ob) of None \<Rightarrow> (Some (Sentinel NotFound), w) | Some _ \<Rightarrow> (None, aw_remove (object_key ob) w)),
      kube_List = (\<lambda>g ns sel w. (Inr (filter (\<lambda>ob. un_Namespace ob = ns \<and> (un_GVK ob)\<lparr>gv_Kind := gv_Kind (un_GVK ob) @ ''List''\<rparr> = g \<and>
           labels_match sel ob \<and> aw_find w (object_key ob) = Some ob) (aw_objects w)), w)),
      kube_ListPods = (\<lambda>ns sel w. (Inr (map (\<lambda>(_, _, ports). ports)
           (filter (\<lambda>(pns, ls, _). pns = ns \<and> list_all (\<lambda>(k, v). map_of ls k = Some v) sel) (aw_pods w))), w))\<rparr>"

lemma aw_find_key: "aw_find w k = Some ob \<Longrightarrow> object_key ob = k \<and> ob \<in> set (aw_objects w)"
  by (auto simp: aw_find_def find_Some_iff)

lemma aw_found:
  "aw_find w (g, ns, n) = Some ob \<longleftrightarrow>
     ob \<in> set (aw_objects w) \<and> aw_find w (object_key ob) = Some ob \<and> un_GVK ob = g \<and> un_Namespace ob = ns \<and> un_Name ob = n"
  using aw_find_key [of w "(g, ns, n)" ob] by (auto simp: object_key_def)

lemma find_filter_other: "k \<noteq> k' \<Longrightarrow> find (\<lambda>ob. object_key ob = k) (filter (\<lambda>ob. object_key ob \<noteq> k') obs) = find (\<lambda>ob. object_key ob = k) obs"
  by (induction obs) auto

lemma find_filter_gone: "find (\<lambda>ob. object_key ob = k) (filter (\<lambda>ob. object_key ob \<noteq> k) obs) = None"
  by (simp add: find_None_iff)

lemma object_key_version [simp]: "object_key (ob\<lparr>un_ResourceVersion := rv\<rparr>) = object_key ob"
  by (simp add: object_key_def)

lemma aw_find_store:
  "aw_find (aw_store ob w) k = (if k = object_key ob then Some (ob\<lparr>un_ResourceVersion := print_base 10 (aw_version w)\<rparr>) else aw_find w k)"
  by (auto simp: aw_find_def aw_store_def find_filter_other)

lemma aw_find_remove: "aw_find (aw_remove k' w) k = (if k = k' then None else aw_find w k)"
  by (auto simp: aw_find_def aw_remove_def find_filter_other find_filter_gone)

lemma gvk_list_inj: "(g :: GroupVersionKind)\<lparr>gv_Kind := gv_Kind g @ s\<rparr> = h\<lparr>gv_Kind := gv_Kind h @ s\<rparr> \<longleftrightarrow> g = h"
  by (cases g; cases h) auto

interpretation sim_store: object_store sim_kube aw_find "\<lambda>w. True"
proof
  fix g :: GroupVersionKind and ns sel w found w'
  assume "kube_List sim_kube (g\<lparr>gv_Kind := gv_Kind g @ ''List''\<rparr>) ns sel w = (found, w')"
  then show "case found of Inr obs \<Rightarrow> set obs = {ob. \<exists>n. aw_find w (g, ns, n) = Some ob \<and> labels_match sel ob} | Inl e \<Rightarrow> \<not> True"
    by (auto simp: sim_kube_def aw_found gvk_list_inj)
qed (auto simp: sim_kube_def aw_find_store aw_find_remove dest: aw_find_key split: option.splits if_splits)

subsection \<open>Properties\<close>

definition unversioned :: "unstructured \<Rightarrow> unstructured" where
  "unversioned ob = ob\<lparr>un_ResourceVersion := []\<rparr>"

definition stored_as :: "(object_key \<Rightarrow> unstructured option) \<Rightarrow> unstructured \<Rightarrow> bool" where
  "stored_as objs ob \<longleftrightarrow> map_option unversioned (objs (object_key ob)) = Some ob"

text \<open>What isolates a workload under each kind of adapter, read off the stored objects.\<close>

definition isolates :: "string \<Rightarrow> (object_key \<Rightarrow> unstructured option) \<Rightarrow> string \<Rightarrow> labels \<Rightarrow> bool" where
  "isolates kind objs ns sel \<longleftrightarrow>
     (if kind = ''istio'' then stored_as objs (newAuthorizationPolicy ns sel)
      else if kind = ''cilium'' then stored_as objs (newCiliumNetworkPolicy ns sel)
      else kind = ''linkerd'' \<and> (\<exists>p. stored_as objs (newLinkerdServer ns (quarantineName sel) sel p)))"

context object_store
begin

lemma stored_as_content: "stored_as (objects w) ob \<longleftrightarrow> content w (object_key ob) = Some ob"
  by (simp add: stored_as_def content_def unversioned_def [abs_def])

lemma acting_adapter:
  assumes "NewAdapter kind c = Inr ad" "kind \<noteq> ''noop''" "kind \<noteq> []"
  shows "quarantine_adapter ad (\<lambda>w. isolates kind (objects w))"
proof -
  have i: "single_isolated newAuthorizationPolicy = (\<lambda>w. isolates ''istio'' (objects w))"
    "single_isolated newCiliumNetworkPolicy = (\<lambda>w. isolates ''cilium'' (objects w))"
    "server_isolated = (\<lambda>w. isolates ''linkerd'' (objects w))"
    by (simp_all add: fun_eq_iff isolates_def single_isolated_def server_isolated_def stored_as_content)
  show ?thesis
    using assms istio.quarantine_adapter_axioms cilium.quarantine_adapter_axioms linkerd.quarantine_adapter_axioms
    by (auto simp: NewAdapter_def i split: if_splits)
qed

lemma single_up:
  assumes ad: "ad = \<lparr>ad_Quarantine = (\<lambda>ns sel. createOrUpdateUnstructured c (mk ns sel)), ad_Release = (\<lambda>ns sel. deleteUnstructuredIfExists c (mk ns sel))\<rparr>"
    and mk: "\<And>ns sel. un_ResourceVersion (mk ns sel) = []" and "up w"
  shows "up (snd (mesh_do ad call w)) \<and> fst (mesh_do ad call w) = None"
proof -
  obtain r w' where run: "mesh_do ad call w = (r, w')" by (rule prod.exhaust)
  have "r = None \<and> up w'"
    using run createOrUpdate(3) [OF _ mk \<open>up w\<close>] deleteIfExists(4) [OF _ \<open>up w\<close>] by (cases call) (simp_all add: ad)
  then show ?thesis using run by simp
qed

lemma up_do:
  assumes "NewAdapter kind c = Inr ad" "up w"
  shows "up (snd (mesh_do ad call w)) \<and>
    ((\<forall>ns sel. kind = ''linkerd'' \<and> call = Quarantine ns sel \<longrightarrow> (\<exists>ps. fst (kube_ListPods c ns sel w) = Inr ps \<and> concat (concat ps) \<noteq> [])) \<longrightarrow>
     fst (mesh_do ad call w) = None)" (is "?ok ad")
proof -
  consider "ad = IstioAdapter c" | "ad = CiliumAdapter c" | "ad = LinkerdAdapter c" "kind = ''linkerd''" | "ad = NoopAdapter"
    using assms(1) by (auto simp: NewAdapter_def split: if_splits)
  then show ?thesis
  proof cases
    case 1
    show ?thesis using single_up [OF 1 [unfolded IstioAdapter_def] _ assms(2), of call] by (simp add: newAuthorizationPolicy_def)
  next
    case 2
    show ?thesis using single_up [OF 2 [unfolded CiliumAdapter_def] _ assms(2), of call] by (simp add: newCiliumNetworkPolicy_def Let_def)
  next
    case 3
    obtain r w' where run: "mesh_do ad call w = (r, w')" by (rule prod.exhaust)
    show ?thesis
    proof (cases call)
      case (Quarantine ns sel)
      then have "linkerd_Quarantine c ns sel w = (r, w')" using run 3(1) by (simp add: LinkerdAdapter_def)
      from linkerd_Quarantine(4) [OF this assms(2)] show ?thesis using run 3(2) Quarantine by simp
    next
      case (Release ns sel)
      then have "linkerd_Release c ns sel w = (r, w')" using run 3(1) by (simp add: LinkerdAdapter_def)
      from linkerd_Release(4) [OF this assms(2)] show ?thesis using run by simp
    qed
  next
    case 4
    then show ?thesis using assms(2) by (cases call) (simp_all add: NoopAdapter_def)
  qed
qed

lemma up_run:
  assumes "NewAdapter kind c = Inr ad" "up w"
  shows "up (mesh_run ad calls w)"
  using assms(2) by (induction calls arbitrary: w) (simp_all add: up_do [OF assms(1), THEN conjunct1])

end


definition demo_api :: api_world where
  "demo_api = \<lparr>aw_objects = [], aw_pods = [(''core'', [(''app'', ''upf'')], [[2152, 8805], [2152]])], aw_version = 1\<rparr>"


text \<open>
  While the API server answers, the adapters are idempotent: any call in any sequence succeeds, a second \<open>Quarantine\<close> and a \<open>Release\<close> of a workload
  that was never quarantined included. The one exception is a Linkerd quarantine of Pods without a declared port, which is reported as an error.
\<close>

theorem mesh_calls_idempotent:
  assumes "object_store c objects up" "up w" "NewAdapter kind c = Inr ad"
    and "\<forall>ns sel. kind = ''linkerd'' \<and> call = Quarantine ns sel \<longrightarrow>
      (\<exists>ps. fst (kube_ListPods c ns sel (mesh_run ad before w)) = Inr ps \<and> concat (concat ps) \<noteq> [])"
  shows "fst (mesh_do ad call (mesh_run ad before w)) = None"
  using object_store.up_do [OF assms(1,3) object_store.up_run [OF assms(1,3,2)]] assms(4) by blast

theorem mesh_calls_idempotent_witness:
  "fst (mesh_do (CiliumAdapter sim_kube) (Quarantine ''core'' [(''app'', ''upf'')])
     (mesh_run (CiliumAdapter sim_kube) [Release ''core'' [], Quarantine ''core'' [(''app'', ''upf'')]] demo_api)) = None"
  using mesh_calls_idempotent [OF sim_store.object_store_axioms, of "''cilium''" "CiliumAdapter sim_kube" "Quarantine ''core'' [(''app'', ''upf'')]"
    "[Release ''core'' [], Quarantine ''core'' [(''app'', ''upf'')]]" demo_api]
  by (simp add: NewAdapter_def)

text \<open>
  A Linkerd quarantine that reports success denies every port that a matching Pod declares, by a server of its own that names the port and the selector.
\<close>

theorem linkerd_denies_declared_ports:
  assumes "object_store c objects up" "ad_Quarantine (LinkerdAdapter c) ns sel w = (None, w')"
    and "fst (kube_ListPods c ns sel w) = Inr pods" "pod \<in> set pods" "container \<in> set pod" "port \<in> set container"
  shows "\<exists>srv. objects w' (serverGVK, ns, quarantineName sel @ ''-'' @ Itoa port) = Some srv \<and>
    un_Spec srv = JObject [(''podSelector'', JObject [(''matchLabels'', matchLabels_of sel)]), (''port'', JInt port), (''accessPolicy'', JString ''deny'')]"
proof -
  have q: "linkerd_Quarantine c ns sel w = (None, w')" using assms(2) by (simp add: LinkerdAdapter_def)
  obtain w1 where pods: "kube_ListPods c ns sel w = (Inr pods, w1)" using assms(3) by (metis prod.collapse)
  have "port \<in> set (concat (concat pods))" using assms(4-6) by auto
  from object_store.linkerd_Quarantine(2) [OF assms(1) q refl pods this]
  have "stored_as (objects w') (newLinkerdServer ns (quarantineName sel) sel port)"
    by (simp add: object_store.stored_as_content [OF assms(1)])
  then obtain srv where srv: "objects w' (serverGVK, ns, quarantineName sel @ ''-'' @ Itoa port) = Some srv"
    "unversioned srv = newLinkerdServer ns (quarantineName sel) sel port"
    by (auto simp: stored_as_def server_key(1))
  have "un_Spec srv = un_Spec (newLinkerdServer ns (quarantineName sel) sel port)" using arg_cong [OF srv(2), of un_Spec] by (simp add: unversioned_def)
  then show ?thesis using srv(1) by (simp add: newLinkerdServer_def)
qed

theorem linkerd_denies_declared_ports_witness:
  "\<exists>srv. aw_find (snd (ad_Quarantine (LinkerdAdapter sim_kube) ''core'' [(''app'', ''upf'')] demo_api))
     (serverGVK, ''core'', quarantineName [(''app'', ''upf'')] @ ''-'' @ Itoa 8805) = Some srv"
proof -
  let ?sel = "[(''app'', ''upf'')]"
  have pods: "fst (kube_ListPods sim_kube ''core'' ?sel demo_api) = Inr [[[2152, 8805], [2152]]]" by (simp add: sim_kube_def demo_api_def)
  have "fst (mesh_do (LinkerdAdapter sim_kube) (Quarantine ''core'' ?sel) demo_api) = None"
    using sim_store.up_do [of "''linkerd''" "LinkerdAdapter sim_kube" "Quarantine ''core'' ?sel" demo_api] pods by (simp add: NewAdapter_def)
  then have "ad_Quarantine (LinkerdAdapter sim_kube) ''core'' ?sel demo_api = (None, snd (ad_Quarantine (LinkerdAdapter sim_kube) ''core'' ?sel demo_api))"
    by (metis mesh_do.simps(1) prod.collapse)
  from linkerd_denies_declared_ports [OF sim_store.object_store_axioms this pods, of _ "[2152, 8805]" 8805] show ?thesis by auto
qed

text \<open>
  The name of a quarantine is a valid DNS-1123 label, thirty characters long, and depends on the selector as a map only, not on the order in which its entries are visited.
\<close>

theorem quarantineName_stable:
  assumes "distinct (map fst m)" "distinct (map fst m')" "map_of m = map_of m'"
  shows "quarantineName m = quarantineName m' \<and> length (quarantineName m) = 30 \<and> dns1123_label (quarantineName m)"
proof -
  have "quarantineName m = quarantineName m'" using selector_text_unique(1) [OF assms] by (simp add: quarantineName_def)
  then show ?thesis by (simp add: length_quarantineName dns_quarantineName)
qed

theorem quarantineName_stable_witness:
  "quarantineName [(''app'', ''upf''), (''tier'', ''edge'')] = quarantineName [(''tier'', ''edge''), (''app'', ''upf'')]"
  using quarantineName_stable [of "[(''app'', ''upf''), (''tier'', ''edge'')]" "[(''tier'', ''edge''), (''app'', ''upf'')]"] by (simp add: fun_eq_iff)

text \<open>
  The name is a 32-bit hash. Two selectors of the same shape can share it: the quarantines of these two workloads are one object, and releasing one releases the other.
\<close>

lemma hash_collision: "fnv32a ''app=upf-864607;'' = fnv32a ''app=upf-1220400;''"
  by (simp add: fnv32a_def)

lemma colliding_names: "quarantineName [(''app'', ''upf-864607'')] = quarantineName [(''app'', ''upf-1220400'')]"
  using hash_collision by (simp add: quarantineName_def selector_text_def sortedKeys_def map_index_def)

theorem colliding_release:
  assumes "object_store c objects up" "ad_Release (IstioAdapter c) ns [(''app'', ''upf-1220400'')] w = (None, w')"
  shows "\<not> isolates ''istio'' (objects w') ns [(''app'', ''upf-864607'')]"
proof -
  have "quarantine_adapter (IstioAdapter c) (\<lambda>w. isolates ''istio'' (objects w))"
    by (rule object_store.acting_adapter [OF assms(1)]) (simp_all add: NewAdapter_def)
  from quarantine_adapter.released [OF this assms(2) colliding_names] show ?thesis .
qed

end
