(* ===== verification/Api_Types.thy ===== *)
theory Api_Types
  imports Go_Net
begin

text \<open>
  The \<open>TelecomSecurityPolicy\<close> resource of \<open>api/v1alpha1\<close> with the parts of Kubernetes' object
  metadata the operator reads, and the interface of the Kubernetes libraries it calls on such an
  object (finalizer and condition helpers), which are parameters collected in a record. The
  predicate \<open>k8s_lib_ok\<close> states the documented behaviour of these helpers.
\<close>

datatype Sensitivity = SensitivityLow | SensitivityMedium | SensitivityHigh | SensitivityOther string

record WorkloadSelector =
  App :: string
  MatchLabels :: labels

record ThreatDetectionSpec =
  Sensitivity :: Sensitivity
  AutoMitigate :: bool

record ActionsSpec =
  EbpfBlock :: bool
  EbpfBlockTunnel :: bool
  IsolatePod :: bool

record PolicySpec =
  TargetWorkloads :: "WorkloadSelector list"
  ThreatDetection :: ThreatDetectionSpec
  Actions :: ActionsSpec

text \<open>\<open>PhaseNone\<close> is the empty string a freshly created object carries.\<close>

datatype PolicyPhase =
    PhaseNone
  | PhasePending
  | PhaseMonitoring
  | PhaseAlerting
  | PhaseMitigating
  | PhaseDegraded

record Condition =
  c_Type :: string
  c_Status :: bool
  c_Reason :: string
  c_Message :: string
  c_ObservedGeneration :: int
  c_LastTransitionTime :: time

record PolicyStatus =
  Phase :: PolicyPhase
  ObservedThreatScore :: string
  LastMitigationTime :: "time option"
  BlockedSourceIPs :: "string list"
  BlockedTunnels :: "string list"
  Conditions :: "Condition list"

text \<open>\<open>types.NamespacedName\<close>.\<close>

datatype nsname = NsName (ns_of: string) (name_of: string)

record Policy =
  p_Namespace :: string
  p_Name :: string
  p_ResourceVersion :: string
  p_Generation :: int
  p_DeletionTimestamp :: "time option"
  p_Finalizers :: "string list"
  Spec :: PolicySpec
  Status :: PolicyStatus

definition policy_key :: "Policy \<Rightarrow> nsname" where
  "policy_key p = NsName (p_Namespace p) (p_Name p)"

text \<open>Keys are ordered by namespace, then name.\<close>

instantiation nsname :: linorder
begin

definition less_eq_nsname :: "nsname \<Rightarrow> nsname \<Rightarrow> bool" where
  "less_eq_nsname a b \<longleftrightarrow> ns_of a < ns_of b \<or> ns_of a = ns_of b \<and> name_of a \<le> name_of b"

definition less_nsname :: "nsname \<Rightarrow> nsname \<Rightarrow> bool" where
  "less_nsname a b \<longleftrightarrow> ns_of a < ns_of b \<or> ns_of a = ns_of b \<and> name_of a < name_of b"

instance
  by standard (auto simp: less_eq_nsname_def less_nsname_def intro: nsname.expand)

end

subsection \<open>The Kubernetes library helpers\<close>

record k8s_lib =
  ContainsFinalizer :: "string list \<Rightarrow> string \<Rightarrow> bool"
  AddFinalizer :: "string list \<Rightarrow> string \<Rightarrow> string list"
  RemoveFinalizer :: "string list \<Rightarrow> string \<Rightarrow> string list"
  FindStatusCondition :: "Condition list \<Rightarrow> string \<Rightarrow> Condition option"
  SetStatusCondition :: "Condition list \<Rightarrow> Condition \<Rightarrow> Condition list"

definition k8s_lib_ok :: "k8s_lib \<Rightarrow> bool" where
  "k8s_lib_ok k \<longleftrightarrow>
     (\<forall>fs f. ContainsFinalizer k fs f = (f \<in> set fs)) \<and>
     (\<forall>fs f. set (AddFinalizer k fs f) = insert f (set fs)) \<and>
     (\<forall>fs f. set (RemoveFinalizer k fs f) = set fs - {f}) \<and>
     (\<forall>cs t. FindStatusCondition k cs t = find (\<lambda>c. c_Type c = t) cs) \<and>
     (\<forall>cs c. \<exists>c'. FindStatusCondition k (SetStatusCondition k cs c) (c_Type c) = Some c' \<and>
        c_Status c' = c_Status c \<and> c_Reason c' = c_Reason c \<and> c_Message c' = c_Message c)"

lemma k8s_lib_okD:
  assumes "k8s_lib_ok k"
  shows "ContainsFinalizer k fs f = (f \<in> set fs)"
    and "set (AddFinalizer k fs f) = insert f (set fs)"
    and "set (RemoveFinalizer k fs f) = set fs - {f}"
    and "FindStatusCondition k cs t = find (\<lambda>c. c_Type c = t) cs"
    and "\<exists>c'. FindStatusCondition k (SetStatusCondition k cs c) (c_Type c) = Some c' \<and>
      c_Status c' = c_Status c \<and> c_Reason c' = c_Reason c \<and> c_Message c' = c_Message c"
  using assms by (auto simp: k8s_lib_ok_def)

text \<open>A reference instance of the helpers, for concrete evaluation.\<close>

definition set_condition :: "Condition list \<Rightarrow> Condition \<Rightarrow> Condition list" where
  "set_condition cs c =
     (if \<exists>d \<in> set cs. c_Type d = c_Type c
      then map (\<lambda>d. if c_Type d = c_Type c then
                 c\<lparr>c_LastTransitionTime :=
                     (if c_Status d = c_Status c then c_LastTransitionTime d else c_LastTransitionTime c)\<rparr>
               else d) cs
      else cs @ [c])"

definition k8s_ref :: k8s_lib where
  "k8s_ref = \<lparr>
     ContainsFinalizer = (\<lambda>fs f. f \<in> set fs),
     AddFinalizer = (\<lambda>fs f. if f \<in> set fs then fs else fs @ [f]),
     RemoveFinalizer = (\<lambda>fs f. filter (\<lambda>g. g \<noteq> f) fs),
     FindStatusCondition = (\<lambda>cs t. find (\<lambda>c. c_Type c = t) cs),
     SetStatusCondition = set_condition\<rparr>"

lemma find_map_condition:
  "\<exists>d \<in> set cs. c_Type d = c_Type c \<Longrightarrow> (\<And>d. c_Type d = c_Type c \<Longrightarrow> c_Type (f d) = c_Type c \<and> P (f d)) \<Longrightarrow>
   \<exists>c'. find (\<lambda>x. c_Type x = c_Type c) (map (\<lambda>d. if c_Type d = c_Type c then f d else d) cs) = Some c' \<and> P c'"
  by (induction cs) auto

lemma find_append_none: "\<forall>x \<in> set xs. \<not> P x \<Longrightarrow> P y \<Longrightarrow> find P (xs @ [y]) = Some y"
  by (induction xs) auto

lemma k8s_ref_ok: "k8s_lib_ok k8s_ref"
proof -
  have "\<exists>c'. find (\<lambda>x. c_Type x = c_Type c) (set_condition cs c) = Some c' \<and>
      (c_Status c' = c_Status c \<and> c_Reason c' = c_Reason c \<and> c_Message c' = c_Message c)" for cs and c :: Condition
  proof (cases "\<exists>d \<in> set cs. c_Type d = c_Type c")
    case True
    then show ?thesis
      unfolding set_condition_def by (simp only: if_True) (rule find_map_condition, auto)
  next
    case False
    then show ?thesis by (simp add: set_condition_def find_append_none)
  qed
  then show ?thesis by (auto simp: k8s_lib_ok_def k8s_ref_def)
qed

end
