(* ===== verification/Metrics.thy ===== *)
theory Metrics
  imports Api_Types
begin

text \<open>
  The Prometheus instrumentation of \<open>pkg/controller/metrics.go\<close>. The metrics library only receives
  calls; the model keeps the calls, in order, as a list of \<open>metric_op\<close>. \<open>gauge_value\<close> reads a
  phase gauge out of such a list the way a gauge vector behaves: the last \<open>Set\<close> since the series was
  deleted.
\<close>

datatype metric_op =
    ThreatScoresReceived_Inc string
  | ThreatScore_Observe float64
  | ThresholdCrossings_Inc string string string
  | Mitigations_Inc string string
  | BlocklistDrift_Inc string string
  | BlocklistEntries_Set string string int
  | BlocklistCapacity_Set string int
  | BlocklistReconciles_Inc string
  | ObservationMapOccupancy_Set string int
  | ObservationMapCapacity_Set string int
  | MitigationMapFull_Inc string
  | ReactorThrottled_Inc string string
  | KillSwitchEngaged_Set int
  | MitigationsSuppressed_Inc string
  | EnforcementPinned_Set int
  | PolicyPhase_Set string string PolicyPhase int
  | PolicyPhase_Delete string string
  | ThresholdCrossings_Delete string string
  | ReactorThrottled_Delete string string

type_synonym metrics = "metric_op list"

definition allPolicyPhases :: "PolicyPhase list" where
  "allPolicyPhases = [PhasePending, PhaseMonitoring, PhaseAlerting, PhaseMitigating, PhaseDegraded]"

definition HasPrefix :: "string \<Rightarrow> string \<Rightarrow> bool" where
  "HasPrefix s p = (take (length p) s = p)"

definition scoreSourceLabel :: "string \<Rightarrow> string" where
  "scoreSourceLabel model =
     (if model = [] then ''unknown''
      else if HasPrefix model ''rule:'' then ''rule''
      else ''model'')"

definition SetPolicyPhase :: "string \<Rightarrow> string \<Rightarrow> PolicyPhase \<Rightarrow> metrics" where
  "SetPolicyPhase namespace name phase =
     map (\<lambda>p. PolicyPhase_Set namespace name p (if p = phase then 1 else 0)) allPolicyPhases"

definition ForgetPolicyMetrics :: "string \<Rightarrow> string \<Rightarrow> metrics" where
  "ForgetPolicyMetrics namespace name =
     [PolicyPhase_Delete namespace name, ThresholdCrossings_Delete namespace name, ReactorThrottled_Delete namespace name]"

fun gauge_step :: "string \<Rightarrow> string \<Rightarrow> PolicyPhase \<Rightarrow> metric_op \<Rightarrow> int option \<Rightarrow> int option" where
  "gauge_step ns n p (PolicyPhase_Set ns' n' p' v) g = (if ns' = ns \<and> n' = n \<and> p' = p then Some v else g)"
| "gauge_step ns n p (PolicyPhase_Delete ns' n') g = (if ns' = ns \<and> n' = n then None else g)"
| "gauge_step ns n p _ g = g"

definition gauge_value :: "metrics \<Rightarrow> string \<Rightarrow> string \<Rightarrow> PolicyPhase \<Rightarrow> int option" where
  "gauge_value ms ns n p = fold (gauge_step ns n p) ms None"

lemma gauge_value_append: "gauge_value (ms @ ms') ns n p = fold (gauge_step ns n p) ms' (gauge_value ms ns n p)"
  by (simp add: gauge_value_def)

text \<open>After a phase is published, the policy's series show that phase and no other.\<close>

lemma gauge_SetPolicyPhase:
  "p \<in> set allPolicyPhases \<Longrightarrow>
   gauge_value (ms @ SetPolicyPhase ns n phase) ns n p = Some (if p = phase then 1 else 0)"
  by (auto simp: gauge_value_append SetPolicyPhase_def allPolicyPhases_def)

lemma gauge_SetPolicyPhase_other:
  "ns' \<noteq> ns \<or> n' \<noteq> n \<Longrightarrow> gauge_value (ms @ SetPolicyPhase ns n phase) ns' n' p = gauge_value ms ns' n' p"
  by (auto simp: gauge_value_append SetPolicyPhase_def allPolicyPhases_def)

lemma gauge_forget: "gauge_value (ms @ ForgetPolicyMetrics ns n) ns n p = None"
  by (simp add: gauge_value_append ForgetPolicyMetrics_def)

text \<open>
  The phase gauge is one-hot. Publishing a policy's phase makes the gauge of that phase 1 and the
  gauges of the other four phases 0, whatever was published before, and leaves every other policy's
  series alone; forgetting the policy removes all of them.
\<close>

theorem phase_gauge_one_hot:
  "(\<Sum>p \<leftarrow> allPolicyPhases. the (gauge_value (ms @ SetPolicyPhase ns n phase) ns n p)) =
     (if phase = PhaseNone then 0 else 1) \<and>
   gauge_value (ms @ SetPolicyPhase ns n phase) ns n phase = (if phase = PhaseNone then gauge_value ms ns n PhaseNone else Some 1) \<and>
   gauge_value (ms @ SetPolicyPhase ns n phase @ ForgetPolicyMetrics ns n) ns n p = None"
  by (cases phase)
    (auto simp: gauge_value_append SetPolicyPhase_def ForgetPolicyMetrics_def allPolicyPhases_def)

end
