(* ===== verification/Policy_Index.thy ===== *)
theory Policy_Index
  imports Api_Types "HOL-Library.Multiset"
begin

text \<open>
  The in-memory policy cache (\<open>pkg/controller/policy_index.go\<close>): policies by namespace, then by name,
  both Go maps modelled as association lists. The order in which Go walks a map is not fixed, so
  \<open>MatchingPolicies\<close> takes it as an argument that permutes the entries. The locale \<open>policy_cache\<close>
  is the contract its users rely on.
\<close>

type_synonym PolicyIndex = "(string \<times> (string \<times> Policy) list) list"

definition NewPolicyIndex :: PolicyIndex where
  "NewPolicyIndex = []"

definition Put :: "Policy \<Rightarrow> PolicyIndex \<Rightarrow> PolicyIndex" where
  "Put policy idx =
     (let byName = (case map_of idx (p_Namespace policy) of Some m \<Rightarrow> m | None \<Rightarrow> [])
      in AList.update (p_Namespace policy) (AList.update (p_Name policy) policy byName) idx)"

definition Remove :: "nsname \<Rightarrow> PolicyIndex \<Rightarrow> PolicyIndex" where
  "Remove key idx =
     (case map_of idx (ns_of key) of
        None \<Rightarrow> idx
      | Some byName \<Rightarrow>
          (let byName' = AList.delete (name_of key) byName
           in if length byName' = 0 then AList.delete (ns_of key) idx
              else AList.update (ns_of key) byName' idx))"

definition selectorMatchesOne :: "WorkloadSelector \<Rightarrow> labels \<Rightarrow> bool" where
  "selectorMatchesOne sel podLabels =
     (if App sel = [] \<and> length (MatchLabels sel) = 0 then False
      else if App sel \<noteq> [] \<and> map_index podLabels ''app'' \<noteq> App sel then False
      else list_all (\<lambda>(k, v). map_index podLabels k = v) (MatchLabels sel))"

definition selectorMatches :: "WorkloadSelector list \<Rightarrow> labels \<Rightarrow> bool" where
  "selectorMatches selectors podLabels = list_ex (\<lambda>sel. selectorMatchesOne sel podLabels) selectors"

text \<open>\<open>ord\<close> is the order of one walk over the namespace's map.\<close>

definition MatchingPolicies ::
  "((string \<times> Policy) list \<Rightarrow> (string \<times> Policy) list) \<Rightarrow> PolicyIndex \<Rightarrow> string \<Rightarrow> labels \<Rightarrow> Policy list" where
  "MatchingPolicies ord idx namespace podLabels =
     (let byName = (case map_of idx namespace of Some m \<Rightarrow> m | None \<Rightarrow> [])
      in filter (\<lambda>p. selectorMatches (TargetWorkloads (Spec p)) podLabels) (map snd (ord byName)))"

subsection \<open>The index as a map\<close>

definition index_lookup :: "PolicyIndex \<Rightarrow> nsname \<Rightarrow> Policy option" where
  "index_lookup idx key = (case map_of idx (ns_of key) of None \<Rightarrow> None | Some m \<Rightarrow> map_of m (name_of key))"

definition index_ok :: "PolicyIndex \<Rightarrow> bool" where
  "index_ok idx \<longleftrightarrow> distinct (map fst idx) \<and>
     (\<forall>ns m. (ns, m) \<in> set idx \<longrightarrow> m \<noteq> [] \<and> distinct (map fst m) \<and>
        (\<forall>n p. (n, p) \<in> set m \<longrightarrow> p_Namespace p = ns \<and> p_Name p = n))"

definition permutes_maps :: "((string \<times> Policy) list \<Rightarrow> (string \<times> Policy) list) \<Rightarrow> bool" where
  "permutes_maps ord = (\<forall>xs. mset (ord xs) = mset xs)"

text \<open>The contract: a cache of policies, one per key.\<close>

locale policy_cache =
  fixes ok :: "'i \<Rightarrow> bool"
    and look :: "'i \<Rightarrow> nsname \<Rightarrow> Policy option"
    and put :: "Policy \<Rightarrow> 'i \<Rightarrow> 'i"
    and rem :: "nsname \<Rightarrow> 'i \<Rightarrow> 'i"
  assumes ok_put: "ok i \<Longrightarrow> ok (put p i)"
    and ok_rem: "ok i \<Longrightarrow> ok (rem k i)"
    and look_put: "ok i \<Longrightarrow> look (put p i) k = (if k = policy_key p then Some p else look i k)"
    and look_rem: "ok i \<Longrightarrow> look (rem k i) k' = (if k' = k then None else look i k')"
    and look_key: "ok i \<Longrightarrow> look i k = Some p \<Longrightarrow> policy_key p = k"
begin

lemma fold_put_ok: "ok i \<Longrightarrow> ok (fold put ps i)"
  by (induction ps arbitrary: i) (simp_all add: ok_put)

lemma fold_put_other: "ok i \<Longrightarrow> k \<notin> policy_key ` set ps \<Longrightarrow> look (fold put ps i) k = look i k"
  by (induction ps arbitrary: i) (auto simp: ok_put look_put)

text \<open>Seeding with a list of policies of different keys makes every one of them present.\<close>

lemma fold_put_member:
  "ok i \<Longrightarrow> distinct (map policy_key ps) \<Longrightarrow> p \<in> set ps \<Longrightarrow> look (fold put ps i) (policy_key p) = Some p"
proof (induction ps arbitrary: i)
  case (Cons q ps)
  show ?case
  proof (cases "p \<in> set ps")
    case True
    then show ?thesis using Cons by (simp add: ok_put)
  next
    case False
    then have "p = q" "policy_key q \<notin> policy_key ` set ps" using Cons.prems by auto
    then show ?thesis using Cons.prems by (simp add: fold_put_other ok_put look_put)
  qed
qed simp

lemma put_put: "ok i \<Longrightarrow> policy_key p = policy_key q \<Longrightarrow> look (put q (put p i)) = look (put q i)"
  by (auto simp: fun_eq_iff look_put ok_put)

end

lemma index_ok_new: "index_ok NewPolicyIndex"
  by (simp add: index_ok_def NewPolicyIndex_def)

lemma index_okD:
  assumes "index_ok idx" "map_of idx ns = Some m"
  shows "m \<noteq> []" "distinct (map fst m)" "\<And>n p. map_of m n = Some p \<Longrightarrow> p_Namespace p = ns \<and> p_Name p = n"
  using assms map_of_SomeD [OF assms(2)] by (auto simp: index_ok_def dest!: map_of_SomeD)

lemma set_update_distinct:
  "distinct (map fst m) \<Longrightarrow> set (AList.update k v m) = insert (k, v) {x \<in> set m. fst x \<noteq> k}"
  by (induction m) (auto simp: image_iff)

lemma set_delete: "set (AList.delete k m) = {x \<in> set m. fst x \<noteq> k}"
  by (auto simp: AList.delete_eq)

lemma index_ok_update:
  assumes "index_ok idx" "m \<noteq> []" "distinct (map fst m)"
    and "\<forall>n p. (n, p) \<in> set m \<longrightarrow> p_Namespace p = ns \<and> p_Name p = n"
  shows "index_ok (AList.update ns m idx)"
  using assms unfolding index_ok_def
  by (auto simp: distinct_update set_update_distinct)

lemma index_ok_Put: "index_ok idx \<Longrightarrow> index_ok (Put p idx)"
proof -
  assume ok: "index_ok idx"
  define m where "m = (case map_of idx (p_Namespace p) of Some m \<Rightarrow> m | None \<Rightarrow> [])"
  have m: "distinct (map fst m)" "\<forall>n q. (n, q) \<in> set m \<longrightarrow> p_Namespace q = p_Namespace p \<and> p_Name q = n"
    using ok map_of_SomeD [of idx "p_Namespace p"] by (auto simp: m_def index_ok_def split: option.splits)
  have "index_ok (AList.update (p_Namespace p) (AList.update (p_Name p) p m) idx)"
    by (rule index_ok_update [OF ok]) (use m in \<open>auto simp: distinct_update set_update_distinct\<close>)
  then show ?thesis by (simp add: Put_def m_def [symmetric])
qed

lemma index_ok_Remove: "index_ok idx \<Longrightarrow> index_ok (Remove k idx)"
proof -
  assume ok: "index_ok idx"
  show ?thesis
  proof (cases "map_of idx (ns_of k)")
    case (Some m)
    have m: "distinct (map fst m)" "\<forall>n q. (n, q) \<in> set m \<longrightarrow> p_Namespace q = ns_of k \<and> p_Name q = n"
      using ok map_of_SomeD [OF Some] by (auto simp: index_ok_def)
    have del: "index_ok (AList.delete (ns_of k) idx)"
      using ok by (auto simp: index_ok_def distinct_delete set_delete)
    have "index_ok (AList.update (ns_of k) (AList.delete (name_of k) m) idx)" if "AList.delete (name_of k) m \<noteq> []"
      by (rule index_ok_update [OF ok that]) (use m in \<open>auto simp: distinct_delete set_delete\<close>)
    then show ?thesis using Some del by (simp add: Remove_def Let_def)
  qed (simp add: Remove_def ok)
qed

lemma map_of_delete_empty: "AList.delete k m = [] \<Longrightarrow> k' \<noteq> k \<Longrightarrow> map_of m k' = None"
  by (metis delete_conv' fun_upd_other map_of.simps(1))

interpretation policy_index: policy_cache index_ok index_lookup Put Remove
proof
  fix i p k k' q
  show "index_ok i \<Longrightarrow> index_ok (Put p i)" by (rule index_ok_Put)
  show "index_ok i \<Longrightarrow> index_ok (Remove k i)" by (rule index_ok_Remove)
  show "index_lookup (Put p i) k = (if k = policy_key p then Some p else index_lookup i k)"
    by (cases k) (auto simp: index_lookup_def Put_def Let_def update_conv' policy_key_def split: option.split)
  show "index_lookup (Remove k i) k' = (if k' = k then None else index_lookup i k')"
    by (cases k; cases k')
      (auto simp: index_lookup_def Remove_def Let_def update_conv' delete_conv' map_of_delete_empty split: option.split)
  show "index_ok i \<Longrightarrow> index_lookup i k = Some q \<Longrightarrow> policy_key q = k"
    by (cases k) (auto simp: index_lookup_def policy_key_def dest: index_okD(3) split: option.splits)
qed

subsection \<open>Matching\<close>

lemma selectorMatchesOne_iff:
  "selectorMatchesOne sel ls \<longleftrightarrow> (App sel \<noteq> [] \<or> MatchLabels sel \<noteq> []) \<and>
     (App sel = [] \<or> map_index ls ''app'' = App sel) \<and> (\<forall>(k, v) \<in> set (MatchLabels sel). map_index ls k = v)"
  by (auto simp: selectorMatchesOne_def list_all_iff)

lemma MatchingPolicies_spec:
  assumes "index_ok idx" "permutes_maps ord"
  shows "(p \<in> set (MatchingPolicies ord idx ns ls) \<longleftrightarrow>
      p_Namespace p = ns \<and> index_lookup idx (policy_key p) = Some p \<and>
      list_ex (\<lambda>sel. selectorMatchesOne sel ls) (TargetWorkloads (Spec p))) \<and>
    distinct (map policy_key (MatchingPolicies ord idx ns ls))"
proof -
  define m where "m = (case map_of idx ns of Some m \<Rightarrow> m | None \<Rightarrow> [])"
  have m: "distinct (map fst m)" "\<And>n q. (n, q) \<in> set m \<Longrightarrow> p_Namespace q = ns \<and> p_Name q = n"
    using assms(1) map_of_SomeD [of idx ns] by (auto simp: m_def index_ok_def split: option.splits)
  have res: "MatchingPolicies ord idx ns ls = filter (\<lambda>p. selectorMatches (TargetWorkloads (Spec p)) ls) (map snd (ord m))"
    by (simp add: MatchingPolicies_def m_def Let_def)
  have perm: "mset (ord m) = mset m" using assms(2) by (simp add: permutes_maps_def)
  then have set: "set (ord m) = set m" by (metis set_mset_mset)
  have look: "index_lookup idx (policy_key p) = Some p \<longleftrightarrow> (p_Name p, p) \<in> set m" if "p_Namespace p = ns"
    using m(1) that by (cases "map_of idx ns") (simp_all add: index_lookup_def policy_key_def m_def)
  have mem: "p \<in> set (MatchingPolicies ord idx ns ls) \<longleftrightarrow>
      p_Namespace p = ns \<and> index_lookup idx (policy_key p) = Some p \<and>
      list_ex (\<lambda>sel. selectorMatchesOne sel ls) (TargetWorkloads (Spec p))"
  proof -
    have "p \<in> snd ` set m \<longleftrightarrow> (\<exists>n. (n, p) \<in> set m)" by (auto intro: rev_image_eqI)
    then have "p \<in> snd ` set m \<longleftrightarrow> p_Namespace p = ns \<and> (p_Name p, p) \<in> set m" using m(2) by blast
    then have "p \<in> snd ` set m \<longleftrightarrow> p_Namespace p = ns \<and> index_lookup idx (policy_key p) = Some p" using look by blast
    then show ?thesis unfolding res selectorMatches_def set_filter set_map set by blast
  qed
  have keys: "map policy_key (map snd (ord m)) = map (\<lambda>x. NsName ns (fst x)) (ord m)"
    unfolding map_map comp_def policy_key_def using m(2) by (intro map_cong) (auto simp: set)
  have "distinct (map fst (ord m))"
    using m(1) mset_eq_imp_distinct_iff [of "map fst (ord m)" "map fst m"] perm by simp
  then have "distinct (map (\<lambda>x. NsName ns (fst x)) (ord m))"
    by (auto simp: distinct_map inj_on_def)
  then have "distinct (map policy_key (MatchingPolicies ord idx ns ls))"
    unfolding res keys [symmetric] by (rule distinct_map_filter)
  then show ?thesis using mem by blast
qed


definition selector_app :: "string \<Rightarrow> WorkloadSelector" where
  "selector_app a = \<lparr>App = a, MatchLabels = []\<rparr>"

definition sample_policy :: Policy where
  "sample_policy = \<lparr>p_Namespace = ''core'', p_Name = ''upf'', p_ResourceVersion = ''1'', p_Generation = 1,
     p_DeletionTimestamp = None, p_Finalizers = [],
     Spec = \<lparr>TargetWorkloads = [selector_app ''upf''],
             ThreatDetection = \<lparr>Sensitivity = SensitivityLow, AutoMitigate = True\<rparr>,
             Actions = \<lparr>EbpfBlock = True, EbpfBlockTunnel = True, IsolatePod = True\<rparr>\<rparr>,
     Status = \<lparr>Phase = PhaseMonitoring, ObservedThreatScore = [], LastMitigationTime = None,
               BlockedSourceIPs = [], BlockedTunnels = [], Conditions = []\<rparr>\<rparr>"


end
