(* ===== verification/Operator_Env.thy ===== *)
theory Operator_Env
  imports Metrics Policy_Index Events Ebpf_Blocklist
begin

text \<open>
  What the controllers of \<open>pkg/controller\<close> are given from outside: the Kubernetes API (objects read
  and written, an error or the object as the server returned it), the clock, the token-bucket
  limiter of \<open>golang.org/x/time/rate\<close>, the blocklist, the mesh adapter and the event recorder. All of
  them act on one world \<open>'w\<close>. A write returns an error or the object as the server stored it.
\<close>

record Pod =
  pod_Namespace :: string
  pod_Name :: string
  pod_Labels :: labels
  pod_PodIP :: string

record ('l, 'w) env =
  clock :: "'w \<Rightarrow> time \<times> 'w"
  get_configmap :: "nsname \<Rightarrow> 'w \<Rightarrow> (err + labels) \<times> 'w"
  get_pod :: "nsname \<Rightarrow> 'w \<Rightarrow> (err + Pod) \<times> 'w"
  get_policy :: "nsname \<Rightarrow> 'w \<Rightarrow> (err + Policy) \<times> 'w"
  list_policies :: "'w \<Rightarrow> (err + Policy list) \<times> 'w"
  update_policy :: "Policy \<Rightarrow> 'w \<Rightarrow> (err + Policy) \<times> 'w"
  update_status :: "Policy \<Rightarrow> 'w \<Rightarrow> (err + Policy) \<times> 'w"
  new_limiter :: "float64 \<Rightarrow> int \<Rightarrow> 'l"
  limiter_Allow :: "'l \<Rightarrow> 'w \<Rightarrow> (bool \<times> 'l) \<times> 'w"
  updater :: "'w BlocklistUpdater"
  mesh_Quarantine :: "string \<Rightarrow> labels \<Rightarrow> 'w \<Rightarrow> err option \<times> 'w"
  mesh_Release :: "string \<Rightarrow> labels \<Rightarrow> 'w \<Rightarrow> err option \<times> 'w"
  record_event :: "string \<Rightarrow> string \<Rightarrow> 'w \<Rightarrow> 'w"
  walk :: "(string \<times> Policy) list \<Rightarrow> (string \<times> Policy) list"
  k8s :: k8s_lib

end
