(* ===== verification/Sim_World.thy ===== *)
theory Sim_World
  imports Operator_Env Ebpf_Loader
begin

text \<open>
  A concrete world for the controllers: an API server that stores objects, a clock, in-memory BPF maps
  behind the model of the loader, and the list of active quarantines. It is used to evaluate the model
  on concrete inputs and to show that the hypotheses about the outside world can be met.
\<close>

record sim =
  s_now :: time
  s_policies :: "(nsname \<times> Policy) list"
  s_history :: "((nsname \<times> string) \<times> PolicyStatus) list"
  s_version :: nat
  s_pods :: "(nsname \<times> Pod) list"
  s_configmaps :: "(nsname \<times> labels) list"
  s_kernel :: "(nat, mem) kernel"
  s_quarantined :: "(string \<times> labels) list"
  s_events :: "(string \<times> string) list"
  s_apiDown :: bool

definition sim_start :: sim where
  "sim_start = \<lparr>s_now = 0, s_policies = [], s_history = [], s_version = 0, s_pods = [], s_configmaps = [], s_kernel = mem_kernel,
     s_quarantined = [], s_events = [], s_apiDown = False\<rparr>"

definition unreachable :: err where
  "unreachable = new_err ''api server unreachable''"

definition sim_get :: "(nsname \<times> 'a) list \<Rightarrow> nsname \<Rightarrow> sim \<Rightarrow> (err + 'a) \<times> sim" where
  "sim_get objs k w =
     (if s_apiDown w then (Inl unreachable, w)
      else case map_of objs k of None \<Rightarrow> (Inl (Sentinel NotFound), w) | Some x \<Rightarrow> (Inr x, w))"

text \<open>
  Writes are accepted only for the stored resource version, and every accepted write makes a new one.
  The history keeps the status of every version. A write of the object leaves its status alone; an
  object that is being deleted goes away with its last finalizer.
\<close>

definition sim_store :: "Policy \<Rightarrow> sim \<Rightarrow> Policy \<times> sim" where
  "sim_store q w =
     (let q' = q\<lparr>p_ResourceVersion := replicate (s_version w) (CHR ''v'')\<rparr>
      in (q', w\<lparr>s_policies := AList.update (policy_key q) q' (s_policies w),
               s_history := ((policy_key q, p_ResourceVersion q'), Status q) # s_history w,
               s_version := Suc (s_version w)\<rparr>))"

definition sim_write :: "(Policy \<Rightarrow> sim \<Rightarrow> (err + Policy) \<times> sim) \<Rightarrow> Policy \<Rightarrow> sim \<Rightarrow> (err + Policy) \<times> sim" where
  "sim_write f p w =
     (if s_apiDown w then (Inl unreachable, w)
      else case map_of (s_policies w) (policy_key p) of
        None \<Rightarrow> (Inl (Sentinel NotFound), w)
      | Some q \<Rightarrow> if p_ResourceVersion q = p_ResourceVersion p then f q w else (Inl (Sentinel Conflict), w))"

definition sim_update_status :: "Policy \<Rightarrow> sim \<Rightarrow> (err + Policy) \<times> sim" where
  "sim_update_status p =
     sim_write (\<lambda>q w. case sim_store (q\<lparr>Status := Status p\<rparr>) w of (q', w') \<Rightarrow> (Inr q', w')) p"

definition sim_update_policy :: "Policy \<Rightarrow> sim \<Rightarrow> (err + Policy) \<times> sim" where
  "sim_update_policy p =
     sim_write (\<lambda>q w.
       let q1 = q\<lparr>p_Finalizers := p_Finalizers p, Spec := Spec p\<rparr>
       in if p_DeletionTimestamp q \<noteq> None \<and> p_Finalizers p = []
          then (Inr q1, w\<lparr>s_policies := AList.delete (policy_key p) (s_policies w)\<rparr>)
          else case sim_store q1 w of (q', w') \<Rightarrow> (Inr q', w')) p"

definition sim_create :: "Policy \<Rightarrow> sim \<Rightarrow> sim" where
  "sim_create p w = snd (sim_store p w)"

definition on_kernel :: "((nat, mem) kernel \<Rightarrow> 'a \<times> (nat, mem) kernel) \<Rightarrow> sim \<Rightarrow> 'a \<times> sim" where
  "on_kernel f w = (case f (s_kernel w) of (r, k) \<Rightarrow> (r, w\<lparr>s_kernel := k\<rparr>))"

definition sim_updater :: "sim BlocklistUpdater" where
  "sim_updater = \<lparr>
     Block = (\<lambda>ip. on_kernel (Loader_Block ip)),
     Unblock = (\<lambda>ip. on_kernel (Loader_Unblock ip)),
     BlockTunnel = (\<lambda>ip t. on_kernel (Loader_BlockTunnel ip t)),
     UnblockTunnel = (\<lambda>ip t. on_kernel (Loader_UnblockTunnel ip t))\<rparr>"

definition sim_inspector :: "sim BlocklistInspector" where
  "sim_inspector = \<lparr>
     inspect_BlockedIPs = on_kernel Loader_BlockedIPs,
     inspect_BlockedTunnels = on_kernel Loader_BlockedTunnels,
     PinPath = (\<lambda>w. pinPath (k_loader (s_kernel w))),
     PinReset = (\<lambda>w. pinReset (k_loader (s_kernel w))),
     MapCapacity = (\<lambda>w. Loader_MapCapacity (s_kernel w)),
     ObservationOccupancy = on_kernel Loader_ObservationOccupancy\<rparr>"

text \<open>The limiter is a number of tokens.\<close>

definition sim_env :: "(nat, sim) env" where
  "sim_env = \<lparr>
     clock = (\<lambda>w. (s_now w, w)),
     get_configmap = (\<lambda>k w. sim_get (s_configmaps w) k w),
     get_pod = (\<lambda>k w. sim_get (s_pods w) k w),
     get_policy = (\<lambda>k w. sim_get (s_policies w) k w),
     list_policies = (\<lambda>w. if s_apiDown w then (Inl unreachable, w) else (Inr (map snd (s_policies w)), w)),
     update_policy = sim_update_policy,
     update_status = sim_update_status,
     new_limiter = (\<lambda>r b. nat b),
     limiter_Allow = (\<lambda>l w. if l = 0 then ((False, 0), w) else ((True, l - 1), w)),
     updater = sim_updater,
     mesh_Quarantine = (\<lambda>ns sel w. (None, w\<lparr>s_quarantined := List.insert (ns, sel) (s_quarantined w)\<rparr>)),
     mesh_Release = (\<lambda>ns sel w. (None, w\<lparr>s_quarantined := filter (\<lambda>q. q \<noteq> (ns, sel)) (s_quarantined w)\<rparr>)),
     record_event = (\<lambda>obj reason w. w\<lparr>s_events := s_events w @ [(obj, reason)]\<rparr>),
     walk = (\<lambda>xs. xs),
     k8s = k8s_ref\<rparr>"

lemma sim_env_simps [simp]:
  "clock sim_env w = (s_now w, w)"
  "get_configmap sim_env k w = sim_get (s_configmaps w) k w"
  "get_pod sim_env k w = sim_get (s_pods w) k w"
  "get_policy sim_env k w = sim_get (s_policies w) k w"
  "list_policies sim_env w = (if s_apiDown w then (Inl unreachable, w) else (Inr (map snd (s_policies w)), w))"
  "update_policy sim_env = sim_update_policy"
  "update_status sim_env = sim_update_status"
  "new_limiter sim_env r b = nat b"
  "limiter_Allow sim_env l w = (if l = 0 then ((False, 0), w) else ((True, l - 1), w))"
  "updater sim_env = sim_updater"
  "mesh_Quarantine sim_env ns sel w = (None, w\<lparr>s_quarantined := List.insert (ns, sel) (s_quarantined w)\<rparr>)"
  "mesh_Release sim_env ns sel w = (None, w\<lparr>s_quarantined := filter (\<lambda>q. q \<noteq> (ns, sel)) (s_quarantined w)\<rparr>)"
  "record_event sim_env obj reason w = w\<lparr>s_events := s_events w @ [(obj, reason)]\<rparr>"
  "walk sim_env xs = xs"
  "k8s sim_env = k8s_ref"
  by (simp_all add: sim_env_def)

lemma sim_start_simps [simp]:
  "s_now sim_start = 0" "s_policies sim_start = []" "s_history sim_start = []" "s_version sim_start = 0"
  "s_pods sim_start = []" "s_configmaps sim_start = []"
  "s_kernel sim_start = mem_kernel" "s_quarantined sim_start = []" "s_events sim_start = []" "s_apiDown sim_start = False"
  by (simp_all add: sim_start_def)

text \<open>
  The world is consistent: the kernel is, every stored object is filed under its key with its status in
  the history, and the history holds no version that is still to come.
\<close>

definition sim_api_inv :: "(nsname \<times> Policy) list \<Rightarrow> ((nsname \<times> string) \<times> PolicyStatus) list \<Rightarrow> nat \<Rightarrow> bool" where
  "sim_api_inv ps hs n \<longleftrightarrow> distinct (map fst ps) \<and>
     (\<forall>k q. map_of ps k = Some q \<longrightarrow> policy_key q = k \<and> map_of hs (k, p_ResourceVersion q) = Some (Status q)) \<and>
     (\<forall>k v st. map_of hs (k, v) = Some st \<longrightarrow> length v < n)"

definition sim_inv :: "sim \<Rightarrow> bool" where
  "sim_inv w \<longleftrightarrow> loader_inv (s_kernel w) \<and> sim_api_inv (s_policies w) (s_history w) (s_version w)"

definition sim_drops :: "sim \<Rightarrow> bytes set" where
  "sim_drops w = loader_drops (s_kernel w)"

definition sim_tdrops :: "sim \<Rightarrow> (bytes \<times> u32) set" where
  "sim_tdrops w = loader_tdrops (s_kernel w)"

lemma sim_start_inv: "sim_inv sim_start"
  by (simp add: sim_inv_def sim_api_inv_def sim_start_def mem_kernel_inv)

text \<open>The loader seen through the larger world still keeps the contract.\<close>

interpretation sim_loader: enforcer sim_updater sim_inspector sim_inv sim_drops sim_tdrops
proof (unfold_locales, goal_cases)
  case (1 s ip r s')
  then show ?case
    using Loader_Block_contract [of "s_kernel s" ip r]
    by (auto simp: sim_updater_def on_kernel_def sim_inv_def sim_drops_def sim_tdrops_def split: prod.splits)
next
  case (2 s ip r s')
  then show ?case
    using Loader_Unblock_contract [of "s_kernel s" ip r]
    by (auto simp: sim_updater_def on_kernel_def sim_inv_def sim_drops_def sim_tdrops_def split: prod.splits)
next
  case (3 s ip t r s')
  then show ?case
    using Loader_BlockTunnel_contract [of "s_kernel s" ip t r]
    by (auto simp: sim_updater_def on_kernel_def sim_inv_def sim_drops_def sim_tdrops_def split: prod.splits)
next
  case (4 s ip t r s')
  then show ?case
    using Loader_UnblockTunnel_contract [of "s_kernel s" ip t r]
    by (auto simp: sim_updater_def on_kernel_def sim_inv_def sim_drops_def sim_tdrops_def split: prod.splits)
next
  case (5 s r s')
  then show ?case
    using Loader_BlockedIPs_contract [of "s_kernel s" r]
    by (auto simp: sim_inspector_def on_kernel_def sim_inv_def sim_drops_def sim_tdrops_def split: prod.splits)
next
  case (6 s r s')
  then show ?case
    using Loader_BlockedTunnels_contract [of "s_kernel s" r]
    by (auto simp: sim_inspector_def on_kernel_def sim_inv_def sim_drops_def sim_tdrops_def split: prod.splits)
qed

text \<open>In-memory maps never refuse an entry.\<close>

lemma mem_never_fails:
  assumes "k_sys k = mem_sys" "valid_ip ip"
  shows "\<exists>k'. Loader_Block ip k = (None, k') \<and> k_sys k' = mem_sys"
    and "\<exists>k'. Loader_Unblock ip k = (None, k') \<and> k_sys k' = mem_sys"
    and "t \<noteq> 0 \<Longrightarrow> \<exists>k'. Loader_BlockTunnel ip t k = (None, k') \<and> k_sys k' = mem_sys"
    and "t \<noteq> 0 \<Longrightarrow> \<exists>k'. Loader_UnblockTunnel ip t k = (None, k') \<and> k_sys k' = mem_sys"
proof -
  show "\<exists>k'. Loader_Block ip k = (None, k') \<and> k_sys k' = mem_sys"
    by (rule mapAndKey_cases [OF assms(2), of "k_loader k"]) (simp_all add: Loader_Block_def assms(1) mem_sys_def)
  show "\<exists>k'. Loader_Unblock ip k = (None, k') \<and> k_sys k' = mem_sys"
    by (rule mapAndKey_cases [OF assms(2), of "k_loader k"]) (simp_all add: Loader_Unblock_def assms(1) mem_sys_def)
  show "t \<noteq> 0 \<Longrightarrow> \<exists>k'. Loader_BlockTunnel ip t k = (None, k') \<and> k_sys k' = mem_sys"
    by (rule tmapAndKey_cases [OF assms(2), of t "k_loader k"]) (simp_all add: Loader_BlockTunnel_def assms(1) mem_sys_def)
  show "t \<noteq> 0 \<Longrightarrow> \<exists>k'. Loader_UnblockTunnel ip t k = (None, k') \<and> k_sys k' = mem_sys"
    by (rule tmapAndKey_cases [OF assms(2), of t "k_loader k"]) (simp_all add: Loader_UnblockTunnel_def assms(1) mem_sys_def)
qed

lemma sim_status_accepts:
  assumes "\<not> s_apiDown w" "map_of (s_policies w) (policy_key p) = Some q" "p_ResourceVersion q = p_ResourceVersion p"
  shows "\<exists>p' w'. sim_update_status p w = (Inr p', w') \<and> s_kernel w' = s_kernel w"
  using assms by (simp add: sim_update_status_def sim_write_def sim_store_def Let_def)

end
