(* ===== verification/Pod_Ip_Index.thy ===== *)
theory Pod_Ip_Index
  imports Sim_World "HOL-Library.Mapping"
begin

text \<open>
  The Pod address cache (\<open>pkg/controller/pod_ip_index.go\<close>) and the controller that feeds it
  (\<open>pod_ip_indexer.go\<close>). The cache is a pair of maps, the address of each Pod and the Pod of each
  address; \<open>owner_table\<close> is what its users see, one map from addresses to owners.
\<close>

record PodRef =
  pr_Namespace :: string
  pr_Name :: string

record PodIPIndex =
  byIP :: "(string, PodRef) mapping"
  byPod :: "(nsname, string) mapping"

definition NewPodIPIndex :: PodIPIndex where
  "NewPodIPIndex = \<lparr>byIP = Mapping.empty, byPod = Mapping.empty\<rparr>"

definition pod_key :: "PodRef \<Rightarrow> nsname" where
  "pod_key ref = NsName (pr_Namespace ref) (pr_Name ref)"

definition pod_Put :: "string \<Rightarrow> PodRef \<Rightarrow> PodIPIndex \<Rightarrow> PodIPIndex" where
  "pod_Put ip ref idx =
     (if ip = [] then idx
      else
        (let key = pod_key ref;
             byIP' = (case Mapping.lookup (byPod idx) key of
                        Some oldIP \<Rightarrow>
                          if oldIP \<noteq> ip \<and> Mapping.lookup (byIP idx) oldIP = Some ref
                          then Mapping.delete oldIP (byIP idx) else byIP idx
                      | None \<Rightarrow> byIP idx)
         in \<lparr>byIP = Mapping.update ip ref byIP', byPod = Mapping.update key ip (byPod idx)\<rparr>))"

definition pod_Lookup :: "PodIPIndex \<Rightarrow> string \<Rightarrow> PodRef option" where
  "pod_Lookup idx ip = Mapping.lookup (byIP idx) ip"

definition pod_Remove :: "nsname \<Rightarrow> PodIPIndex \<Rightarrow> PodIPIndex" where
  "pod_Remove key idx =
     (case Mapping.lookup (byPod idx) key of
        None \<Rightarrow> idx
      | Some ip \<Rightarrow>
          (let byPod' = Mapping.delete key (byPod idx)
           in case Mapping.lookup (byIP idx) ip of
                Some ref \<Rightarrow>
                  if pr_Namespace ref = ns_of key \<and> pr_Name ref = name_of key
                  then \<lparr>byIP = Mapping.delete ip (byIP idx), byPod = byPod'\<rparr>
                  else idx\<lparr>byPod := byPod'\<rparr>
              | None \<Rightarrow> idx\<lparr>byPod := byPod'\<rparr>))"

text \<open>\<open>PodIPIndexer.Reconcile\<close>.\<close>

definition indexer_Reconcile :: "('l, 'w) env \<Rightarrow> nsname \<Rightarrow> PodIPIndex \<Rightarrow> 'w \<Rightarrow> (err option \<times> PodIPIndex) \<times> 'w" where
  "indexer_Reconcile env key idx w =
     (case get_pod env key w of
        (Inl e, w') \<Rightarrow>
          if err_is e NotFound then ((None, pod_Remove key idx), w')
          else ((Some (wrap ''get pod'' e), idx), w')
      | (Inr pod, w') \<Rightarrow>
          if pod_PodIP pod = [] then ((None, idx), w')
          else ((None, pod_Put (pod_PodIP pod) \<lparr>pr_Namespace = pod_Namespace pod, pr_Name = pod_Name pod\<rparr> idx), w'))"

subsection \<open>One map from addresses to owners\<close>

text \<open>What the cache promises: taking an address gives up the one held before, whoever held it.\<close>

definition take_address :: "string \<Rightarrow> PodRef \<Rightarrow> (string \<Rightarrow> PodRef option) \<Rightarrow> string \<Rightarrow> PodRef option" where
  "take_address ip ref owner =
     (if ip = [] then owner else (\<lambda>i. if owner i = Some ref then None else owner i)(ip \<mapsto> ref))"

definition give_up :: "nsname \<Rightarrow> (string \<Rightarrow> PodRef option) \<Rightarrow> string \<Rightarrow> PodRef option" where
  "give_up key owner = (\<lambda>i. case owner i of Some ref \<Rightarrow> if pod_key ref = key then None else Some ref | None \<Rightarrow> None)"

text \<open>
  What the index is told: an address was seen on a Pod, or a Pod is gone. An address belongs to whoever was seen with it last,
  unless that Pod went away or was seen with another address since.
\<close>

fun pod_event :: "(string \<times> PodRef) + nsname \<Rightarrow> PodIPIndex \<Rightarrow> PodIPIndex" where
  "pod_event (Inl (ip, ref)) idx = pod_Put ip ref idx"
| "pod_event (Inr key) idx = pod_Remove key idx"

definition loses :: "string \<Rightarrow> PodRef \<Rightarrow> (string \<times> PodRef) + nsname \<Rightarrow> bool" where
  "loses ip ref x = (case x of Inl (ip', ref') \<Rightarrow> ip' \<noteq> [] \<and> (ip' = ip \<or> ref' = ref) | Inr key \<Rightarrow> key = pod_key ref)"

lemma pod_key_eq_iff: "pod_key a = pod_key b \<longleftrightarrow> a = b"
  by (auto simp: pod_key_def)

locale owner_table =
  fixes ok :: "'s \<Rightarrow> bool" and lookup :: "'s \<Rightarrow> string \<Rightarrow> PodRef option"
    and put :: "string \<Rightarrow> PodRef \<Rightarrow> 's \<Rightarrow> 's" and remove :: "nsname \<Rightarrow> 's \<Rightarrow> 's"
  assumes put: "ok s \<Longrightarrow> ok (put ip ref s) \<and> lookup (put ip ref s) = take_address ip ref (lookup s)"
    and remove: "ok s \<Longrightarrow> ok (remove key s) \<and> lookup (remove key s) = give_up key (lookup s)"
begin

fun run :: "(string \<times> PodRef) + nsname \<Rightarrow> 's \<Rightarrow> 's" where
  "run (Inl (ip, ref)) s = put ip ref s"
| "run (Inr key) s = remove key s"

lemma run_ok: "ok s \<Longrightarrow> ok (run x s)"
  by (cases "(x, s)" rule: run.cases) (simp_all add: put remove)

lemma fold_ok: "ok s \<Longrightarrow> ok (fold run xs s)"
  by (induction xs arbitrary: s) (simp_all add: run_ok)

lemma lookup_run:
  "ok s \<Longrightarrow> lookup (run x s) ip = Some ref \<longleftrightarrow>
     x = Inl (ip, ref) \<and> ip \<noteq> [] \<or> lookup s ip = Some ref \<and> \<not> loses ip ref x"
  by (cases "(x, s)" rule: run.cases)
    (auto simp: put remove take_address_def give_up_def loses_def pod_key_eq_iff split: option.splits if_splits)

lemma lookup_trace:
  assumes "ok s" "lookup s ip = None"
  shows "lookup (fold run xs s) ip = Some ref \<longleftrightarrow>
     ip \<noteq> [] \<and> (\<exists>before after. xs = before @ Inl (ip, ref) # after \<and> (\<forall>x \<in> set after. \<not> loses ip ref x))"
proof (induction xs rule: rev_induct)
  case Nil
  then show ?case using assms by simp
next
  case (snoc x xs)
  have "lookup (fold run (xs @ [x]) s) ip = Some ref \<longleftrightarrow>
      x = Inl (ip, ref) \<and> ip \<noteq> [] \<or> lookup (fold run xs s) ip = Some ref \<and> \<not> loses ip ref x"
    using lookup_run [OF fold_ok [OF assms(1)], of x xs ip ref] by simp
  also have "\<dots> \<longleftrightarrow> ip \<noteq> [] \<and> (\<exists>before after. xs @ [x] = before @ Inl (ip, ref) # after \<and> (\<forall>x \<in> set after. \<not> loses ip ref x))"
    (is "_ \<longleftrightarrow> _ \<and> ?R")
  proof -
    have "?R \<longleftrightarrow> x = Inl (ip, ref) \<or>
        (\<exists>before after. xs = before @ Inl (ip, ref) # after \<and> (\<forall>x \<in> set after. \<not> loses ip ref x)) \<and> \<not> loses ip ref x"
    proof
      assume ?R
      then obtain before after where R: "xs @ [x] = before @ Inl (ip, ref) # after" "\<forall>x \<in> set after. \<not> loses ip ref x" by blast
      then show "x = Inl (ip, ref) \<or>
        (\<exists>before after. xs = before @ Inl (ip, ref) # after \<and> (\<forall>x \<in> set after. \<not> loses ip ref x)) \<and> \<not> loses ip ref x"
        by (cases after rule: rev_cases) auto
    next
      assume "x = Inl (ip, ref) \<or>
        (\<exists>before after. xs = before @ Inl (ip, ref) # after \<and> (\<forall>x \<in> set after. \<not> loses ip ref x)) \<and> \<not> loses ip ref x"
      then show ?R
      proof
        assume "x = Inl (ip, ref)"
        then show ?R by (intro exI [of _ xs] exI [of _ "[]"]) simp
      next
        assume "(\<exists>before after. xs = before @ Inl (ip, ref) # after \<and> (\<forall>x \<in> set after. \<not> loses ip ref x)) \<and> \<not> loses ip ref x"
        then obtain before after where "xs = before @ Inl (ip, ref) # after" "\<forall>x \<in> set after. \<not> loses ip ref x" "\<not> loses ip ref x" by blast
        then show ?R by (intro exI [of _ before] exI [of _ "after @ [x]"]) auto
      qed
    qed
    then show ?thesis using snoc by blast
  qed
  finally show ?case .
qed

end

text \<open>The two maps agree: the Pod an address points to has that address.\<close>

definition pod_index_ok :: "PodIPIndex \<Rightarrow> bool" where
  "pod_index_ok idx \<longleftrightarrow>
     (\<forall>ip ref. Mapping.lookup (byIP idx) ip = Some ref \<longrightarrow> Mapping.lookup (byPod idx) (pod_key ref) = Some ip)"

lemma one_address:
  assumes "pod_index_ok idx" "Mapping.lookup (byIP idx) a = Some ref" "Mapping.lookup (byIP idx) b = Some ref"
  shows "a = b"
  using assms unfolding pod_index_ok_def by (metis option.inject)

lemma lookup_deleted: "Mapping.lookup (Mapping.delete k m) i = (if i = k then None else Mapping.lookup m i)"
  by (cases "i = k") simp_all

lemma pod_key_fields: "pr_Namespace ref = ns_of key \<and> pr_Name ref = name_of key \<longleftrightarrow> pod_key ref = key"
  by (cases key) (auto simp: pod_key_def)

interpretation pod_owners: owner_table pod_index_ok pod_Lookup pod_Put pod_Remove
proof (unfold_locales, goal_cases)
  case (1 idx ip ref)
  then show ?case
    by (auto dest: one_address [OF 1] simp: pod_index_ok_def pod_Lookup_def pod_Put_def Let_def take_address_def fun_eq_iff lookup_update' lookup_deleted pod_key_eq_iff
        split: option.splits if_splits)
next
  case (2 idx key)
  then show ?case
    by (auto dest: one_address [OF 2] simp: pod_index_ok_def pod_Lookup_def pod_Remove_def Let_def give_up_def fun_eq_iff lookup_deleted pod_key_fields pod_key_eq_iff
        split: option.splits if_splits)
qed

lemma pod_event_run: "pod_event = pod_owners.run"
proof (intro ext)
  fix x idx
  show "pod_event x idx = pod_owners.run x idx" by (cases "(x, idx)" rule: pod_event.cases) simp_all
qed

lemma new_index: "pod_index_ok NewPodIPIndex" "pod_Lookup NewPodIPIndex ip = None"
  by (simp_all add: pod_index_ok_def NewPodIPIndex_def pod_Lookup_def)

lemma reached_ok: "pod_index_ok (fold pod_event xs NewPodIPIndex)"
  unfolding pod_event_run by (rule pod_owners.fold_ok [OF new_index(1)])

text \<open>
  C31: attribution follows the last sighting. After any interleaving of sightings and deletions, in any order, an address resolves to a Pod
  exactly if that Pod was seen with it and since then neither was another Pod seen with it, nor was the Pod
  seen with another address or deleted; a late deletion of the previous owner does not evict the new one.
\<close>

theorem pod_lookup_last_sighting:
  "pod_Lookup (fold pod_event xs NewPodIPIndex) ip = Some ref \<longleftrightarrow>
     ip \<noteq> [] \<and> (\<exists>before after. xs = before @ Inl (ip, ref) # after \<and> (\<forall>x \<in> set after. \<not> loses ip ref x))"
  unfolding pod_event_run by (rule pod_owners.lookup_trace [OF new_index])

theorem pod_lookup_last_sighting_witness:
  "pod_Lookup (fold pod_event [Inl (''10.0.0.1'', \<lparr>pr_Namespace = ''a'', pr_Name = ''old''\<rparr>),
     Inl (''10.0.0.1'', \<lparr>pr_Namespace = ''a'', pr_Name = ''new''\<rparr>), Inr (NsName ''a'' ''old'')] NewPodIPIndex) ''10.0.0.1'' =
     Some \<lparr>pr_Namespace = ''a'', pr_Name = ''new''\<rparr>"
  unfolding pod_lookup_last_sighting
  by (intro conjI exI [of _ "[Inl (''10.0.0.1'', \<lparr>pr_Namespace = ''a'', pr_Name = ''old''\<rparr>)]"] exI [of _ "[Inr (NsName ''a'' ''old'')]"])
    (simp_all add: loses_def pod_key_def)

text \<open>
  A deleted Pod leaves nothing behind. When the indexer is told about a Pod the API server no longer has, it succeeds, no
  address resolves to that Pod any more, every other address resolves as before, and no Pod ever holds two addresses.
\<close>

theorem indexer_forgets_deleted:
  assumes "get_pod env key w = (Inl e, w')" "err_is e NotFound" "idx = fold pod_event xs NewPodIPIndex"
    and "indexer_Reconcile env key idx w = ((r, idx'), w2)"
  shows "r = None \<and> (\<forall>ip ref. pod_Lookup idx' ip = Some ref \<longleftrightarrow> pod_Lookup idx ip = Some ref \<and> pod_key ref \<noteq> key) \<and>
    (\<forall>ip ip2 ref. pod_Lookup idx' ip = Some ref \<and> pod_Lookup idx' ip2 = Some ref \<longrightarrow> ip = ip2)"
proof -
  have idx': "r = None" "idx' = pod_Remove key idx" using assms by (auto simp: indexer_Reconcile_def)
  note ok = reached_ok [of xs, folded assms(3)]
  have "pod_Lookup idx' = give_up key (pod_Lookup idx)" "pod_index_ok idx'"
    using pod_owners.remove [OF ok] idx' by simp_all
  moreover from this(2) have "ip = ip2" if "pod_Lookup idx' ip = Some ref" "pod_Lookup idx' ip2 = Some ref" for ip ip2 ref
    using that one_address unfolding pod_Lookup_def by blast
  ultimately show ?thesis using idx'(1) by (simp add: give_up_def split: option.splits) blast
qed

theorem indexer_forgets_deleted_witness:
  "pod_Lookup (snd (fst (indexer_Reconcile sim_env (NsName ''a'' ''old'') (pod_Put ''10.0.0.1'' \<lparr>pr_Namespace = ''a'', pr_Name = ''old''\<rparr> NewPodIPIndex) sim_start)))
     ''10.0.0.1'' \<noteq> Some \<lparr>pr_Namespace = ''a'', pr_Name = ''old''\<rparr>"
proof -
  let ?idx = "pod_Put ''10.0.0.1'' \<lparr>pr_Namespace = ''a'', pr_Name = ''old''\<rparr> NewPodIPIndex"
  have trace: "?idx = fold pod_event [Inl (''10.0.0.1'', \<lparr>pr_Namespace = ''a'', pr_Name = ''old''\<rparr>)] NewPodIPIndex" by simp
  have gone: "get_pod sim_env (NsName ''a'' ''old'') sim_start = (Inl (Sentinel NotFound), sim_start)" "err_is (Sentinel NotFound) NotFound"
    by (simp_all add: sim_get_def)
  obtain r idx' w2 where run: "indexer_Reconcile sim_env (NsName ''a'' ''old'') ?idx sim_start = ((r, idx'), w2)" by (metis surj_pair)
  show ?thesis using indexer_forgets_deleted [OF gone trace run] run by (auto simp: pod_key_def)
qed

end
