(* ===== verification/Bounded_Fifo.thy ===== *)
theory Bounded_Fifo
  imports Prelude
begin

text \<open>
  The bounded table both detectors of \<open>pkg/detect\<close> keep: a Go map beside a ring buffer of its keys
  in insertion order (\<open>order\<close>, \<open>next\<close>), with the oldest key dropped when a new one arrives and
  the map is full. The first part relates the ring to the list of keys, oldest first; the locale
  \<open>fifo_table\<close> states the contract of a component that keeps such a table and proves what follows for
  any sequence of inputs.
\<close>

subsection \<open>The ring\<close>

definition ring_queue :: "('k \<times> 'v) list \<Rightarrow> 'k list \<Rightarrow> nat \<Rightarrow> 'k list" where
  "ring_queue m ord nxt = (if length m < length ord then take nxt ord else drop nxt ord @ take nxt ord)"

definition ring_ok :: "('k \<times> 'v) list \<Rightarrow> 'k list \<Rightarrow> nat \<Rightarrow> bool" where
  "ring_ok m ord nxt \<longleftrightarrow>
     nxt < length ord \<and> length m \<le> length ord \<and> (length m < length ord \<longrightarrow> nxt = length m) \<and>
     distinct (map fst m) \<and> distinct (ring_queue m ord nxt) \<and> set (ring_queue m ord nxt) = fst ` set m"

lemma ring_ok_empty: "0 < n \<Longrightarrow> ring_ok [] (replicate n z) 0"
  by (simp add: ring_ok_def ring_queue_def)

lemma ring_ok_length: "ring_ok m ord nxt \<Longrightarrow> length (ring_queue m ord nxt) = length m"
  by (auto simp: ring_ok_def ring_queue_def min_def)

lemma ring_ok_queue:
  assumes "ring_ok m ord nxt"
  shows "distinct (ring_queue m ord nxt)" and "length (ring_queue m ord nxt) \<le> length ord"
    and "set (ring_queue m ord nxt) = fst ` set m"
  using ring_ok_length [OF assms] assms by (auto simp: ring_ok_def)

lemma in_set_tlD: "x \<in> set (tl xs) \<Longrightarrow> x \<in> set xs"
  by (cases xs) auto

lemma length_alist_update_new:
  "k \<notin> fst ` set m \<Longrightarrow> length (AList.update k v m) = Suc (length m)"
  by (induction m) (auto split: if_splits)

lemma length_alist_update_old:
  "k \<in> fst ` set m \<Longrightarrow> length (AList.update k v m) = length m"
  by (induction m) (auto split: if_splits)

lemma fst_set_alist_update: "fst ` set (AList.update k v m) = insert k (fst ` set m)"
  using dom_update [of k v m] by (simp add: dom_map_of_conv_image_fst)

lemma fst_set_alist_delete: "fst ` set (AList.delete k m) = fst ` set m - {k}"
  by (auto simp: AList.delete_eq image_iff)

lemma length_alist_delete:
  assumes "distinct (map fst m)" "k \<in> fst ` set m"
  shows "Suc (length (AList.delete k m)) = length m"
proof -
  have "length (AList.delete k m) = card (fst ` set (AList.delete k m))"
    using distinct_delete [OF assms(1), of k] by (metis distinct_card length_map set_map)
  also have "\<dots> = card (fst ` set m) - 1"
    using assms(2) by (simp add: fst_set_alist_delete)
  also have "card (fst ` set m) = length m"
    using assms(1) by (metis distinct_card length_map set_map)
  finally show ?thesis using assms(2) by (cases m) auto
qed

text \<open>The entry a new key replaces.\<close>

definition ring_evict :: "('k \<times> 'v) list \<Rightarrow> 'k list \<Rightarrow> nat \<Rightarrow> ('k \<times> 'v) list" where
  "ring_evict m ord nxt = (if length m \<ge> length ord then AList.delete (ord ! nxt) m else m)"

lemma ring_queue_full_head:
  assumes "ring_ok m ord nxt" "length ord \<le> length m"
  shows "ring_queue m ord nxt = ord ! nxt # (drop (Suc nxt) ord @ take nxt ord)"
  using assms by (auto simp: ring_queue_def ring_ok_def Cons_nth_drop_Suc)

text \<open>Admitting a new key appends it to the queue and drops the head of a full one.\<close>

lemma ring_queue_admit:
  assumes ok: "ring_ok m ord nxt" and new: "k \<notin> fst ` set m"
  shows "ring_queue (AList.update k v (ring_evict m ord nxt)) (ord[nxt := k]) ((nxt + 1) mod length ord) =
      (if length m < length ord then ring_queue m ord nxt else tl (ring_queue m ord nxt)) @ [k]"
proof (cases "length m < length ord")
  case True
  then have n: "nxt = length m" "nxt < length ord" using ok by (auto simp: ring_ok_def)
  have l: "length (AList.update k v (ring_evict m ord nxt)) = Suc (length m)"
    using True new by (simp add: ring_evict_def length_alist_update_new)
  show ?thesis
  proof (cases "Suc nxt < length ord")
    case True
    then show ?thesis using l n by (simp add: ring_queue_def take_Suc_conv_app_nth)
  next
    case False
    then have "length ord = Suc nxt" using n by simp
    then show ?thesis using l n
      by (simp add: ring_queue_def) (metis n(2) length_list_update lessI list_update_append1 nth_list_update_eq
          take_Suc_conv_app_nth take_all_iff take_update_cancel order_refl)
  qed
next
  case False
  then have full: "length m = length ord" and n: "nxt < length ord" using ok by (auto simp: ring_ok_def)
  have hd: "ord ! nxt \<in> fst ` set m"
    using ring_queue_full_head [OF ok] full ok by (auto simp: ring_ok_def)
  have "k \<notin> fst ` set (ring_evict m ord nxt)"
    using new full by (simp add: ring_evict_def fst_set_alist_delete)
  then have l: "length (AList.update k v (ring_evict m ord nxt)) = length ord"
    using length_alist_delete [OF _ hd] ok full
    by (simp add: ring_evict_def length_alist_update_new ring_ok_def)
  have q: "ring_queue m ord nxt = ord ! nxt # (drop (Suc nxt) ord @ take nxt ord)"
    using ring_queue_full_head [OF ok] full by simp
  show ?thesis
  proof (cases "Suc nxt < length ord")
    case True
    then show ?thesis using l n q full
      by (simp add: ring_queue_def take_Suc_conv_app_nth)
  next
    case False
    then have "length ord = Suc nxt" using n by simp
    then show ?thesis using l n q full
      by (simp add: ring_queue_def)
        (metis lessI nth_list_update_eq take_Suc_conv_app_nth length_list_update take_all_iff take_update_cancel
          order_refl)
  qed
qed

lemma ring_ok_admit:
  assumes ok: "ring_ok m ord nxt" and new: "k \<notin> fst ` set m"
  shows "ring_ok (AList.update k v (ring_evict m ord nxt)) (ord[nxt := k]) ((nxt + 1) mod length ord)"
proof -
  let ?m = "AList.update k v (ring_evict m ord nxt)"
  have dk: "distinct (map fst ?m)"
    using ok by (auto simp: ring_ok_def ring_evict_def distinct_update distinct_delete)
  have q: "ring_queue ?m (ord[nxt := k]) ((nxt + 1) mod length ord) =
      (if length m < length ord then ring_queue m ord nxt else tl (ring_queue m ord nxt)) @ [k]"
    by (rule ring_queue_admit [OF assms])
  have pos: "0 < length ord" "nxt < length ord" using ok by (auto simp: ring_ok_def)
  show ?thesis
  proof (cases "length m < length ord")
    case True
    then have "nxt = length m" using ok by (simp add: ring_ok_def)
    moreover have "fst ` set ?m = insert k (fst ` set m)" "length ?m = Suc (length m)"
      using True new by (simp_all add: ring_evict_def fst_set_alist_update length_alist_update_new)
    ultimately show ?thesis
      using True ok new dk q pos by (auto simp: ring_ok_def)
  next
    case False
    then have full: "length m = length ord" using ok by (auto simp: ring_ok_def)
    have r: "ring_queue m ord nxt = ord ! nxt # (drop (Suc nxt) ord @ take nxt ord)"
      using ring_queue_full_head [OF ok] full by simp
    have hd: "ord ! nxt \<in> fst ` set m" using r ok by (auto simp: ring_ok_def)
    have keys: "fst ` set ?m = insert k (fst ` set m - {ord ! nxt})"
      using full by (simp add: ring_evict_def fst_set_alist_update fst_set_alist_delete)
    have len: "length ?m = length ord"
      using new full hd length_alist_delete [OF _ hd] ok
      by (simp add: ring_evict_def length_alist_update_new fst_set_alist_delete ring_ok_def)
    have tl: "set (tl (ring_queue m ord nxt)) = fst ` set m - {ord ! nxt}"
      using r ok by (auto simp: ring_ok_def)
    have "distinct (tl (ring_queue m ord nxt))" using ok by (simp add: ring_ok_def distinct_tl)
    then show ?thesis
      using keys len tl q dk new full pos by (auto simp: ring_ok_def)
  qed
qed

text \<open>Overwriting the value of a key that is present changes neither keys nor ring.\<close>

lemma ring_queue_touch:
  "k \<in> fst ` set m \<Longrightarrow> ring_queue (AList.update k v m) ord nxt = ring_queue m ord nxt"
  by (simp add: ring_queue_def length_alist_update_old)

lemma ring_ok_touch:
  "ring_ok m ord nxt \<Longrightarrow> k \<in> fst ` set m \<Longrightarrow> ring_ok (AList.update k v m) ord nxt"
  by (simp add: ring_ok_def ring_queue_touch length_alist_update_old distinct_update fst_set_alist_update insert_absorb)

subsection \<open>The contract\<close>

fun fifo_admit :: "nat \<Rightarrow> 'k option \<Rightarrow> 'k list \<Rightarrow> 'k list" where
  "fifo_admit n None q = q"
| "fifo_admit n (Some k) q = (if k \<in> set q then q else (if length q < n then q else tl q) @ [k])"

text \<open>
  \<open>queue s\<close> is the list of tracked keys, oldest first, and \<open>wants s e\<close> the key input \<open>e\<close> asks to
  track, if any.
\<close>

locale fifo_table =
  fixes inv :: "'s \<Rightarrow> bool"
    and queue :: "'s \<Rightarrow> 'k list"
    and cap :: "'s \<Rightarrow> nat"
    and wants :: "'s \<Rightarrow> 'e \<Rightarrow> 'k option"
    and step :: "'e \<Rightarrow> 's \<Rightarrow> 's"
  assumes inv_step: "inv s \<Longrightarrow> inv (step e s)"
    and cap_step: "cap (step e s) = cap s"
    and wants_step: "wants (step e s) = wants s"
    and inv_queue: "inv s \<Longrightarrow> distinct (queue s) \<and> length (queue s) \<le> cap s"
    and queue_step: "inv s \<Longrightarrow> queue (step e s) = fifo_admit (cap s) (wants s e) (queue s)"
begin

lemma run_inv: "inv s \<Longrightarrow> inv (fold step es s)"
  by (induction es arbitrary: s) (simp_all add: inv_step)

lemma run_cap: "cap (fold step es s) = cap s"
  by (induction es arbitrary: s) (simp_all add: cap_step)

lemma run_wants: "wants (fold step es s) = wants s"
  by (induction es arbitrary: s) (simp_all add: wants_step)

lemma run_bounded: "inv s \<Longrightarrow> length (queue (fold step es s)) \<le> cap s"
  using inv_queue [OF run_inv, of s es] by (simp add: run_cap)

lemma run_queue: "inv s \<Longrightarrow> queue (fold step es s) = fold (fifo_admit (cap s)) (map (wants s) es) (queue s)"
  by (induction es arbitrary: s) (simp_all add: inv_step cap_step wants_step queue_step)

lemma queue_step_subset: "inv s \<Longrightarrow> set (queue (step e s)) \<subseteq> set (queue s) \<union> set_option (wants s e)"
  by (cases "wants s e") (auto simp: queue_step dest: in_set_tlD)

text \<open>A key stays tracked as long as the keys that ever asked for a slot fit into the table.\<close>

lemma step_keeps:
  assumes "inv s" "finite K" "card K \<le> cap s" "set (queue s) \<subseteq> K" "set_option (wants s e) \<subseteq> K"
  shows "set (queue s) \<subseteq> set (queue (step e s))" and "set (queue (step e s)) \<subseteq> K"
proof -
  show "set (queue (step e s)) \<subseteq> K" using queue_step_subset [OF assms(1), of e] assms(4,5) by blast
  show "set (queue s) \<subseteq> set (queue (step e s))"
  proof (cases "wants s e")
    case (Some k)
    have "length (queue s) < cap s" if "k \<notin> set (queue s)"
    proof -
      have "set (queue s) \<subset> K" using that Some assms(4,5) by auto
      then have "card (set (queue s)) < card K" using assms(2) by (simp add: psubset_card_mono)
      then show ?thesis using assms(3) inv_queue [OF assms(1)] by (simp add: distinct_card)
    qed
    then show ?thesis using Some assms(1) by (auto simp: queue_step)
  qed (simp add: queue_step [OF assms(1)])
qed

lemma run_keeps:
  assumes "inv s" "finite K" "card K \<le> cap s" "set (queue s) \<subseteq> K"
    and "\<forall>e \<in> set es. set_option (wants s e) \<subseteq> K"
  shows "set (queue s) \<subseteq> set (queue (fold step es s)) \<and> set (queue (fold step es s)) \<subseteq> K"
  using assms
proof (induction es arbitrary: s)
  case (Cons e es)
  have k: "set (queue s) \<subseteq> set (queue (step e s))" "set (queue (step e s)) \<subseteq> K"
    using step_keeps [OF Cons.prems(1-4), of e] Cons.prems(5) by auto
  have "set (queue (step e s)) \<subseteq> set (queue (fold step es (step e s))) \<and> set (queue (fold step es (step e s))) \<subseteq> K"
    by (rule Cons.IH) (use Cons.prems k in \<open>auto simp: inv_step cap_step wants_step\<close>)
  then show ?case using k by auto
qed simp

end

end
