(* ===== verification/Detect_Tunnel.thy ===== *)
theory Detect_Tunnel
  imports Events Bounded_Fifo
begin

text \<open>
  The per-tunnel GTP-U flood rule (\<open>pkg/detect/gtpu_flood.go\<close>). The mutex makes every call atomic, so
  the detector is a record passed through its operations; \<open>lastFired\<close> is the cooldown map and
  \<open>order\<close>, \<open>next\<close> its ring of keys. The detector is an instance of \<open>fifo_table\<close>.
\<close>

definition ModelGTPUTunnelFlood :: string where
  "ModelGTPUTunnelFlood = ''rule:gtpu-tunnel-flood''"

definition DefaultCooldown :: duration where
  "DefaultCooldown = 30 * second"

definition defaultTrackedTunnels :: int where
  "defaultTrackedTunnels = 4096"

record GTPUFloodConfig =
  fc_Enabled :: bool
  fc_PacketsPerSecond :: u32
  fc_Cooldown :: duration
  fc_MaxTrackedTunnels :: int

datatype tunnelID = TunnelID (sourceIP: string) (teid: u32)

record GTPUFloodDetector =
  fd_cfg :: GTPUFloodConfig
  fd_lastFired :: "(tunnelID \<times> time) list"
  fd_order :: "tunnelID list"
  fd_next :: nat

definition NewGTPUFloodDetector :: "GTPUFloodConfig \<Rightarrow> GTPUFloodDetector" where
  "NewGTPUFloodDetector cfg =
     (let capacity = (if fc_MaxTrackedTunnels cfg \<le> 0 then defaultTrackedTunnels else fc_MaxTrackedTunnels cfg);
          cfg' = (if fc_Cooldown cfg \<le> 0 then cfg\<lparr>fc_Cooldown := DefaultCooldown\<rparr> else cfg)
      in \<lparr>fd_cfg = cfg', fd_lastFired = [], fd_order = replicate (nat capacity) (TunnelID [] 0), fd_next = 0\<rparr>)"

definition claim :: "GTPUFloodDetector \<Rightarrow> tunnelID \<Rightarrow> time \<Rightarrow> bool \<times> GTPUFloodDetector" where
  "claim d tid now =
     (case map_of (fd_lastFired d) tid of
        Some prev \<Rightarrow>
          if now - prev < fc_Cooldown (fd_cfg d) then (False, d)
          else (True, d\<lparr>fd_lastFired := AList.update tid now (fd_lastFired d)\<rparr>)
      | None \<Rightarrow>
          (let lf = (if length (fd_lastFired d) \<ge> length (fd_order d)
                     then AList.delete (fd_order d ! fd_next d) (fd_lastFired d) else fd_lastFired d)
           in (True, d\<lparr>fd_order := (fd_order d)[fd_next d := tid],
                       fd_next := (fd_next d + 1) mod length (fd_order d),
                       fd_lastFired := AList.update tid now lf\<rparr>)))"

text \<open>\<open>Evaluate\<close>: the event with its \<open>true\<close> is \<open>Some\<close>, the zero event with \<open>false\<close> is \<open>None\<close>.\<close>

definition Evaluate ::
  "GTPUFloodDetector \<Rightarrow> NormalizedEvent \<Rightarrow> time \<Rightarrow> ThreatScoreEvent option \<times> GTPUFloodDetector" where
  "Evaluate d evt now =
     (if \<not> fc_Enabled (fd_cfg d) \<or> fc_PacketsPerSecond (fd_cfg d) = 0 then (None, d)
      else if ne_Protocol evt \<noteq> ProtocolGTPU \<or> ne_TEID evt = 0 then (None, d)
      else if ne_TunnelRatePerSecond evt < of_nat (unat (fc_PacketsPerSecond (fd_cfg d))) then (None, d)
      else case claim d (TunnelID (ne_SourceIP evt) (ne_TEID evt)) now of
        (False, d') \<Rightarrow> (None, d')
      | (True, d') \<Rightarrow>
          (Some \<lparr>ts_SourceEventID = ne_EventID evt, ts_Namespace = ne_Namespace evt,
                 ts_PodName = ne_PodName evt, ts_SourceIP = ne_SourceIP evt, ts_TEID = ne_TEID evt,
                 ts_Score = 1, ts_Model = ModelGTPUTunnelFlood, ts_DetectedAt = now\<rparr>, d'))"

subsection \<open>The table\<close>

definition flood_inv :: "GTPUFloodDetector \<Rightarrow> bool" where
  "flood_inv d = ring_ok (fd_lastFired d) (fd_order d) (fd_next d)"

definition flood_queue :: "GTPUFloodDetector \<Rightarrow> tunnelID list" where
  "flood_queue d = ring_queue (fd_lastFired d) (fd_order d) (fd_next d)"

definition flood_tunnel :: "NormalizedEvent \<Rightarrow> tunnelID" where
  "flood_tunnel evt = TunnelID (ne_SourceIP evt) (ne_TEID evt)"

text \<open>The event is a flood for the configured rule, before the cooldown is asked.\<close>

definition flooding :: "GTPUFloodConfig \<Rightarrow> NormalizedEvent \<Rightarrow> bool" where
  "flooding cfg evt \<longleftrightarrow> fc_Enabled cfg \<and> fc_PacketsPerSecond cfg \<noteq> 0 \<and> ne_Protocol evt = ProtocolGTPU \<and>
     ne_TEID evt \<noteq> 0 \<and> of_nat (unat (fc_PacketsPerSecond cfg)) \<le> ne_TunnelRatePerSecond evt"

definition flood_wants :: "GTPUFloodDetector \<Rightarrow> NormalizedEvent \<times> time \<Rightarrow> tunnelID option" where
  "flood_wants d e = (if flooding (fd_cfg d) (fst e) then Some (flood_tunnel (fst e)) else None)"

definition flood_step :: "NormalizedEvent \<times> time \<Rightarrow> GTPUFloodDetector \<Rightarrow> GTPUFloodDetector" where
  "flood_step e d = snd (Evaluate d (fst e) (snd e))"

definition flood_fires :: "GTPUFloodDetector \<Rightarrow> NormalizedEvent \<times> time \<Rightarrow> bool" where
  "flood_fires d e = (fst (Evaluate d (fst e) (snd e)) \<noteq> None)"

text \<open>The cooldown is over, or the tunnel is not tracked.\<close>

definition cooled :: "GTPUFloodDetector \<Rightarrow> tunnelID \<Rightarrow> time \<Rightarrow> bool" where
  "cooled d tid now = (case map_of (fd_lastFired d) tid of None \<Rightarrow> True | Some prev \<Rightarrow> fc_Cooldown (fd_cfg d) \<le> now - prev)"

lemma fst_claim: "fst (claim d tid now) = cooled d tid now"
  by (auto simp: claim_def cooled_def Let_def split: option.split)

lemma Evaluate_guard: "\<not> flooding (fd_cfg d) evt \<Longrightarrow> Evaluate d evt now = (None, d)"
  by (auto simp: Evaluate_def flooding_def)

lemma Evaluate_claim:
  "flooding (fd_cfg d) evt \<Longrightarrow> snd (Evaluate d evt now) = snd (claim d (flood_tunnel evt) now)"
  by (auto simp: Evaluate_def flooding_def flood_tunnel_def split: prod.split bool.split)

lemma flood_fires_iff:
  "flood_fires d e \<longleftrightarrow> flooding (fd_cfg d) (fst e) \<and> cooled d (flood_tunnel (fst e)) (snd e)"
  unfolding fst_claim [symmetric]
  by (auto simp: flood_fires_def Evaluate_def flooding_def flood_tunnel_def split: prod.split bool.split)

lemma claim_cfg [simp]: "fd_cfg (snd (claim d tid now)) = fd_cfg d"
  and claim_cap [simp]: "length (fd_order (snd (claim d tid now))) = length (fd_order d)"
  by (auto simp: claim_def Let_def split: option.split)

lemma flood_step_cfg [simp]: "fd_cfg (flood_step e d) = fd_cfg d"
  and flood_step_cap [simp]: "length (fd_order (flood_step e d)) = length (fd_order d)"
  by (cases "flooding (fd_cfg d) (fst e)"; simp add: flood_step_def Evaluate_claim Evaluate_guard)+

lemma claim_table:
  assumes "flood_inv d"
  shows "flood_inv (snd (claim d tid now))"
    and "flood_queue (snd (claim d tid now)) = fifo_admit (length (fd_order d)) (Some tid) (flood_queue d)"
proof -
  have q: "set (flood_queue d) = fst ` set (fd_lastFired d)" "length (flood_queue d) = length (fd_lastFired d)"
    using assms ring_ok_length by (auto simp: flood_inv_def flood_queue_def ring_ok_def)
  have "flood_inv (snd (claim d tid now)) \<and>
      flood_queue (snd (claim d tid now)) = fifo_admit (length (fd_order d)) (Some tid) (flood_queue d)"
  proof (cases "map_of (fd_lastFired d) tid")
    case None
    then have new: "tid \<notin> fst ` set (fd_lastFired d)" by (simp add: map_of_eq_None_iff)
    then show ?thesis
      using None assms ring_ok_admit [OF _ new] ring_queue_admit [OF _ new] q
      by (auto simp: claim_def Let_def flood_inv_def flood_queue_def ring_evict_def split: if_splits)
  next
    case (Some prev)
    then have "tid \<in> fst ` set (fd_lastFired d)" by (metis map_of_eq_None_iff option.discI)
    then show ?thesis
      using Some assms q by (auto simp: claim_def flood_inv_def flood_queue_def ring_ok_touch ring_queue_touch)
  qed
  then show "flood_inv (snd (claim d tid now))"
    and "flood_queue (snd (claim d tid now)) = fifo_admit (length (fd_order d)) (Some tid) (flood_queue d)" by auto
qed

lemma flood_inv_new: "flood_inv (NewGTPUFloodDetector cfg)"
  and flood_queue_new: "flood_queue (NewGTPUFloodDetector cfg) = []"
  by (auto simp: NewGTPUFloodDetector_def Let_def flood_inv_def flood_queue_def ring_ok_empty
      defaultTrackedTunnels_def ring_queue_def)

interpretation tunnel_table: fifo_table flood_inv flood_queue "\<lambda>d. length (fd_order d)" flood_wants flood_step
proof
  fix d e
  show "flood_inv d \<Longrightarrow> flood_inv (flood_step e d)"
    by (cases "flooding (fd_cfg d) (fst e)") (simp_all add: flood_step_def Evaluate_claim Evaluate_guard claim_table)
  show "length (fd_order (flood_step e d)) = length (fd_order d)" by simp
  show "flood_wants (flood_step e d) = flood_wants d" by (simp add: flood_wants_def fun_eq_iff)
  show "flood_inv d \<Longrightarrow> distinct (flood_queue d) \<and> length (flood_queue d) \<le> length (fd_order d)"
    by (simp add: flood_inv_def flood_queue_def ring_ok_queue)
  show "flood_inv d \<Longrightarrow> flood_queue (flood_step e d) = fifo_admit (length (fd_order d)) (flood_wants d e) (flood_queue d)"
    by (cases "flooding (fd_cfg d) (fst e)")
      (simp_all add: flood_step_def Evaluate_claim Evaluate_guard claim_table flood_wants_def del: fifo_admit.simps(2))
qed

subsection \<open>The cooldown\<close>

lemma map_of_flood_iff: "flood_inv d \<Longrightarrow> tid \<in> set (flood_queue d) \<longleftrightarrow> map_of (fd_lastFired d) tid \<noteq> None"
  by (simp add: flood_inv_def flood_queue_def ring_ok_queue map_of_eq_None_iff)

lemma claim_other:
  assumes "tid' \<noteq> tid" "map_of (fd_lastFired d) tid = Some t" "map_of (fd_lastFired (snd (claim d tid' now))) tid \<noteq> None"
  shows "map_of (fd_lastFired (snd (claim d tid' now))) tid = Some t"
  using assms by (auto simp: claim_def Let_def update_conv' delete_conv' split: option.splits if_splits)

lemma claim_self:
  "map_of (fd_lastFired (snd (claim d tid now))) tid =
     (if cooled d tid now then Some now else map_of (fd_lastFired d) tid)"
  by (auto simp: claim_def cooled_def Let_def update_conv' split: option.splits)

text \<open>The tracked keys and everything the inputs ask for fit into the table.\<close>

definition fits :: "GTPUFloodDetector \<Rightarrow> (NormalizedEvent \<times> time) list \<Rightarrow> tunnelID set \<Rightarrow> bool" where
  "fits d evs K \<longleftrightarrow> flood_inv d \<and> finite K \<and> card K \<le> length (fd_order d) \<and> set (flood_queue d) \<subseteq> K \<and>
     (flood_tunnel \<circ> fst) ` set evs \<subseteq> K"

lemma fits_wants: "fits d evs K \<Longrightarrow> e \<in> set evs \<Longrightarrow> set_option (flood_wants d e) \<subseteq> K"
  by (auto simp: fits_def flood_wants_def)

lemma fits_step: "fits d (e # evs) K \<Longrightarrow> fits (flood_step e d) evs K"
  using tunnel_table.step_keeps(2) [of d K e] fits_wants [of d "e # evs" K e] tunnel_table.inv_step [of d e]
  by (auto simp: fits_def)

lemma step_tracked:
  assumes "fits d (e # evs) K" "map_of (fd_lastFired d) tid = Some t"
  shows "map_of (fd_lastFired (flood_step e d)) tid =
      Some (if flood_fires d e \<and> flood_tunnel (fst e) = tid then snd e else t)"
proof -
  have inv: "flood_inv d" "flood_inv (flood_step e d)"
    using assms(1) tunnel_table.inv_step by (auto simp: fits_def)
  have "tid \<in> set (flood_queue d)" using inv assms(2) by (simp add: map_of_flood_iff)
  then have "tid \<in> set (flood_queue (flood_step e d))"
    using tunnel_table.step_keeps(1) [of d K e] assms(1) fits_wants [OF assms(1), of e] by (auto simp: fits_def)
  then have kept: "map_of (fd_lastFired (flood_step e d)) tid \<noteq> None"
    using map_of_flood_iff [OF inv(2)] by blast
  show ?thesis
  proof (cases "flooding (fd_cfg d) (fst e)")
    case True
    then have step: "flood_step e d = snd (claim d (flood_tunnel (fst e)) (snd e))"
      by (simp add: flood_step_def Evaluate_claim)
    show ?thesis
    proof (cases "flood_tunnel (fst e) = tid")
      case same: True
      then show ?thesis using True assms(2) claim_self [of d tid "snd e"] step by (simp add: flood_fires_iff)
    next
      case False
      then show ?thesis using kept claim_other [OF False assms(2)] step by simp
    qed
  qed (use assms(2) in \<open>simp add: flood_step_def Evaluate_guard flood_fires_iff\<close>)
qed

lemma fires_records:
  "flood_fires d e \<Longrightarrow> map_of (fd_lastFired (flood_step e d)) (flood_tunnel (fst e)) = Some (snd e)"
  by (simp add: flood_fires_iff flood_step_def Evaluate_claim claim_self)

lemma run_cfg: "fd_cfg (fold flood_step evs d) = fd_cfg d"
  by (induction evs arbitrary: d) auto

lemma fires_after_cooldown:
  assumes "fits d evs K" "map_of (fd_lastFired d) tid = Some t" "sorted (t # map snd evs)"
    and "j < length evs" "flood_tunnel (fst (evs ! j)) = tid" "flood_fires (fold flood_step (take j evs) d) (evs ! j)"
  shows "fc_Cooldown (fd_cfg d) \<le> snd (evs ! j) - t"
  using assms
proof (induction evs arbitrary: d t j)
  case (Cons e evs)
  show ?case
  proof (cases j)
    case 0
    then show ?thesis using Cons.prems by (simp add: flood_fires_iff cooled_def)
  next
    case (Suc i)
    let ?t = "if flood_fires d e \<and> flood_tunnel (fst e) = tid then snd e else t"
    have "fc_Cooldown (fd_cfg (flood_step e d)) \<le> snd (evs ! i) - ?t"
      by (rule Cons.IH) (use Cons.prems Suc fits_step step_tracked in auto)
    then show ?thesis using Cons.prems(3) Suc by (auto split: if_splits)
  qed
qed simp

text \<open>
  The cooldown is effective. For a new detector fed any time-ordered sequence of events whose
  tunnels fit into the table, two reports for one tunnel (source address and TEID) are at least
  \<open>Cooldown\<close> apart, whatever the other tunnels do in between.
\<close>

theorem flood_cooldown:
  assumes "sorted (map snd evs)"
    and "card ((flood_tunnel \<circ> fst) ` set evs) \<le> length (fd_order (NewGTPUFloodDetector cfg))"
    and "i < j" "j < length evs" "flood_tunnel (fst (evs ! i)) = flood_tunnel (fst (evs ! j))"
    and "flood_fires (fold flood_step (take i evs) (NewGTPUFloodDetector cfg)) (evs ! i)"
    and "flood_fires (fold flood_step (take j evs) (NewGTPUFloodDetector cfg)) (evs ! j)"
  shows "fc_Cooldown (fd_cfg (NewGTPUFloodDetector cfg)) \<le> snd (evs ! j) - snd (evs ! i)"
proof -
  let ?d = "NewGTPUFloodDetector cfg" and ?K = "(flood_tunnel \<circ> fst) ` set evs"
  define d where "d = fold flood_step (take i evs) ?d"
  have "\<forall>e \<in> set (take i evs). set_option (flood_wants ?d e) \<subseteq> ?K"
    by (auto simp: flood_wants_def dest: in_set_takeD)
  then have run: "set (flood_queue d) \<subseteq> ?K" "flood_inv d" "length (fd_order d) = length (fd_order ?d)"
    using tunnel_table.run_keeps [of ?d ?K "take i evs"] assms(2)
    by (auto simp: d_def flood_inv_new flood_queue_new tunnel_table.run_inv tunnel_table.run_cap)
  have fit: "fits d (evs ! i # drop (Suc i) evs) ?K"
    using run assms(2,3,4) by (auto simp: fits_def dest: in_set_dropD)
  have j: "take j evs = take i evs @ evs ! i # take (j - Suc i) (drop (Suc i) evs)"
    using assms(3,4) by (metis Suc_leI add_diff_cancel_left' append.assoc append_Cons append_Nil le_add_diff_inverse
        order.strict_trans take_Suc_conv_app_nth take_add)
  have "fc_Cooldown (fd_cfg (flood_step (evs ! i) d)) \<le> snd (drop (Suc i) evs ! (j - Suc i)) - snd (evs ! i)"
  proof (rule fires_after_cooldown)
    show "fits (flood_step (evs ! i) d) (drop (Suc i) evs) ?K" by (rule fits_step [OF fit])
    show "map_of (fd_lastFired (flood_step (evs ! i) d)) (flood_tunnel (fst (evs ! i))) = Some (snd (evs ! i))"
      using assms(6) by (simp add: fires_records d_def)
    have "sorted (map snd (drop i evs))" using assms(1) by (simp add: drop_map [symmetric] sorted_wrt_drop)
    then show "sorted (snd (evs ! i) # map snd (drop (Suc i) evs))"
      using assms(3,4) by (simp add: Cons_nth_drop_Suc [symmetric])
  qed (use assms(3-7) j in \<open>auto simp: d_def\<close>)
  then show ?thesis using assms(3,4) run_cfg [of "take i evs" ?d] by (simp add: d_def)
qed

text \<open>A flooding packet of tunnel \<open>teid\<close>, for concrete runs.\<close>

definition gtpu_packet :: "string \<Rightarrow> u32 \<Rightarrow> rat \<Rightarrow> NormalizedEvent" where
  "gtpu_packet src tei rate = \<lparr>ne_EventID = ''e'', ne_ObservedAt = 0, ne_Namespace = ''core'', ne_PodName = ''upf-0'',
     ne_NodeName = ''n1'', ne_SourceIP = src, ne_DestIP = ''10.0.0.9'', ne_DestPort = 2152, ne_Protocol = ProtocolGTPU,
     ne_PayloadSize = 64, ne_RatePerSecond = rate, ne_Malformed = False, ne_VLANID = 0, ne_TEID = tei,
     ne_TunnelRatePerSecond = rate\<rparr>"

definition small_flood_config :: GTPUFloodConfig where
  "small_flood_config = \<lparr>fc_Enabled = True, fc_PacketsPerSecond = 1000, fc_Cooldown = 5 * second, fc_MaxTrackedTunnels = 2\<rparr>"

lemmas flood_eval = NewGTPUFloodDetector_def Let_def small_flood_config_def gtpu_packet_def flood_step_def
  Evaluate_def claim_def flood_fires_def flood_tunnel_def

definition flood_trace :: "(NormalizedEvent \<times> time) list" where
  "flood_trace = [(gtpu_packet ''10.0.0.1'' 7 3000, 0), (gtpu_packet ''10.0.0.1'' 8 3000, second),
     (gtpu_packet ''10.0.0.1'' 7 3000, 6 * second)]"

lemma replicate_two: "replicate 2 x = [x, x]"
  by (simp add: numeral_2_eq_2)

lemma flood_trace_fires:
  "flood_fires (fold flood_step (take 0 flood_trace) (NewGTPUFloodDetector small_flood_config)) (flood_trace ! 0)"
  "flood_fires (fold flood_step (take 2 flood_trace) (NewGTPUFloodDetector small_flood_config)) (flood_trace ! 2)"
  by (simp_all add: flood_trace_def flood_eval replicate_two)

theorem flood_cooldown_witness:
  "fc_Cooldown (fd_cfg (NewGTPUFloodDetector small_flood_config)) \<le> snd (flood_trace ! 2) - snd (flood_trace ! 0)"
  by (rule flood_cooldown [OF _ _ _ _ _ flood_trace_fires])
    (simp_all add: flood_trace_def flood_eval replicate_two card_insert_if)

text \<open>
  C29: memory is bounded and eviction is first-in first-out. Whatever events arrive, the cooldown map
  of a new detector never holds more tunnels than the configured capacity (4096 when none is
  given), and its keys, oldest first, are those of an ideal bounded queue fed with the flooding
  tunnels: the ring buffer with its index implements that queue.
\<close>

theorem flood_table_refines_queue:
  "let d = fold flood_step evs (NewGTPUFloodDetector cfg);
       cap = (if fc_MaxTrackedTunnels cfg \<le> 0 then 4096 else nat (fc_MaxTrackedTunnels cfg))
   in length (fd_lastFired d) \<le> cap \<and>
      distinct (map fst (fd_lastFired d)) \<and> fst ` set (fd_lastFired d) = set (flood_queue d) \<and>
      flood_queue d = fold (fifo_admit cap) (map (flood_wants (NewGTPUFloodDetector cfg)) evs) []"
proof -
  let ?n = "NewGTPUFloodDetector cfg"
  define d where "d = fold flood_step evs ?n"
  have cap: "length (fd_order ?n) = (if fc_MaxTrackedTunnels cfg \<le> 0 then 4096 else nat (fc_MaxTrackedTunnels cfg))"
    by (simp add: NewGTPUFloodDetector_def Let_def defaultTrackedTunnels_def)
  have "flood_inv d" unfolding d_def by (rule tunnel_table.run_inv [OF flood_inv_new])
  then have "length (fd_lastFired d) = length (flood_queue d)" "distinct (map fst (fd_lastFired d))"
      "set (flood_queue d) = fst ` set (fd_lastFired d)"
    by (simp_all add: flood_inv_def flood_queue_def ring_ok_length ring_ok_queue) (simp add: ring_ok_def)
  moreover have "length (flood_queue d) \<le> length (fd_order ?n)"
      "flood_queue d = fold (fifo_admit (length (fd_order ?n))) (map (flood_wants ?n) evs) []"
    using tunnel_table.run_bounded [OF flood_inv_new, of evs] tunnel_table.run_queue [OF flood_inv_new, of evs]
    by (simp_all add: d_def flood_queue_new)
  ultimately show ?thesis unfolding Let_def d_def [symmetric] cap [symmetric] by simp
qed

end
