(* ===== verification/Detect_Source.thy ===== *)
theory Detect_Source
  imports Detect_Tunnel
begin

text \<open>
  The per-source GTP-U flood rule (\<open>pkg/detect/gtpu_source_flood.go\<close>): a window of packet and
  distinct-TEID counts per source address, kept in the same bounded table as the per-tunnel rule.
  \<open>observe\<close> is split at the point where the source's window is known: \<open>source_window\<close> finds or
  admits the source, \<open>fold_packet\<close> is the rest.
\<close>

definition ModelGTPUSourceFlood :: string where
  "ModelGTPUSourceFlood = ''rule:gtpu-source-flood''"

definition DefaultSourceFloodWindow :: duration where
  "DefaultSourceFloodWindow = second"

definition defaultTrackedSources :: int where
  "defaultTrackedSources = 1024"

definition defaultTunnelsPerSource :: int where
  "defaultTunnelsPerSource = 4096"

record GTPUSourceFloodConfig =
  sf_Enabled :: bool
  sf_PacketsPerSecond :: u32
  sf_DistinctTunnels :: int
  sf_Window :: duration
  sf_Cooldown :: duration
  sf_MaxTrackedSources :: int
  sf_MaxTunnelsPerSource :: int

text \<open>The set of TEIDs is a list without repetitions.\<close>

record sourceWindow =
  sw_start :: time
  sw_packets :: u32
  sw_teids :: "u32 list"
  sw_lastFired :: time

record GTPUSourceFloodDetector =
  sd_cfg :: GTPUSourceFloodConfig
  sd_sources :: "(string \<times> sourceWindow) list"
  sd_order :: "string list"
  sd_next :: nat

definition source_defaults :: "GTPUSourceFloodConfig \<Rightarrow> GTPUSourceFloodConfig" where
  "source_defaults cfg =
     (let c1 = (if sf_Window cfg \<le> 0 then cfg\<lparr>sf_Window := DefaultSourceFloodWindow\<rparr> else cfg);
          c2 = (if sf_Cooldown c1 \<le> 0 then c1\<lparr>sf_Cooldown := DefaultCooldown\<rparr> else c1);
          c3 = (if sf_MaxTrackedSources c2 \<le> 0 then c2\<lparr>sf_MaxTrackedSources := defaultTrackedSources\<rparr> else c2)
      in (if sf_MaxTunnelsPerSource c3 \<le> 0 then c3\<lparr>sf_MaxTunnelsPerSource := defaultTunnelsPerSource\<rparr> else c3))"

definition NewGTPUSourceFloodDetector :: "GTPUSourceFloodConfig \<Rightarrow> GTPUSourceFloodDetector" where
  "NewGTPUSourceFloodDetector cfg =
     (let c = source_defaults cfg
      in \<lparr>sd_cfg = c, sd_sources = [], sd_order = replicate (nat (sf_MaxTrackedSources c)) [], sd_next = 0\<rparr>)"

definition Configured :: "GTPUSourceFloodDetector \<Rightarrow> bool" where
  "Configured d = (sf_Enabled (sd_cfg d) \<and> (sf_PacketsPerSecond (sd_cfg d) > 0 \<or> sf_DistinctTunnels (sd_cfg d) > 0))"

record SourceFloodObservation =
  so_PacketsInWindow :: u32
  so_DistinctTunnels :: int

definition report :: "GTPUSourceFloodConfig \<Rightarrow> u32 \<Rightarrow> int \<Rightarrow> bool" where
  "report cfg packets tunnels =
     (if sf_PacketsPerSecond cfg > 0 \<and> packets \<ge> sf_PacketsPerSecond cfg then True
      else sf_DistinctTunnels cfg > 0 \<and> tunnels \<ge> sf_DistinctTunnels cfg)"

definition new_window :: "time \<Rightarrow> sourceWindow" where
  "new_window now = \<lparr>sw_start = now, sw_packets = 0, sw_teids = [], sw_lastFired = zero_time\<rparr>"

definition source_window :: "GTPUSourceFloodDetector \<Rightarrow> string \<Rightarrow> time \<Rightarrow> sourceWindow \<times> GTPUSourceFloodDetector" where
  "source_window d src now =
     (case map_of (sd_sources d) src of
        Some w \<Rightarrow> (w, d)
      | None \<Rightarrow>
          (let srcs = (if length (sd_sources d) \<ge> length (sd_order d)
                       then AList.delete (sd_order d ! sd_next d) (sd_sources d) else sd_sources d);
               w = new_window now
           in (w, d\<lparr>sd_order := (sd_order d)[sd_next d := src],
                    sd_next := (sd_next d + 1) mod length (sd_order d),
                    sd_sources := AList.update src w srcs\<rparr>)))"

definition fold_packet ::
  "GTPUSourceFloodConfig \<Rightarrow> u32 \<Rightarrow> time \<Rightarrow> sourceWindow \<Rightarrow> (u32 \<times> int \<times> bool) \<times> sourceWindow" where
  "fold_packet cfg tei now w =
     (let w1 = (if now - sw_start w \<ge> sf_Window cfg then w\<lparr>sw_start := now, sw_packets := 0, sw_teids := []\<rparr> else w);
          w2 = w1\<lparr>sw_packets := sw_packets w1 + 1\<rparr>;
          w3 = (if int (length (sw_teids w2)) < sf_MaxTunnelsPerSource cfg
                then w2\<lparr>sw_teids := List.insert tei (sw_teids w2)\<rparr> else w2);
          packets = sw_packets w3; tunnels = int (length (sw_teids w3))
      in if \<not> report cfg packets tunnels then ((packets, tunnels, False), w3)
         else if \<not> IsZero (sw_lastFired w3) \<and> now - sw_lastFired w3 < sf_Cooldown cfg then ((packets, tunnels, False), w3)
         else ((packets, tunnels, True), w3\<lparr>sw_lastFired := now\<rparr>))"

definition observe ::
  "GTPUSourceFloodDetector \<Rightarrow> string \<Rightarrow> u32 \<Rightarrow> time \<Rightarrow> (u32 \<times> int \<times> bool) \<times> GTPUSourceFloodDetector" where
  "observe d src tei now =
     (case source_window d src now of
        (w, d1) \<Rightarrow>
          (case fold_packet (sd_cfg d1) tei now w of
             (r, w') \<Rightarrow> (r, d1\<lparr>sd_sources := AList.update src w' (sd_sources d1)\<rparr>)))"

definition source_Evaluate ::
  "GTPUSourceFloodDetector \<Rightarrow> NormalizedEvent \<Rightarrow> time \<Rightarrow>
   (ThreatScoreEvent option \<times> SourceFloodObservation) \<times> GTPUSourceFloodDetector" where
  "source_Evaluate d evt now =
     (let none = \<lparr>so_PacketsInWindow = 0, so_DistinctTunnels = 0\<rparr> in
      if \<not> Configured d then ((None, none), d)
      else if ne_Protocol evt \<noteq> ProtocolGTPU \<or> ne_TEID evt = 0 \<or> ne_SourceIP evt = [] then ((None, none), d)
      else case observe d (ne_SourceIP evt) (ne_TEID evt) now of
        ((packets, tunnels, fired), d') \<Rightarrow>
          (let observed = \<lparr>so_PacketsInWindow = packets, so_DistinctTunnels = tunnels\<rparr> in
           if \<not> fired then ((None, observed), d')
           else ((Some \<lparr>ts_SourceEventID = ne_EventID evt, ts_Namespace = ne_Namespace evt,
                        ts_PodName = ne_PodName evt, ts_SourceIP = ne_SourceIP evt, ts_TEID = 0,
                        ts_Score = 1, ts_Model = ModelGTPUSourceFlood, ts_DetectedAt = now\<rparr>, observed), d')))"

subsection \<open>The table\<close>

definition source_inv :: "GTPUSourceFloodDetector \<Rightarrow> bool" where
  "source_inv d = ring_ok (sd_sources d) (sd_order d) (sd_next d)"

definition source_queue :: "GTPUSourceFloodDetector \<Rightarrow> string list" where
  "source_queue d = ring_queue (sd_sources d) (sd_order d) (sd_next d)"

text \<open>The events the rule looks at.\<close>

definition counted :: "GTPUSourceFloodDetector \<Rightarrow> NormalizedEvent \<Rightarrow> bool" where
  "counted d evt = (Configured d \<and> ne_Protocol evt = ProtocolGTPU \<and> ne_TEID evt \<noteq> 0 \<and> ne_SourceIP evt \<noteq> [])"

definition source_wants :: "GTPUSourceFloodDetector \<Rightarrow> NormalizedEvent \<times> time \<Rightarrow> string option" where
  "source_wants d e = (if counted d (fst e) then Some (ne_SourceIP (fst e)) else None)"

definition source_step :: "NormalizedEvent \<times> time \<Rightarrow> GTPUSourceFloodDetector \<Rightarrow> GTPUSourceFloodDetector" where
  "source_step e d = snd (source_Evaluate d (fst e) (snd e))"

definition source_fires :: "GTPUSourceFloodDetector \<Rightarrow> NormalizedEvent \<times> time \<Rightarrow> bool" where
  "source_fires d e = (fst (fst (source_Evaluate d (fst e) (snd e))) \<noteq> None)"

lemma source_step_uncounted: "\<not> counted d (fst e) \<Longrightarrow> source_step e d = d"
  by (auto simp: source_step_def source_Evaluate_def counted_def Let_def)

lemma source_step_counted:
  "counted d (fst e) \<Longrightarrow> source_step e d = snd (observe d (ne_SourceIP (fst e)) (ne_TEID (fst e)) (snd e))"
  by (auto simp: source_step_def source_Evaluate_def counted_def Let_def split: prod.split)

lemma source_fires_iff:
  "source_fires d e \<longleftrightarrow>
     counted d (fst e) \<and> snd (snd (fst (observe d (ne_SourceIP (fst e)) (ne_TEID (fst e)) (snd e))))"
  by (auto simp: source_fires_def source_Evaluate_def counted_def Let_def split: prod.split)

lemma source_window_frame [simp]:
  "sd_cfg (snd (source_window d src now)) = sd_cfg d"
  "length (sd_order (snd (source_window d src now))) = length (sd_order d)"
  by (auto simp: source_window_def Let_def split: option.split)

lemma observe_frame [simp]:
  "sd_cfg (snd (observe d src tei now)) = sd_cfg d"
  "length (sd_order (snd (observe d src tei now))) = length (sd_order d)"
  by (simp_all add: observe_def case_prod_beta)

lemma source_step_frame [simp]:
  "sd_cfg (source_step e d) = sd_cfg d" "length (sd_order (source_step e d)) = length (sd_order d)"
  by (cases "counted d (fst e)"; simp add: source_step_counted source_step_uncounted)+

lemma counted_step [simp]: "counted (source_step e d) = counted d"
  by (simp add: counted_def Configured_def fun_eq_iff)

lemma source_window_table:
  assumes "source_inv d"
  shows "source_inv (snd (source_window d src now))"
    and "source_queue (snd (source_window d src now)) = fifo_admit (length (sd_order d)) (Some src) (source_queue d)"
    and "map_of (sd_sources (snd (source_window d src now))) src = Some (fst (source_window d src now))"
proof -
  have q: "set (source_queue d) = fst ` set (sd_sources d)" "length (source_queue d) = length (sd_sources d)"
    using assms by (simp_all add: source_inv_def source_queue_def ring_ok_length ring_ok_queue)
  have "source_inv (snd (source_window d src now)) \<and>
      source_queue (snd (source_window d src now)) = fifo_admit (length (sd_order d)) (Some src) (source_queue d) \<and>
      map_of (sd_sources (snd (source_window d src now))) src = Some (fst (source_window d src now))"
  proof (cases "map_of (sd_sources d) src")
    case None
    then have new: "src \<notin> fst ` set (sd_sources d)" by (simp add: map_of_eq_None_iff)
    then show ?thesis
      using None assms ring_ok_admit [OF _ new] ring_queue_admit [OF _ new] q
      by (auto simp: source_window_def Let_def source_inv_def source_queue_def ring_evict_def update_conv'
          split: if_splits)
  next
    case (Some w)
    then have "src \<in> fst ` set (sd_sources d)" by (metis map_of_eq_None_iff option.discI)
    then show ?thesis using Some assms q by (simp add: source_window_def)
  qed
  then show "source_inv (snd (source_window d src now))"
    and "source_queue (snd (source_window d src now)) = fifo_admit (length (sd_order d)) (Some src) (source_queue d)"
    and "map_of (sd_sources (snd (source_window d src now))) src = Some (fst (source_window d src now))" by auto
qed

lemma map_of_in_fst: "map_of m k = Some v \<Longrightarrow> k \<in> fst ` set m"
  by (metis map_of_eq_None_iff option.discI)

lemma observe_table:
  assumes "source_inv d"
  shows "source_inv (snd (observe d src tei now))"
    and "source_queue (snd (observe d src tei now)) = fifo_admit (length (sd_order d)) (Some src) (source_queue d)"
proof -
  obtain w d1 where w: "source_window d src now = (w, d1)" by force
  obtain r w' where r: "fold_packet (sd_cfg d1) tei now w = (r, w')" by (rule prod.exhaust)
  have mem: "src \<in> fst ` set (sd_sources d1)"
    using source_window_table(3) [OF assms, of src now] w map_of_in_fst [of _ src] by simp
  show "source_inv (snd (observe d src tei now))"
    using source_window_table(1) [OF assms, of src now] w r mem
    by (simp add: observe_def source_inv_def ring_ok_touch)
  show "source_queue (snd (observe d src tei now)) = fifo_admit (length (sd_order d)) (Some src) (source_queue d)"
    using source_window_table(2) [OF assms, of src now] w r mem
    by (simp add: observe_def source_queue_def ring_queue_touch)
qed

lemma source_defaults_pos: "0 < sf_MaxTrackedSources (source_defaults cfg)" "0 < sf_MaxTunnelsPerSource (source_defaults cfg)"
  "0 < sf_Window (source_defaults cfg)" "0 < sf_Cooldown (source_defaults cfg)"
  by (auto simp: source_defaults_def Let_def defaultTrackedSources_def defaultTunnelsPerSource_def
      DefaultSourceFloodWindow_def DefaultCooldown_def)

lemma source_inv_new: "source_inv (NewGTPUSourceFloodDetector cfg)"
  and source_queue_new: "source_queue (NewGTPUSourceFloodDetector cfg) = []"
  using source_defaults_pos(1) [of cfg]
  by (auto simp: NewGTPUSourceFloodDetector_def Let_def source_inv_def source_queue_def ring_ok_empty ring_queue_def)

interpretation source_table: fifo_table source_inv source_queue "\<lambda>d. length (sd_order d)" source_wants source_step
proof
  fix d e
  show "source_inv d \<Longrightarrow> source_inv (source_step e d)"
    by (cases "counted d (fst e)") (simp_all add: source_step_counted source_step_uncounted observe_table)
  show "length (sd_order (source_step e d)) = length (sd_order d)" by simp
  show "source_wants (source_step e d) = source_wants d" by (simp add: source_wants_def fun_eq_iff)
  show "source_inv d \<Longrightarrow> distinct (source_queue d) \<and> length (source_queue d) \<le> length (sd_order d)"
    by (simp add: source_inv_def source_queue_def ring_ok_queue)
  show "source_inv d \<Longrightarrow> source_queue (source_step e d) = fifo_admit (length (sd_order d)) (source_wants d e) (source_queue d)"
    by (cases "counted d (fst e)")
      (simp_all add: source_step_counted source_step_uncounted observe_table source_wants_def del: fifo_admit.simps(2))
qed

subsection \<open>One source on its own\<close>

text \<open>
  What the events of one source do to its window, with no table around it: \<open>own\<close> selects them and
  \<open>own_step\<close> folds one in, opening the window on the first.
\<close>

definition own :: "GTPUSourceFloodDetector \<Rightarrow> string \<Rightarrow> (NormalizedEvent \<times> time) list \<Rightarrow> (u32 \<times> time) list" where
  "own d src evs = map (\<lambda>e. (ne_TEID (fst e), snd e)) (filter (\<lambda>e. counted d (fst e) \<and> ne_SourceIP (fst e) = src) evs)"

definition own_window :: "sourceWindow option \<Rightarrow> time \<Rightarrow> sourceWindow" where
  "own_window w now = (case w of Some x \<Rightarrow> x | None \<Rightarrow> new_window now)"

definition own_step :: "GTPUSourceFloodConfig \<Rightarrow> u32 \<times> time \<Rightarrow> sourceWindow option \<Rightarrow> sourceWindow option" where
  "own_step cfg e w = Some (snd (fold_packet cfg (fst e) (snd e) (own_window w (snd e))))"

definition own_fires :: "GTPUSourceFloodConfig \<Rightarrow> u32 \<times> time \<Rightarrow> sourceWindow option \<Rightarrow> bool" where
  "own_fires cfg e w = snd (snd (fst (fold_packet cfg (fst e) (snd e) (own_window w (snd e)))))"

definition src_fits :: "GTPUSourceFloodDetector \<Rightarrow> (NormalizedEvent \<times> time) list \<Rightarrow> string set \<Rightarrow> bool" where
  "src_fits d evs K \<longleftrightarrow> source_inv d \<and> finite K \<and> card K \<le> length (sd_order d) \<and> set (source_queue d) \<subseteq> K \<and>
     (ne_SourceIP \<circ> fst) ` set evs \<subseteq> K"

lemma src_fits_wants: "src_fits d evs K \<Longrightarrow> e \<in> set evs \<Longrightarrow> set_option (source_wants d e) \<subseteq> K"
  by (auto simp: src_fits_def source_wants_def)

lemma src_fits_step: "src_fits d (e # evs) K \<Longrightarrow> src_fits (source_step e d) evs K"
  using source_table.step_keeps(2) [of d K e] src_fits_wants [of d "e # evs" K e] source_table.inv_step [of d e]
  by (auto simp: src_fits_def)

lemma map_of_source_iff: "source_inv d \<Longrightarrow> src \<in> set (source_queue d) \<longleftrightarrow> map_of (sd_sources d) src \<noteq> None"
  by (simp add: source_inv_def source_queue_def ring_ok_queue map_of_eq_None_iff)

lemma source_window_self: "fst (source_window d src now) = own_window (map_of (sd_sources d) src) now"
  by (auto simp: source_window_def own_window_def Let_def split: option.split)

lemma source_window_other:
  assumes "src' \<noteq> src" "map_of (sd_sources d) src = Some w"
    and "map_of (sd_sources (snd (source_window d src' now))) src \<noteq> None"
  shows "map_of (sd_sources (snd (source_window d src' now))) src = Some w"
  using assms by (auto simp: source_window_def Let_def update_conv' delete_conv' split: option.splits if_splits)

lemma source_window_new_other:
  "src' \<noteq> src \<Longrightarrow> map_of (sd_sources d) src = None \<Longrightarrow> map_of (sd_sources (snd (source_window d src' now))) src = None"
  by (auto simp: source_window_def Let_def update_conv' delete_conv' split: option.splits if_splits)

lemma observe_sources:
  "sd_sources (snd (observe d src tei now)) =
     AList.update src (snd (fold_packet (sd_cfg d) tei now (own_window (map_of (sd_sources d) src) now)))
       (sd_sources (snd (source_window d src now)))"
  by (simp add: observe_def case_prod_beta source_window_self)

lemma observe_emit:
  "snd (snd (fst (observe d src tei now))) = own_fires (sd_cfg d) (tei, now) (map_of (sd_sources d) src)"
  by (simp add: observe_def case_prod_beta source_window_self own_fires_def)

lemma source_step_isolated:
  assumes "src_fits d (e # evs) K"
  shows "map_of (sd_sources (source_step e d)) src =
      (if counted d (fst e) \<and> ne_SourceIP (fst e) = src
       then own_step (sd_cfg d) (ne_TEID (fst e), snd e) (map_of (sd_sources d) src)
       else map_of (sd_sources d) src)"
proof (cases "counted d (fst e)")
  case True
  note step = source_step_counted [OF True]
  show ?thesis
  proof (cases "ne_SourceIP (fst e) = src")
    case same: True
    then show ?thesis using True step by (simp add: observe_sources update_conv' own_step_def)
  next
    case other: False
    let ?d1 = "snd (source_window d (ne_SourceIP (fst e)) (snd e))"
    have look: "map_of (sd_sources (source_step e d)) src = map_of (sd_sources ?d1) src"
      using other step by (simp add: observe_sources update_conv')
    show ?thesis
    proof (cases "map_of (sd_sources d) src")
      case None
      then show ?thesis using other look source_window_new_other [OF other None] by simp
    next
      case (Some w)
      have inv: "source_inv d" "source_inv (source_step e d)"
        using assms source_table.inv_step by (auto simp: src_fits_def)
      have "src \<in> set (source_queue d)" using inv Some by (simp add: map_of_source_iff)
      then have "src \<in> set (source_queue (source_step e d))"
        using source_table.step_keeps(1) [of d K e] assms src_fits_wants [OF assms, of e] by (auto simp: src_fits_def)
      then have "map_of (sd_sources ?d1) src \<noteq> None" using map_of_source_iff [OF inv(2)] look by metis
      then show ?thesis using other look Some source_window_other [OF other Some] by simp
    qed
  qed
qed (simp add: source_step_uncounted)

lemma source_run_isolated:
  assumes "src_fits d evs K"
  shows "map_of (sd_sources (fold source_step evs d)) src = fold (own_step (sd_cfg d)) (own d src evs) (map_of (sd_sources d) src)"
  using assms
proof (induction evs arbitrary: d)
  case (Cons e evs)
  have "own (source_step e d) src evs = own d src evs" by (simp add: own_def)
  then show ?case
    using Cons.IH [OF src_fits_step [OF Cons.prems]] source_step_isolated [OF Cons.prems, of src]
    by (auto simp: own_def)
qed (simp add: own_def)

lemma src_fits_new:
  assumes "card ((ne_SourceIP \<circ> fst) ` set evs) \<le> length (sd_order (NewGTPUSourceFloodDetector cfg))"
  shows "src_fits (NewGTPUSourceFloodDetector cfg) evs ((ne_SourceIP \<circ> fst) ` set evs)"
  using assms by (simp add: src_fits_def source_inv_new source_queue_new)

lemma source_fires_own:
  "source_fires d e \<longleftrightarrow> counted d (fst e) \<and>
     own_fires (sd_cfg d) (ne_TEID (fst e), snd e) (map_of (sd_sources d) (ne_SourceIP (fst e)))"
  by (auto simp: source_fires_iff observe_emit)

subsection \<open>Exact counts within a window\<close>

lemma fold_packet_inside:
  assumes "now - sw_start w < sf_Window cfg"
  shows "sw_start (snd (fold_packet cfg tei now w)) = sw_start w"
    and "sw_packets (snd (fold_packet cfg tei now w)) = sw_packets w + 1"
    and "sw_teids (snd (fold_packet cfg tei now w)) =
      (if int (length (sw_teids w)) < sf_MaxTunnelsPerSource cfg then List.insert tei (sw_teids w) else sw_teids w)"
  using assms by (simp_all add: fold_packet_def Let_def)

lemma fold_packet_emit:
  "snd (snd (fst (fold_packet cfg tei now w))) \<longleftrightarrow>
     report cfg (sw_packets (snd (fold_packet cfg tei now w))) (int (length (sw_teids (snd (fold_packet cfg tei now w))))) \<and>
     (IsZero (sw_lastFired w) \<or> sf_Cooldown cfg \<le> now - sw_lastFired w)"
  by (auto simp: fold_packet_def Let_def)

lemma fold_packet_lastFired:
  "sw_lastFired (snd (fold_packet cfg tei now w)) = (if snd (snd (fst (fold_packet cfg tei now w))) then now else sw_lastFired w)"
  by (auto simp: fold_packet_def Let_def)

lemma fold_packet_observed:
  "fst (fold_packet cfg tei now w) =
     (sw_packets (snd (fold_packet cfg tei now w)), int (length (sw_teids (snd (fold_packet cfg tei now w)))),
      snd (snd (fst (fold_packet cfg tei now w))))"
  by (simp add: fold_packet_def Let_def)

definition counts :: "GTPUSourceFloodConfig \<Rightarrow> (u32 \<times> time) list \<Rightarrow> sourceWindow \<Rightarrow> bool" where
  "counts cfg xs w \<longleftrightarrow> sw_start w = snd (hd xs) \<and> sw_packets w = of_nat (length xs) \<and>
     distinct (sw_teids w) \<and> set (sw_teids w) \<subseteq> fst ` set xs \<and>
     int (length (sw_teids w)) = min (sf_MaxTunnelsPerSource cfg) (int (card (fst ` set xs)))"

lemma counts_snoc:
  assumes "counts cfg xs w" "xs \<noteq> []" "t - snd (hd xs) < sf_Window cfg" "0 < sf_MaxTunnelsPerSource cfg"
  shows "counts cfg (xs @ [(tei, t)]) (snd (fold_packet cfg tei t w))"
proof -
  note inside = fold_packet_inside [of t w cfg tei]
  have start: "t - sw_start w < sf_Window cfg" using assms by (simp add: counts_def)
  show ?thesis
  proof (cases "int (length (sw_teids w)) < sf_MaxTunnelsPerSource cfg")
    case True
    then have len: "length (sw_teids w) = card (fst ` set xs)" using assms(1) by (auto simp: counts_def)
    then have "set (sw_teids w) = fst ` set xs"
      using assms(1) by (intro card_subset_eq) (auto simp: counts_def distinct_card)
    then show ?thesis
      using True assms inside [OF start] len
      by (auto simp: counts_def distinct_insert List.insert_def insert_absorb)
  next
    case False
    then have "sf_MaxTunnelsPerSource cfg \<le> int (card (fst ` set xs))" using assms(1) by (auto simp: counts_def)
    moreover have "card (fst ` set xs) \<le> card (fst ` set (xs @ [(tei, t)]))" by (intro card_mono) auto
    ultimately show ?thesis using False assms inside [OF start] by (auto simp: counts_def)
  qed
qed

lemma own_counts:
  assumes "0 < sf_Window cfg" "0 < sf_MaxTunnelsPerSource cfg" "xs \<noteq> []" "\<forall>x \<in> set xs. snd x - snd (hd xs) < sf_Window cfg"
  shows "\<exists>w. fold (own_step cfg) xs None = Some w \<and> counts cfg xs w"
  using assms(3,4)
proof (induction xs rule: rev_induct)
  case (snoc x xs)
  obtain tei t where x: "x = (tei, t)" by (rule prod.exhaust)
  show ?case
  proof (cases "xs = []")
    case True
    have "counts cfg [(tei, t)] (snd (fold_packet cfg tei t (new_window t)))"
      using fold_packet_inside [of t "new_window t" cfg tei] assms(1,2) by (simp add: counts_def new_window_def)
    then show ?thesis by (simp add: True x own_step_def own_window_def)
  next
    case False
    then obtain w where "fold (own_step cfg) xs None = Some w" "counts cfg xs w" using snoc by auto
    then show ?thesis
      using counts_snoc [OF _ False _ assms(2), of w t tei] snoc.prems False
      by (simp add: x own_step_def [of cfg "(tei, t)"] own_window_def)
  qed
qed simp

text \<open>As long as nothing was reported, the cooldown has not started.\<close>

lemma own_quiet:
  assumes "\<forall>k < length xs. \<not> own_fires cfg (xs ! k) (fold (own_step cfg) (take k xs) None)"
  shows "case fold (own_step cfg) xs None of None \<Rightarrow> True | Some w \<Rightarrow> IsZero (sw_lastFired w)"
  using assms
proof (induction xs rule: rev_induct)
  case (snoc x xs)
  have IH: "case fold (own_step cfg) xs None of None \<Rightarrow> True | Some w \<Rightarrow> IsZero (sw_lastFired w)"
    by (rule snoc.IH) (use snoc.prems in \<open>auto simp: nth_append less_Suc_eq split: if_splits\<close>)
  have "\<not> own_fires cfg x (fold (own_step cfg) xs None)"
    using snoc.prems [rule_format, of "length xs"] by simp
  then show ?case
    using IH by (auto simp: own_step_def [of cfg x] own_fires_def fold_packet_lastFired own_window_def new_window_def IsZero_def
        split: option.splits)
qed simp

lemma own_detects:
  assumes "0 < sf_Window cfg" "0 < sf_MaxTunnelsPerSource cfg" "xs \<noteq> []" "\<forall>x \<in> set xs. snd x - snd (hd xs) < sf_Window cfg"
    and "report cfg (of_nat (length xs)) (min (sf_MaxTunnelsPerSource cfg) (int (card (fst ` set xs))))"
  shows "\<exists>k < length xs. own_fires cfg (xs ! k) (fold (own_step cfg) (take k xs) None)"
proof (rule ccontr)
  assume "\<not> ?thesis"
  then have quiet: "\<forall>k < length xs. \<not> own_fires cfg (xs ! k) (fold (own_step cfg) (take k xs) None)" by blast
  obtain ys x where xs: "xs = ys @ [x]" using assms(3) by (metis append_butlast_last_id)
  let ?w = "own_window (fold (own_step cfg) ys None) (snd x)"
  have q: "\<forall>k < length ys. \<not> own_fires cfg (ys ! k) (fold (own_step cfg) (take k ys) None)"
    using quiet xs by (auto simp: nth_append less_Suc_eq split: if_splits)
  have "IsZero (sw_lastFired ?w)"
    using own_quiet [OF q] by (auto simp: own_window_def new_window_def IsZero_def split: option.splits)
  moreover have "counts cfg xs (snd (fold_packet cfg (fst x) (snd x) ?w))"
    using own_counts [OF assms(1-4)] by (auto simp: xs own_step_def [of cfg x])
  ultimately have "own_fires cfg x (fold (own_step cfg) ys None)"
    using assms(5) by (simp add: own_fires_def fold_packet_emit counts_def)
  then show False using quiet [rule_format, of "length ys"] xs by simp
qed

subsection \<open>Properties\<close>

lemma own_index:
  assumes "k < length (own d src evs)"
  shows "\<exists>i < length evs. own d src (take i evs) = take k (own d src evs) \<and> counted d (fst (evs ! i)) \<and>
     ne_SourceIP (fst (evs ! i)) = src \<and> own d src evs ! k = (ne_TEID (fst (evs ! i)), snd (evs ! i))"
  using assms
proof (induction evs arbitrary: k)
  case (Cons e evs)
  show ?case
  proof (cases "counted d (fst e) \<and> ne_SourceIP (fst e) = src \<and> k = 0")
    case True
    then show ?thesis by (intro exI [of _ 0]) (simp add: own_def)
  next
    case False
    let ?hit = "counted d (fst e) \<and> ne_SourceIP (fst e) = src"
    define k' where "k' = (if ?hit then k - 1 else k)"
    have "k' < length (own d src evs)" using Cons.prems False by (auto simp: own_def k'_def split: if_splits)
    then obtain i where "i < length evs" "own d src (take i evs) = take k' (own d src evs)" "counted d (fst (evs ! i))"
        "ne_SourceIP (fst (evs ! i)) = src" "own d src evs ! k' = (ne_TEID (fst (evs ! i)), snd (evs ! i))"
      using Cons.IH by blast
    then show ?thesis using False
      by (intro exI [of _ "Suc i"]) (cases k; auto simp: own_def k'_def split: if_splits)
  qed
qed (simp add: own_def)

lemma counted_run [simp]: "counted (fold source_step evs d) = counted d"
  by (induction evs arbitrary: d) auto

lemma source_run_cfg [simp]: "sd_cfg (fold source_step evs d) = sd_cfg d"
  by (induction evs arbitrary: d) auto

lemma src_fits_take: "src_fits d evs K \<Longrightarrow> src_fits d (take i evs) K"
  by (auto simp: src_fits_def dest: in_set_takeD)

text \<open>Whether an event is reported depends on the events of its own source alone.\<close>

lemma source_fires_isolated:
  assumes "src_fits (NewGTPUSourceFloodDetector cfg) evs K"
  defines "d \<equiv> NewGTPUSourceFloodDetector cfg"
  shows "source_fires (fold source_step (take i evs) d) e \<longleftrightarrow> counted d (fst e) \<and>
     own_fires (sd_cfg d) (ne_TEID (fst e), snd e)
       (fold (own_step (sd_cfg d)) (own d (ne_SourceIP (fst e)) (take i evs)) None)"
  using source_run_isolated [OF src_fits_take [OF assms(1), of i], of "ne_SourceIP (fst e)"]
  by (simp add: source_fires_own d_def [symmetric]) (simp add: d_def NewGTPUSourceFloodDetector_def Let_def)

lemma new_source_cfg [simp]: "sd_cfg (NewGTPUSourceFloodDetector cfg) = source_defaults cfg"
  by (simp add: NewGTPUSourceFloodDetector_def Let_def)

lemma report_crossed:
  fixes n :: nat
  assumes "0 < sf_PacketsPerSecond cfg \<and> unat (sf_PacketsPerSecond cfg) \<le> n \<and> n < 2 ^ 32 \<or>
      0 < sf_DistinctTunnels cfg \<and> sf_DistinctTunnels cfg \<le> c"
  shows "report cfg (of_nat n) c"
  using assms by (auto simp: report_def word_le_nat_alt unat_of_nat)


text \<open>Counts never exceed what was sent, in any number of windows.\<close>

lemma own_no_overcount:
  "case fold (own_step cfg) xs None of None \<Rightarrow> True
   | Some w \<Rightarrow> unat (sw_packets w) \<le> length xs \<and> distinct (sw_teids w) \<and> set (sw_teids w) \<subseteq> fst ` set xs"
proof (induction xs rule: rev_induct)
  case (snoc x xs)
  have plus: "unat (p + 1) \<le> Suc (unat p)" for p :: u32
    using mod_less_eq_dividend [of "unat p + 1" "2 ^ 32"] by (simp add: unat_word_ariths(1))
  show ?case
    using snoc plus [of 0]
    by (auto simp: own_step_def [of cfg x] own_window_def fold_packet_def Let_def new_window_def List.insert_def
        intro: le_trans [OF plus] split: option.splits if_splits)
qed simp


definition small_source_config :: GTPUSourceFloodConfig where
  "small_source_config = \<lparr>sf_Enabled = True, sf_PacketsPerSecond = 2, sf_DistinctTunnels = 0, sf_Window = 0,
     sf_Cooldown = 0, sf_MaxTrackedSources = 2, sf_MaxTunnelsPerSource = 0\<rparr>"

definition source_trace :: "(NormalizedEvent \<times> time) list" where
  "source_trace = [(gtpu_packet ''10.0.0.1'' 7 1, 5), (gtpu_packet ''10.0.0.2'' 7 1, 6), (gtpu_packet ''10.0.0.1'' 8 1, 7)]"

lemmas source_eval = small_source_config_def source_trace_def gtpu_packet_def NewGTPUSourceFloodDetector_def
  source_defaults_def Let_def DefaultSourceFloodWindow_def DefaultCooldown_def defaultTunnelsPerSource_def
  own_def counted_def Configured_def


lemma source_trace_fits:
  "card ((ne_SourceIP \<circ> fst) ` set source_trace) \<le> length (sd_order (NewGTPUSourceFloodDetector small_source_config))"
  by (simp add: source_eval card_insert_if)

lemma source_trace_own:
  "own (NewGTPUSourceFloodDetector small_source_config) ''10.0.0.1'' (take 2 source_trace) = [(7, 5)]"
  "counted (NewGTPUSourceFloodDetector small_source_config) (fst (source_trace ! 2))"
  "ne_SourceIP (fst (source_trace ! 2)) = ''10.0.0.1''"
  by (simp_all add: source_eval)

lemma small_source_defaults:
  "source_defaults small_source_config = \<lparr>sf_Enabled = True, sf_PacketsPerSecond = 2, sf_DistinctTunnels = 0,
     sf_Window = second, sf_Cooldown = 30 * second, sf_MaxTrackedSources = 2, sf_MaxTunnelsPerSource = 4096\<rparr>"
  by (simp add: source_eval)

lemma source_trace_window:
  "own_step (source_defaults small_source_config) (7, 5) None =
     Some \<lparr>sw_start = 5, sw_packets = 1, sw_teids = [7], sw_lastFired = zero_time\<rparr>"
  by (simp add: small_source_defaults own_step_def own_window_def new_window_def fold_packet_def report_def
      Let_def word_le_nat_alt)

lemma source_trace_event: "ne_TEID (fst (source_trace ! 2)) = 8" "snd (source_trace ! 2) = 7"
  by (simp_all add: source_eval)

lemma source_trace_fires:
  "source_fires (fold source_step (take 2 source_trace) (NewGTPUSourceFloodDetector small_source_config)) (source_trace ! 2)"
  unfolding source_fires_isolated [OF src_fits_new [OF source_trace_fits]] source_trace_own
  using source_trace_own(2)
  by (simp add: source_trace_event own_fires_def own_window_def source_trace_window fold_packet_emit IsZero_def report_def)
    (simp add: small_source_defaults fold_packet_def Let_def word_le_nat_alt report_def IsZero_def)


text \<open>Every window in the table respects the cap on TEIDs.\<close>

definition teids_bounded :: "GTPUSourceFloodDetector \<Rightarrow> bool" where
  "teids_bounded d = (\<forall>src w. map_of (sd_sources d) src = Some w \<longrightarrow> int (length (sw_teids w)) \<le> sf_MaxTunnelsPerSource (sd_cfg d))"

lemma length_insert_le: "length (List.insert x xs) \<le> Suc (length xs)"
  by (simp add: List.insert_def)

lemma fold_packet_bounded:
  assumes "int (length (sw_teids w)) \<le> sf_MaxTunnelsPerSource cfg" "0 < sf_MaxTunnelsPerSource cfg"
  shows "int (length (sw_teids (snd (fold_packet cfg tei now w)))) \<le> sf_MaxTunnelsPerSource cfg"
  using assms length_insert_le [of tei "sw_teids w"] by (auto simp: fold_packet_def Let_def)

lemma own_window_bounded:
  assumes "teids_bounded d" "0 < sf_MaxTunnelsPerSource (sd_cfg d)"
  shows "int (length (sw_teids (own_window (map_of (sd_sources d) src) now))) \<le> sf_MaxTunnelsPerSource (sd_cfg d)"
  using assms by (auto simp: teids_bounded_def own_window_def new_window_def split: option.split)

lemma teids_bounded_step:
  assumes "teids_bounded d" "0 < sf_MaxTunnelsPerSource (sd_cfg d)"
  shows "teids_bounded (source_step e d)"
proof (cases "counted d (fst e)")
  case True
  let ?s = "ne_SourceIP (fst e)"
  have old: "map_of (sd_sources (snd (source_window d ?s (snd e)))) src = Some w \<Longrightarrow> src \<noteq> ?s \<Longrightarrow>
      map_of (sd_sources d) src = Some w" for src w
    using source_window_other [of ?s src d _ "snd e"] source_window_new_other [of ?s src d "snd e"]
    by (cases "map_of (sd_sources d) src") fastforce+
  show ?thesis
    using assms old fold_packet_bounded [OF own_window_bounded [OF assms] assms(2)]
    by (auto simp: teids_bounded_def source_step_counted [OF True] observe_sources update_conv' split: if_splits)
qed (simp add: source_step_uncounted assms)

lemma teids_bounded_run:
  "teids_bounded (fold source_step evs (NewGTPUSourceFloodDetector cfg))"
proof -
  have "teids_bounded d \<Longrightarrow> 0 < sf_MaxTunnelsPerSource (sd_cfg d) \<Longrightarrow> teids_bounded (fold source_step evs d)" for d
    by (induction evs arbitrary: d) (simp_all add: teids_bounded_step)
  moreover have "teids_bounded (NewGTPUSourceFloodDetector cfg)"
    by (simp add: teids_bounded_def NewGTPUSourceFloodDetector_def Let_def)
  ultimately show ?thesis using source_defaults_pos(2) by simp
qed

text \<open>
  The state an attacker can make the detector hold is bounded. After any sequence of events a new
  detector tracks at most \<open>MaxTrackedSources\<close> addresses, each once, and no address holds more than
  \<open>MaxTunnelsPerSource\<close> TEIDs (1024 and 4096 where none is configured).
\<close>

theorem source_memory_bounded:
  "let d = fold source_step evs (NewGTPUSourceFloodDetector cfg)
   in int (length (sd_sources d)) \<le> (if sf_MaxTrackedSources cfg \<le> 0 then 1024 else sf_MaxTrackedSources cfg) \<and>
      distinct (map fst (sd_sources d)) \<and>
      list_all (\<lambda>(src, w). int (length (sw_teids w)) \<le> (if sf_MaxTunnelsPerSource cfg \<le> 0 then 4096 else sf_MaxTunnelsPerSource cfg))
        (sd_sources d)"
proof -
  let ?n = "NewGTPUSourceFloodDetector cfg"
  define d where "d = fold source_step evs ?n"
  have inv: "source_inv d" unfolding d_def by (rule source_table.run_inv [OF source_inv_new])
  have cap: "int (length (sd_order ?n)) = (if sf_MaxTrackedSources cfg \<le> 0 then 1024 else sf_MaxTrackedSources cfg)"
    by (simp add: NewGTPUSourceFloodDetector_def source_defaults_def Let_def defaultTrackedSources_def)
  have len: "length (sd_sources d) \<le> length (sd_order ?n)"
    using inv source_table.run_bounded [OF source_inv_new, of evs cfg]
    by (simp add: d_def [symmetric] source_inv_def source_queue_def ring_ok_length)
  have dis: "distinct (map fst (sd_sources d))" using inv by (simp add: source_inv_def ring_ok_def)
  have "list_all (\<lambda>(src, w). int (length (sw_teids w)) \<le> sf_MaxTunnelsPerSource (source_defaults cfg)) (sd_sources d)"
    using teids_bounded_run [of evs cfg] dis
    by (auto simp: teids_bounded_def d_def [symmetric] list_all_iff) (simp add: d_def)
  then show ?thesis
    using len cap dis unfolding Let_def d_def [symmetric]
    by (simp add: source_defaults_def Let_def defaultTunnelsPerSource_def split: if_splits)
qed

text \<open>
  A threshold on distinct tunnels above \<open>MaxTunnelsPerSource\<close> can never be reached: with the
  rate half switched off such a detector calls itself configured and yet reports nothing, whatever it
  is fed.
\<close>

lemma cardinality_unreachable:
  assumes "sf_Enabled cfg" "sf_PacketsPerSecond cfg = 0"
    and "sf_DistinctTunnels cfg > (if sf_MaxTunnelsPerSource cfg \<le> 0 then 4096 else sf_MaxTunnelsPerSource cfg)"
  shows "Configured (NewGTPUSourceFloodDetector cfg) \<and>
     \<not> source_fires (fold source_step evs (NewGTPUSourceFloodDetector cfg)) e"
proof -
  define d where "d = fold source_step evs (NewGTPUSourceFloodDetector cfg)"
  have c: "sd_cfg d = source_defaults cfg" by (simp add: d_def)
  have above: "sf_MaxTunnelsPerSource (source_defaults cfg) < sf_DistinctTunnels (source_defaults cfg)"
      "sf_PacketsPerSecond (source_defaults cfg) = 0" "sf_Enabled (source_defaults cfg)"
    using assms by (auto simp: source_defaults_def Let_def defaultTunnelsPerSource_def)
  have "int (length (sw_teids (snd (fold_packet (source_defaults cfg) tei now (own_window (map_of (sd_sources d) src) now)))))
      \<le> sf_MaxTunnelsPerSource (source_defaults cfg)" for src tei now
    using fold_packet_bounded [OF own_window_bounded [of d src now]] teids_bounded_run [of evs cfg] source_defaults_pos(2) c
    by (simp add: d_def)
  then have "\<not> source_fires d e"
    using above by (auto simp: source_fires_own own_fires_def fold_packet_emit report_def c not_le [symmetric]
        dest: order_trans)
  moreover have "Configured (NewGTPUSourceFloodDetector cfg)"
    using above source_defaults_pos(2) [of cfg] by (simp add: Configured_def)
  ultimately show ?thesis by (simp add: d_def)
qed

end
