(* ===== verification/Ingestion.thy ===== *)
theory Ingestion
  imports Pod_Ip_Index Detect_Tunnel Detect_Source Ebpf_Loader
begin

text \<open>
  From kernel observations to the bus (\<open>pkg/ingestion\<close>): the conversion of a signaling event, and the
  publisher that runs the two detectors on every event and publishes the events one by one or in
  batches. A failed publish is only logged, so the publisher is a function from what its calls return in
  each round of its \<open>select\<close> loop to the publish calls it makes.
\<close>

definition protocolFromSignal :: "SignalProtocol \<Rightarrow> Protocol" where
  "protocolFromSignal p =
     (if p = SignalProtoGTPU then ProtocolGTPU
      else if p = SignalProtoSIP then ProtocolSIP
      else if p = SignalProtoPortScan then ProtocolPortScan
      else ProtocolUnknown)"

text \<open>\<open>uuid\<close> is what \<open>uuid.NewString\<close> returns.\<close>

definition FromSignalingEvent ::
  "SignalingEvent \<Rightarrow> PodIPIndex \<Rightarrow> (ip \<Rightarrow> u16 \<Rightarrow> u32 \<times> bool) \<Rightarrow> string \<Rightarrow> string \<Rightarrow> NormalizedEvent" where
  "FromSignalingEvent evt podIndex rateLookup nodeName uuid =
     (let ref = (case pod_Lookup podIndex (IP_String (se_SourceIP evt)) of
                   Some ref \<Rightarrow> ref | None \<Rightarrow> \<lparr>pr_Namespace = [], pr_Name = []\<rparr>);
          ratePerSecond = (case rateLookup (se_SourceIP evt) (se_DestPort evt) of
                             (n, True) \<Rightarrow> of_nat (unat n) | (_, False) \<Rightarrow> 0)
      in \<lparr>ne_EventID = uuid, ne_ObservedAt = se_ObservedAt evt, ne_Namespace = pr_Namespace ref, ne_PodName = pr_Name ref,
          ne_NodeName = nodeName, ne_SourceIP = IP_String (se_SourceIP evt), ne_DestIP = IP_String (se_DestIP evt),
          ne_DestPort = se_DestPort evt, ne_Protocol = protocolFromSignal (se_Protocol evt),
          ne_PayloadSize = ucast (se_PayloadSize evt), ne_RatePerSecond = ratePerSecond, ne_Malformed = se_Malformed evt,
          ne_VLANID = se_VLANID evt, ne_TEID = se_TEID evt, ne_TunnelRatePerSecond = of_nat (unat (se_TunnelRate evt))\<rparr>)"

record Publisher =
  pb_Subject :: string
  pb_NodeName :: string
  pb_TunnelFlood :: "GTPUFloodDetector option"
  pb_SourceFlood :: "GTPUSourceFloodDetector option"
  pb_ThreatsSubject :: string
  pb_BatchSize :: int
  pb_FlushInterval :: duration

text \<open>The publish calls, with the subject of each.\<close>

datatype pub_call =
    PublishNormalized string NormalizedEvent
  | PublishBatch string "NormalizedEvent list"
  | PublishScore string ThreatScoreEvent

definition batchCap :: "Publisher \<Rightarrow> int" where
  "batchCap p = (if pb_BatchSize p < 1 then 1 else pb_BatchSize p)"

text \<open>\<open>flush\<close>: the buffer is empty afterwards, published or not.\<close>

definition flush :: "Publisher \<Rightarrow> bool \<Rightarrow> NormalizedEvent list \<Rightarrow> pub_call list \<times> NormalizedEvent list" where
  "flush p isConnected batch =
     (if length batch = 0 then ([], batch)
      else (if isConnected then [PublishBatch (pb_Subject p) batch] else [], []))"

definition evaluateTunnelFlood :: "Publisher \<Rightarrow> NormalizedEvent \<Rightarrow> time \<Rightarrow> pub_call list \<times> Publisher" where
  "evaluateTunnelFlood p normalized now =
     (case pb_TunnelFlood p of
        None \<Rightarrow> ([], p)
      | Some d \<Rightarrow>
          (case Evaluate d normalized now of
             (None, d') \<Rightarrow> ([], p\<lparr>pb_TunnelFlood := Some d'\<rparr>)
           | (Some score, d') \<Rightarrow> ([PublishScore (pb_ThreatsSubject p) score], p\<lparr>pb_TunnelFlood := Some d'\<rparr>)))"

definition evaluateSourceFlood :: "Publisher \<Rightarrow> NormalizedEvent \<Rightarrow> time \<Rightarrow> pub_call list \<times> Publisher" where
  "evaluateSourceFlood p normalized now =
     (case pb_SourceFlood p of
        None \<Rightarrow> ([], p)
      | Some d \<Rightarrow>
          (case source_Evaluate d normalized now of
             ((None, observed), d') \<Rightarrow> ([], p\<lparr>pb_SourceFlood := Some d'\<rparr>)
           | ((Some score, observed), d') \<Rightarrow> ([PublishScore (pb_ThreatsSubject p) score], p\<lparr>pb_SourceFlood := Some d'\<rparr>)))"

text \<open>
  One round of the loop: which case of the \<open>select\<close> fired and what the calls made in it return, the connection as
  \<open>Bus.Bus()\<close> reports it at the start of an event and inside \<open>flush\<close>.
\<close>

record pub_reads =
  rd_connected :: bool
  rd_connectedAtFlush :: bool
  rd_index :: PodIPIndex
  rd_rate :: "ip \<Rightarrow> u16 \<Rightarrow> u32 \<times> bool"
  rd_uuid :: string
  rd_now :: time

datatype pub_case = Received SignalingEvent | StreamClosed | TickerFired | ContextDone

definition on_event ::
  "Publisher \<Rightarrow> NormalizedEvent list \<Rightarrow> SignalingEvent \<Rightarrow> pub_reads \<Rightarrow> pub_call list \<times> NormalizedEvent list \<times> Publisher" where
  "on_event p batch evt rd =
     (if \<not> rd_connected rd then ([], batch, p)
      else
        (let normalized = FromSignalingEvent evt (rd_index rd) (rd_rate rd) (pb_NodeName p) (rd_uuid rd);
             (c1, p1) = evaluateTunnelFlood p normalized (rd_now rd);
             (c2, p2) = evaluateSourceFlood p1 normalized (rd_now rd)
         in if batchCap p \<le> 1 then (c1 @ c2 @ [PublishNormalized (pb_Subject p) normalized], batch, p2)
            else
              (let batch1 = batch @ [normalized];
                   (c3, batch2) = (if int (length batch1) \<ge> batchCap p then flush p2 (rd_connectedAtFlush rd) batch1 else ([], batch1))
               in (c1 @ c2 @ c3, batch2, p2))))"

text \<open>The loop over the rounds that happen before the process ends; it returns in the last two cases.\<close>

fun pub_loop :: "Publisher \<Rightarrow> NormalizedEvent list \<Rightarrow> (pub_case \<times> pub_reads) list \<Rightarrow> pub_call list \<times> NormalizedEvent list \<times> Publisher" where
  "pub_loop p batch [] = ([], batch, p)"
| "pub_loop p batch ((Received evt, rd) # rounds) =
     (let (calls, batch1, p1) = on_event p batch evt rd; (rest, r) = pub_loop p1 batch1 rounds in (calls @ rest, r))"
| "pub_loop p batch ((TickerFired, rd) # rounds) =
     (let (calls, batch1) = flush p (rd_connectedAtFlush rd) batch; (rest, r) = pub_loop p batch1 rounds in (calls @ rest, r))"
| "pub_loop p batch ((StreamClosed, rd) # rounds) =
     (let (calls, batch1) = flush p (rd_connectedAtFlush rd) batch in (calls, batch1, p))"
| "pub_loop p batch ((ContextDone, rd) # rounds) =
     (let (calls, batch1) = flush p (rd_connectedAtFlush rd) batch in (calls, batch1, p))"

text \<open>\<open>Start\<close>: the stream cannot be opened, or the loop runs; \<open>opened\<close> is what \<open>Source.SignalingEvents\<close> returns.\<close>

definition publisher_Start :: "Publisher \<Rightarrow> err option \<Rightarrow> (pub_case \<times> pub_reads) list \<Rightarrow> err + pub_call list \<times> NormalizedEvent list \<times> Publisher" where
  "publisher_Start p opened rounds =
     (case opened of
        Some e \<Rightarrow> Inl (wrap ''start signaling event stream'' e)
      | None \<Rightarrow> Inr (pub_loop p [] rounds))"

definition publisher_NeedLeaderElection :: bool where
  "publisher_NeedLeaderElection = False"

text \<open>A call made on a bus.\<close>

fun perform :: "('c, 'w) nats \<Rightarrow> 'c \<Rightarrow> pub_call \<Rightarrow> 'w \<Rightarrow> err option \<times> 'w" where
  "perform n b (PublishNormalized subject e) w = PublishNormalizedEvent n b subject e w"
| "perform n b (PublishBatch subject es) w = PublishNormalizedEventBatch n b subject es w"
| "perform n b (PublishScore subject s) w = PublishThreatScore n b subject s w"

subsection \<open>Telemetry\<close>

text \<open>The rounds up to the one that ends the loop, and the events they bring.\<close>

fun live :: "(pub_case \<times> pub_reads) list \<Rightarrow> (pub_case \<times> pub_reads) list" where
  "live [] = []"
| "live ((c, rd) # rounds) = (c, rd) # (if c = StreamClosed \<or> c = ContextDone then [] else live rounds)"

definition converted :: "string \<Rightarrow> (pub_case \<times> pub_reads) list \<Rightarrow> NormalizedEvent list" where
  "converted node rounds =
     concat (map (\<lambda>(c, rd). case c of
         Received evt \<Rightarrow> if rd_connected rd then [FromSignalingEvent evt (rd_index rd) (rd_rate rd) node (rd_uuid rd)] else []
       | _ \<Rightarrow> []) (live rounds))"

fun events_of :: "pub_call \<Rightarrow> NormalizedEvent list" where
  "events_of (PublishNormalized subject e) = [e]"
| "events_of (PublishBatch subject es) = es"
| "events_of (PublishScore subject s) = []"

fun scores_of :: "pub_call \<Rightarrow> ThreatScoreEvent list" where
  "scores_of (PublishScore subject s) = [s]"
| "scores_of _ = []"

abbreviation telemetry :: "pub_call list \<Rightarrow> NormalizedEvent list" where
  "telemetry calls \<equiv> concat (map events_of calls)"

abbreviation scores :: "pub_call list \<Rightarrow> ThreatScoreEvent list" where
  "scores calls \<equiv> concat (map scores_of calls)"

lemma evaluate_frame:
  assumes "evaluateTunnelFlood p e now = (c1, p1)" "evaluateSourceFlood p1 e now = (c2, p2)"
  shows "pb_NodeName p2 = pb_NodeName p" "pb_BatchSize p2 = pb_BatchSize p" "batchCap p2 = batchCap p" "telemetry (c1 @ c2) = []"
  using assms by (auto simp: evaluateTunnelFlood_def evaluateSourceFlood_def batchCap_def split: option.splits prod.splits)

lemma flush_cases:
  "flush p isConnected batch = (calls, batch') \<Longrightarrow> batch' = [] \<and> (isConnected \<longrightarrow> telemetry calls = batch) \<and>
     (\<forall>c \<in> set calls. events_of c = batch) \<and> scores calls = []"
  by (auto simp: flush_def split: if_splits)

lemma on_event_telemetry:
  assumes "on_event p batch evt rd = (calls, batch', p')" "rd_connected rd" "rd_connectedAtFlush rd" "batchCap p \<le> 1 \<longrightarrow> batch = []"
  shows "telemetry calls @ batch' = batch @ [FromSignalingEvent evt (rd_index rd) (rd_rate rd) (pb_NodeName p) (rd_uuid rd)]"
proof -
  let ?e = "FromSignalingEvent evt (rd_index rd) (rd_rate rd) (pb_NodeName p) (rd_uuid rd)"
  obtain c1 p1 where e1: "evaluateTunnelFlood p ?e (rd_now rd) = (c1, p1)" by fastforce
  obtain c2 p2 where e2: "evaluateSourceFlood p1 ?e (rd_now rd) = (c2, p2)" by fastforce
  note fr = evaluate_frame [OF e1 e2]
  obtain c3 b3 where f: "flush p2 True (batch @ [?e]) = (c3, b3)" by fastforce
  show ?thesis using assms e1 e2 fr(4) f flush_cases [OF f] by (auto simp: on_event_def Let_def split: if_splits)
qed

lemma on_event_frame:
  assumes "on_event p batch evt rd = (calls, batch', p')"
  shows "pb_NodeName p' = pb_NodeName p \<and> batchCap p' = batchCap p"
proof -
  let ?e = "FromSignalingEvent evt (rd_index rd) (rd_rate rd) (pb_NodeName p) (rd_uuid rd)"
  obtain c1 p1 where e1: "evaluateTunnelFlood p ?e (rd_now rd) = (c1, p1)" by fastforce
  obtain c2 p2 where e2: "evaluateSourceFlood p1 ?e (rd_now rd) = (c2, p2)" by fastforce
  show ?thesis using assms e1 e2 evaluate_frame [OF e1 e2] by (auto simp: on_event_def Let_def split: if_splits prod.splits)
qed

text \<open>Batches stay below the cap.\<close>

definition batch_ok :: "Publisher \<Rightarrow> NormalizedEvent list \<Rightarrow> bool" where
  "batch_ok p batch \<longleftrightarrow> int (length batch) < batchCap p"

lemma batch_ok_empty: "batch_ok p []"
  by (simp add: batch_ok_def batchCap_def)

lemma on_event_bounded:
  assumes "on_event p batch evt rd = (calls, batch', p')" "batch_ok p batch"
  shows "batch_ok p' batch' \<and> (\<forall>c \<in> set calls. int (length (events_of c)) \<le> batchCap p)"
proof -
  let ?e = "FromSignalingEvent evt (rd_index rd) (rd_rate rd) (pb_NodeName p) (rd_uuid rd)"
  obtain c1 p1 where e1: "evaluateTunnelFlood p ?e (rd_now rd) = (c1, p1)" by fastforce
  obtain c2 p2 where e2: "evaluateSourceFlood p1 ?e (rd_now rd) = (c2, p2)" by fastforce
  note fr = evaluate_frame [OF e1 e2]
  have none: "events_of c = []" if "c \<in> set c1 \<union> set c2" for c using fr(4) that by auto
  have cap: "1 \<le> batchCap p" by (simp add: batchCap_def)
  obtain c3 b3 where f: "flush p2 (rd_connectedAtFlush rd) (batch @ [?e]) = (c3, b3)" by fastforce
  show ?thesis
  proof (cases "rd_connected rd")
    case False
    then show ?thesis using assms by (auto simp: on_event_def)
  next
    case True
    show ?thesis
    proof (cases "batchCap p \<le> 1")
      case small: True
      then have r: "calls = c1 @ c2 @ [PublishNormalized (pb_Subject p) ?e]" "batch' = batch" "p' = p2"
        using assms(1) True e1 e2 by (auto simp: on_event_def Let_def)
      show ?thesis using none assms(2) cap fr(3) unfolding r batch_ok_def by auto
    next
      case large: False
      show ?thesis
      proof (cases "int (length (batch @ [?e])) \<ge> batchCap p")
        case full: True
        then have r: "calls = c1 @ c2 @ c3" "batch' = b3" "p' = p2"
          using assms(1) True large e1 e2 f by (auto simp: on_event_def Let_def)
        show ?thesis using none assms(2) cap fr(3) flush_cases [OF f] unfolding r batch_ok_def by auto
      next
        case room: False
        then have r: "calls = c1 @ c2" "batch' = batch @ [?e]" "p' = p2"
          using assms(1) True large e1 e2 f by (auto simp: on_event_def Let_def)
        show ?thesis using none cap fr(3) room unfolding r batch_ok_def by auto
      qed
    qed
  qed
qed

lemma converted_simps [simp]:
  "converted node [] = []"
  "converted node ((Received evt, rd) # rounds) =
     (if rd_connected rd then [FromSignalingEvent evt (rd_index rd) (rd_rate rd) node (rd_uuid rd)] else []) @ converted node rounds"
  "converted node ((TickerFired, rd) # rounds) = converted node rounds"
  "converted node ((StreamClosed, rd) # rounds) = []"
  "converted node ((ContextDone, rd) # rounds) = []"
  by (simp_all add: converted_def)

lemma pub_loop_telemetry:
  assumes "pub_loop p batch rounds = (calls, batch', p')" "batch_ok p batch"
    and "\<forall>(c, rd) \<in> set (live rounds). rd_connected rd \<and> rd_connectedAtFlush rd"
  shows "telemetry calls @ batch' = batch @ converted (pb_NodeName p) rounds"
  using assms
proof (induction p batch rounds arbitrary: calls rule: pub_loop.induct)
  case (1 p batch)
  then show ?case by simp
next
  case (2 p batch evt rd rounds)
  obtain c1 b1 p1 where e: "on_event p batch evt rd = (c1, b1, p1)" by (metis surj_pair)
  obtain c2 where r: "pub_loop p1 b1 rounds = (c2, batch', p')" "calls = c1 @ c2"
    using 2(2) e by (auto split: prod.splits)
  have "batchCap p \<le> 1 \<longrightarrow> batch = []" using 2(3) by (cases batch) (auto simp: batch_ok_def)
  then have "telemetry c1 @ b1 = batch @ [FromSignalingEvent evt (rd_index rd) (rd_rate rd) (pb_NodeName p) (rd_uuid rd)]"
    using on_event_telemetry [OF e] 2(4) by simp
  moreover have "telemetry c2 @ batch' = b1 @ converted (pb_NodeName p) rounds"
    using 2(1) [OF e [symmetric] refl refl r(1)] on_event_bounded [OF e 2(3)] on_event_frame [OF e] 2(4) by simp
  ultimately show ?case using r(2) 2(4) by simp
next
  case (3 p batch rd rounds)
  obtain c1 b1 where f: "flush p (rd_connectedAtFlush rd) batch = (c1, b1)" by fastforce
  obtain c2 where r: "pub_loop p b1 rounds = (c2, batch', p')" "calls = c1 @ c2"
    using 3(2) f by (auto split: prod.splits)
  have "telemetry c2 @ batch' = converted (pb_NodeName p) rounds"
    using 3(1) [OF f [symmetric] refl r(1)] flush_cases [OF f] 3(4) by (simp add: batch_ok_empty)
  then show ?case using r(2) flush_cases [OF f] 3(4) by simp
next
  case (4 p batch rd rounds)
  then show ?case using flush_cases [of p True batch] by (auto split: prod.splits)
next
  case (5 p batch rd rounds)
  then show ?case using flush_cases [of p True batch] by (auto split: prod.splits)
qed

lemma pub_loop_bounded:
  assumes "pub_loop p batch rounds = (calls, batch', p')" "batch_ok p batch"
  shows "batch_ok p batch' \<and> (\<forall>c \<in> set calls. int (length (events_of c)) \<le> batchCap p)"
  using assms
proof (induction p batch rounds arbitrary: calls rule: pub_loop.induct)
  case (1 p batch)
  then show ?case by simp
next
  case (2 p batch evt rd rounds)
  obtain c1 b1 p1 where e: "on_event p batch evt rd = (c1, b1, p1)" by (metis surj_pair)
  obtain c2 where r: "pub_loop p1 b1 rounds = (c2, batch', p')" "calls = c1 @ c2"
    using 2(2) e by (auto split: prod.splits)
  show ?case using 2(1) [OF e [symmetric] refl refl r(1)] on_event_bounded [OF e 2(3)] on_event_frame [OF e] r(2) by (auto simp: batch_ok_def)
next
  case (3 p batch rd rounds)
  obtain c1 b1 where f: "flush p (rd_connectedAtFlush rd) batch = (c1, b1)" by fastforce
  obtain c2 where r: "pub_loop p b1 rounds = (c2, batch', p')" "calls = c1 @ c2"
    using 3(2) f by (auto split: prod.splits)
  have "batch_ok p b1" using flush_cases [OF f] batch_ok_empty by simp
  then show ?case using 3(1) [OF f [symmetric] refl r(1)] flush_cases [OF f] 3(3) r(2) by (auto simp: batch_ok_def)
next
  case (4 p batch rd rounds)
  obtain c b where f: "flush p (rd_connectedAtFlush rd) batch = (c, b)" by fastforce
  then show ?case using 4 flush_cases [OF f] batch_ok_empty by (auto simp: batch_ok_def)
next
  case (5 p batch rd rounds)
  obtain c b where f: "flush p (rd_connectedAtFlush rd) batch = (c, b)" by fastforce
  then show ?case using 5 flush_cases [OF f] batch_ok_empty by (auto simp: batch_ok_def)
qed

lemma pub_loop_drained:
  assumes "pub_loop p batch rounds = (calls, batch', p')" "\<exists>rd. (StreamClosed, rd) \<in> set rounds \<or> (ContextDone, rd) \<in> set rounds"
  shows "batch' = []"
  using assms
proof (induction p batch rounds arbitrary: calls rule: pub_loop.induct)
  case (2 p batch evt rd rounds)
  then show ?case by (fastforce split: prod.splits)
next
  case (3 p batch rd rounds)
  then show ?case by (fastforce split: prod.splits)
qed (auto simp: flush_def split: if_splits prod.splits)

text \<open>
  C30: telemetry is published exactly once, in order. While the bus is connected, the events of all publish calls, batched or not, are the observed
  events in the order they were observed, none lost and none repeated; no message carries more than the batch size, and
  when the stream closes or the context ends nothing is left in the buffer.
\<close>

theorem telemetry_exactly_once:
  assumes "publisher_Start p None rounds = Inr (calls, batch', p')"
    and "\<forall>(c, rd) \<in> set (live rounds). rd_connected rd \<and> rd_connectedAtFlush rd"
  shows "telemetry calls @ batch' = converted (pb_NodeName p) rounds \<and>
    (\<forall>c \<in> set calls. int (length (events_of c)) \<le> batchCap p) \<and> int (length batch') < batchCap p \<and>
    ((\<exists>rd. (StreamClosed, rd) \<in> set rounds \<or> (ContextDone, rd) \<in> set rounds) \<longrightarrow> batch' = [])"
proof -
  have run: "pub_loop p [] rounds = (calls, batch', p')" using assms(1) by (simp add: publisher_Start_def)
  show ?thesis
    using pub_loop_telemetry [OF run batch_ok_empty assms(2)] pub_loop_bounded [OF run batch_ok_empty] pub_loop_drained [OF run]
    by (simp add: batch_ok_def)
qed

definition demo_signal :: SignalingEvent where
  "demo_signal = \<lparr>se_ObservedAt = 0, se_SourceIP = [10, 0, 0, 1], se_DestIP = [10, 0, 0, 2], se_DestPort = 2152, se_PayloadSize = 100,
     se_Protocol = SignalProtoGTPU, se_Malformed = False, se_VLANID = 0, se_TEID = 7, se_TunnelRate = 3000\<rparr>"

definition demo_reads :: pub_reads where
  "demo_reads = \<lparr>rd_connected = True, rd_connectedAtFlush = True, rd_index = NewPodIPIndex, rd_rate = (\<lambda>ip port. (0, False)), rd_uuid = ''e'', rd_now = 0\<rparr>"

definition demo_publisher :: Publisher where
  "demo_publisher = \<lparr>pb_Subject = ''events'', pb_NodeName = ''node'', pb_TunnelFlood = None, pb_SourceFlood = None, pb_ThreatsSubject = ''threats'',
     pb_BatchSize = 2, pb_FlushInterval = 0\<rparr>"

theorem telemetry_exactly_once_witness:
  "\<exists>calls. publisher_Start demo_publisher None
       [(Received demo_signal, demo_reads), (Received demo_signal, demo_reads), (Received demo_signal, demo_reads), (ContextDone, demo_reads)] =
     Inr (calls, [], demo_publisher) \<and> map (length \<circ> events_of) calls = [2, 1] \<and> length (telemetry calls) = 3"
proof -
  let ?rounds = "[(Received demo_signal, demo_reads), (Received demo_signal, demo_reads), (Received demo_signal, demo_reads), (ContextDone, demo_reads)]"
  define e where "e = FromSignalingEvent demo_signal (rd_index demo_reads) (rd_rate demo_reads) (pb_NodeName demo_publisher) (rd_uuid demo_reads)"
  have on: "on_event demo_publisher [] demo_signal demo_reads = ([], [e], demo_publisher)"
      "on_event demo_publisher [e] demo_signal demo_reads = ([PublishBatch ''events'' [e, e]], [], demo_publisher)"
    unfolding on_event_def e_def [symmetric]
    by (simp_all add: demo_reads_def demo_publisher_def evaluateTunnelFlood_def evaluateSourceFlood_def batchCap_def flush_def)
  have fl: "flush demo_publisher (rd_connectedAtFlush demo_reads) [e] = ([PublishBatch ''events'' [e]], [])"
    by (simp add: flush_def demo_reads_def demo_publisher_def)
  obtain calls where run: "publisher_Start demo_publisher None ?rounds = Inr (calls, [], demo_publisher)" "map (length \<circ> events_of) calls = [2, 1]"
    by (simp add: publisher_Start_def on fl)
  have conn: "rd_connected demo_reads" "rd_connectedAtFlush demo_reads" by (simp_all add: demo_reads_def)
  then have "\<forall>(c, rd) \<in> set (live ?rounds). rd_connected rd \<and> rd_connectedAtFlush rd" by simp
  note once = telemetry_exactly_once [OF run(1) this, THEN conjunct1]
  have "length (telemetry calls) = 3" using arg_cong [OF once, of length] conn by simp
  then show ?thesis by (intro exI conjI) (rule run)+
qed

subsection \<open>Detection\<close>

lemma evaluate_batchsize:
  "evaluateTunnelFlood (p\<lparr>pb_BatchSize := n\<rparr>) e now = (case evaluateTunnelFlood p e now of (c, p') \<Rightarrow> (c, p'\<lparr>pb_BatchSize := n\<rparr>))"
  "evaluateSourceFlood (p\<lparr>pb_BatchSize := n\<rparr>) e now = (case evaluateSourceFlood p e now of (c, p') \<Rightarrow> (c, p'\<lparr>pb_BatchSize := n\<rparr>))"
  by (auto simp: evaluateTunnelFlood_def evaluateSourceFlood_def split: option.splits prod.splits)

lemma scores_flush: "scores (fst (flush p isConnected batch)) = []"
  by (simp add: flush_def)

lemma on_event_batchsize:
  assumes "on_event p batch evt rd = (c, b, p')" "on_event (p\<lparr>pb_BatchSize := n\<rparr>) batch2 evt rd = (c2, b2, p2)"
  shows "scores c2 = scores c \<and> p2 = p'\<lparr>pb_BatchSize := n\<rparr>"
proof -
  let ?e = "FromSignalingEvent evt (rd_index rd) (rd_rate rd) (pb_NodeName p) (rd_uuid rd)"
  obtain c1 p1 where e1: "evaluateTunnelFlood p ?e (rd_now rd) = (c1, p1)" by fastforce
  obtain d1 q1 where e2: "evaluateSourceFlood p1 ?e (rd_now rd) = (d1, q1)" by fastforce
  have "(rd_connected rd \<longrightarrow> scores c = scores (c1 @ d1) \<and> p' = q1) \<and> (\<not> rd_connected rd \<longrightarrow> c = [] \<and> p' = p)"
    using assms(1) e1 e2 scores_flush by (auto simp: on_event_def Let_def split: if_splits prod.splits) (metis fst_conv)
  moreover have "(rd_connected rd \<longrightarrow> scores c2 = scores (c1 @ d1) \<and> p2 = q1\<lparr>pb_BatchSize := n\<rparr>) \<and>
      (\<not> rd_connected rd \<longrightarrow> c2 = [] \<and> p2 = p\<lparr>pb_BatchSize := n\<rparr>)"
    using assms(2) e1 e2 scores_flush by (auto simp: on_event_def Let_def evaluate_batchsize split: if_splits prod.splits) (metis fst_conv)
  ultimately show ?thesis by auto
qed

lemma pub_loop_batchsize:
  "scores (fst (pub_loop (p\<lparr>pb_BatchSize := n\<rparr>) batch2 rounds)) = scores (fst (pub_loop p batch rounds)) \<and>
   snd (snd (pub_loop (p\<lparr>pb_BatchSize := n\<rparr>) batch2 rounds)) = (snd (snd (pub_loop p batch rounds)))\<lparr>pb_BatchSize := n\<rparr>"
proof (induction p batch rounds arbitrary: batch2 rule: pub_loop.induct)
  case (1 p batch)
  then show ?case by simp
next
  case (2 p batch evt rd rounds)
  obtain c b p' where e: "on_event p batch evt rd = (c, b, p')" by (metis surj_pair)
  obtain c2 b2 p2 where e2: "on_event (p\<lparr>pb_BatchSize := n\<rparr>) batch2 evt rd = (c2, b2, p2)" by (metis surj_pair)
  show ?case using 2 [OF e [symmetric] refl refl, of b2] on_event_batchsize [OF e e2] e e2 by (auto split: prod.splits)
next
  case (3 p batch rd rounds)
  obtain c b where f: "flush p (rd_connectedAtFlush rd) batch = (c, b)" by fastforce
  obtain c2 b2 where f2: "flush (p\<lparr>pb_BatchSize := n\<rparr>) (rd_connectedAtFlush rd) batch2 = (c2, b2)" by fastforce
  have sc: "scores c = []" "scores c2 = []" using flush_cases [OF f] flush_cases [OF f2] by blast+
  show ?case using 3 [OF f [symmetric] refl, of b2] by (simp add: f f2 sc case_prod_beta)
next
  case (4 p batch rd rounds)
  then show ?case by (auto simp: scores_flush case_prod_beta)
next
  case (5 p batch rd rounds)
  then show ?case by (auto simp: scores_flush case_prod_beta)
qed

text \<open>
  Batching never delays or changes detection. For every sequence of rounds, so at every point of a run, the threat scores published so far and
  the state of both detectors are the same whatever the batch size.
\<close>

theorem batching_preserves_detection:
  "let (calls1, r1) = pub_loop p [] rounds; (calls2, r2) = pub_loop (p\<lparr>pb_BatchSize := n\<rparr>) [] rounds
   in scores calls2 = scores calls1 \<and> pb_TunnelFlood (snd r2) = pb_TunnelFlood (snd r1) \<and> pb_SourceFlood (snd r2) = pb_SourceFlood (snd r1)"
  using pub_loop_batchsize [of n p "[]" rounds "[]"] by (auto simp: case_prod_beta)

end
