(* ===== verification/Hubble.thy ===== *)
theory Hubble
  imports Ingestion
begin

text \<open>
  The Hubble source (\<open>pkg/hubble\<close>): the conversion of one flow, and the observer that streams flows and
  starts over with growing pauses. A flow is what the generated getters return for it, the empty text
  where a message is missing. The pause after a stream grows whether or not the stream had started.
\<close>

record Flow =
  fl_UDP :: "u32 option"
  fl_Time :: "time option"
  fl_SourceNamespace :: string
  fl_SourcePodName :: string
  fl_NodeName :: string
  fl_IPSource :: string
  fl_IPDestination :: string

definition classifyPort :: "u32 \<Rightarrow> u16 \<times> Protocol \<times> bool" where
  "classifyPort rawPort =
     (if rawPort = 2152 then (2152, ProtocolGTPU, True)
      else if rawPort = 5060 then (5060, ProtocolSIP, True)
      else (0, ProtocolUnknown, False))"

text \<open>\<open>uuid\<close> and \<open>now\<close> are what \<open>uuid.NewString\<close> and \<open>time.Now\<close> return.\<close>

definition FromFlow :: "string \<Rightarrow> time \<Rightarrow> Flow \<Rightarrow> NormalizedEvent option" where
  "FromFlow uuid now f =
     (case fl_UDP f of
        None \<Rightarrow> None
      | Some port \<Rightarrow>
          (case classifyPort port of
             (_, _, False) \<Rightarrow> None
           | (destPort, protocol, True) \<Rightarrow>
               Some \<lparr>ne_EventID = uuid, ne_ObservedAt = (case fl_Time f of Some ts \<Rightarrow> ts | None \<Rightarrow> now),
                     ne_Namespace = fl_SourceNamespace f, ne_PodName = fl_SourcePodName f, ne_NodeName = fl_NodeName f,
                     ne_SourceIP = fl_IPSource f, ne_DestIP = fl_IPDestination f, ne_DestPort = destPort, ne_Protocol = protocol,
                     ne_PayloadSize = 0, ne_RatePerSecond = 0, ne_Malformed = False, ne_VLANID = 0, ne_TEID = 0, ne_TunnelRatePerSecond = 0\<rparr>))"

record Observer =
  ob_Addr :: string
  ob_TLS :: bool
  ob_Subject :: string

definition observer_NeedLeaderElection :: bool where
  "observer_NeedLeaderElection = True"

text \<open>One received response: its flow, if it carries one, and what the calls on it return.\<close>

record response =
  rs_flow :: "Flow option"
  rs_connected :: bool
  rs_uuid :: string
  rs_now :: time

definition on_response :: "Observer \<Rightarrow> response \<Rightarrow> pub_call list" where
  "on_response ob r =
     (case rs_flow r of
        None \<Rightarrow> []
      | Some flow \<Rightarrow>
          (case FromFlow (rs_uuid r) (rs_now r) flow of
             None \<Rightarrow> []
           | Some event \<Rightarrow> if \<not> rs_connected r then [] else [PublishNormalized (ob_Subject ob) event]))"

text \<open>
  One stream: the result of \<open>GetFlows\<close>, the responses received, and how \<open>Recv\<close> ended it (\<open>None\<close> for \<open>io.EOF\<close>).
\<close>

record flow_stream =
  st_open :: "err option"
  st_responses :: "response list"
  st_end :: "err option"

definition streamFlows :: "Observer \<Rightarrow> flow_stream \<Rightarrow> pub_call list \<times> err option" where
  "streamFlows ob st =
     (case st_open st of
        Some e \<Rightarrow> ([], Some (wrap ''start hubble flow stream'' e))
      | None \<Rightarrow> (concat (map (on_response ob) (st_responses st)), map_option (wrap ''receive from hubble flow stream'') (st_end st)))"

definition observerMaxBackoff :: duration where
  "observerMaxBackoff = 30 * second"

definition growBackoff :: "duration \<Rightarrow> duration" where
  "growBackoff backoff =
     (if backoff < observerMaxBackoff
      then (let b = backoff * 2 in if b > observerMaxBackoff then observerMaxBackoff else b)
      else backoff)"

text \<open>A round of \<open>Start\<close>: the stream, and whether the context is over after it or during the pause.\<close>

record observer_round =
  or_stream :: flow_stream
  or_ctxErr :: bool
  or_ctxDone :: bool

fun observer_loop :: "Observer \<Rightarrow> duration \<Rightarrow> observer_round list \<Rightarrow> pub_call list \<times> duration list" where
  "observer_loop ob backoff [] = ([], [])"
| "observer_loop ob backoff (r # rounds) =
     (let (calls, e) = streamFlows ob (or_stream r) in
      if or_ctxErr r then (calls, [])
      else if or_ctxDone r then (calls, [backoff])
      else let (rest, waits) = observer_loop ob (growBackoff backoff) rounds in (calls @ rest, backoff # waits))"

text \<open>\<open>Start\<close> with the result of \<open>grpc.NewClient\<close>: the publish calls made and the pauses taken.\<close>

definition observer_Start :: "Observer \<Rightarrow> err option \<Rightarrow> observer_round list \<Rightarrow> err + pub_call list \<times> duration list" where
  "observer_Start ob dialed rounds =
     (case dialed of
        Some e \<Rightarrow> Inl (wrap ''dial hubble observer'' e)
      | None \<Rightarrow> Inr (observer_loop ob second rounds))"

subsection \<open>Properties\<close>

lemma growBackoff_iter: "(growBackoff ^^ k) second = min (2 ^ k * second) observerMaxBackoff"
  by (induction k) (auto simp: growBackoff_def observerMaxBackoff_def Let_def min_def)

lemma observer_loop_waits:
  "snd (observer_loop ob b rounds) = map (\<lambda>k. (growBackoff ^^ k) b) [0..<length (snd (observer_loop ob b rounds))] \<and>
   length (snd (observer_loop ob b rounds)) \<le> length rounds"
proof (induction rounds arbitrary: b)
  case (Cons r rounds)
  obtain calls e where s: "streamFlows ob (or_stream r) = (calls, e)" by fastforce
  let ?w = "snd (observer_loop ob (growBackoff b) rounds)"
  have shift: "b # map (\<lambda>k. (growBackoff ^^ k) (growBackoff b)) [0..<n] = map (\<lambda>k. (growBackoff ^^ k) b) [0..<Suc n]" for n
    by (simp add: upt_conv_Cons map_Suc_upt [symmetric] funpow_swap1 del: upt_Suc)
  show ?case
  proof (cases "or_ctxErr r \<or> or_ctxDone r")
    case True
    then show ?thesis using s by auto
  next
    case False
    then have "snd (observer_loop ob b (r # rounds)) = b # ?w" using s by (simp add: case_prod_beta)
    then show ?thesis using Cons [of "growBackoff b"] shift [of "length ?w"] by simp
  qed
qed simp

text \<open>
  The pauses between streams double up to thirty seconds and are never reset: the wait after stream number \<open>k\<close> lasts \<open>min (2^k) 30\<close> seconds in every run, however
  long and successful the streams before it were.
\<close>

theorem observer_backoff_never_resets:
  assumes "observer_Start ob None rounds = Inr (calls, waits)" "k < length waits"
  shows "waits ! k = min (2 ^ k * second) (30 * second)"
proof -
  have w: "waits = snd (observer_loop ob second rounds)" using assms(1) by (simp add: observer_Start_def)
  have "waits ! k = (growBackoff ^^ k) second"
    using conjunct1 [OF observer_loop_waits [of ob second rounds]] assms(2) unfolding w [symmetric]
    by (metis (no_types, lifting) add_0 nth_map_upt diff_zero)
  then show ?thesis by (simp add: growBackoff_iter observerMaxBackoff_def)
qed

theorem observer_backoff_never_resets_witness:
  "let up = \<lparr>or_stream = \<lparr>st_open = None, st_responses = [], st_end = None\<rparr>, or_ctxErr = False, or_ctxDone = False\<rparr>
   in \<exists>calls waits. observer_Start \<lparr>ob_Addr = ''relay'', ob_TLS = False, ob_Subject = ''events''\<rparr> None [up, up, up] = Inr (calls, waits) \<and> waits ! 2 = 4 * second"
proof -
  let ?ob = "\<lparr>ob_Addr = ''relay'', ob_TLS = False, ob_Subject = ''events''\<rparr>"
  let ?up = "\<lparr>or_stream = \<lparr>st_open = None, st_responses = [], st_end = None\<rparr>, or_ctxErr = False, or_ctxDone = False\<rparr>"
  obtain calls waits where run: "observer_Start ?ob None [?up, ?up, ?up] = Inr (calls, waits)" by (simp add: observer_Start_def case_prod_beta)
  have "length waits = 3" using run by (auto simp: observer_Start_def case_prod_beta)
  then show ?thesis using observer_backoff_never_resets [OF run, of 2] run by (auto simp: Let_def)
qed

text \<open>
  A flow becomes an event exactly if it is UDP to one of the two signaling ports, and the event's port
  and protocol are those of the flow.
\<close>

lemma FromFlow_iff:
  "(\<exists>e. FromFlow uuid now f = Some e) \<longleftrightarrow> fl_UDP f \<in> {Some 2152, Some 5060}"
  by (auto simp: FromFlow_def classifyPort_def split: option.splits if_splits)

lemma FromFlow_event:
  assumes "FromFlow uuid now f = Some e"
  shows "ne_TEID e = 0" "ne_SourceIP e = fl_IPSource f"
    and "ne_DestPort e = 2152 \<and> ne_Protocol e = ProtocolGTPU \<or> ne_DestPort e = 5060 \<and> ne_Protocol e = ProtocolSIP"
  using assms by (auto simp: FromFlow_def classifyPort_def split: option.splits if_splits)

end
