(* ===== verification/Go_Strconv.thy ===== *)
theory Go_Strconv
  imports Events
begin

text \<open>
  The text conversions of Go's standard library that the configuration reads its variables with: \<open>strconv.ParseUint\<close>, \<open>Atoi\<close>,
  \<open>ParseBool\<close>, \<open>ParseFloat\<close> and \<open>time.ParseDuration\<close>, over strings as byte sequences. A parsed number is exact; rounding to
  \<open>float64\<close> is left out.
\<close>

definition is_dec :: "char \<Rightarrow> bool" where
  "is_dec c = (dec_val c \<noteq> None)"

subsection \<open>Integers\<close>

fun parse_dec_from :: "nat \<Rightarrow> nat \<Rightarrow> string \<Rightarrow> nat option" where
  "parse_dec_from limit n [] = Some n"
| "parse_dec_from limit n (c # cs) =
     (case dec_val c of
        None \<Rightarrow> None
      | Some d \<Rightarrow> if n * 10 + d \<ge> limit then None else parse_dec_from limit (n * 10 + d) cs)"

text \<open>\<open>ParseUint(s, 10, bits)\<close>.\<close>

definition ParseUint10 :: "nat \<Rightarrow> string \<Rightarrow> err + nat" where
  "ParseUint10 bits s =
     (if s = [] then Inl (new_err ''invalid syntax'')
      else case parse_dec_from (2 ^ bits) 0 s of None \<Rightarrow> Inl (new_err ''strconv.ParseUint'') | Some n \<Rightarrow> Inr n)"

definition sign_of :: "string \<Rightarrow> bool \<times> string" where
  "sign_of s = (case s of c # cs \<Rightarrow> if c = CHR ''-'' then (True, cs) else if c = CHR ''+'' then (False, cs) else (False, s) | [] \<Rightarrow> (False, s))"

definition Atoi :: "string \<Rightarrow> err + int" where
  "Atoi s =
     (case sign_of s of
        (neg, digits) \<Rightarrow>
          (case ParseUint10 64 digits of
             Inl e \<Rightarrow> Inl e
           | Inr n \<Rightarrow>
               if neg then (if n > 2 ^ 63 then Inl (new_err ''value out of range'') else Inr (- int n))
               else (if n \<ge> 2 ^ 63 then Inl (new_err ''value out of range'') else Inr (int n))))"

definition ParseBool :: "string \<Rightarrow> err + bool" where
  "ParseBool s =
     (if s \<in> {''1'', ''t'', ''T'', ''true'', ''TRUE'', ''True''} then Inr True
      else if s \<in> {''0'', ''f'', ''F'', ''false'', ''FALSE'', ''False''} then Inr False
      else Inl (new_err ''strconv.ParseBool''))"

subsection \<open>Floating point\<close>

datatype float_value = NaN | Infinite bool | Finite float64

text \<open>The comparison \<open><\<close>; every comparison with \<open>NaN\<close> is false.\<close>

fun float_less :: "float_value \<Rightarrow> float_value \<Rightarrow> bool" where
  "float_less NaN y = False"
| "float_less x NaN = False"
| "float_less (Infinite neg) (Infinite neg2) = (neg \<and> \<not> neg2)"
| "float_less (Infinite neg) (Finite r) = neg"
| "float_less (Finite r) (Infinite neg) = (\<not> neg)"
| "float_less (Finite r) (Finite q) = (r < q)"

definition special_float :: "string \<Rightarrow> float_value option" where
  "special_float s =
     (case sign_of s of
        (neg, t) \<Rightarrow>
          if map ascii_lower t \<in> {''inf'', ''infinity''} then Some (Infinite neg)
          else if map ascii_lower s = ''nan'' then Some NaN
          else None)"

definition digit_in :: "bool \<Rightarrow> char \<Rightarrow> nat option" where
  "digit_in hex c = (if hex then hex_val c else dec_val c)"

text \<open>The mantissa: value of the digits, digits after the point, whether there was a digit, what is left.\<close>

fun scan_mantissa :: "bool \<Rightarrow> nat \<Rightarrow> nat \<Rightarrow> bool \<Rightarrow> bool \<Rightarrow> string \<Rightarrow> nat \<times> nat \<times> bool \<times> string" where
  "scan_mantissa hex n k sawdot sawdigits [] = (n, k, sawdigits, [])"
| "scan_mantissa hex n k sawdot sawdigits (c # cs) =
     (if c = CHR ''_'' then scan_mantissa hex n k sawdot sawdigits cs
      else if c = CHR ''.'' then (if sawdot then (n, k, sawdigits, c # cs) else scan_mantissa hex n k True sawdigits cs)
      else case digit_in hex c of
        Some d \<Rightarrow> scan_mantissa hex (n * (if hex then 16 else 10) + d) (if sawdot then Suc k else k) sawdot True cs
      | None \<Rightarrow> (n, k, sawdigits, c # cs))"

fun scan_exponent :: "nat \<Rightarrow> string \<Rightarrow> nat \<times> string" where
  "scan_exponent e [] = (e, [])"
| "scan_exponent e (c # cs) =
     (if c = CHR ''_'' then scan_exponent e cs
      else case dec_val c of
        Some d \<Rightarrow> scan_exponent (if e < 10000 then e * 10 + d else e) cs
      | None \<Rightarrow> (e, c # cs))"

text \<open>\<open>underscoreOK\<close>: an underscore follows a digit or the base prefix and is followed by a digit.\<close>

fun underscores_ok :: "bool \<Rightarrow> char \<Rightarrow> string \<Rightarrow> bool" where
  "underscores_ok hex i [] = (i \<noteq> CHR ''_'')"
| "underscores_ok hex i (c # cs) =
     (if digit_in hex c \<noteq> None then underscores_ok hex (CHR ''0'') cs
      else if c = CHR ''_'' then (if i \<noteq> CHR ''0'' then False else underscores_ok hex (CHR ''_'') cs)
      else if i = CHR ''_'' then False
      else underscores_ok hex (CHR ''!'') cs)"

definition base_prefix :: "string \<Rightarrow> char option" where
  "base_prefix s = (case s of c # d # cs \<Rightarrow>
      if c = CHR ''0'' \<and> ascii_lower d \<in> {CHR ''b'', CHR ''o'', CHR ''x''} then Some (ascii_lower d) else None | _ \<Rightarrow> None)"

definition underscoreOK :: "string \<Rightarrow> bool" where
  "underscoreOK s =
     (let t = snd (sign_of s) in
      case base_prefix t of
        Some p \<Rightarrow> underscores_ok (p = CHR ''x'') (CHR ''0'') (drop 2 t)
      | None \<Rightarrow> underscores_ok False (CHR ''^'') t)"

text \<open>The value without its sign, when all of the text is a number.\<close>

definition readFloat :: "string \<Rightarrow> rat option" where
  "readFloat s =
     (let t = snd (sign_of s);
          hex = (base_prefix t = Some (CHR ''x'') \<and> 2 < length t)
      in case scan_mantissa hex 0 0 False False (if hex then drop 2 t else t) of
           (n, k, sawdigits, rest) \<Rightarrow>
             if \<not> sawdigits then None
             else
               (let m = of_nat n / of_nat ((if hex then 16 else 10) ^ k);
                    ok = (CHR ''_'' \<notin> set s \<or> underscoreOK s)
                in case rest of
                     [] \<Rightarrow> if hex \<or> \<not> ok then None else Some m
                   | c # cs \<Rightarrow>
                       if ascii_lower c \<noteq> (if hex then CHR ''p'' else CHR ''e'') then None
                       else (case sign_of cs of
                               (neg, ds) \<Rightarrow>
                                 if ds = [] \<or> \<not> is_dec (hd ds) then None
                                 else (case scan_exponent 0 ds of
                                         (e, left) \<Rightarrow>
                                           if left \<noteq> [] \<or> \<not> ok then None
                                           else (let p = of_nat ((if hex then 2 else 10) ^ e) in Some (if neg then m / p else m * p))))))"

text \<open>Values that round to \<open>2 ^ 1024\<close> or more are out of range.\<close>

definition ParseFloat :: "string \<Rightarrow> err + float_value" where
  "ParseFloat s =
     (case special_float s of
        Some f \<Rightarrow> Inr f
      | None \<Rightarrow>
          (case readFloat s of
             None \<Rightarrow> Inl (new_err ''invalid syntax'')
           | Some r \<Rightarrow>
               if r \<ge> 2 ^ 1024 - 2 ^ 970 then Inl (new_err ''value out of range'')
               else Inr (Finite (if fst (sign_of s) then - r else r))))"

subsection \<open>Durations\<close>

definition unit_of :: "string \<Rightarrow> nat option" where
  "unit_of = map_of [(''ns'', 1), (''us'', 1000), ([char_of (0xC2 :: nat), char_of (0xB5 :: nat), CHR ''s''], 1000),
     ([char_of (0xCE :: nat), char_of (0xBC :: nat), CHR ''s''], 1000), (''ms'', 1000000), (''s'', 1000000000), (''m'', 60000000000),
     (''h'', 3600000000000)]"

definition dec_value :: "string \<Rightarrow> nat" where
  "dec_value ds = foldl (\<lambda>n c. n * 10 + the (dec_val c)) 0 ds"

text \<open>\<open>leadingFraction\<close>: digits that no longer fit are skipped.\<close>

fun leadingFraction :: "nat \<Rightarrow> nat \<Rightarrow> string \<Rightarrow> nat \<times> nat" where
  "leadingFraction f scale [] = (f, scale)"
| "leadingFraction f scale (c # cs) =
     (if f > (2 ^ 63 - 1) div 10 \<or> f * 10 + the (dec_val c) > 2 ^ 63 then (f, scale)
      else leadingFraction (f * 10 + the (dec_val c)) (scale * 10) cs)"

text \<open>One term: the integer part, the fraction and the unit.\<close>

definition number_part :: "string \<Rightarrow> string \<times> string \<times> string" where
  "number_part s =
     (case dropWhile is_dec s of
        c # cs \<Rightarrow> if c = CHR ''.'' then (takeWhile is_dec s, takeWhile is_dec cs, dropWhile is_dec cs) else (takeWhile is_dec s, [], c # cs)
      | [] \<Rightarrow> (takeWhile is_dec s, [], []))"

definition in_unit :: "char \<Rightarrow> bool" where
  "in_unit c = (c \<noteq> CHR ''.'' \<and> \<not> is_dec c)"

definition term_value :: "string \<Rightarrow> string \<Rightarrow> nat \<Rightarrow> nat option" where
  "term_value ds fs unit =
     (case leadingFraction 0 1 fs of
        (f, scale) \<Rightarrow>
          if dec_value ds > 2 ^ 63 div unit then None
          else (let v = dec_value ds * unit + f * unit div scale in if v > 2 ^ 63 then None else Some v))"

definition duration_term :: "string \<Rightarrow> (nat \<times> string) option" where
  "duration_term s =
     (case number_part s of
        (ds, fs, s2) \<Rightarrow>
          if dec_value ds > 2 ^ 63 \<or> ds = [] \<and> fs = [] \<or> takeWhile in_unit s2 = [] then None
          else case unit_of (takeWhile in_unit s2) of
            None \<Rightarrow> None
          | Some unit \<Rightarrow> map_option (\<lambda>v. (v, dropWhile in_unit s2)) (term_value ds fs unit))"

lemma number_part_shorter: "length (snd (snd (number_part s))) \<le> length s"
proof (cases "dropWhile is_dec s")
  case Nil
  show ?thesis unfolding number_part_def Nil by simp
next
  case (Cons c cs)
  have "length (c # cs) \<le> length s" using length_dropWhile_le [of is_dec s] Cons by simp
  moreover have "length (dropWhile is_dec cs) \<le> length cs" by (rule length_dropWhile_le)
  ultimately show ?thesis unfolding number_part_def Cons by simp
qed

lemma duration_term_shorter:
  assumes "duration_term s = Some (v, rest)"
  shows "length rest < length s"
proof -
  obtain ds fs s2 where n: "number_part s = (ds, fs, s2)" by (metis surj_pair)
  have "takeWhile in_unit s2 \<noteq> []" "rest = dropWhile in_unit s2"
    using assms by (auto simp: duration_term_def n split: option.splits if_splits)
  moreover have "length (takeWhile in_unit s2) + length (dropWhile in_unit s2) = length s2"
    by (metis length_append takeWhile_dropWhile_id)
  ultimately show ?thesis using number_part_shorter [of s] n by (cases "takeWhile in_unit s2") auto
qed

function duration_terms :: "nat \<Rightarrow> string \<Rightarrow> nat option" where
  "duration_terms d s =
     (if s = [] then Some d
      else case duration_term s of
        None \<Rightarrow> None
      | Some (v, rest) \<Rightarrow> if d + v > 2 ^ 63 then None else duration_terms (d + v) rest)"
  by pat_completeness auto
termination
  by (relation "measure (length \<circ> snd)") (auto dest: duration_term_shorter)

declare duration_terms.simps [simp del]

definition ParseDuration :: "string \<Rightarrow> err + duration" where
  "ParseDuration s0 =
     (case sign_of s0 of
        (neg, s) \<Rightarrow>
          if s = ''0'' then Inr 0
          else if s = [] then Inl (new_err ''time: invalid duration'')
          else case duration_terms 0 s of
            None \<Rightarrow> Inl (new_err ''time: invalid duration'')
          | Some d \<Rightarrow>
              if neg then Inr (- int d)
              else if d > 2 ^ 63 - 1 then Inl (new_err ''time: invalid duration'') else Inr (int d))"

end
