(* ===== verification/Operator_Config.thy ===== *)
theory Operator_Config
  imports Go_Strconv
begin

text \<open>
  The operator's configuration (\<open>pkg/config/config.go\<close>) and that of the Falco bridge (\<open>cmd/falco-bridge/config.go\<close>), read from the environment. A
  configuration that loads is well formed, with one exception the theorems make explicit.
\<close>

type_synonym environ = "string \<Rightarrow> string option"

record OperatorConfig =
  oc_MetricsBindAddress :: string
  oc_HealthProbeBindAddress :: string
  oc_LeaderElect :: bool
  oc_NATSURL :: string
  oc_NATSEventsSubject :: string
  oc_NATSThreatsSubject :: string
  oc_NATSStreamName :: string
  oc_NATSCredentialsFile :: string
  oc_NATSUsername :: string
  oc_NATSPassword :: string
  oc_NATSTLSCAFile :: string
  oc_NATSTLSCertFile :: string
  oc_NATSTLSKeyFile :: string
  oc_NATSAllowUnauthenticated :: bool
  oc_ThreatScoreThreshold :: float_value
  oc_MeshAdapter :: string
  oc_HubbleAddr :: string
  oc_HubbleTLSCAFile :: string
  oc_HubbleTLSCertFile :: string
  oc_HubbleTLSKeyFile :: string
  oc_LogLevel :: string
  oc_DeEscalationDwell :: duration
  oc_GTPUTunnelFloodEnabled :: bool
  oc_GTPUTunnelFloodPPS :: u32
  oc_GTPUTunnelFloodCooldown :: duration
  oc_GTPUSourceFloodEnabled :: bool
  oc_GTPUSourceFloodPPS :: u32
  oc_GTPUSourceFloodDistinctTunnels :: int
  oc_GTPUSourceFloodWindow :: duration
  oc_GTPUSourceFloodCooldown :: duration
  oc_NATSEventBatchSize :: int
  oc_NATSEventFlushInterval :: duration
  oc_BPFPinPath :: string
  oc_BlocklistReconcileInterval :: duration
  oc_ReactorStatusWritesPerSecond :: float_value
  oc_ReactorStatusWriteBurst :: int
  oc_KillSwitchConfigMapName :: string
  oc_KillSwitchNamespace :: string
  oc_KillSwitchPollInterval :: duration
  oc_ScoringPipelineGrace :: duration

definition DefaultPinPath :: string where
  "DefaultPinPath = ''/sys/fs/bpf/sentinel5g''"

definition and_then :: "err + 'a \<Rightarrow> ('a \<Rightarrow> err + 'b) \<Rightarrow> err + 'b" where
  "and_then x f = (case x of Inl e \<Rightarrow> Inl e | Inr a \<Rightarrow> f a)"

text \<open>\<open>os.Getenv\<close>: an unset variable reads as the empty text.\<close>

definition Getenv :: "environ \<Rightarrow> string \<Rightarrow> string" where
  "Getenv env key = (case env key of Some v \<Rightarrow> v | None \<Rightarrow> [])"

definition getEnv :: "environ \<Rightarrow> string \<Rightarrow> string \<Rightarrow> string" where
  "getEnv env key fallback = (case env key of Some v \<Rightarrow> if v \<noteq> [] then v else fallback | None \<Rightarrow> fallback)"

definition getEnvAllowEmpty :: "environ \<Rightarrow> string \<Rightarrow> string \<Rightarrow> string" where
  "getEnvAllowEmpty env key fallback = (case env key of Some v \<Rightarrow> v | None \<Rightarrow> fallback)"

definition parseFloatEnv :: "environ \<Rightarrow> string \<Rightarrow> float_value \<Rightarrow> err + float_value" where
  "parseFloatEnv env key fallback =
     (case env key of
        None \<Rightarrow> Inr fallback
      | Some v \<Rightarrow> if v = [] then Inr fallback
          else case ParseFloat v of Inl e \<Rightarrow> Inl (wrap (''invalid '' @ key) e) | Inr parsed \<Rightarrow> Inr parsed)"

definition parseBoolEnv :: "environ \<Rightarrow> string \<Rightarrow> bool \<Rightarrow> err + bool" where
  "parseBoolEnv env key fallback =
     (case env key of
        None \<Rightarrow> Inr fallback
      | Some v \<Rightarrow> if v = [] then Inr fallback
          else case ParseBool v of Inl e \<Rightarrow> Inl (wrap (''invalid '' @ key) e) | Inr parsed \<Rightarrow> Inr parsed)"

definition parseUint32Env :: "environ \<Rightarrow> string \<Rightarrow> u32 \<Rightarrow> err + u32" where
  "parseUint32Env env key fallback =
     (case env key of
        None \<Rightarrow> Inr fallback
      | Some v \<Rightarrow> if v = [] then Inr fallback
          else case ParseUint10 32 v of Inl e \<Rightarrow> Inl (wrap (''invalid '' @ key) e) | Inr parsed \<Rightarrow> Inr (word_of_nat parsed))"

definition parseIntEnv :: "environ \<Rightarrow> string \<Rightarrow> int \<Rightarrow> err + int" where
  "parseIntEnv env key fallback =
     (case env key of
        None \<Rightarrow> Inr fallback
      | Some v \<Rightarrow> if v = [] then Inr fallback
          else case Atoi v of
            Inl e \<Rightarrow> Inl (wrap (''invalid '' @ key) e)
          | Inr parsed \<Rightarrow> if parsed < 0 then Inl (new_err (''invalid '' @ key)) else Inr parsed)"

definition parseDurationEnv :: "environ \<Rightarrow> string \<Rightarrow> duration \<Rightarrow> err + duration" where
  "parseDurationEnv env key fallback =
     (case env key of
        None \<Rightarrow> Inr fallback
      | Some v \<Rightarrow> if v = [] then Inr fallback
          else case ParseDuration v of Inl e \<Rightarrow> Inl (wrap (''invalid '' @ key) e) | Inr parsed \<Rightarrow> Inr parsed)"

definition natsHasCredentials :: "OperatorConfig \<Rightarrow> bool" where
  "natsHasCredentials cfg \<longleftrightarrow> oc_NATSCredentialsFile cfg \<noteq> [] \<or> oc_NATSUsername cfg \<noteq> [] \<or> oc_NATSTLSCertFile cfg \<noteq> [] \<or> oc_NATSTLSCAFile cfg \<noteq> []"

text \<open>The checks at the end of \<open>Load\<close>.\<close>

definition validate :: "OperatorConfig \<Rightarrow> err + OperatorConfig" where
  "validate cfg =
     (if float_less (oc_ThreatScoreThreshold cfg) (Finite 0) \<or> float_less (Finite 1) (oc_ThreatScoreThreshold cfg)
      then Inl (new_err ''THREAT_SCORE_THRESHOLD must be within [0,1]'')
      else if oc_GTPUTunnelFloodEnabled cfg \<and> oc_GTPUTunnelFloodPPS cfg = 0
      then Inl (new_err ''GTPU_TUNNEL_FLOOD_PPS must be greater than 0'')
      else if oc_GTPUSourceFloodEnabled cfg \<and> oc_GTPUSourceFloodPPS cfg = 0 \<and> oc_GTPUSourceFloodDistinctTunnels cfg = 0
      then Inl (new_err ''GTPU_SOURCE_FLOOD_PPS and GTPU_SOURCE_FLOOD_DISTINCT_TUNNELS cannot both be 0'')
      else if oc_GTPUSourceFloodWindow cfg \<le> 0
      then Inl (new_err ''GTPU_SOURCE_FLOOD_WINDOW must be greater than 0'')
      else if \<not> oc_NATSAllowUnauthenticated cfg \<and> \<not> natsHasCredentials cfg
      then Inl (new_err ''refusing to start with an unauthenticated NATS connection'')
      else Inr cfg)"

definition Load :: "environ \<Rightarrow> err + OperatorConfig" where
  "Load env =
     and_then (parseFloatEnv env ''THREAT_SCORE_THRESHOLD'' (Finite (85 / 100))) (\<lambda>threshold.
     and_then (parseBoolEnv env ''LEADER_ELECT'' False) (\<lambda>leaderElect.
     and_then (parseDurationEnv env ''DE_ESCALATION_DWELL'' (5 * minute)) (\<lambda>deEscalationDwell.
     and_then (parseDurationEnv env ''SCORING_PIPELINE_GRACE'' (10 * minute)) (\<lambda>scoringPipelineGrace.
     and_then (parseBoolEnv env ''GTPU_TUNNEL_FLOOD_ENABLED'' True) (\<lambda>tunnelFloodEnabled.
     and_then (parseUint32Env env ''GTPU_TUNNEL_FLOOD_PPS'' 100000) (\<lambda>tunnelFloodPPS.
     and_then (parseDurationEnv env ''GTPU_TUNNEL_FLOOD_COOLDOWN'' (30 * second)) (\<lambda>tunnelFloodCooldown.
     and_then (parseBoolEnv env ''GTPU_SOURCE_FLOOD_ENABLED'' True) (\<lambda>sourceFloodEnabled.
     and_then (parseUint32Env env ''GTPU_SOURCE_FLOOD_PPS'' 500000) (\<lambda>sourceFloodPPS.
     and_then (parseIntEnv env ''GTPU_SOURCE_FLOOD_DISTINCT_TUNNELS'' 2048) (\<lambda>sourceFloodDistinct.
     and_then (parseDurationEnv env ''GTPU_SOURCE_FLOOD_WINDOW'' second) (\<lambda>sourceFloodWindow.
     and_then (parseDurationEnv env ''GTPU_SOURCE_FLOOD_COOLDOWN'' (30 * second)) (\<lambda>sourceFloodCooldown.
     and_then (parseBoolEnv env ''NATS_ALLOW_UNAUTHENTICATED'' False) (\<lambda>allowUnauthenticated.
     and_then (parseDurationEnv env ''BLOCKLIST_RECONCILE_INTERVAL'' minute) (\<lambda>blocklistReconcileInterval.
     and_then (parseDurationEnv env ''KILL_SWITCH_POLL_INTERVAL'' (2 * second)) (\<lambda>killSwitchPoll.
     and_then (parseIntEnv env ''NATS_EVENT_BATCH_SIZE'' 1) (\<lambda>eventBatchSize.
     and_then (parseDurationEnv env ''NATS_EVENT_FLUSH_INTERVAL'' (250 * millisecond)) (\<lambda>eventFlushInterval.
     and_then (parseFloatEnv env ''REACTOR_STATUS_WRITES_PER_SECOND'' (Finite 10)) (\<lambda>reactorRate.
     and_then (parseIntEnv env ''REACTOR_STATUS_WRITE_BURST'' 20) (\<lambda>reactorBurst.
     validate \<lparr>oc_MetricsBindAddress = getEnv env ''METRICS_BIND_ADDRESS'' '':8080'',
       oc_HealthProbeBindAddress = getEnv env ''HEALTH_PROBE_BIND_ADDRESS'' '':8081'',
       oc_LeaderElect = leaderElect,
       oc_NATSURL = getEnv env ''NATS_URL'' ''nats://localhost:4222'',
       oc_NATSEventsSubject = getEnv env ''NATS_EVENTS_SUBJECT'' ''sentinel5g.events.normalized'',
       oc_NATSThreatsSubject = getEnv env ''NATS_THREATS_SUBJECT'' ''sentinel5g.threats.scored'',
       oc_NATSStreamName = getEnv env ''NATS_STREAM_NAME'' ''SENTINEL5G'',
       oc_NATSCredentialsFile = getEnv env ''NATS_CREDENTIALS_FILE'' [],
       oc_NATSUsername = getEnv env ''NATS_USERNAME'' [],
       oc_NATSPassword = getEnv env ''NATS_PASSWORD'' [],
       oc_NATSTLSCAFile = getEnv env ''NATS_TLS_CA_FILE'' [],
       oc_NATSTLSCertFile = getEnv env ''NATS_TLS_CERT_FILE'' [],
       oc_NATSTLSKeyFile = getEnv env ''NATS_TLS_KEY_FILE'' [],
       oc_NATSAllowUnauthenticated = allowUnauthenticated,
       oc_ThreatScoreThreshold = threshold,
       oc_MeshAdapter = getEnv env ''MESH_ADAPTER'' ''istio'',
       oc_HubbleAddr = getEnv env ''HUBBLE_ADDR'' [],
       oc_HubbleTLSCAFile = getEnv env ''HUBBLE_TLS_CA_FILE'' [],
       oc_HubbleTLSCertFile = getEnv env ''HUBBLE_TLS_CERT_FILE'' [],
       oc_HubbleTLSKeyFile = getEnv env ''HUBBLE_TLS_KEY_FILE'' [],
       oc_LogLevel = getEnv env ''LOG_LEVEL'' ''info'',
       oc_DeEscalationDwell = deEscalationDwell,
       oc_GTPUTunnelFloodEnabled = tunnelFloodEnabled,
       oc_GTPUTunnelFloodPPS = tunnelFloodPPS,
       oc_GTPUTunnelFloodCooldown = tunnelFloodCooldown,
       oc_GTPUSourceFloodEnabled = sourceFloodEnabled,
       oc_GTPUSourceFloodPPS = sourceFloodPPS,
       oc_GTPUSourceFloodDistinctTunnels = sourceFloodDistinct,
       oc_GTPUSourceFloodWindow = sourceFloodWindow,
       oc_GTPUSourceFloodCooldown = sourceFloodCooldown,
       oc_NATSEventBatchSize = eventBatchSize,
       oc_NATSEventFlushInterval = eventFlushInterval,
       oc_BPFPinPath = getEnvAllowEmpty env ''BPF_PIN_PATH'' DefaultPinPath,
       oc_BlocklistReconcileInterval = blocklistReconcileInterval,
       oc_ReactorStatusWritesPerSecond = reactorRate,
       oc_ReactorStatusWriteBurst = reactorBurst,
       oc_KillSwitchConfigMapName = getEnvAllowEmpty env ''KILL_SWITCH_CONFIGMAP_NAME'' ''sentinel5g-killswitch'',
       oc_KillSwitchNamespace = getEnv env ''KILL_SWITCH_NAMESPACE'' (Getenv env ''POD_NAMESPACE''),
       oc_KillSwitchPollInterval = killSwitchPoll,
       oc_ScoringPipelineGrace = scoringPipelineGrace\<rparr>)))))))))))))))))))"

subsection \<open>The Falco bridge\<close>

record bridge_config =
  bc_listenAddr :: string
  bc_sharedSecret :: string
  bc_logLevel :: string
  bc_natsURL :: string
  bc_natsStreamName :: string
  bc_natsEventsSubject :: string
  bc_natsThreatsSubject :: string
  bc_natsConnectTimeout :: duration
  bc_natsCredentialsFile :: string
  bc_natsUsername :: string
  bc_natsPassword :: string
  bc_natsTLSCAFile :: string
  bc_natsTLSCertFile :: string
  bc_natsTLSKeyFile :: string

text \<open>A duration that does not parse falls back to the default.\<close>

definition getDurationEnv :: "environ \<Rightarrow> string \<Rightarrow> duration \<Rightarrow> duration" where
  "getDurationEnv env key fallback =
     (case env key of
        None \<Rightarrow> fallback
      | Some v \<Rightarrow> if v = [] then fallback else case ParseDuration v of Inl e \<Rightarrow> fallback | Inr parsed \<Rightarrow> parsed)"

definition loadConfig :: "environ \<Rightarrow> bridge_config" where
  "loadConfig env =
     \<lparr>bc_listenAddr = getEnv env ''FALCO_BRIDGE_LISTEN_ADDR'' '':8091'',
      bc_sharedSecret = getEnv env ''FALCO_BRIDGE_SHARED_SECRET'' [],
      bc_logLevel = getEnv env ''LOG_LEVEL'' ''info'',
      bc_natsURL = getEnv env ''NATS_URL'' ''nats://localhost:4222'',
      bc_natsStreamName = getEnv env ''NATS_STREAM_NAME'' ''SENTINEL5G'',
      bc_natsEventsSubject = getEnv env ''NATS_EVENTS_SUBJECT'' ''sentinel5g.events.normalized'',
      bc_natsThreatsSubject = getEnv env ''NATS_THREATS_SUBJECT'' ''sentinel5g.threats.scored'',
      bc_natsConnectTimeout = getDurationEnv env ''NATS_CONNECT_TIMEOUT'' (5 * second),
      bc_natsCredentialsFile = getEnv env ''NATS_CREDENTIALS_FILE'' [],
      bc_natsUsername = getEnv env ''NATS_USERNAME'' [],
      bc_natsPassword = getEnv env ''NATS_PASSWORD'' [],
      bc_natsTLSCAFile = getEnv env ''NATS_TLS_CA_FILE'' [],
      bc_natsTLSCertFile = getEnv env ''NATS_TLS_CERT_FILE'' [],
      bc_natsTLSKeyFile = getEnv env ''NATS_TLS_KEY_FILE'' []\<rparr>"

subsection \<open>What a configuration that loads satisfies\<close>

lemma and_then_Inr: "and_then x f = Inr b \<longleftrightarrow> (\<exists>a. x = Inr a \<and> f a = Inr b)"
  by (cases x) (auto simp: and_then_def)

lemma and_thenE:
  assumes "and_then x f = Inr b"
  obtains a where "x = Inr a" "f a = Inr b"
  using assms by (auto simp: and_then_Inr)

lemma parseIntEnv_range:
  assumes "parseIntEnv env key fallback = Inr n" "0 \<le> fallback" "fallback < 2 ^ 63"
  shows "0 \<le> n \<and> n < 2 ^ 63"
  using assms by (auto simp: parseIntEnv_def Atoi_def Let_def split: option.splits if_splits sum.splits prod.splits)

lemma float_in_range:
  "\<not> float_less x (Finite a) \<and> \<not> float_less (Finite b) x \<longleftrightarrow> x = NaN \<or> (\<exists>r. x = Finite r \<and> a \<le> r \<and> r \<le> b)"
  by (cases x) auto

lemma float_less_NaN: "\<not> float_less x NaN"
  by (cases x) auto

definition safe_config :: "OperatorConfig \<Rightarrow> bool" where
  "safe_config cfg \<longleftrightarrow>
     (oc_GTPUTunnelFloodEnabled cfg \<longrightarrow> oc_GTPUTunnelFloodPPS cfg \<noteq> 0) \<and>
     (oc_GTPUSourceFloodEnabled cfg \<longrightarrow> oc_GTPUSourceFloodPPS cfg \<noteq> 0 \<or> oc_GTPUSourceFloodDistinctTunnels cfg \<noteq> 0) \<and>
     0 < oc_GTPUSourceFloodWindow cfg \<and>
     (oc_NATSAllowUnauthenticated cfg \<or> natsHasCredentials cfg)"

lemma validate_Inr:
  "validate cfg = Inr c \<longleftrightarrow>
     c = cfg \<and> safe_config cfg \<and>
     (oc_ThreatScoreThreshold cfg = NaN \<or> (\<exists>r. oc_ThreatScoreThreshold cfg = Finite r \<and> 0 \<le> r \<and> r \<le> 1))"
  unfolding validate_def safe_config_def float_in_range [symmetric] by auto

text \<open>What \<open>Load\<close> passes on: a validated record, with each parsed field the result of its own variable.\<close>

lemma Load_validated:
  assumes "Load env = Inr cfg"
  shows "validate cfg = Inr cfg \<and>
    parseFloatEnv env ''THREAT_SCORE_THRESHOLD'' (Finite (85 / 100)) = Inr (oc_ThreatScoreThreshold cfg) \<and>
    parseBoolEnv env ''NATS_ALLOW_UNAUTHENTICATED'' False = Inr (oc_NATSAllowUnauthenticated cfg) \<and>
    parseIntEnv env ''GTPU_SOURCE_FLOOD_DISTINCT_TUNNELS'' 2048 = Inr (oc_GTPUSourceFloodDistinctTunnels cfg) \<and>
    parseIntEnv env ''NATS_EVENT_BATCH_SIZE'' 1 = Inr (oc_NATSEventBatchSize cfg) \<and>
    parseIntEnv env ''REACTOR_STATUS_WRITE_BURST'' 20 = Inr (oc_ReactorStatusWriteBurst cfg) \<and>
    parseUint32Env env ''GTPU_TUNNEL_FLOOD_PPS'' 100000 = Inr (oc_GTPUTunnelFloodPPS cfg) \<and>
    parseUint32Env env ''GTPU_SOURCE_FLOOD_PPS'' 500000 = Inr (oc_GTPUSourceFloodPPS cfg) \<and>
    oc_NATSCredentialsFile cfg = getEnv env ''NATS_CREDENTIALS_FILE'' [] \<and>
    oc_NATSUsername cfg = getEnv env ''NATS_USERNAME'' [] \<and>
    oc_NATSTLSCertFile cfg = getEnv env ''NATS_TLS_CERT_FILE'' [] \<and>
    oc_NATSTLSCAFile cfg = getEnv env ''NATS_TLS_CA_FILE'' []"
  using assms unfolding Load_def
  by (elim and_thenE) (frule validate_Inr [THEN iffD1, THEN conjunct1], simp)


definition demo_environ :: environ where
  "demo_environ = map_of [(''NATS_USERNAME'', ''sentinel''), (''THREAT_SCORE_THRESHOLD'', ''0.9''), (''GTPU_TUNNEL_FLOOD_PPS'', ''4000''),
     (''DE_ESCALATION_DWELL'', ''1m30s''), (''LEADER_ELECT'', ''true''), (''BPF_PIN_PATH'', [])]"

lemma demo_threshold: "ParseFloat ''0.9'' = Inr (Finite (9 / 10))"
  by (simp add: ParseFloat_def special_float_def sign_of_def readFloat_def base_prefix_def digit_in_def dec_val_def ascii_lower_def Let_def)

lemma demo_parses:
  "ParseUint10 32 ''4000'' = Inr 4000" "ParseBool ''true'' = Inr True"
  by (simp_all add: ParseUint10_def dec_val_def ParseBool_def)

lemma demo_dwell: "ParseDuration ''1m30s'' = Inr (90 * second)"
proof -
  have "duration_term ''1m30s'' = Some (60000000000, ''30s'')" "duration_term ''30s'' = Some (30000000000, [])"
    by (simp_all add: duration_term_def number_part_def is_dec_def dec_val_def in_unit_def unit_of_def term_value_def dec_value_def)
  then have "duration_terms 0 ''1m30s'' = Some 90000000000" by (simp add: duration_terms.simps)
  then show ?thesis by (simp add: ParseDuration_def sign_of_def)
qed

definition demo_config :: OperatorConfig where
  "demo_config = \<lparr>oc_MetricsBindAddress = '':8080'', oc_HealthProbeBindAddress = '':8081'', oc_LeaderElect = True,
     oc_NATSURL = ''nats://localhost:4222'', oc_NATSEventsSubject = ''sentinel5g.events.normalized'',
     oc_NATSThreatsSubject = ''sentinel5g.threats.scored'', oc_NATSStreamName = ''SENTINEL5G'', oc_NATSCredentialsFile = [],
     oc_NATSUsername = ''sentinel'', oc_NATSPassword = [], oc_NATSTLSCAFile = [], oc_NATSTLSCertFile = [], oc_NATSTLSKeyFile = [],
     oc_NATSAllowUnauthenticated = False, oc_ThreatScoreThreshold = Finite (9 / 10), oc_MeshAdapter = ''istio'', oc_HubbleAddr = [],
     oc_HubbleTLSCAFile = [], oc_HubbleTLSCertFile = [], oc_HubbleTLSKeyFile = [], oc_LogLevel = ''info'',
     oc_DeEscalationDwell = 90 * second, oc_GTPUTunnelFloodEnabled = True, oc_GTPUTunnelFloodPPS = 4000,
     oc_GTPUTunnelFloodCooldown = 30 * second, oc_GTPUSourceFloodEnabled = True, oc_GTPUSourceFloodPPS = 500000,
     oc_GTPUSourceFloodDistinctTunnels = 2048, oc_GTPUSourceFloodWindow = second, oc_GTPUSourceFloodCooldown = 30 * second,
     oc_NATSEventBatchSize = 1, oc_NATSEventFlushInterval = 250 * millisecond, oc_BPFPinPath = [],
     oc_BlocklistReconcileInterval = minute, oc_ReactorStatusWritesPerSecond = Finite 10, oc_ReactorStatusWriteBurst = 20,
     oc_KillSwitchConfigMapName = ''sentinel5g-killswitch'', oc_KillSwitchNamespace = [], oc_KillSwitchPollInterval = 2 * second,
     oc_ScoringPipelineGrace = 10 * minute\<rparr>"

lemmas env_reads = parseFloatEnv_def parseBoolEnv_def parseUint32Env_def parseIntEnv_def parseDurationEnv_def getEnv_def getEnvAllowEmpty_def Getenv_def

lemma demo_loads: "Load demo_environ = Inr demo_config"
proof -
  have "safe_config demo_config" by (simp add: safe_config_def demo_config_def natsHasCredentials_def)
  moreover have "oc_ThreatScoreThreshold demo_config = Finite (9 / 10)" by (simp add: demo_config_def)
  ultimately have "validate demo_config = Inr demo_config"
    unfolding validate_Inr by (intro conjI disjI2 exI [of _ "9 / 10"]) simp_all
  moreover have "Load demo_environ = validate demo_config"
    unfolding Load_def
    by (simp add: and_then_def env_reads demo_environ_def demo_threshold demo_parses demo_dwell DefaultPinPath_def demo_config_def)
  ultimately show ?thesis by simp
qed


text \<open>
  Without any of the credential variables, and without an explicit waiver, the operator refuses to start whatever else is configured.
\<close>

theorem Load_refuses_open_bus:
  assumes "\<forall>key \<in> {''NATS_CREDENTIALS_FILE'', ''NATS_USERNAME'', ''NATS_TLS_CERT_FILE'', ''NATS_TLS_CA_FILE''}. getEnv env key [] = []"
    and "parseBoolEnv env ''NATS_ALLOW_UNAUTHENTICATED'' False \<noteq> Inr True"
  shows "\<exists>e. Load env = Inl e"
proof (cases "Load env")
  case (Inr cfg)
  note v = Load_validated [OF Inr]
  have "safe_config cfg" using v by (simp add: validate_Inr)
  then have "oc_NATSAllowUnauthenticated cfg \<or> natsHasCredentials cfg" by (simp add: safe_config_def)
  then show ?thesis using v assms by (auto simp: natsHasCredentials_def)
qed simp

theorem Load_refuses_open_bus_witness: "\<exists>e. Load (map_of [(''NATS_PASSWORD'', ''secret''), (''NATS_TLS_KEY_FILE'', ''/tls/key'')]) = Inl e"
  using Load_refuses_open_bus [of "map_of [(''NATS_PASSWORD'', ''secret''), (''NATS_TLS_KEY_FILE'', ''/tls/key'')]"] by (simp add: env_reads)

lemma other_variable:
  assumes "key \<noteq> k"
  shows "parseFloatEnv (env(k \<mapsto> s)) key fl = parseFloatEnv env key fl" "parseBoolEnv (env(k \<mapsto> s)) key b = parseBoolEnv env key b"
    "parseUint32Env (env(k \<mapsto> s)) key u = parseUint32Env env key u" "parseIntEnv (env(k \<mapsto> s)) key i = parseIntEnv env key i"
    "parseDurationEnv (env(k \<mapsto> s)) key d = parseDurationEnv env key d" "getEnv (env(k \<mapsto> s)) key t = getEnv env key t"
    "getEnvAllowEmpty (env(k \<mapsto> s)) key t = getEnvAllowEmpty env key t" "Getenv (env(k \<mapsto> s)) key = Getenv env key"
  using assms by (simp_all add: env_reads)

lemma ascii_lower_nan:
  assumes "map ascii_lower s = ''nan''"
  shows "ParseFloat s = Inr NaN"
proof -
  have "map ascii_lower (snd (sign_of s)) \<notin> {''inf'', ''infinity''}"
    using assms by (auto simp: sign_of_def ascii_lower_def split: list.splits if_splits)
  then show ?thesis using assms by (auto simp: ParseFloat_def special_float_def split: prod.splits)
qed

lemma validate_NaN:
  assumes "validate c = Inr cfg"
  shows "validate (c\<lparr>oc_ThreatScoreThreshold := NaN\<rparr>) = Inr (cfg\<lparr>oc_ThreatScoreThreshold := NaN\<rparr>)"
  using assms unfolding validate_Inr safe_config_def natsHasCredentials_def by simp

text \<open>
  \<open>nan\<close>, in any case of letters, is accepted as the score threshold: where the rest of the configuration loads, so does this one, and no score is ever
  below its threshold, so that every score counts as a threat.
\<close>

theorem NaN_threshold_loads:
  assumes "Load env = Inr cfg" and nan: "map ascii_lower s = ''nan''"
  shows "Load (env(''THREAT_SCORE_THRESHOLD'' \<mapsto> s)) = Inr (cfg\<lparr>oc_ThreatScoreThreshold := NaN\<rparr>) \<and>
    (\<forall>score. \<not> float_less score (oc_ThreatScoreThreshold (cfg\<lparr>oc_ThreatScoreThreshold := NaN\<rparr>)))"
proof
  let ?env = "env(''THREAT_SCORE_THRESHOLD'' \<mapsto> s)"
  have "s \<noteq> []" using nan by auto
  then have "parseFloatEnv ?env ''THREAT_SCORE_THRESHOLD'' fl = Inr NaN" for fl
    by (simp add: parseFloatEnv_def ascii_lower_nan [OF nan])
  then show "Load ?env = Inr (cfg\<lparr>oc_ThreatScoreThreshold := NaN\<rparr>)"
    using assms(1) unfolding Load_def
    by (elim and_thenE) (drule validate_NaN, simp add: and_then_def other_variable del: fun_upd_apply)
next
  show "\<forall>score. \<not> float_less score (oc_ThreatScoreThreshold (cfg\<lparr>oc_ThreatScoreThreshold := NaN\<rparr>))"
    by (simp add: float_less_NaN)
qed

theorem NaN_threshold_loads_witness:
  "Load (demo_environ(''THREAT_SCORE_THRESHOLD'' \<mapsto> ''NaN'')) = Inr (demo_config\<lparr>oc_ThreatScoreThreshold := NaN\<rparr>)"
  using NaN_threshold_loads [OF demo_loads, of "''NaN''"] by (simp add: ascii_lower_def char_of_def bit_0)

end
