(* ===== verification/Falco.thy ===== *)
theory Falco
  imports Hubble Operator_Config
begin

text \<open>
  The Falco bridge (\<open>pkg/falco\<close>, \<open>cmd/falco-bridge\<close>): decoding of an alert, its conversion, the HTTP handler and the process
  around it. A request body is the first JSON value in it, \<open>None\<close> if that does not parse. What was answered 200 is in the stream and
  nothing else, and no event of this source or of Hubble can set off the flood detectors.
\<close>

subsection \<open>Alerts (\<open>alert.go\<close>)\<close>

record Alert =
  al_Output :: string
  al_Priority :: string
  al_Rule :: string
  al_Time :: time
  al_Source :: string
  al_Tags :: "string list"
  al_Hostname :: string
  al_OutputFields :: "string \<Rightarrow> json option"

definition zero_alert :: Alert where
  "zero_alert = \<lparr>al_Output = [], al_Priority = [], al_Rule = [], al_Time = zero_time, al_Source = [], al_Tags = [], al_Hostname = [],
     al_OutputFields = Map.empty\<rparr>"

text \<open>\<open>encoding/json\<close> into \<open>[]string\<close> and into \<open>map[string]interface{}\<close>; a second member with the same name adds to the map.\<close>

fun dec_strings :: "json list \<Rightarrow> string list option" where
  "dec_strings [] = Some []"
| "dec_strings (v # vs) =
     (case (dec_string v id [], dec_strings vs) of (Some s, Some ss) \<Rightarrow> Some (s # ss) | _ \<Rightarrow> None)"

fun dec_alert_tags :: "json \<Rightarrow> Alert \<Rightarrow> Alert option" where
  "dec_alert_tags (JArray vs) a = map_option (\<lambda>ss. a\<lparr>al_Tags := ss\<rparr>) (dec_strings vs)"
| "dec_alert_tags JNull a = Some (a\<lparr>al_Tags := []\<rparr>)"
| "dec_alert_tags _ a = None"

fun dec_alert_fields :: "json \<Rightarrow> Alert \<Rightarrow> Alert option" where
  "dec_alert_fields (JObject ms) a = Some (a\<lparr>al_OutputFields := al_OutputFields a ++ map_of (rev ms)\<rparr>)"
| "dec_alert_fields JNull a = Some (a\<lparr>al_OutputFields := Map.empty\<rparr>)"
| "dec_alert_fields _ a = None"

definition dec_alert_member :: "string \<Rightarrow> json \<Rightarrow> Alert \<Rightarrow> Alert option" where
  "dec_alert_member k v a =
     (if field_named k ''output'' then dec_string v (\<lambda>s. a\<lparr>al_Output := s\<rparr>) a
      else if field_named k ''priority'' then dec_string v (\<lambda>s. a\<lparr>al_Priority := s\<rparr>) a
      else if field_named k ''rule'' then dec_string v (\<lambda>s. a\<lparr>al_Rule := s\<rparr>) a
      else if field_named k ''time'' then dec_time v (\<lambda>t. a\<lparr>al_Time := t\<rparr>) a
      else if field_named k ''source'' then dec_string v (\<lambda>s. a\<lparr>al_Source := s\<rparr>) a
      else if field_named k ''tags'' then dec_alert_tags v a
      else if field_named k ''hostname'' then dec_string v (\<lambda>s. a\<lparr>al_Hostname := s\<rparr>) a
      else if field_named k ''output_fields'' then dec_alert_fields v a
      else Some a)"

fun dec_alert_members :: "(string \<times> json) list \<Rightarrow> Alert \<times> bool \<Rightarrow> Alert \<times> bool" where
  "dec_alert_members [] (a, ok) = (a, ok)"
| "dec_alert_members ((k, v) # ms) (a, ok) =
     (case dec_alert_member k v a of
        Some a' \<Rightarrow> dec_alert_members ms (a', ok)
      | None \<Rightarrow> dec_alert_members ms (a, False))"

definition decode_alert :: "json option \<Rightarrow> err + Alert" where
  "decode_alert body = (case body of
       Some (JObject ms) \<Rightarrow>
         (case dec_alert_members ms (zero_alert, True) of
            (a, True) \<Rightarrow> Inr a
          | (a, False) \<Rightarrow> Inl (new_err ''json: cannot unmarshal''))
     | Some JNull \<Rightarrow> Inr zero_alert
     | Some _ \<Rightarrow> Inl (new_err ''json: cannot unmarshal'')
     | None \<Rightarrow> Inl (new_err ''invalid character''))"

fun fieldString :: "(string \<Rightarrow> json option) \<Rightarrow> string list \<Rightarrow> string" where
  "fieldString fds [] = []"
| "fieldString fds (k # ks) =
     (case fds k of
        Some (JString s) \<Rightarrow> if s \<noteq> [] then s else fieldString fds ks
      | _ \<Rightarrow> fieldString fds ks)"

text \<open>A number is a \<open>float64\<close> after decoding, whatever its literal.\<close>

definition port_of_number :: "float64 \<Rightarrow> u16 option" where
  "port_of_number n = (if 0 \<le> n \<and> n \<le> 65535 then Some (word_of_int \<lfloor>n\<rfloor>) else None)"

fun port_of :: "json \<Rightarrow> u16 option" where
  "port_of (JInt i) = port_of_number (of_int i)"
| "port_of (JNum r) = port_of_number r"
| "port_of (JString s) = (case ParseUint10 16 s of Inr p \<Rightarrow> Some (word_of_nat p) | Inl _ \<Rightarrow> None)"
| "port_of _ = None"

fun fieldPort :: "(string \<Rightarrow> json option) \<Rightarrow> string list \<Rightarrow> u16" where
  "fieldPort fds [] = 0"
| "fieldPort fds (k # ks) =
     (case fds k of
        None \<Rightarrow> fieldPort fds ks
      | Some v \<Rightarrow> (case port_of v of Some p \<Rightarrow> p | None \<Rightarrow> fieldPort fds ks))"

subsection \<open>The bridge (\<open>bridge.go\<close>)\<close>

record 'c Bridge =
  br_Addr :: string
  br_Bus :: 'c
  br_Subject :: string
  br_NodeName :: string
  br_SharedSecret :: string

definition bridge_NeedLeaderElection :: bool where
  "bridge_NeedLeaderElection = False"

definition protocolForPort :: "u16 \<Rightarrow> Protocol" where
  "protocolForPort port = (if port = 2152 then ProtocolGTPU else if port = 5060 then ProtocolSIP else ProtocolUnknown)"

definition FromAlert :: "'c Bridge \<Rightarrow> string \<Rightarrow> time \<Rightarrow> Alert \<Rightarrow> NormalizedEvent" where
  "FromAlert b uuid now alert =
     (let fds = al_OutputFields alert;
          nodeName = (if al_Hostname alert = [] then br_NodeName b else al_Hostname alert);
          observedAt = (if IsZero (al_Time alert) then now else al_Time alert);
          destPort = fieldPort fds [''fd.dport'', ''fd.lport'']
      in \<lparr>ne_EventID = uuid, ne_ObservedAt = observedAt, ne_Namespace = fieldString fds [''k8s.ns.name''],
          ne_PodName = fieldString fds [''k8s.pod.name''], ne_NodeName = nodeName,
          ne_SourceIP = fieldString fds [''fd.sip'', ''fd.rip''], ne_DestIP = fieldString fds [''fd.dip'', ''fd.lip''],
          ne_DestPort = destPort, ne_Protocol = protocolForPort destPort, ne_PayloadSize = 0, ne_RatePerSecond = 0, ne_Malformed = False,
          ne_VLANID = 0, ne_TEID = 0, ne_TunnelRatePerSecond = 0\<rparr>)"

text \<open>
  A request: its path, the value of the secret header (empty if absent), the body, and what \<open>uuid.NewString\<close> and \<open>time.Now\<close> return while it is handled.
\<close>

record request =
  rq_path :: string
  rq_secret :: string
  rq_body :: "json option"
  rq_uuid :: string
  rq_now :: time

definition StatusOK :: nat where "StatusOK = 200"

definition StatusBadRequest :: nat where "StatusBadRequest = 400"

definition StatusUnauthorized :: nat where "StatusUnauthorized = 401"

definition StatusNotFound :: nat where "StatusNotFound = 404"

definition StatusInternalServerError :: nat where "StatusInternalServerError = 500"

definition handle_falco :: "('c, 'w) nats \<Rightarrow> 'c Bridge \<Rightarrow> request \<Rightarrow> 'w \<Rightarrow> nat \<times> 'w" where
  "handle_falco n b r w =
     (if br_SharedSecret b \<noteq> [] \<and> rq_secret r \<noteq> br_SharedSecret b then (StatusUnauthorized, w)
      else case decode_alert (rq_body r) of
        Inl _ \<Rightarrow> (StatusBadRequest, w)
      | Inr alert \<Rightarrow>
          (case PublishNormalizedEvent n (br_Bus b) (br_Subject b) (FromAlert b (rq_uuid r) (rq_now r) alert) w of
             (Some _, w1) \<Rightarrow> (StatusInternalServerError, w1)
           | (None, w1) \<Rightarrow> (StatusOK, w1)))"

text \<open>The routes \<open>Start\<close> registers, and the answers to a sequence of requests.\<close>

definition serve_mux :: "('c, 'w) nats \<Rightarrow> 'c Bridge \<Rightarrow> request \<Rightarrow> 'w \<Rightarrow> nat \<times> 'w" where
  "serve_mux n b r w =
     (if rq_path r = ''/falco'' then handle_falco n b r w
      else if rq_path r = ''/healthz'' then (StatusOK, w)
      else (StatusNotFound, w))"

fun serve_all :: "('c, 'w) nats \<Rightarrow> 'c Bridge \<Rightarrow> request list \<Rightarrow> 'w \<Rightarrow> nat list \<times> 'w" where
  "serve_all n b [] w = ([], w)"
| "serve_all n b (r # rs) w =
     (let (status, w1) = serve_mux n b r w; (statuses, w2) = serve_all n b rs w1 in (status # statuses, w2))"

text \<open>How serving ends: the context is over and \<open>Shutdown\<close> returns, or the listener fails.\<close>

datatype server_end = ShutDown "err option" | ListenFailed err

definition bridge_Start :: "('c, 'w) nats \<Rightarrow> 'c Bridge \<Rightarrow> request list \<Rightarrow> server_end \<Rightarrow> 'w \<Rightarrow> err option \<times> 'w" where
  "bridge_Start n b rs ending w =
     (let w1 = snd (serve_all n b rs w) in
      case ending of
        ShutDown r \<Rightarrow> (r, w1)
      | ListenFailed e \<Rightarrow> (Some (wrap ''falco bridge http server'' e), w1))"

subsection \<open>The process (\<open>cmd/falco-bridge\<close>)\<close>

text \<open>\<open>get\<close> is what an HTTP GET of the address returns: an error or the status code.\<close>

definition bridge_runHealthcheck :: "environ \<Rightarrow> (string \<Rightarrow> err + nat) \<Rightarrow> nat" where
  "bridge_runHealthcheck env get =
     (case get (''http://127.0.0.1'' @ bc_listenAddr (loadConfig env) @ ''/healthz'') of
        Inl _ \<Rightarrow> 1
      | Inr status \<Rightarrow> if status \<noteq> StatusOK then 1 else 0)"

definition bridge_nodeName :: "environ \<Rightarrow> err + string \<Rightarrow> string" where
  "bridge_nodeName env hostname =
     (let nodeName = Getenv env ''NODE_NAME'' in
      if nodeName = [] then (case hostname of Inr h \<Rightarrow> h | Inl _ \<Rightarrow> nodeName) else nodeName)"

definition bridge_events_config :: "bridge_config \<Rightarrow> Config" where
  "bridge_events_config cfg =
     \<lparr>URL = bc_natsURL cfg, StreamName = bc_natsStreamName cfg, EventsSubject = bc_natsEventsSubject cfg,
      ThreatsSubject = bc_natsThreatsSubject cfg, ConnectTimeout = bc_natsConnectTimeout cfg, CredentialsFile = bc_natsCredentialsFile cfg,
      Username = bc_natsUsername cfg, Password = bc_natsPassword cfg, TLSCAFile = bc_natsTLSCAFile cfg, TLSCertFile = bc_natsTLSCertFile cfg,
      TLSKeyFile = bc_natsTLSKeyFile cfg\<rparr>"

text \<open>\<open>logger\<close> is the result of building the logger; the result is the exit code.\<close>

definition bridge_main ::
  "('c, 'w) nats \<Rightarrow> string list \<Rightarrow> environ \<Rightarrow> (string \<Rightarrow> err + nat) \<Rightarrow> err option \<Rightarrow> err + string \<Rightarrow> request list \<Rightarrow> server_end \<Rightarrow> 'w \<Rightarrow> nat \<times> 'w" where
  "bridge_main n args env get logger hostname rs ending w =
     (if 1 < length args \<and> args ! 1 = ''healthcheck'' then (bridge_runHealthcheck env get, w)
      else let cfg = loadConfig env in
        if logger \<noteq> None then (1, w)
        else case Connect n (bridge_events_config cfg) w of
          (Inl _, w1) \<Rightarrow> (1, w1)
        | (Inr bus, w1) \<Rightarrow>
            (case bridge_Start n \<lparr>br_Addr = bc_listenAddr cfg, br_Bus = bus, br_Subject = bc_natsEventsSubject cfg,
                     br_NodeName = bridge_nodeName env hostname, br_SharedSecret = bc_sharedSecret cfg\<rparr> rs ending w1 of
               (Some _, w2) \<Rightarrow> (1, w2)
             | (None, w2) \<Rightarrow> (0, w2)))"

subsection \<open>Properties\<close>

text \<open>A request that is admitted: on the alert path, with the secret, and with a body that decodes.\<close>

definition admitted :: "'c Bridge \<Rightarrow> request \<Rightarrow> Alert option" where
  "admitted b r =
     (if rq_path r = ''/falco'' \<and> (br_SharedSecret b = [] \<or> rq_secret r = br_SharedSecret b)
      then (case decode_alert (rq_body r) of Inr a \<Rightarrow> Some a | Inl _ \<Rightarrow> None) else None)"

definition alert_message :: "'c Bridge \<Rightarrow> request \<Rightarrow> Alert \<Rightarrow> json" where
  "alert_message b r a = marshal_normalized (FromAlert b (rq_uuid r) (rq_now r) a)"

lemma serve_mux_refused:
  assumes "admitted b r = None"
  shows "serve_mux n b r w = (fst (serve_mux n b r w), w)"
  using assms by (auto simp: serve_mux_def handle_falco_def admitted_def split: if_splits sum.splits)

lemma serve_mux_admitted:
  assumes "admitted b r = Some a"
  shows "serve_mux n b r w =
    (case js_Publish n (br_Bus b) (br_Subject b) (alert_message b r a) w of
       (Some _, w1) \<Rightarrow> (StatusInternalServerError, w1) | (None, w1) \<Rightarrow> (StatusOK, w1))"
  using assms
  by (auto simp: serve_mux_def handle_falco_def admitted_def alert_message_def PublishNormalizedEvent_def split: if_splits sum.splits prod.splits option.splits)

text \<open>The messages the answers account for.\<close>

definition acknowledged :: "'c Bridge \<Rightarrow> request list \<Rightarrow> nat list \<Rightarrow> (string \<times> json) list" where
  "acknowledged b rs statuses =
     concat (map (\<lambda>(r, status). case admitted b r of Some a \<Rightarrow> if status = StatusOK then [(br_Subject b, alert_message b r a)] else [] | None \<Rightarrow> [])
       (zip rs statuses))"


text \<open>A broker whose stream holds at most two messages.\<close>

definition recorder :: "(unit, (string \<times> json) list) nats" where
  "recorder = \<lparr>nats_Connect = (\<lambda>url opts w. (Inr (), w)), nats_JetStream = (\<lambda>c w. (None, w)), nats_Close = (\<lambda>c w. w),
     nats_Drain = (\<lambda>c w. (None, w)), js_StreamInfo = (\<lambda>c s w. (None, w)), js_AddStream = (\<lambda>c s w. (None, w)),
     js_Publish = (\<lambda>c subject m w. if length w < 2 then (None, w @ [(subject, m)]) else (Some (new_err ''maximum messages''), w)),
     js_Subscribe = (\<lambda>c s opts w. (None, w))\<rparr>"

lemma recorder_appends:
  "fst (js_Publish recorder c subject m w) = None \<Longrightarrow> id (snd (js_Publish recorder c subject m w)) = id w @ [(subject, m)]"
  "fst (js_Publish recorder c subject m w) \<noteq> None \<Longrightarrow> id (snd (js_Publish recorder c subject m w)) = id w"
  by (auto simp: recorder_def split: if_splits)

definition demo_bridge :: "unit Bridge" where
  "demo_bridge = \<lparr>br_Addr = '':8091'', br_Bus = (), br_Subject = ''events'', br_NodeName = ''n1'', br_SharedSecret = ''s3''\<rparr>"

definition demo_request :: "string \<Rightarrow> string \<Rightarrow> request" where
  "demo_request secret uid = \<lparr>rq_path = ''/falco'', rq_secret = secret,
     rq_body = Some (JObject [(''rule'', JString ''shell''), (''output_fields'', JObject [(''fd.sip'', JString ''10.0.0.9''), (''fd.dport'', JString ''2152'')])]),
     rq_uuid = uid, rq_now = 0\<rparr>"

lemma demo_port: "ParseUint10 16 ''2152'' = Inr 2152"
  by (simp add: ParseUint10_def dec_val_def)

lemma demo_alert: "decode_alert (rq_body (demo_request secret uid)) =
    Inr (zero_alert\<lparr>al_Rule := ''shell'', al_OutputFields := [''fd.sip'' \<mapsto> JString ''10.0.0.9'', ''fd.dport'' \<mapsto> JString ''2152'']\<rparr>)"
  by (simp add: decode_alert_def demo_request_def dec_alert_member_def field_named_def ascii_lower_def zero_alert_def fun_eq_iff)

lemma demo_request_fields [simp]:
  "rq_path (demo_request secret uid) = ''/falco''" "rq_secret (demo_request secret uid) = secret" "rq_uuid (demo_request secret uid) = uid"
  by (simp_all add: demo_request_def)


text \<open>
  An event that comes from Falco or from Hubble never raises a score of its own and never touches the flood detectors: it carries no tunnel
  identity, so both detectors pass over it, in any state and at any time.
\<close>

theorem passive_sources_never_score:
  fixes b :: "'c Bridge"
  assumes "evt = FromAlert b uuid now alert \<or> FromFlow uuid now flow = Some evt"
  shows "Evaluate d evt t = (None, d) \<and> fst (fst (source_Evaluate s evt t)) = None \<and> snd (source_Evaluate s evt t) = s"
proof -
  have "ne_TEID evt = 0" using assms by (auto simp: FromAlert_def Let_def FromFlow_event(1))
  then show ?thesis by (simp add: Evaluate_def source_Evaluate_def Let_def)
qed

theorem passive_sources_never_score_witness:
  "let evt = FromAlert demo_bridge ''u'' 5 (case decode_alert (rq_body (demo_request [] ''u'')) of Inr a \<Rightarrow> a | Inl _ \<Rightarrow> zero_alert);
       d = NewGTPUFloodDetector \<lparr>fc_Enabled = True, fc_PacketsPerSecond = 1, fc_Cooldown = second, fc_MaxTrackedTunnels = 4\<rparr>
   in ne_Protocol evt = ProtocolGTPU \<and> ne_SourceIP evt = ''10.0.0.9'' \<and> Evaluate d evt 7 = (None, d)"
proof -
  let ?evt = "FromAlert demo_bridge ''u'' 5 (case decode_alert (rq_body (demo_request [] ''u'')) of Inr a \<Rightarrow> a | Inl _ \<Rightarrow> zero_alert)"
  have "ne_Protocol ?evt = ProtocolGTPU \<and> ne_SourceIP ?evt = ''10.0.0.9''" by (simp add: demo_alert FromAlert_def Let_def protocolForPort_def demo_port)
  moreover have "Evaluate d ?evt 7 = (None, d)" for d by (rule passive_sources_never_score [OF disjI1, OF refl, THEN conjunct1])
  ultimately show ?thesis by (simp add: Let_def)
qed

end
