(* ===== verification/Kill_Switch.thy ===== *)
theory Kill_Switch
  imports Sim_World
begin

text \<open>
  The global mitigation kill switch (\<open>pkg/controller/killswitch.go\<close>): a ConfigMap read through a
  cache with a time to live. A missing switch is \<open>None\<close>; \<open>ks_HasReader\<close> says that the reader is set.
\<close>

definition killSwitchEngagedKey :: string where
  "killSwitchEngagedKey = ''engaged''"

definition defaultKillSwitchTTL :: duration where
  "defaultKillSwitchTTL = 2 * second"

record KillSwitch =
  ks_HasReader :: bool
  ks_Key :: nsname
  ks_TTL :: duration
  ks_lastChecked :: time
  ks_engaged :: bool
  ks_everRead :: bool

definition ttl :: "KillSwitch \<Rightarrow> duration" where
  "ttl k = (if ks_TTL k > 0 then ks_TTL k else defaultKillSwitchTTL)"

definition boolToFloat :: "bool \<Rightarrow> int" where
  "boolToFloat b = (if b then 1 else 0)"

text \<open>The part of \<open>Engaged\<close> that reads the ConfigMap.\<close>

definition refresh :: "('l, 'w) env \<Rightarrow> KillSwitch \<Rightarrow> 'w \<Rightarrow> (bool \<times> KillSwitch \<times> metrics) \<times> 'w" where
  "refresh env k w =
     (case get_configmap env (ks_Key k) w of
        (r, w1) \<Rightarrow>
          (case clock env w1 of
             (t, w2) \<Rightarrow>
               (let k1 = k\<lparr>ks_lastChecked := t\<rparr>;
                    k2 = (case r of
                            Inr data \<Rightarrow> k1\<lparr>ks_engaged := (map_index data killSwitchEngagedKey = ''true''), ks_everRead := True\<rparr>
                          | Inl e \<Rightarrow>
                              if err_is e NotFound then k1\<lparr>ks_engaged := False, ks_everRead := True\<rparr>
                              else if \<not> ks_everRead k1 then k1\<lparr>ks_engaged := False\<rparr> else k1)
                in ((ks_engaged k2, k2, [KillSwitchEngaged_Set (boolToFloat (ks_engaged k2))]), w2))))"

definition Engaged :: "('l, 'w) env \<Rightarrow> KillSwitch option \<Rightarrow> 'w \<Rightarrow> (bool \<times> KillSwitch option \<times> metrics) \<times> 'w" where
  "Engaged env ko w =
     (case ko of
        None \<Rightarrow> ((False, None, []), w)
      | Some k \<Rightarrow>
          if \<not> ks_HasReader k then ((False, Some k, []), w)
          else if ks_everRead k then
            (case clock env w of
               (t, w1) \<Rightarrow>
                 if t - ks_lastChecked k < ttl k then ((ks_engaged k, Some k, []), w1)
                 else (case refresh env k w1 of ((b, k', ms), w2) \<Rightarrow> ((b, Some k', ms), w2)))
          else (case refresh env k w of ((b, k', ms), w2) \<Rightarrow> ((b, Some k', ms), w2)))"

subsection \<open>Properties\<close>

lemma ttl_pos: "0 < ttl k"
  by (simp add: ttl_def defaultKillSwitchTTL_def)

text \<open>What one read of the ConfigMap says: engaged, disengaged, or nothing (a transient error).\<close>

definition reading :: "err + labels \<Rightarrow> bool option" where
  "reading r = (case r of
       Inr data \<Rightarrow> Some (map_index data killSwitchEngagedKey = ''true'')
     | Inl e \<Rightarrow> if err_is e NotFound then Some False else None)"

lemma refresh_reading:
  assumes "refresh env k w = ((b, k', ms), w')"
  shows "b = (case reading (fst (get_configmap env (ks_Key k) w)) of
              Some v \<Rightarrow> v | None \<Rightarrow> ks_everRead k \<and> ks_engaged k)"
    and "ks_engaged k' = b" and "ks_HasReader k' = ks_HasReader k" "ks_Key k' = ks_Key k" "ks_TTL k' = ks_TTL k"
    and "ks_everRead k' = (ks_everRead k \<or> reading (fst (get_configmap env (ks_Key k) w)) \<noteq> None)"
  using assms by (auto simp: refresh_def reading_def Let_def split: prod.splits sum.splits if_splits)

text \<open>
  A sequence of score decisions that consult the switch: the answers, with the worlds between the calls
  changed by \<open>others\<close> in any way.
\<close>

fun consult :: "('l, 'w) env \<Rightarrow> ('w \<Rightarrow> 'w) list \<Rightarrow> KillSwitch option \<Rightarrow> 'w \<Rightarrow> bool list" where
  "consult env [] k w = []"
| "consult env (f # fs) k w = (case Engaged env k (f w) of ((b, k', _), w') \<Rightarrow> b # consult env fs k' w')"

lemma refresh_keeps:
  assumes "ks_everRead k" "ks_engaged k" "reading (fst (get_configmap env (ks_Key k) w)) \<noteq> Some False"
    and "refresh env k w = ((b, k', ms), w')"
  shows "b" "ks_engaged k'" "ks_everRead k'" "ks_HasReader k' = ks_HasReader k" "ks_Key k' = ks_Key k"
  using refresh_reading [OF assms(4)] assms(1-3) by (auto split: option.splits)

lemma Engaged_keeps:
  assumes "ks_HasReader k" "ks_everRead k" "ks_engaged k"
    and "\<forall>w. reading (fst (get_configmap env (ks_Key k) w)) \<noteq> Some False"
    and "Engaged env (Some k) w = ((b, ko, ms), w')"
  shows "b \<and> (\<exists>k'. ko = Some k' \<and> ks_HasReader k' \<and> ks_everRead k' \<and> ks_engaged k' \<and> ks_Key k' = ks_Key k)"
proof -
  obtain t w1 where c: "clock env w = (t, w1)" by force
  show ?thesis
  proof (cases "t - ks_lastChecked k < ttl k")
    case True
    then show ?thesis using assms c by (auto simp: Engaged_def)
  next
    case False
    obtain b' k' ms' w2 where r: "refresh env k w1 = ((b', k', ms'), w2)" by (metis surj_pair)
    then have "b = b'" "ko = Some k'" using False assms c by (simp_all add: Engaged_def)
    then show ?thesis using refresh_keeps [OF assms(2,3) _ r] assms(1,4) by auto
  qed
qed

text \<open>
  An engaged switch survives API failures. Once the switch has been read as engaged, every later
  decision finds it engaged as long as no read positively says otherwise: reads may fail with any
  error but NotFound, at any time and any number of times, and the cached answer stands.
\<close>

theorem engaged_survives_flaps:
  assumes "ks_HasReader k" "ks_everRead k" "ks_engaged k"
    and "\<forall>w. reading (fst (get_configmap env (ks_Key k) w)) \<noteq> Some False"
  shows "set (consult env fs (Some k) w) \<subseteq> {True}"
  using assms
proof (induction fs arbitrary: k w)
  case (Cons f fs)
  obtain b ko ms w' where e: "Engaged env (Some k) (f w) = ((b, ko, ms), w')" by (metis surj_pair)
  then obtain k' where "b" "ko = Some k'" "ks_HasReader k'" "ks_everRead k'" "ks_engaged k'" "ks_Key k' = ks_Key k"
    using Engaged_keeps [OF Cons.prems e] by blast
  then show ?case using Cons.IH [of k' w'] Cons.prems(4) e by simp
qed simp

definition armed_switch :: KillSwitch where
  "armed_switch = \<lparr>ks_HasReader = True, ks_Key = NsName ''sentinel5g'' ''killswitch'', ks_TTL = 0, ks_lastChecked = 0,
     ks_engaged = True, ks_everRead = True\<rparr>"

text \<open>An API server on which every read of the ConfigMap fails, and the clock moves on by three seconds.\<close>

definition flapping_env :: "(nat, sim) env" where
  "flapping_env = sim_env\<lparr>get_configmap := (\<lambda>k w. (Inl unreachable, w\<lparr>s_now := s_now w + 3 * second\<rparr>))\<rparr>"

lemma flapping_reading: "reading (fst (get_configmap flapping_env k w)) \<noteq> Some False"
  by (simp add: flapping_env_def reading_def unreachable_def)

theorem engaged_survives_flaps_witness:
  "set (consult flapping_env [\<lambda>w. w, \<lambda>w. w\<lparr>s_now := s_now w + minute\<rparr>, \<lambda>w. w] (Some armed_switch) sim_start) \<subseteq> {True}"
  by (rule engaged_survives_flaps) (simp_all add: armed_switch_def flapping_reading)

text \<open>
  The switch takes effect within one time to live, and costs at most one read per time to live. A
  decision made less than the time to live after the last check is answered from the cache without
  an API call; any later one reads the ConfigMap and follows what it says.
\<close>

theorem engaged_ttl:
  assumes "ks_HasReader k" "ks_everRead k" "clock env w = (t, w1)" "Engaged env (Some k) w = ((b, ko, ms), w')"
  shows "if t - ks_lastChecked k < ttl k
     then b = ks_engaged k \<and> ko = Some k \<and> w' = w1
     else (case reading (fst (get_configmap env (ks_Key k) w1)) of Some v \<Rightarrow> b = v | None \<Rightarrow> b = ks_engaged k) \<and>
          w' = snd (clock env (snd (get_configmap env (ks_Key k) w1)))"
proof (cases "t - ks_lastChecked k < ttl k")
  case True
  then show ?thesis using assms by (auto simp: Engaged_def)
next
  case False
  obtain b' k' ms' w2 where r: "refresh env k w1 = ((b', k', ms'), w2)" by (metis surj_pair)
  then have "b = b'" "w' = w2" using False assms by (simp_all add: Engaged_def)
  moreover have "w2 = snd (clock env (snd (get_configmap env (ks_Key k) w1)))"
    using r by (auto simp: refresh_def Let_def split: prod.splits)
  ultimately show ?thesis using False refresh_reading(1) [OF r] assms(2) by (simp split: option.splits)
qed

definition cm_world :: sim where
  "cm_world = sim_start\<lparr>s_now := 5 * second,
     s_configmaps := [(NsName ''sentinel5g'' ''killswitch'', [(''engaged'', ''false'')])]\<rparr>"

theorem engaged_ttl_witness:
  "fst (fst (Engaged sim_env (Some armed_switch) cm_world)) = False"
proof -
  obtain b ko ms w' where e: "Engaged sim_env (Some armed_switch) cm_world = ((b, ko, ms), w')" by (metis surj_pair)
  from engaged_ttl [OF _ _ _ e, of "5 * second" cm_world] have "\<not> b"
    by (simp add: armed_switch_def ttl_def defaultKillSwitchTTL_def cm_world_def sim_get_def reading_def map_index_def
        killSwitchEngagedKey_def)
  then show ?thesis using e by simp
qed

end
