(* ===== verification/Reactor_Limiter.thy ===== *)
theory Reactor_Limiter
  imports Sim_World
begin

text \<open>
  The per-policy limit on informational status writes (\<open>pkg/controller/reactor_limiter.go\<close>). A token
  bucket is a value \<open>'l\<close> of the rate library; the pointer in the map is the entry that is written back.
  A nil limiter is \<open>None\<close>.
\<close>

record 'l ReactorLimiter =
  rl_rate :: float64
  rl_burst :: int
  rl_limiters :: "(nsname \<times> 'l) list"

definition NewReactorLimiter :: "float64 \<Rightarrow> int \<Rightarrow> 'l ReactorLimiter option" where
  "NewReactorLimiter r b =
     (if r \<le> 0 \<or> b \<le> 0 then None else Some \<lparr>rl_rate = r, rl_burst = b, rl_limiters = []\<rparr>)"

definition Allow ::
  "('l, 'w) env \<Rightarrow> 'l ReactorLimiter option \<Rightarrow> nsname \<Rightarrow> 'w \<Rightarrow> (bool \<times> 'l ReactorLimiter option) \<times> 'w" where
  "Allow env lo key w =
     (case lo of
        None \<Rightarrow> ((True, None), w)
      | Some l \<Rightarrow>
          (let lim = (case map_of (rl_limiters l) key of
                        Some x \<Rightarrow> x | None \<Rightarrow> new_limiter env (rl_rate l) (rl_burst l))
           in case limiter_Allow env lim w of
                ((ok, lim'), w') \<Rightarrow> ((ok, Some (l\<lparr>rl_limiters := AList.update key lim' (rl_limiters l)\<rparr>)), w')))"

definition Forget :: "'l ReactorLimiter option \<Rightarrow> nsname \<Rightarrow> 'l ReactorLimiter option" where
  "Forget lo key = (case lo of None \<Rightarrow> None | Some l \<Rightarrow> Some (l\<lparr>rl_limiters := AList.delete key (rl_limiters l)\<rparr>))"

text \<open>The bucket a policy's next write draws on.\<close>

definition bucket :: "('l, 'w) env \<Rightarrow> 'l ReactorLimiter \<Rightarrow> nsname \<Rightarrow> 'l" where
  "bucket env l key =
     (case map_of (rl_limiters l) key of Some x \<Rightarrow> x | None \<Rightarrow> new_limiter env (rl_rate l) (rl_burst l))"

text \<open>
  One noisy policy cannot starve another. Asking for one policy draws on that policy's bucket alone:
  the answer is that bucket's, the bucket of every other policy stays as it was, and the rate and
  burst in force do not change.
\<close>

theorem Allow_isolated:
  "let ((ok, lo'), w') = Allow env (Some l) key w;
       ((ok0, lim'), w0) = limiter_Allow env (bucket env l key) w
   in ok = ok0 \<and> w' = w0 \<and>
      (\<exists>l'. lo' = Some l' \<and> bucket env l' key = lim' \<and> rl_rate l' = rl_rate l \<and> rl_burst l' = rl_burst l \<and>
         (other = key \<or> bucket env l' other = bucket env l other))"
  by (auto simp: Allow_def bucket_def Let_def update_conv' split: prod.split option.split)

lemma Allow_nil: "Allow env None key w = ((True, None), w)"
  by (simp add: Allow_def)

lemma Allow_nil_iff: "Allow env lo key w = ((ok, None), w') \<longleftrightarrow> lo = None \<and> ok \<and> w' = w"
  by (auto simp: Allow_def Let_def split: option.splits prod.splits)

text \<open>After \<open>Forget\<close> the policy's bucket is a fresh one.\<close>

lemma bucket_Forget:
  "Forget (Some l) key = Some l' \<Longrightarrow> bucket env l' key = new_limiter env (rl_rate l) (rl_burst l)"
  by (auto simp: Forget_def bucket_def delete_conv')

end
