(* ===== verification/Scoring_Pipeline.thy ===== *)
theory Scoring_Pipeline
  imports Sim_World
begin

text \<open>
  The tracker behind the ScoringPipelineReady condition (\<open>pkg/controller/scoring_pipeline.go\<close>). The two
  atomics are fields of the record; 0 in \<open>firstScoreUnixNano\<close> means that no score has arrived.
\<close>

definition ConditionScoringPipelineReady :: string where
  "ConditionScoringPipelineReady = ''ScoringPipelineReady''"

definition ReasonScoresReceived :: string where
  "ReasonScoresReceived = ''ScoresReceived''"

definition ReasonAwaitingFirstScore :: string where
  "ReasonAwaitingFirstScore = ''AwaitingFirstScore''"

definition ReasonNoThreatScoresReceived :: string where
  "ReasonNoThreatScoresReceived = ''NoThreatScoresReceived''"

definition DefaultScoringPipelineGrace :: duration where
  "DefaultScoringPipelineGrace = 10 * minute"

definition notReadyRecheck :: duration where
  "notReadyRecheck = minute"

record ScoringPipelineTracker =
  firstScoreUnixNano :: int
  startedAt :: int
  Grace :: duration

definition MarkStarted :: "('l, 'w) env \<Rightarrow> ScoringPipelineTracker \<Rightarrow> 'w \<Rightarrow> ScoringPipelineTracker \<times> 'w" where
  "MarkStarted env t w = (case clock env w of (now, w') \<Rightarrow> (t\<lparr>startedAt := now\<rparr>, w'))"

definition NewScoringPipelineTracker :: "('l, 'w) env \<Rightarrow> duration \<Rightarrow> 'w \<Rightarrow> ScoringPipelineTracker \<times> 'w" where
  "NewScoringPipelineTracker env g w = MarkStarted env \<lparr>firstScoreUnixNano = 0, startedAt = 0, Grace = g\<rparr> w"

definition grace :: "ScoringPipelineTracker \<Rightarrow> duration" where
  "grace t = (if Grace t > 0 then Grace t else DefaultScoringPipelineGrace)"

definition Observe :: "('l, 'w) env \<Rightarrow> ScoringPipelineTracker \<Rightarrow> 'w \<Rightarrow> ScoringPipelineTracker \<times> 'w" where
  "Observe env t w =
     (if firstScoreUnixNano t \<noteq> 0 then (t, w)
      else case clock env w of (now, w') \<Rightarrow> (t\<lparr>firstScoreUnixNano := now\<rparr>, w'))"

definition EverScored :: "ScoringPipelineTracker \<Rightarrow> bool" where
  "EverScored t = (firstScoreUnixNano t \<noteq> 0)"

definition tracker_Status :: "('l, 'w) env \<Rightarrow> ScoringPipelineTracker \<Rightarrow> 'w \<Rightarrow> (string \<times> duration) \<times> 'w" where
  "tracker_Status env t w =
     (if EverScored t then ((ReasonScoresReceived, 0), w)
      else case clock env w of
        (now, w') \<Rightarrow>
          (let remaining = grace t - (now - startedAt t)
           in if remaining > 0 then ((ReasonAwaitingFirstScore, remaining), w')
              else ((ReasonNoThreatScoresReceived, notReadyRecheck), w')))"

subsection \<open>Properties\<close>

lemma grace_pos: "0 < grace t"
  by (simp add: grace_def DefaultScoringPipelineGrace_def)

lemmas reason_defs = ReasonScoresReceived_def ReasonAwaitingFirstScore_def ReasonNoThreatScoresReceived_def

text \<open>Once a score was seen the tracker says so for ever, whatever is done to it.\<close>

lemma scored_sticky:
  "EverScored t \<Longrightarrow> EverScored (fst (Observe env t w))"
  "EverScored t \<Longrightarrow> EverScored (fst (MarkStarted env t w))"
  "EverScored t \<Longrightarrow> fst (tracker_Status env t w) = (ReasonScoresReceived, 0)"
  by (auto simp: EverScored_def Observe_def MarkStarted_def tracker_Status_def split: prod.split)

text \<open>
  The not-ready verdict appears exactly when the grace period is over, without an outside event.
  While no score has arrived, a reconcile during the grace period is told to come back after a
  positive delay, and a reconcile after that delay (and not before) gets the verdict
  \<open>NoThreatScoresReceived\<close>; as soon as a score has arrived the verdict is \<open>ScoresReceived\<close>.
\<close>

theorem scoring_verdict_timing:
  assumes "clock env w = (now, w1)" "tracker_Status env t w = ((reason, retry), w')"
    and "clock env v = (later, v1)" "now \<le> later" "firstScoreUnixNano t = 0" "reason = ReasonAwaitingFirstScore"
  shows "0 < retry \<and>
     (fst (fst (tracker_Status env t v)) = ReasonNoThreatScoresReceived \<longleftrightarrow> now + retry \<le> later) \<and>
     (now \<noteq> 0 \<longrightarrow> fst (tracker_Status env (fst (Observe env t w)) v) = (ReasonScoresReceived, 0))"
  using assms
  by (auto simp: tracker_Status_def EverScored_def Observe_def Let_def reason_defs split: if_splits)

theorem scoring_verdict_timing_witness:
  "let t = fst (NewScoringPipelineTracker sim_env 0 sim_start);
       soon = sim_start\<lparr>s_now := minute\<rparr>; late = sim_start\<lparr>s_now := 10 * minute\<rparr>
   in fst (fst (tracker_Status sim_env t soon)) = ReasonAwaitingFirstScore \<and>
      fst (fst (tracker_Status sim_env t late)) = ReasonNoThreatScoresReceived"
  using scoring_verdict_timing [of sim_env "sim_start\<lparr>s_now := minute\<rparr>" minute "sim_start\<lparr>s_now := minute\<rparr>"
      "fst (NewScoringPipelineTracker sim_env 0 sim_start)" ReasonAwaitingFirstScore "9 * minute"
      "sim_start\<lparr>s_now := minute\<rparr>" "sim_start\<lparr>s_now := 10 * minute\<rparr>" "10 * minute" "sim_start\<lparr>s_now := 10 * minute\<rparr>"]
  by (simp add: NewScoringPipelineTracker_def MarkStarted_def tracker_Status_def EverScored_def
      grace_def DefaultScoringPipelineGrace_def)

end
