(* ===== verification/Tunnel_Text.thy ===== *)
theory Tunnel_Text
  imports Go_Net
begin

text \<open>
  How a blocked tunnel is written into a policy's status and read back: \<open>formatTunnel\<close> and
  \<open>parseTunnel\<close> of \<open>pkg/controller/threat_score_watcher.go\<close>, with the parts of \<open>fmt\<close>, \<open>strings\<close>
  and \<open>strconv\<close> they use.
\<close>

text \<open>\<open>fmt\<close>'s \<open>%#x\<close>, \<open>strings.Cut\<close> at a single character, \<open>strings.TrimPrefix\<close>.\<close>

definition sharp_hex :: "u32 \<Rightarrow> string" where
  "sharp_hex w = ''0x'' @ print_base 16 (unat w)"

definition Cut :: "string \<Rightarrow> char \<Rightarrow> string \<times> string \<times> bool" where
  "Cut s c =
     (let before = takeWhile (\<lambda>x. x \<noteq> c) s
      in if length before < length s then (before, drop (Suc (length before)) s, True) else (s, [], False))"

definition TrimPrefix :: "string \<Rightarrow> string \<Rightarrow> string" where
  "TrimPrefix s p = (if take (length p) s = p then drop (length p) s else s)"

text \<open>\<open>strconv.ParseUint(s, 16, 32)\<close>: a digit that is none, or a value above 32 bits, is an error.\<close>

fun parse_hex_from :: "nat \<Rightarrow> string \<Rightarrow> nat option" where
  "parse_hex_from n [] = Some n"
| "parse_hex_from n (c # cs) =
     (case hex_val c of
        None \<Rightarrow> None
      | Some d \<Rightarrow> if n * 16 + d \<ge> 2 ^ 32 then None else parse_hex_from (n * 16 + d) cs)"

definition ParseUint16_32 :: "string \<Rightarrow> err + u32" where
  "ParseUint16_32 s =
     (if s = [] then Inl (new_err ''invalid syntax'')
      else case parse_hex_from 0 s of
        None \<Rightarrow> Inl (new_err ''strconv.ParseUint'')
      | Some n \<Rightarrow> Inr (word_of_nat n))"

definition formatTunnel :: "string \<Rightarrow> u32 \<Rightarrow> string" where
  "formatTunnel sourceIP teid = sourceIP @ ''/'' @ sharp_hex teid"

definition parseTunnel :: "string \<Rightarrow> err + (ip \<times> u32)" where
  "parseTunnel entry =
     (case Cut entry (CHR ''/'') of
        (sourceIP, rawTEID, found) \<Rightarrow>
          if \<not> found then Inl (new_err ''malformed tunnel entry'')
          else case ParseIP sourceIP of
            None \<Rightarrow> Inl (new_err ''malformed tunnel entry: not an IP'')
          | Some ip \<Rightarrow>
              (case ParseUint16_32 (TrimPrefix rawTEID ''0x'') of
                 Inl e \<Rightarrow> Inl (wrap ''malformed tunnel entry'' e)
               | Inr teid \<Rightarrow> Inr (ip, teid)))"

subsection \<open>Round trip\<close>

lemma parse_hex_digits:
  assumes "\<forall>d \<in> set ds. d < 16" "horner 16 n ds < 2 ^ 32"
  shows "parse_hex_from n (map digit_char ds) = Some (horner 16 n ds)"
  using assms
proof (induction ds arbitrary: n)
  case (Cons d ds)
  have "n * 16 + d \<le> horner 16 (n * 16 + d) ds" by (rule horner_ge) simp
  then show ?case using Cons by (simp add: not_le)
qed simp

lemma ParseUint_print: "ParseUint16_32 (print_base 16 (unat w)) = Inr w"
proof -
  have "unat w < 2 ^ 32" using unsigned_less [of w, where ?'a = nat] by simp
  then have "parse_hex_from 0 (print_base 16 (unat w)) = Some (unat w)"
    using parse_hex_digits [of "digits_of 16 (unat w)" 0] digits_of_less [of 16 "unat w"]
    by (simp add: print_base_digits_of horner_digits_of)
  then show ?thesis by (simp add: ParseUint16_32_def)
qed

lemma ParseIP_no_slash: "ParseIP s = Some ip \<Longrightarrow> CHR ''/'' \<notin> set s"
  by (auto dest!: ParseIP_chars simp: addr_char_def hex_val_def Let_def)

lemma Cut_append:
  assumes "c \<notin> set a"
  shows "Cut (a @ c # b) c = (a, b, True)"
proof -
  have "takeWhile (\<lambda>x. x \<noteq> c) (a @ c # b) = a" using assms by (intro takeWhile_append_stop) auto
  then show ?thesis by (simp add: Cut_def)
qed

lemma parse_format:
  assumes "ParseIP src = Some ip"
  shows "parseTunnel (formatTunnel src teid) = Inr (ip, teid)"
  using assms ParseIP_no_slash [OF assms]
  by (simp add: parseTunnel_def formatTunnel_def Cut_append sharp_hex_def TrimPrefix_def ParseUint_print)

text \<open>
  C28: the status entry written for a blocked tunnel is read back as the same tunnel: for every source
  text that parses as an address and every TEID, \<open>parseTunnel\<close> undoes \<open>formatTunnel\<close>, so what was
  blocked is exactly what de-escalation and finalization unblock.
\<close>

theorem parseTunnel_formatTunnel:
  assumes "ParseIP src = Some ip"
  shows "parseTunnel (formatTunnel src teid) = Inr (ip, teid)"
  by (rule parse_format [OF assms])

lemma ParseIP_sample: "ParseIP ''10.0.0.1'' = Some (v4InV6Prefix @ [10, 0, 0, 1])"
  by (simp add: ParseIP_def parseIPv4_def dec_val_def v4InV6Prefix_def)

theorem parseTunnel_formatTunnel_witness:
  "parseTunnel (formatTunnel ''10.0.0.1'' 0xDEADBEEF) = Inr (v4InV6Prefix @ [10, 0, 0, 1], 0xDEADBEEF)"
  by (rule parseTunnel_formatTunnel [OF ParseIP_sample])

lemma parse_format_string:
  assumes "valid_ip ip"
  shows "\<exists>b. To16 ip = Some b \<and> parseTunnel (formatTunnel (IP_String ip) t) = Inr (b, t)"
proof -
  obtain b where b: "To16 ip = Some b" using To16_valid [OF assms] by blast
  then have "ParseIP (IP_String ip) = Some b" using ParseIP_IP_String [OF assms] by simp
  then show ?thesis using b parse_format by simp
qed

text \<open>The canonical text of a tunnel determines it up to the spelling of the address.\<close>

lemma formatTunnel_eq_iff:
  assumes "valid_ip a" "valid_ip b"
  shows "formatTunnel (IP_String a) s = formatTunnel (IP_String b) t \<longleftrightarrow> To16 a = To16 b \<and> s = t"
proof
  assume eq: "formatTunnel (IP_String a) s = formatTunnel (IP_String b) t"
  obtain x where x: "To16 a = Some x" "parseTunnel (formatTunnel (IP_String a) s) = Inr (x, s)"
    using parse_format_string [OF assms(1)] by blast
  obtain y where y: "To16 b = Some y" "parseTunnel (formatTunnel (IP_String b) t) = Inr (y, t)"
    using parse_format_string [OF assms(2)] by blast
  show "To16 a = To16 b \<and> s = t" using x y eq by simp
next
  assume "To16 a = To16 b \<and> s = t"
  then show "formatTunnel (IP_String a) s = formatTunnel (IP_String b) t"
    using IP_String_eq_iff [OF assms] by simp
qed

lemma parseTunnel_valid: "parseTunnel e = Inr (ip, t) \<Longrightarrow> valid_ip ip"
  by (auto simp: parseTunnel_def dest: ParseIP_valid split: prod.splits if_splits option.splits sum.splits)

end
