(* ===== verification/Operator_State.thy ===== *)
theory Operator_State
  imports Kill_Switch Reactor_Limiter Scoring_Pipeline Tunnel_Text "HOL-Library.State_Monad"
begin

text \<open>
  The state the controllers of one operator process share, and the state monad in which their handlers
  are written. \<open>o_Index\<close>, \<open>o_Scoring\<close>, \<open>o_KillSwitch\<close> and \<open>o_ActionLimiter\<close> are the objects
  \<open>cmd/operator/main.go\<close> creates and passes by pointer; \<open>o_Metrics\<close> are the metric calls made so far,
  \<open>o_World\<close> is everything outside the process. \<open>triple\<close> is the usual partial-correctness triple; handlers
  are total, so it is also a total-correctness one.
\<close>

record ('l, 'w) op =
  o_Index :: PolicyIndex
  o_Scoring :: "ScoringPipelineTracker option"
  o_KillSwitch :: "KillSwitch option"
  o_ActionLimiter :: "'l ReactorLimiter option"
  o_Metrics :: metrics
  o_World :: 'w

text \<open>\<open>!policy.DeletionTimestamp.IsZero()\<close>.\<close>

definition deleting :: "Policy \<Rightarrow> bool" where
  "deleting p = (case p_DeletionTimestamp p of None \<Rightarrow> False | Some t \<Rightarrow> \<not> IsZero t)"

type_synonym ('l, 'w, 'a) handler = "(('l, 'w) op, 'a) state"

abbreviation return :: "'a \<Rightarrow> ('s, 'a) state" where
  "return \<equiv> State_Monad.return"

definition world :: "('w \<Rightarrow> 'a \<times> 'w) \<Rightarrow> ('l, 'w, 'a) handler" where
  "world f = State (\<lambda>s. case f (o_World s) of (r, w) \<Rightarrow> (r, s\<lparr>o_World := w\<rparr>))"

definition emit :: "metrics \<Rightarrow> ('l, 'w, unit) handler" where
  "emit ms = State (\<lambda>s. ((), s\<lparr>o_Metrics := o_Metrics s @ ms\<rparr>))"

definition index_get :: "('l, 'w, PolicyIndex) handler" where
  "index_get = State (\<lambda>s. (o_Index s, s))"

definition index_Put :: "Policy \<Rightarrow> ('l, 'w, unit) handler" where
  "index_Put p = State (\<lambda>s. ((), s\<lparr>o_Index := Put p (o_Index s)\<rparr>))"

definition index_Remove :: "nsname \<Rightarrow> ('l, 'w, unit) handler" where
  "index_Remove k = State (\<lambda>s. ((), s\<lparr>o_Index := Remove k (o_Index s)\<rparr>))"

text \<open>Calls on the shared objects; a nil tracker is skipped by its callers.\<close>

definition scoring_Observe :: "('l, 'w) env \<Rightarrow> ('l, 'w, unit) handler" where
  "scoring_Observe env = State (\<lambda>s.
     case o_Scoring s of
       None \<Rightarrow> ((), s)
     | Some t \<Rightarrow> (case Observe env t (o_World s) of (t', w) \<Rightarrow> ((), s\<lparr>o_Scoring := Some t', o_World := w\<rparr>)))"

definition scoring_MarkStarted :: "('l, 'w) env \<Rightarrow> ('l, 'w, unit) handler" where
  "scoring_MarkStarted env = State (\<lambda>s.
     case o_Scoring s of
       None \<Rightarrow> ((), s)
     | Some t \<Rightarrow> (case MarkStarted env t (o_World s) of (t', w) \<Rightarrow> ((), s\<lparr>o_Scoring := Some t', o_World := w\<rparr>)))"

definition scoring_Status :: "('l, 'w) env \<Rightarrow> ('l, 'w, (string \<times> duration) option) handler" where
  "scoring_Status env = State (\<lambda>s.
     case o_Scoring s of
       None \<Rightarrow> (None, s)
     | Some t \<Rightarrow> (case tracker_Status env t (o_World s) of (r, w) \<Rightarrow> (Some r, s\<lparr>o_World := w\<rparr>)))"

definition killSwitch_Engaged :: "('l, 'w) env \<Rightarrow> ('l, 'w, bool) handler" where
  "killSwitch_Engaged env = State (\<lambda>s.
     case Engaged env (o_KillSwitch s) (o_World s) of
       ((b, k, ms), w) \<Rightarrow> (b, s\<lparr>o_KillSwitch := k, o_Metrics := o_Metrics s @ ms, o_World := w\<rparr>))"

definition limiter_allows :: "('l, 'w) env \<Rightarrow> nsname \<Rightarrow> ('l, 'w, bool) handler" where
  "limiter_allows env key = State (\<lambda>s.
     case Allow env (o_ActionLimiter s) key (o_World s) of
       ((ok, l), w) \<Rightarrow> (ok, s\<lparr>o_ActionLimiter := l, o_World := w\<rparr>))"

text \<open>\<open>if err := m(); err != nil { return err }; n\<close>, and a loop whose body may return early.\<close>

definition or_fail :: "('s, err option) state \<Rightarrow> ('s, err option) state \<Rightarrow> ('s, err option) state" where
  "or_fail m n = do { r \<leftarrow> m; case r of Some e \<Rightarrow> return (Some e) | None \<Rightarrow> n }"

primrec each :: "('a \<Rightarrow> ('s, err option) state) \<Rightarrow> 'a list \<Rightarrow> ('s, err option) state" where
  "each f [] = return None"
| "each f (x # xs) = or_fail (f x) (each f xs)"

text \<open>A loop that goes on whatever its body returns.\<close>

primrec each_always :: "('a \<Rightarrow> ('s, 'b) state) \<Rightarrow> 'a list \<Rightarrow> ('s, 'b list) state" where
  "each_always f [] = return []"
| "each_always f (x # xs) = do { r \<leftarrow> f x; rs \<leftarrow> each_always f xs; return (r # rs) }"

subsection \<open>Running handlers\<close>

lemma run_simps [simp]:
  "run_state (world f) s = (case f (o_World s) of (r, w) \<Rightarrow> (r, s\<lparr>o_World := w\<rparr>))"
  "run_state (emit ms) s = ((), s\<lparr>o_Metrics := o_Metrics s @ ms\<rparr>)"
  "run_state index_get s = (o_Index s, s)"
  "run_state (index_Put p) s = ((), s\<lparr>o_Index := Put p (o_Index s)\<rparr>)"
  "run_state (index_Remove k) s = ((), s\<lparr>o_Index := Remove k (o_Index s)\<rparr>)"
  by (simp_all add: world_def emit_def index_get_def index_Put_def index_Remove_def)

lemma run_or_fail:
  "run_state (or_fail m n) s =
     (case run_state m s of (Some e, s') \<Rightarrow> (Some e, s') | (None, s') \<Rightarrow> run_state n s')"
  by (auto simp: or_fail_def split: prod.split option.split)

definition triple :: "('s \<Rightarrow> bool) \<Rightarrow> ('s, 'a) state \<Rightarrow> ('a \<Rightarrow> 's \<Rightarrow> bool) \<Rightarrow> bool" where
  "triple P m Q \<longleftrightarrow> (\<forall>s r s'. P s \<longrightarrow> run_state m s = (r, s') \<longrightarrow> Q r s')"

lemma tripleI: "(\<And>s r s'. P s \<Longrightarrow> run_state m s = (r, s') \<Longrightarrow> Q r s') \<Longrightarrow> triple P m Q"
  by (simp add: triple_def)

lemma tripleD: "triple P m Q \<Longrightarrow> P s \<Longrightarrow> run_state m s = (r, s') \<Longrightarrow> Q r s'"
  by (auto simp: triple_def)

lemma triple_snd: "triple P m Q \<Longrightarrow> P s \<Longrightarrow> Q (fst (run_state m s)) (snd (run_state m s))"
  by (erule tripleD) auto

lemma triple_return: "(\<And>s. P s \<Longrightarrow> Q x s) \<Longrightarrow> triple P (return x) Q"
  by (simp add: triple_def)

lemma triple_bind:
  assumes "triple P m R" "\<And>x. triple (R x) (f x) Q"
  shows "triple P (State_Monad.bind m f) Q"
proof (rule tripleI)
  fix s r s' assume s: "P s" "run_state (State_Monad.bind m f) s = (r, s')"
  obtain x s1 where m: "run_state m s = (x, s1)" by fastforce
  then have "run_state (f x) s1 = (r, s')" using s(2) by simp
  then show "Q r s'" using tripleD [OF assms(2)] tripleD [OF assms(1) s(1) m] by blast
qed

lemma triple_conseq:
  "triple P' m Q' \<Longrightarrow> (\<And>s. P s \<Longrightarrow> P' s) \<Longrightarrow> (\<And>r s. Q' r s \<Longrightarrow> Q r s) \<Longrightarrow> triple P m Q"
  unfolding triple_def by blast

lemma triple_pre: "triple P' m Q \<Longrightarrow> (\<And>s. P s \<Longrightarrow> P' s) \<Longrightarrow> triple P m Q"
  unfolding triple_def by blast

lemma triple_if: "triple P m Q \<Longrightarrow> triple P n Q \<Longrightarrow> triple P (if c then m else n) Q"
  by simp

lemma triple_or_fail:
  assumes "triple P m (\<lambda>r s. (r = None \<longrightarrow> R s) \<and> (r \<noteq> None \<longrightarrow> Q r s))" "triple R n Q"
  shows "triple P (or_fail m n) Q"
  unfolding or_fail_def
  by (rule triple_bind [OF assms(1)], rule tripleI) (auto split: option.splits dest: tripleD [OF assms(2)])

lemma triple_each:
  assumes "\<And>x. x \<in> set xs \<Longrightarrow> triple I (f x) (\<lambda>_. I)"
  shows "triple I (each f xs) (\<lambda>_. I)"
  using assms
proof (induction xs)
  case Nil
  then show ?case by (simp add: triple_return)
next
  case (Cons x xs)
  have "triple I (f x) (\<lambda>r s. (r = None \<longrightarrow> I s) \<and> (r \<noteq> None \<longrightarrow> I s))"
    by (rule triple_conseq [OF Cons.prems]) auto
  then show ?case using Cons by (auto intro: triple_or_fail)
qed

lemma triple_each_always:
  assumes "\<And>x. x \<in> set xs \<Longrightarrow> triple I (f x) (\<lambda>_. I)"
  shows "triple I (each_always f xs) (\<lambda>_. I)"
  using assms
  by (induction xs) (auto intro!: triple_return triple_bind)

end
