(* ===== verification/Cluster.thy ===== *)
theory Cluster
  imports Operator_State
begin

text \<open>
  What the controllers rely on outside the process, as one contract: a blocklist that keeps the
  \<open>enforcer\<close> laws, and a Kubernetes API with optimistic concurrency. \<open>stored w\<close> is what the API server
  holds, \<open>hist w k v\<close> the status object \<open>k\<close> had at resource version \<open>v\<close>. Reads may be served from a
  cache and be out of date; a write is accepted only for the stored version; a write that reports an error
  may still have been carried out. Where \<open>calm\<close> holds the last two do not happen: reads are current and a
  failed write changed nothing. \<open>covered\<close> is the statement the operator is built for: everything
  the kernel drops is recorded in the status of some policy.
\<close>

definition claimed_ips :: "PolicyStatus \<Rightarrow> bytes set" where
  "claimed_ips st = {canon ip | raw ip. raw \<in> set (BlockedSourceIPs st) \<and> ParseIP raw = Some ip}"

definition claimed_tunnels :: "PolicyStatus \<Rightarrow> (bytes \<times> u32) set" where
  "claimed_tunnels st = {(canon ip, t) | e ip t. e \<in> set (BlockedTunnels st) \<and> parseTunnel e = Inr (ip, t)}"

definition covered :: "bytes set \<Rightarrow> (bytes \<times> u32) set \<Rightarrow> (nsname \<Rightarrow> Policy option) \<Rightarrow> bool" where
  "covered ds ts st \<longleftrightarrow>
     (\<forall>d \<in> ds. \<exists>k q. st k = Some q \<and> d \<in> claimed_ips (Status q)) \<and>
     (\<forall>t \<in> ts. \<exists>k q. st k = Some q \<and> t \<in> claimed_tunnels (Status q))"

text \<open>The claims of an object are those of the version it carries.\<close>

definition reflects :: "(nsname \<Rightarrow> string \<Rightarrow> PolicyStatus option) \<Rightarrow> Policy \<Rightarrow> bool" where
  "reflects h p \<longleftrightarrow> (\<exists>st. h (policy_key p) (p_ResourceVersion p) = Some st \<and>
     BlockedSourceIPs st = BlockedSourceIPs (Status p) \<and> BlockedTunnels st = BlockedTunnels (Status p))"

text \<open>The claims of an object are among those of the stored one.\<close>

definition current :: "(nsname \<Rightarrow> Policy option) \<Rightarrow> Policy \<Rightarrow> bool" where
  "current st p \<longleftrightarrow>
     claimed_ips (Status p) \<subseteq> (case st (policy_key p) of None \<Rightarrow> {} | Some q \<Rightarrow> claimed_ips (Status q)) \<and>
     claimed_tunnels (Status p) \<subseteq> (case st (policy_key p) of None \<Rightarrow> {} | Some q \<Rightarrow> claimed_tunnels (Status q))"

text \<open>The stored object of \<open>p\<close>'s version, which \<open>p\<close> was made from, gets the status of \<open>p\<close>.\<close>

definition accepted :: "(nsname \<Rightarrow> Policy option) \<Rightarrow> Policy \<Rightarrow> (nsname \<Rightarrow> Policy option) \<Rightarrow> bool" where
  "accepted st p st' \<longleftrightarrow> (\<exists>q q'. st (policy_key p) = Some q \<and> p_ResourceVersion q = p_ResourceVersion p \<and>
     policy_key q' = policy_key p \<and> Status q' = Status p \<and> st' = st(policy_key p \<mapsto> q'))"

text \<open>
  The object itself is written: its status stays; being deleted it goes away with its last finalizer.
\<close>

definition accepted_object :: "(nsname \<Rightarrow> Policy option) \<Rightarrow> Policy \<Rightarrow> (nsname \<Rightarrow> Policy option) \<Rightarrow> bool" where
  "accepted_object st p st' \<longleftrightarrow> (\<exists>q. st (policy_key p) = Some q \<and> p_ResourceVersion q = p_ResourceVersion p \<and>
     ((\<exists>q'. policy_key q' = policy_key p \<and> Status q' = Status q \<and> st' = st(policy_key p \<mapsto> q')) \<or>
      p_Finalizers p = [] \<and> st' = st(policy_key p := None)))"

locale cluster = enforcer "updater env" ins inv drops tdrops
  for env :: "('l, 'w) env" and ins :: "'w BlocklistInspector" and inv :: "'w \<Rightarrow> bool"
    and drops :: "'w \<Rightarrow> bytes set" and tdrops :: "'w \<Rightarrow> (bytes \<times> u32) set" +
  fixes stored :: "'w \<Rightarrow> nsname \<Rightarrow> Policy option"
    and hist :: "'w \<Rightarrow> nsname \<Rightarrow> string \<Rightarrow> PolicyStatus option"
    and calm :: bool
  assumes neutral: "inv w \<Longrightarrow>
      w' \<in> {snd (clock env w), snd (get_configmap env k w), snd (get_pod env k w), snd (get_policy env k w),
            snd (list_policies env w), snd (limiter_Allow env l w), snd (mesh_Quarantine env ns sel w),
            snd (mesh_Release env ns sel w), record_event env obj reason w, snd (ObservationOccupancy ins w)} \<Longrightarrow>
      inv w' \<and> drops w' = drops w \<and> tdrops w' = tdrops w \<and> stored w' = stored w \<and> hist w' = hist w"
    and kernel_only: "inv w \<Longrightarrow>
      w' \<in> {snd (Block (updater env) ip w), snd (Unblock (updater env) ip w), snd (BlockTunnel (updater env) ip t w),
            snd (UnblockTunnel (updater env) ip t w), snd (inspect_BlockedIPs ins w), snd (inspect_BlockedTunnels ins w)} \<Longrightarrow>
      stored w' = stored w \<and> hist w' = hist w"
    and stored_hist: "inv w \<Longrightarrow> stored w k = Some q \<Longrightarrow>
      policy_key q = k \<and> hist w k (p_ResourceVersion q) = Some (Status q)"
    and get: "inv w \<Longrightarrow> get_policy env k w = (Inr p, w') \<Longrightarrow>
      policy_key p = k \<and> hist w k (p_ResourceVersion p) = Some (Status p) \<and> (calm \<longrightarrow> stored w k = Some p)"
    and listed: "inv w \<Longrightarrow> list_policies env w = (Inr ps, w') \<Longrightarrow> p \<in> set ps \<Longrightarrow>
      hist w (policy_key p) (p_ResourceVersion p) = Some (Status p) \<and> (calm \<longrightarrow> stored w (policy_key p) = Some p)"
    and status_write: "inv w \<Longrightarrow> update_status env p w = (r, w') \<Longrightarrow>
      inv w' \<and> drops w' = drops w \<and> tdrops w' = tdrops w \<and> (\<forall>k. hist w k \<subseteq>\<^sub>m hist w' k) \<and>
      (case r of
         Inr p' \<Rightarrow> policy_key p' = policy_key p \<and> Status p' = Status p \<and>
           hist w' (policy_key p) (p_ResourceVersion p') = Some (Status p') \<and> accepted (stored w) p (stored w')
       | Inl e \<Rightarrow> stored w' = stored w \<or> \<not> calm \<and> accepted (stored w) p (stored w'))"
    and object_write: "inv w \<Longrightarrow> update_policy env p w = (r, w') \<Longrightarrow>
      inv w' \<and> drops w' = drops w \<and> tdrops w' = tdrops w \<and> (\<forall>k. hist w k \<subseteq>\<^sub>m hist w' k) \<and>
      (case r of
         Inr p' \<Rightarrow> policy_key p' = policy_key p \<and> accepted_object (stored w) p (stored w') \<and>
           (p_Finalizers p \<noteq> [] \<longrightarrow> hist w' (policy_key p) (p_ResourceVersion p') = Some (Status p') \<and>
              (\<exists>q. stored w (policy_key p) = Some q \<and> Status p' = Status q))
       | Inl e \<Rightarrow> stored w' = stored w \<or> \<not> calm \<and> accepted_object (stored w) p (stored w'))"
    and library: "k8s_lib_ok (k8s env)"
    and walks: "permutes_maps (walk env)"
begin

text \<open>
  The invariant of the shared state, with objects \<open>X\<close> a handler is still working on. Where reads may be stale
  or errors ambiguous it asks for status writes that are not throttled.
\<close>

definition good :: "'w \<Rightarrow> Policy \<Rightarrow> bool" where
  "good w p \<longleftrightarrow> reflects (hist w) p \<and> (calm \<longrightarrow> current (stored w) p)"

lemma good_current: "good w p \<Longrightarrow> calm \<Longrightarrow> current (stored w) p"
  unfolding good_def by blast

definition op_inv :: "nsname set \<Rightarrow> Policy set \<Rightarrow> ('l, 'w) op \<Rightarrow> bool" where
  "op_inv K X s \<longleftrightarrow> inv (o_World s) \<and> index_ok (o_Index s) \<and>
     covered (drops (o_World s)) (tdrops (o_World s)) (stored (o_World s)) \<and>
     (\<forall>k p. index_lookup (o_Index s) k = Some p \<longrightarrow> k \<notin> K \<longrightarrow> good (o_World s) p) \<and>
     (\<forall>p \<in> X. good (o_World s) p) \<and> (calm \<or> o_ActionLimiter s = None)"

lemma op_invD:
  assumes "op_inv K X s"
  shows "inv (o_World s)" "index_ok (o_Index s)" "covered (drops (o_World s)) (tdrops (o_World s)) (stored (o_World s))"
    and "p \<in> X \<Longrightarrow> good (o_World s) p"
    and "index_lookup (o_Index s) k = Some p \<Longrightarrow> k \<notin> K \<Longrightarrow> good (o_World s) p"
    and "calm \<or> o_ActionLimiter s = None"
  using assms by (auto simp: op_inv_def)

lemma op_inv_metrics [simp]: "op_inv K X (s\<lparr>o_Metrics := m\<rparr>) = op_inv K X s"
  by (simp add: op_inv_def)

lemma op_inv_same:
  assumes "op_inv K X s" "inv (o_World s')" "drops (o_World s') = drops (o_World s)" "tdrops (o_World s') = tdrops (o_World s)"
    and "stored (o_World s') = stored (o_World s)" "hist (o_World s') = hist (o_World s)" "o_Index s' = o_Index s"
    and "o_ActionLimiter s = None \<Longrightarrow> o_ActionLimiter s' = None"
  shows "op_inv K X s'"
  using assms by (auto simp: op_inv_def good_def)

abbreviation holds :: "nsname set \<Rightarrow> Policy set \<Rightarrow> ((nsname \<Rightarrow> Policy option) \<Rightarrow> bool) \<Rightarrow> ('l, 'w) op \<Rightarrow> bool" where
  "holds K X S s \<equiv> op_inv K X s \<and> S (stored (o_World s))"

lemma quiet:
  assumes "\<And>s r s'. op_inv K X s \<Longrightarrow> run_state m s = (r, s') \<Longrightarrow> inv (o_World s') \<and>
      drops (o_World s') = drops (o_World s) \<and> tdrops (o_World s') = tdrops (o_World s) \<and>
      stored (o_World s') = stored (o_World s) \<and> hist (o_World s') = hist (o_World s) \<and>
      o_Index s' = o_Index s \<and> (o_ActionLimiter s = None \<longrightarrow> o_ActionLimiter s' = None)"
  shows "triple (holds K X S) m (\<lambda>_. holds K X S)"
proof (rule tripleI)
  fix s r s' assume s: "holds K X S s" "run_state m s = (r, s')"
  then show "holds K X S s'" using assms [of s r s'] op_inv_same [of K X s s'] by simp
qed

lemma quiet_world:
  assumes "\<And>w. inv w \<Longrightarrow> inv (snd (f w)) \<and> drops (snd (f w)) = drops w \<and> tdrops (snd (f w)) = tdrops w \<and>
    stored (snd (f w)) = stored w \<and> hist (snd (f w)) = hist w"
  shows "triple (holds K X S) (world f) (\<lambda>_. holds K X S)"
proof (rule quiet)
  fix s r s' assume s: "op_inv K X s" "run_state (world f) s = (r, s')"
  then have "o_World s' = snd (f (o_World s))" "o_Index s' = o_Index s" "o_ActionLimiter s' = o_ActionLimiter s"
    by (auto split: prod.splits)
  then show "inv (o_World s') \<and> drops (o_World s') = drops (o_World s) \<and> tdrops (o_World s') = tdrops (o_World s) \<and>
      stored (o_World s') = stored (o_World s) \<and> hist (o_World s') = hist (o_World s) \<and>
      o_Index s' = o_Index s \<and> (o_ActionLimiter s = None \<longrightarrow> o_ActionLimiter s' = None)"
    using assms [OF op_invD(1) [OF s(1)]] by simp
qed

lemma neutralD:
  assumes "inv w"
  shows "inv (snd (clock env w)) \<and> drops (snd (clock env w)) = drops w \<and> tdrops (snd (clock env w)) = tdrops w \<and>
      stored (snd (clock env w)) = stored w \<and> hist (snd (clock env w)) = hist w"
    and "inv (snd (get_configmap env k w)) \<and> drops (snd (get_configmap env k w)) = drops w \<and>
      tdrops (snd (get_configmap env k w)) = tdrops w \<and> stored (snd (get_configmap env k w)) = stored w \<and>
      hist (snd (get_configmap env k w)) = hist w"
    and "inv (snd (limiter_Allow env l w)) \<and> drops (snd (limiter_Allow env l w)) = drops w \<and>
      tdrops (snd (limiter_Allow env l w)) = tdrops w \<and> stored (snd (limiter_Allow env l w)) = stored w \<and>
      hist (snd (limiter_Allow env l w)) = hist w"
  by (rule neutral [OF assms, of _ k l undefined undefined undefined undefined]; simp)+

lemma quiet_ops:
  shows quiet_clock: "triple (holds K X S) (world (clock env)) (\<lambda>_. holds K X S)"
    and quiet_get_pod: "triple (holds K X S) (world (get_pod env k)) (\<lambda>_. holds K X S)"
    and quiet_get_policy: "triple (holds K X S) (world (get_policy env k)) (\<lambda>_. holds K X S)"
    and quiet_list: "triple (holds K X S) (world (list_policies env)) (\<lambda>_. holds K X S)"
    and quiet_quarantine: "triple (holds K X S) (world (mesh_Quarantine env ns sel)) (\<lambda>_. holds K X S)"
    and quiet_release: "triple (holds K X S) (world (mesh_Release env ns sel)) (\<lambda>_. holds K X S)"
    and quiet_event: "triple (holds K X S) (world (\<lambda>w. ((), record_event env obj reason w))) (\<lambda>_. holds K X S)"
    and quiet_occupancy: "triple (holds K X S) (world (ObservationOccupancy ins)) (\<lambda>_. holds K X S)"
  by (rule quiet_world, erule neutral [of _ _ k undefined ns sel obj reason], simp)+

lemma quiet_emit: "triple (holds K X S) (emit ms) (\<lambda>_. holds K X S)"
  by (rule quiet) (auto dest: op_invD)

lemma quiet_return: "triple (holds K X S) (return x) (\<lambda>_. holds K X S)"
  by (rule triple_return) simp

text \<open>The shared objects consult the clock, a ConfigMap or the limiter, and change only themselves.\<close>

lemma neutral_eqD:
  "inv w \<Longrightarrow> clock env w = (t, w') \<Longrightarrow>
     inv w' \<and> drops w' = drops w \<and> tdrops w' = tdrops w \<and> stored w' = stored w \<and> hist w' = hist w"
  "inv w \<Longrightarrow> get_configmap env k w = (x, w') \<Longrightarrow>
     inv w' \<and> drops w' = drops w \<and> tdrops w' = tdrops w \<and> stored w' = stored w \<and> hist w' = hist w"
  "inv w \<Longrightarrow> limiter_Allow env l w = (y, w') \<Longrightarrow>
     inv w' \<and> drops w' = drops w \<and> tdrops w' = tdrops w \<and> stored w' = stored w \<and> hist w' = hist w"
  using neutralD(1) [of w] neutralD(2) [of w k] neutralD(3) [of w l] by simp_all

lemma neutral_refresh:
  assumes "inv w" "refresh env k w = (x, w')"
  shows "inv w' \<and> drops w' = drops w \<and> tdrops w' = tdrops w \<and> stored w' = stored w \<and> hist w' = hist w"
proof -
  obtain r w1 where c: "get_configmap env (ks_Key k) w = (r, w1)" by fastforce
  obtain t w2 where t: "clock env w1 = (t, w2)" by fastforce
  have "w' = w2" using assms(2) c t by (auto simp: refresh_def Let_def)
  then show ?thesis using neutral_eqD(2) [OF assms(1) c] neutral_eqD(1) [OF _ t] by simp
qed

lemma neutral_Engaged:
  assumes "inv w" "Engaged env ko w = (x, w')"
  shows "inv w' \<and> drops w' = drops w \<and> tdrops w' = tdrops w \<and> stored w' = stored w \<and> hist w' = hist w"
proof (cases ko)
  case (Some k)
  obtain t w1 where t: "clock env w = (t, w1)" by fastforce
  note t' = neutral_eqD(1) [OF assms(1) t]
  obtain y w2 where r: "refresh env k w1 = (y, w2)" by fastforce
  obtain y' w3 where r': "refresh env k w = (y', w3)" by fastforce
  have "w' \<in> {w, w1, w2, w3}" using assms(2) Some t r r' by (auto simp: Engaged_def split: if_splits prod.splits)
  then show ?thesis using assms(1) t' neutral_refresh [OF _ r] neutral_refresh [OF assms(1) r'] by auto
qed (use assms in \<open>simp add: Engaged_def\<close>)

lemma quiet_scoring:
  shows quiet_Observe: "triple (holds K X S) (scoring_Observe env) (\<lambda>_. holds K X S)"
    and quiet_MarkStarted: "triple (holds K X S) (scoring_MarkStarted env) (\<lambda>_. holds K X S)"
    and quiet_Status: "triple (holds K X S) (scoring_Status env) (\<lambda>_. holds K X S)"
  by (rule quiet, drule op_invD(1), auto simp: scoring_Observe_def scoring_MarkStarted_def scoring_Status_def
      Observe_def MarkStarted_def tracker_Status_def Let_def dest: neutral_eqD split: option.splits if_splits prod.splits)+

lemma quiet_Engaged: "triple (holds K X S) (killSwitch_Engaged env) (\<lambda>_. holds K X S)"
  by (rule quiet, drule op_invD(1)) (auto simp: killSwitch_Engaged_def dest: neutral_Engaged split: prod.splits)

lemma quiet_allows: "triple (holds K X S) (limiter_allows env key) (\<lambda>ok s. holds K X S s \<and> (ok \<or> calm))"
proof (rule tripleI)
  fix s ok s' assume s: "holds K X S s" "run_state (limiter_allows env key) s = (ok, s')"
  have "triple (holds K X S) (limiter_allows env key) (\<lambda>_. holds K X S)"
    by (rule quiet, drule op_invD(1))
      (auto simp: limiter_allows_def Allow_def Let_def dest: neutral_eqD split: option.splits prod.splits)
  from tripleD [OF this s] have "holds K X S s'" .
  moreover have "o_ActionLimiter s = None \<Longrightarrow> ok" using s(2) by (auto simp: limiter_allows_def Allow_nil)
  ultimately show "holds K X S s' \<and> (ok \<or> calm)" using op_invD(6) [OF conjunct1 [OF s(1)]] by auto
qed

text \<open>
  A write is safe when it takes away no claim on anything the kernel drops, and growing when it takes away
  none at all.
\<close>

definition safe :: "'w \<Rightarrow> Policy \<Rightarrow> bool" where
  "safe w p \<longleftrightarrow> (\<forall>st. hist w (policy_key p) (p_ResourceVersion p) = Some st \<longrightarrow>
     claimed_ips st \<inter> drops w \<subseteq> claimed_ips (Status p) \<and> claimed_tunnels st \<inter> tdrops w \<subseteq> claimed_tunnels (Status p))"

definition growing :: "'w \<Rightarrow> Policy \<Rightarrow> bool" where
  "growing w p \<longleftrightarrow> (\<forall>st. hist w (policy_key p) (p_ResourceVersion p) = Some st \<longrightarrow>
     claimed_ips st \<subseteq> claimed_ips (Status p) \<and> claimed_tunnels st \<subseteq> claimed_tunnels (Status p))"

lemma growing_safe: "growing w p \<Longrightarrow> safe w p"
  by (auto simp: growing_def safe_def)

lemma reflects_mono: "\<forall>k. h k \<subseteq>\<^sub>m h' k \<Longrightarrow> reflects h p \<Longrightarrow> reflects h' p"
  unfolding reflects_def map_le_def by (metis domI)

lemma covered_mono: "covered ds ts st \<Longrightarrow> ds' \<subseteq> ds \<Longrightarrow> ts' \<subseteq> ts \<Longrightarrow> covered ds' ts' st"
  unfolding covered_def by blast

lemma covered_accepted:
  assumes "inv w" "covered (drops w) (tdrops w) (stored w)" "safe w p" "accepted (stored w) p st'"
  shows "covered (drops w) (tdrops w) st'"
proof -
  obtain q q' where q: "stored w (policy_key p) = Some q" "p_ResourceVersion q = p_ResourceVersion p"
    and q': "Status q' = Status p" "st' = (stored w)(policy_key p \<mapsto> q')"
    using assms(4) by (auto simp: accepted_def)
  have h: "hist w (policy_key p) (p_ResourceVersion p) = Some (Status q)"
    using stored_hist [OF assms(1) q(1)] q(2) by simp
  have ips: "\<exists>k x. st' k = Some x \<and> d \<in> claimed_ips (Status x)" if d: "d \<in> drops w" for d
  proof -
    obtain k x where x: "stored w k = Some x" "d \<in> claimed_ips (Status x)" using d assms(2) by (auto simp: covered_def)
    show ?thesis
    proof (cases "k = policy_key p")
      case True
      then have "d \<in> claimed_ips (Status q')" using x q assms(3) d h q'(1) by (auto simp: safe_def)
      then show ?thesis using q'(2) by auto
    qed (use x q' in auto)
  qed
  have "\<exists>k x. st' k = Some x \<and> d \<in> claimed_tunnels (Status x)" if d: "d \<in> tdrops w" for d
  proof -
    obtain k x where x: "stored w k = Some x" "d \<in> claimed_tunnels (Status x)" using d assms(2) by (auto simp: covered_def)
    show ?thesis
    proof (cases "k = policy_key p")
      case True
      then have "d \<in> claimed_tunnels (Status q')" using x q assms(3) d h q'(1) by (auto simp: safe_def)
      then show ?thesis using q'(2) by auto
    qed (use x q' in auto)
  qed
  then show ?thesis using ips by (simp add: covered_def)
qed

lemma current_other: "accepted st p st' \<Longrightarrow> policy_key x \<noteq> policy_key p \<Longrightarrow> current st' x = current st x"
  by (auto simp: accepted_def current_def)

lemma current_growing:
  assumes "inv w" "growing w p" "accepted (stored w) p st'" "current (stored w) x"
  shows "current st' x"
proof (cases "policy_key x = policy_key p")
  case True
  obtain q q' where q: "stored w (policy_key p) = Some q" "p_ResourceVersion q = p_ResourceVersion p"
    and q': "Status q' = Status p" "st' = (stored w)(policy_key p \<mapsto> q')"
    using assms(3) by (auto simp: accepted_def)
  have "hist w (policy_key p) (p_ResourceVersion p) = Some (Status q)"
    using stored_hist [OF assms(1) q(1)] q(2) by simp
  then show ?thesis using True assms(2,4) q q' by (auto simp: growing_def current_def)
qed (use assms current_other in blast)

lemma current_accepted: "accepted st p st' \<Longrightarrow> policy_key x = policy_key p \<Longrightarrow> Status x = Status p \<Longrightarrow> current st' x"
  by (auto simp: accepted_def current_def)

lemma good_mono:
  assumes "good w x" "\<forall>k. hist w k \<subseteq>\<^sub>m hist w' k" "calm \<Longrightarrow> current (stored w) x \<Longrightarrow> current (stored w') x"
  shows "good w' x"
  using assms reflects_mono by (auto simp: good_def)

lemma status_write_ok:
  assumes s: "op_inv K X s" and u: "update_status env p (o_World s) = (r, w')" and safe: "safe (o_World s) p"
    and X: "growing (o_World s) p \<or> (\<forall>x \<in> X. policy_key x \<noteq> policy_key p)"
  shows "case r of
      Inl e \<Rightarrow> op_inv K X (s\<lparr>o_World := w'\<rparr>)
    | Inr p' \<Rightarrow> op_inv (insert (policy_key p) K) X (s\<lparr>o_World := w'\<rparr>) \<and> good w' p' \<and> policy_key p' = policy_key p \<and>
        Status p' = Status p \<and> current (stored w') p'"
proof -
  let ?w = "o_World s"
  note inv = op_invD(1) [OF s]
  note law = status_write [OF inv u]
  have acc: "covered (drops w') (tdrops w') (stored w')" if "accepted (stored ?w) p (stored w')"
    using covered_accepted [OF inv op_invD(3) [OF s] safe that] law by simp
  show ?thesis
  proof (cases r)
    case (Inl e)
    have cov: "covered (drops w') (tdrops w') (stored w')" using Inl law acc op_invD(3) [OF s] by auto
    have g: "good w' x" if "good ?w x" for x
      using good_mono [OF that, of w'] law Inl by auto
    then have "op_inv K X (s\<lparr>o_World := w'\<rparr>)" using s cov law by (auto simp: op_inv_def)
    then show ?thesis using Inl by simp
  next
    case (Inr p')
    then have a: "accepted (stored ?w) p (stored w')" and p': "policy_key p' = policy_key p" "Status p' = Status p"
      using law by simp_all
    have cur: "current (stored w') p'" using current_accepted [OF a] p' by simp
    have good: "good w' p'" using cur Inr law p' by (auto simp: good_def reflects_def)
    have g: "good w' x" if "good ?w x" "growing ?w p \<or> policy_key x \<noteq> policy_key p" for x
      using good_mono [OF that(1), of w'] law that(2) current_growing [OF inv _ a] current_other [OF a] by blast
    have keys: "index_lookup (o_Index s) k = Some x \<Longrightarrow> policy_key x = k" for k x
      using policy_index.look_key [OF op_invD(2) [OF s]] by blast
    have "op_inv (insert (policy_key p) K) X (s\<lparr>o_World := w'\<rparr>)"
      using s acc [OF a] law g X keys by (auto simp: op_inv_def)
    then show ?thesis using Inr good p' cur by simp
  qed
qed

lemma put_ok:
  assumes "op_inv (insert (policy_key p) K) X s" "good (o_World s) p"
  shows "op_inv K X (s\<lparr>o_Index := Put p (o_Index s)\<rparr>)"
  using assms policy_index.ok_put policy_index.look_put
  by (auto simp: op_inv_def split: if_splits)

lemma remove_ok:
  assumes "op_inv (insert k K) X s"
  shows "op_inv K X (s\<lparr>o_Index := Remove k (o_Index s)\<rparr>)"
  using assms policy_index.ok_rem policy_index.look_rem
  by (auto simp: op_inv_def split: if_splits)

text \<open>A block of something claimed keeps everything covered; an unblock always does.\<close>

lemma op_inv_kernel:
  assumes "op_inv K X s" "inv w'" "stored w' = stored (o_World s)" "hist w' = hist (o_World s)"
    and "covered (drops w') (tdrops w') (stored (o_World s))"
  shows "op_inv K X (s\<lparr>o_World := w'\<rparr>)"
  using assms by (auto simp: op_inv_def good_def)

lemma keeps_block:
  assumes "valid_ip ip" "\<And>st. S st \<Longrightarrow> \<exists>k q. st k = Some q \<and> canon ip \<in> claimed_ips (Status q)"
  shows "triple (holds K X S) (world (Block (updater env) ip)) (\<lambda>_. holds K X S)"
proof (rule tripleI)
  fix s r s' assume s: "holds K X S s" "run_state (world (Block (updater env) ip)) s = (r, s')"
  obtain w' where w': "Block (updater env) ip (o_World s) = (r, w')" "s' = s\<lparr>o_World := w'\<rparr>"
    using s(2) by (auto split: prod.splits)
  note i = op_invD(1) [OF conjunct1 [OF s(1)]] and c = op_invD(3) [OF conjunct1 [OF s(1)]]
  have same: "stored w' = stored (o_World s)" "hist w' = hist (o_World s)"
    using kernel_only [OF i, of w' ip 0] w'(1) by simp_all
  have "covered (drops w') (tdrops w') (stored (o_World s))"
    using block [OF i assms(1) w'(1)] c assms(2) [OF conjunct2 [OF s(1)]] by (auto simp: covered_def)
  then show "holds K X S s'"
    using op_inv_kernel [OF conjunct1 [OF s(1)] _ same] block [OF i assms(1) w'(1)] w'(2) same s(1) by simp
qed

lemma keeps_block_tunnel:
  assumes "valid_ip ip" "\<And>st. S st \<Longrightarrow> \<exists>k q. st k = Some q \<and> (canon ip, t) \<in> claimed_tunnels (Status q)"
  shows "triple (holds K X S) (world (BlockTunnel (updater env) ip t)) (\<lambda>_. holds K X S)"
proof (rule tripleI)
  fix s r s' assume s: "holds K X S s" "run_state (world (BlockTunnel (updater env) ip t)) s = (r, s')"
  obtain w' where w': "BlockTunnel (updater env) ip t (o_World s) = (r, w')" "s' = s\<lparr>o_World := w'\<rparr>"
    using s(2) by (auto split: prod.splits)
  note i = op_invD(1) [OF conjunct1 [OF s(1)]] and c = op_invD(3) [OF conjunct1 [OF s(1)]]
  have same: "stored w' = stored (o_World s)" "hist w' = hist (o_World s)"
    using kernel_only [OF i, of w' ip t] w'(1) by simp_all
  have "covered (drops w') (tdrops w') (stored (o_World s))"
    using block_tunnel [OF i assms(1) w'(1)] c assms(2) [OF conjunct2 [OF s(1)]] by (auto simp: covered_def)
  then show "holds K X S s'"
    using op_inv_kernel [OF conjunct1 [OF s(1)] _ same] block_tunnel [OF i assms(1) w'(1)] w'(2) same s(1) by simp
qed

abbreviation confined :: "bytes set \<Rightarrow> (bytes \<times> u32) set \<Rightarrow> ('l, 'w) op \<Rightarrow> bool" where
  "confined D T s \<equiv> drops (o_World s) \<subseteq> D \<and> tdrops (o_World s) \<subseteq> T"

lemma keeps_unblock:
  assumes "valid_ip ip"
  shows "triple (\<lambda>s. holds K X S s \<and> confined D T s) (world (Unblock (updater env) ip))
    (\<lambda>r s. holds K X S s \<and> confined (if r = None then D - {canon ip} else D) T s)"
proof (rule tripleI)
  fix s r s' assume s: "holds K X S s \<and> confined D T s" "run_state (world (Unblock (updater env) ip)) s = (r, s')"
  obtain w' where w': "Unblock (updater env) ip (o_World s) = (r, w')" "s' = s\<lparr>o_World := w'\<rparr>"
    using s(2) by (auto split: prod.splits)
  have o: "op_inv K X s" using s(1) by simp
  note law = unblock [OF op_invD(1) [OF o] assms w'(1)]
  have same: "stored w' = stored (o_World s)" "hist w' = hist (o_World s)"
    using kernel_only [OF op_invD(1) [OF o], of w' ip 0] w'(1) by simp_all
  have "covered (drops w') (tdrops w') (stored (o_World s))"
    by (rule covered_mono [OF op_invD(3) [OF o]]) (use law in auto)
  then have "op_inv K X s'" using op_inv_kernel [OF o _ same] law w'(2) by simp
  then show "holds K X S s' \<and> confined (if r = None then D - {canon ip} else D) T s'"
    using law w'(2) same s(1) by auto
qed

lemma keeps_unblock_tunnel:
  assumes "valid_ip ip"
  shows "triple (\<lambda>s. holds K X S s \<and> confined D T s) (world (UnblockTunnel (updater env) ip t))
    (\<lambda>r s. holds K X S s \<and> confined D (if r = None then T - {(canon ip, t)} else T) s)"
proof (rule tripleI)
  fix s r s' assume s: "holds K X S s \<and> confined D T s" "run_state (world (UnblockTunnel (updater env) ip t)) s = (r, s')"
  obtain w' where w': "UnblockTunnel (updater env) ip t (o_World s) = (r, w')" "s' = s\<lparr>o_World := w'\<rparr>"
    using s(2) by (auto split: prod.splits)
  have o: "op_inv K X s" using s(1) by simp
  note law = unblock_tunnel [OF op_invD(1) [OF o] assms w'(1)]
  have same: "stored w' = stored (o_World s)" "hist w' = hist (o_World s)"
    using kernel_only [OF op_invD(1) [OF o], of w' ip t] w'(1) by simp_all
  have "covered (drops w') (tdrops w') (stored (o_World s))"
    by (rule covered_mono [OF op_invD(3) [OF o]]) (use law in auto)
  then have "op_inv K X s'" using op_inv_kernel [OF o _ same] law w'(2) by simp
  then show "holds K X S s' \<and> confined D (if r = None then T - {(canon ip, t)} else T) s'"
    using law w'(2) same s(1) by auto
qed

text \<open>What is dropped, apart from the record of it: \<open>Q\<close> is any statement about the drops.\<close>

definition kernel_ok :: "(bytes set \<Rightarrow> (bytes \<times> u32) set \<Rightarrow> bool) \<Rightarrow> ('l, 'w) op \<Rightarrow> bool" where
  "kernel_ok Q s \<longleftrightarrow> inv (o_World s) \<and> Q (drops (o_World s)) (tdrops (o_World s))"

lemma still:
  assumes "\<And>s r s'. inv (o_World s) \<Longrightarrow> run_state m s = (r, s') \<Longrightarrow>
    inv (o_World s') \<and> drops (o_World s') = drops (o_World s) \<and> tdrops (o_World s') = tdrops (o_World s)"
  shows "triple (kernel_ok Q) m (\<lambda>_. kernel_ok Q)"
proof (rule tripleI)
  fix s r s' assume s: "kernel_ok Q s" "run_state m s = (r, s')"
  then show "kernel_ok Q s'" using assms [OF _ s(2)] by (simp add: kernel_ok_def)
qed

lemma still_world:
  assumes "\<And>w r w'. inv w \<Longrightarrow> f w = (r, w') \<Longrightarrow> inv w' \<and> drops w' = drops w \<and> tdrops w' = tdrops w"
  shows "triple (kernel_ok Q) (world f) (\<lambda>_. kernel_ok Q)"
  by (rule still) (auto dest: assms split: prod.splits)

lemma still_quiet:
  assumes "\<And>w. inv w \<Longrightarrow> inv (snd (f w)) \<and> drops (snd (f w)) = drops w \<and> tdrops (snd (f w)) = tdrops w \<and>
    stored (snd (f w)) = stored w \<and> hist (snd (f w)) = hist w"
  shows "triple (kernel_ok Q) (world f) (\<lambda>_. kernel_ok Q)"
  by (rule still_world) (use assms in force)

lemma still_neutral:
  "triple (kernel_ok Q) (world (clock env)) (\<lambda>_. kernel_ok Q)"
  "triple (kernel_ok Q) (world (get_pod env k)) (\<lambda>_. kernel_ok Q)"
  "triple (kernel_ok Q) (world (get_policy env k)) (\<lambda>_. kernel_ok Q)"
  "triple (kernel_ok Q) (world (list_policies env)) (\<lambda>_. kernel_ok Q)"
  "triple (kernel_ok Q) (world (mesh_Quarantine env ns sel)) (\<lambda>_. kernel_ok Q)"
  "triple (kernel_ok Q) (world (mesh_Release env ns sel)) (\<lambda>_. kernel_ok Q)"
  "triple (kernel_ok Q) (world (\<lambda>w. ((), record_event env obj reason w))) (\<lambda>_. kernel_ok Q)"
  by (rule still_quiet, erule neutral [of _ _ k undefined ns sel obj reason], simp)+

lemma still_writes:
  "triple (kernel_ok Q) (world (update_status env p)) (\<lambda>_. kernel_ok Q)"
  "triple (kernel_ok Q) (world (update_policy env p)) (\<lambda>_. kernel_ok Q)"
  by (rule still_world, drule (1) status_write, simp, rule still_world, drule (1) object_write, simp)

lemma still_local:
  "triple (kernel_ok Q) (emit ms) (\<lambda>_. kernel_ok Q)"
  "triple (kernel_ok Q) index_get (\<lambda>_. kernel_ok Q)"
  "triple (kernel_ok Q) (index_Put p) (\<lambda>_. kernel_ok Q)"
  "triple (kernel_ok Q) (index_Remove k) (\<lambda>_. kernel_ok Q)"
  "triple (kernel_ok Q) (return x) (\<lambda>_. kernel_ok Q)"
  by (rule still; force)+

lemma still_shared:
  "triple (kernel_ok Q) (scoring_Observe env) (\<lambda>_. kernel_ok Q)"
  "triple (kernel_ok Q) (scoring_MarkStarted env) (\<lambda>_. kernel_ok Q)"
  "triple (kernel_ok Q) (scoring_Status env) (\<lambda>_. kernel_ok Q)"
  "triple (kernel_ok Q) (killSwitch_Engaged env) (\<lambda>_. kernel_ok Q)"
  "triple (kernel_ok Q) (limiter_allows env k) (\<lambda>_. kernel_ok Q)"
  by (rule still, auto simp: scoring_Observe_def scoring_MarkStarted_def scoring_Status_def killSwitch_Engaged_def
      limiter_allows_def Allow_def Observe_def MarkStarted_def tracker_Status_def Let_def
      dest: neutral_eqD neutral_Engaged split: option.splits if_splits prod.splits)+

lemmas still_ops = still_neutral still_writes still_local still_shared

lemma block_adds:
  assumes "valid_ip ip"
  shows "triple (kernel_ok (\<lambda>d t. D \<subseteq> d \<and> d \<subseteq> insert (canon ip) D \<and> R t)) (world (Block (updater env) ip))
    (\<lambda>_. kernel_ok (\<lambda>d t. D \<subseteq> d \<and> d \<subseteq> insert (canon ip) D \<and> R t))"
proof (rule tripleI)
  fix s r s' assume s: "kernel_ok (\<lambda>d t. D \<subseteq> d \<and> d \<subseteq> insert (canon ip) D \<and> R t) s" "run_state (world (Block (updater env) ip)) s = (r, s')"
  have i: "inv (o_World s)" using s(1) by (simp add: kernel_ok_def)
  have b: "Block (updater env) ip (o_World s) = (r, o_World s')" using s(2) by (auto split: prod.splits)
  show "kernel_ok (\<lambda>d t. D \<subseteq> d \<and> d \<subseteq> insert (canon ip) D \<and> R t) s'" using block [OF i assms b] s(1) by (auto simp: kernel_ok_def)
qed

lemma block_tunnel_adds:
  assumes "valid_ip ip"
  shows "triple (kernel_ok (\<lambda>d t. R d \<and> T \<subseteq> t \<and> t \<subseteq> insert (canon ip, x) T)) (world (BlockTunnel (updater env) ip x))
    (\<lambda>_. kernel_ok (\<lambda>d t. R d \<and> T \<subseteq> t \<and> t \<subseteq> insert (canon ip, x) T))"
proof (rule tripleI)
  fix s r s' assume s: "kernel_ok (\<lambda>d t. R d \<and> T \<subseteq> t \<and> t \<subseteq> insert (canon ip, x) T) s" "run_state (world (BlockTunnel (updater env) ip x)) s = (r, s')"
  have i: "inv (o_World s)" using s(1) by (simp add: kernel_ok_def)
  have b: "BlockTunnel (updater env) ip x (o_World s) = (r, o_World s')" using s(2) by (auto split: prod.splits)
  show "kernel_ok (\<lambda>d t. R d \<and> T \<subseteq> t \<and> t \<subseteq> insert (canon ip, x) T) s'" using block_tunnel [OF i assms b] s(1) by (auto simp: kernel_ok_def)
qed

end

subsection \<open>The simulated world keeps the contract\<close>

definition sim_stored :: "sim \<Rightarrow> nsname \<Rightarrow> Policy option" where
  "sim_stored w = map_of (s_policies w)"

definition sim_hist :: "sim \<Rightarrow> nsname \<Rightarrow> string \<Rightarrow> PolicyStatus option" where
  "sim_hist w = (\<lambda>k v. map_of (s_history w) (k, v))"

lemma Occupancy_frame:
  assumes "loader_inv k" "Loader_ObservationOccupancy k = (r, k')"
  shows "loader_inv k' \<and> loader_drops k' = loader_drops k \<and> loader_tdrops k' = loader_tdrops k"
proof -
  let ?l = "k_loader k"
  obtain kvs e w where i1: "map_Iterate (k_sys k) (tunnelRate ?l) (k_world k) = ((kvs, e), w)" by (metis surj_pair)
  note f1 = iterate_frame [OF assms(1) i1]
  let ?k1 = "k\<lparr>k_world := w\<rparr>"
  obtain kvs6 e6 w6 where i2: "map_Iterate (k_sys ?k1) (tunnelRateV6 ?l) (k_world ?k1) = ((kvs6, e6), w6)" by (metis surj_pair)
  note f2 = iterate_frame [OF f1(1) i2]
  have "k' = ?k1 \<or> k' = ?k1\<lparr>k_world := w6\<rparr>"
    using assms(2) i1 i2 by (auto simp: Loader_ObservationOccupancy_def countMapEntries_def split: option.splits)
  then show ?thesis using f1 f2 by auto
qed

lemma sim_get_world [simp]: "snd (sim_get objs k w) = w"
  by (simp add: sim_get_def split: option.split)

lemma sim_get_InrD: "sim_get objs k w = (Inr x, w') \<Longrightarrow> map_of objs k = Some x"
  by (auto simp: sim_get_def split: if_splits option.splits)

lemma on_kernel_frame:
  "s_policies (snd (on_kernel f w)) = s_policies w" "s_history (snd (on_kernel f w)) = s_history w"
  "s_version (snd (on_kernel f w)) = s_version w" "s_kernel (snd (on_kernel f w)) = snd (f (s_kernel w))"
  by (simp_all add: on_kernel_def split: prod.split)

lemmas sim_view = sim_inv_def sim_drops_def sim_tdrops_def sim_stored_def sim_hist_def

lemma sim_store_effect:
  assumes "sim_inv w" "sim_store q w = (q', w')"
  shows "sim_inv w' \<and> sim_drops w' = sim_drops w \<and> sim_tdrops w' = sim_tdrops w \<and> (\<forall>k. sim_hist w k \<subseteq>\<^sub>m sim_hist w' k) \<and>
    policy_key q' = policy_key q \<and> Status q' = Status q \<and> sim_stored w' = (sim_stored w)(policy_key q \<mapsto> q') \<and>
    sim_hist w' (policy_key q) (p_ResourceVersion q') = Some (Status q')"
proof -
  let ?v = "replicate (s_version w) (CHR ''v'')"
  have w': "q' = q\<lparr>p_ResourceVersion := ?v\<rparr>" "s_kernel w' = s_kernel w"
      "s_policies w' = AList.update (policy_key q) q' (s_policies w)"
      "s_history w' = ((policy_key q, ?v), Status q) # s_history w" "s_version w' = Suc (s_version w)"
    using assms(2) by (auto simp: sim_store_def Let_def)
  have key: "policy_key q' = policy_key q" "Status q' = Status q" "p_ResourceVersion q' = ?v"
    by (simp_all add: w'(1) policy_key_def)
  have old: "length v < s_version w" if "map_of (s_history w) (k, v) = Some st" for k v st
    using that assms(1) unfolding sim_inv_def sim_api_inv_def by blast
  then have new: "map_of (s_history w) (k, ?v) = None" for k
    by (metis length_replicate less_irrefl not_Some_eq)
  have h: "map_of (s_history w') (k, v) = Some st" if "map_of (s_history w) (k, v) = Some st" for k v st
    using that new by (auto simp: w'(4))
  have "sim_api_inv (s_policies w') (s_history w') (s_version w')"
    using assms(1) old h key by (auto simp: sim_inv_def sim_api_inv_def w'(3,5) update_conv' w'(4) less_Suc_eq distinct_update)
  then show ?thesis
    using assms(1) key new by (auto simp: sim_view w' update_conv' map_le_def dest!: domD)
qed

lemma sim_write_cases:
  assumes "sim_write f p w = (r, w')"
  obtains e where "r = Inl e" "w' = w"
  | q where "sim_stored w (policy_key p) = Some q" "p_ResourceVersion q = p_ResourceVersion p" "f q w = (r, w')"
  using assms by (auto simp: sim_write_def sim_stored_def split: if_splits option.splits)

lemma sim_stored_key: "sim_inv w \<Longrightarrow> sim_stored w k = Some q \<Longrightarrow> policy_key q = k \<and> sim_hist w k (p_ResourceVersion q) = Some (Status q)"
  by (simp add: sim_view sim_api_inv_def)

lemma sim_status_write:
  assumes i: "sim_inv w" and u: "sim_update_status p w = (r, w')"
  shows "sim_inv w' \<and> sim_drops w' = sim_drops w \<and> sim_tdrops w' = sim_tdrops w \<and> (\<forall>k. sim_hist w k \<subseteq>\<^sub>m sim_hist w' k) \<and>
      (case r of
         Inr p' \<Rightarrow> policy_key p' = policy_key p \<and> Status p' = Status p \<and>
           sim_hist w' (policy_key p) (p_ResourceVersion p') = Some (Status p') \<and> accepted (sim_stored w) p (sim_stored w')
       | Inl e \<Rightarrow> sim_stored w' = sim_stored w)"
  using u unfolding sim_update_status_def
proof (cases rule: sim_write_cases)
  case (1 e)
  then show ?thesis using i by simp
next
  case (2 q)
  obtain q' where s: "sim_store (q\<lparr>Status := Status p\<rparr>) w = (q', w')" "r = Inr q'" using 2(3) by (auto split: prod.splits)
  have "policy_key (q\<lparr>Status := Status p\<rparr>) = policy_key p" using sim_stored_key [OF i 2(1)] by (simp add: policy_key_def)
  then show ?thesis using sim_store_effect [OF i s(1)] 2 s(2) by (auto simp: accepted_def)
qed

lemma sim_object_write:
  assumes i: "sim_inv w" and u: "sim_update_policy p w = (r, w')"
  shows "sim_inv w' \<and> sim_drops w' = sim_drops w \<and> sim_tdrops w' = sim_tdrops w \<and> (\<forall>k. sim_hist w k \<subseteq>\<^sub>m sim_hist w' k) \<and>
      (case r of
         Inr p' \<Rightarrow> policy_key p' = policy_key p \<and> accepted_object (sim_stored w) p (sim_stored w') \<and>
           (p_Finalizers p \<noteq> [] \<longrightarrow> sim_hist w' (policy_key p) (p_ResourceVersion p') = Some (Status p') \<and>
              (\<exists>q. sim_stored w (policy_key p) = Some q \<and> Status p' = Status q))
       | Inl e \<Rightarrow> sim_stored w' = sim_stored w)"
  using u unfolding sim_update_policy_def
proof (cases rule: sim_write_cases)
  case (1 e)
  then show ?thesis using i by simp
next
  case (2 q)
  define q1 where "q1 = q\<lparr>p_Finalizers := p_Finalizers p, Spec := Spec p\<rparr>"
  have key: "policy_key q1 = policy_key p" "Status q1 = Status q" using sim_stored_key [OF i 2(1)]
    by (simp_all add: policy_key_def q1_def)
  show ?thesis
  proof (cases "p_DeletionTimestamp q \<noteq> None \<and> p_Finalizers p = []")
    case True
    then have "r = Inr q1" "w' = w\<lparr>s_policies := AList.delete (policy_key p) (s_policies w)\<rparr>"
      using 2(3) by (simp_all add: q1_def Let_def)
    moreover have "sim_inv (w\<lparr>s_policies := AList.delete (policy_key p) (s_policies w)\<rparr>)"
      using i by (auto simp: sim_inv_def sim_api_inv_def delete_conv' distinct_delete)
    ultimately show ?thesis using True key 2
      by (auto simp: accepted_object_def sim_view delete_conv' delete_conv)
  next
    case False
    then obtain q' where s: "sim_store q1 w = (q', w')" "r = Inr q'"
      using 2(3) by (auto simp: q1_def Let_def split: prod.splits if_splits)
    then show ?thesis using sim_store_effect [OF i s(1)] 2 key by (auto simp: accepted_object_def)
  qed
qed

lemma sim_neutral:
  assumes "sim_inv w"
    and "w' \<in> {snd (clock sim_env w), snd (get_configmap sim_env k w), snd (get_pod sim_env k w), snd (get_policy sim_env k w),
      snd (list_policies sim_env w), snd (limiter_Allow sim_env l w), snd (mesh_Quarantine sim_env ns sel w),
      snd (mesh_Release sim_env ns sel w), record_event sim_env obj reason w, snd (ObservationOccupancy sim_inspector w)}"
  shows "sim_inv w' \<and> sim_drops w' = sim_drops w \<and> sim_tdrops w' = sim_tdrops w \<and> sim_stored w' = sim_stored w \<and>
    sim_hist w' = sim_hist w"
proof (cases "w' = snd (ObservationOccupancy sim_inspector w)")
  case True
  then have "w' = snd (on_kernel Loader_ObservationOccupancy w)" by (simp add: sim_inspector_def)
  moreover have "loader_inv (s_kernel w)" using assms(1) by (simp add: sim_inv_def)
  ultimately show ?thesis
    using assms(1) Occupancy_frame [of "s_kernel w"] on_kernel_frame [of Loader_ObservationOccupancy w]
    by (cases "Loader_ObservationOccupancy (s_kernel w)") (auto simp: sim_view)
next
  case False
  then have "s_kernel w' = s_kernel w" "s_policies w' = s_policies w" "s_history w' = s_history w" "s_version w' = s_version w"
    using assms(2) by (auto split: if_splits)
  then show ?thesis using assms(1) by (simp add: sim_view)
qed

lemma sim_kernel_only:
  assumes "w' \<in> {snd (Block (updater sim_env) ip w), snd (Unblock (updater sim_env) ip w), snd (BlockTunnel (updater sim_env) ip t w),
      snd (UnblockTunnel (updater sim_env) ip t w), snd (inspect_BlockedIPs sim_inspector w),
      snd (inspect_BlockedTunnels sim_inspector w)}"
  shows "sim_stored w' = sim_stored w \<and> sim_hist w' = sim_hist w"
  using assms by (auto simp: sim_updater_def sim_inspector_def sim_view on_kernel_frame)

lemma sim_enforcer: "enforcer (updater sim_env) sim_inspector sim_inv sim_drops sim_tdrops"
  by (simp add: sim_loader.enforcer_axioms)

interpretation sim_cluster: cluster sim_env sim_inspector sim_inv sim_drops sim_tdrops sim_stored sim_hist True
proof (rule cluster.intro [OF sim_enforcer], rule cluster_axioms.intro, goal_cases)
  case (1 w w' k l ns sel obj reason)
  then show ?case by (rule sim_neutral)
next
  case (2 w w' ip t)
  then show ?case using sim_kernel_only by blast
next
  case (3 w k q)
  then show ?case by (rule sim_stored_key)
next
  case (4 w k p w')
  then have "sim_stored w k = Some p" by (simp add: sim_stored_def sim_get_InrD)
  then show ?case using sim_stored_key [OF 4(1)] by blast
next
  case (5 w ps w' p)
  then obtain k where "(k, p) \<in> set (s_policies w)" by (auto split: if_splits)
  then have "sim_stored w k = Some p" using 5(1) by (simp add: sim_inv_def sim_api_inv_def sim_stored_def)
  then show ?case using sim_stored_key [OF 5(1)] by metis
next
  case (6 w p r w')
  then show ?case using sim_status_write [OF 6(1), of p r w'] by (auto split: sum.splits)
next
  case (7 w p r w')
  then show ?case using sim_object_write [OF 7(1), of p r w'] by (auto split: sum.splits)
next
  case 8
  then show ?case by (simp add: k8s_ref_ok)
next
  case 9
  then show ?case by (simp add: permutes_maps_def)
qed

end
