(* ===== verification/Threat_Watcher.thy ===== *)
theory Threat_Watcher
  imports Cluster
begin

text \<open>
  The watcher that turns threat scores into mitigations (\<open>pkg/controller/threat_score_watcher.go\<close>).
  Its \<open>Client\<close>, \<open>Blocklist\<close> and \<open>Mesh\<close> are the environment \<open>env\<close>, its \<open>Index\<close>, \<open>Scoring\<close>,
  \<open>KillSwitch\<close> and \<open>ActionLimiter\<close> the shared state; the other two settings are the record.
\<close>

record ThreatScoreWatcher =
  tw_Subject :: string
  tw_BaseThreshold :: float64

definition sensitivityMultiplier :: "(Sensitivity \<times> float64) list" where
  "sensitivityMultiplier = [(SensitivityHigh, 8 / 10), (SensitivityMedium, 1), (SensitivityLow, 12 / 10)]"

definition sensitivityMultiplierOrDefault :: "Sensitivity \<Rightarrow> float64" where
  "sensitivityMultiplierOrDefault s =
     (case map_of sensitivityMultiplier s of
        Some m \<Rightarrow> m
      | None \<Rightarrow> (case map_of sensitivityMultiplier SensitivityMedium of Some m \<Rightarrow> m | None \<Rightarrow> 0))"

definition appendUnique :: "string list \<Rightarrow> string \<Rightarrow> string list" where
  "appendUnique ips ip = (if ip \<in> set ips then ips else ips @ [ip])"

definition suppressedActions :: "Policy \<Rightarrow> string list" where
  "suppressedActions policy =
     (if EbpfBlockTunnel (Actions (Spec policy)) then [''ebpf_block_tunnel''] else []) @
     (if EbpfBlock (Actions (Spec policy)) then [''ebpf_block''] else []) @
     (if IsolatePod (Actions (Spec policy)) then [''mesh_quarantine''] else [])"

fun firstMatchLabels :: "WorkloadSelector list \<Rightarrow> labels option" where
  "firstMatchLabels [] = None"
| "firstMatchLabels (sel # sels) =
     (if App sel \<noteq> [] then Some [(''app'', App sel)]
      else if length (MatchLabels sel) > 0 then Some (MatchLabels sel)
      else firstMatchLabels sels)"

text \<open>The map \<open>seen\<close> of the source is the list \<open>a\<close> read as a set.\<close>

definition equalStringSet :: "string list \<Rightarrow> string list \<Rightarrow> bool" where
  "equalStringSet a b = (length a = length b \<and> list_all (\<lambda>x. x \<in> set a) b)"

definition statusDecisionChanged :: "Policy \<Rightarrow> Policy \<Rightarrow> bool" where
  "statusDecisionChanged prev nxt =
     (if Phase (Status prev) \<noteq> Phase (Status nxt) then True
      else if \<not> equalStringSet (BlockedSourceIPs (Status prev)) (BlockedSourceIPs (Status nxt)) then True
      else \<not> equalStringSet (BlockedTunnels (Status prev)) (BlockedTunnels (Status nxt)))"

text \<open>\<open>fmt\<close>'s \<open>%.4f\<close>: the nearest multiple of 1/10000, ties to the even one.\<close>

definition round_half_even :: "rat \<Rightarrow> int" where
  "round_half_even r =
     (let n = \<lfloor>r\<rfloor>; d = r - of_int n
      in if d < 1 / 2 then n else if d > 1 / 2 then n + 1 else if even n then n else n + 1)"

definition format_4f :: "float64 \<Rightarrow> string" where
  "format_4f r =
     (let n = nat (round_half_even (\<bar>r\<bar> * 10000)); frac = print_base 10 (n mod 10000)
      in (if r < 0 then ''-'' else []) @ print_base 10 (n div 10000) @ ''.'' @
         replicate (4 - length frac) (CHR ''0'') @ frac)"

definition updateStatus :: "('l, 'w) env \<Rightarrow> Policy \<Rightarrow> ('l, 'w, err option) handler" where
  "updateStatus env policy = do {
     r \<leftarrow> world (update_status env policy);
     case r of
       Inl e \<Rightarrow> return (Some (wrap ''update status'' e))
     | Inr p' \<Rightarrow> do {
         index_Put p';
         emit (SetPolicyPhase (p_Namespace p') (p_Name p') (Phase (Status p')));
         return None } }"

definition writeStatus :: "('l, 'w) env \<Rightarrow> Policy \<Rightarrow> Policy \<Rightarrow> ('l, 'w, err option) handler" where
  "writeStatus env prev nxt =
     (if statusDecisionChanged prev nxt then updateStatus env nxt
      else do {
        ok \<leftarrow> limiter_allows env (NsName (p_Namespace nxt) (p_Name nxt));
        if ok then updateStatus env nxt
        else do { emit [ReactorThrottled_Inc (p_Namespace nxt) (p_Name nxt)]; return None } })"

abbreviation with_status :: "(PolicyStatus \<Rightarrow> PolicyStatus) \<Rightarrow> Policy \<Rightarrow> Policy" where
  "with_status f p \<equiv> p\<lparr>Status := f (Status p)\<rparr>"

text \<open>The three actions of a mitigation, with the metric of each outcome.\<close>

definition act_block_tunnel :: "('l, 'w) env \<Rightarrow> ip \<Rightarrow> u32 \<Rightarrow> ('l, 'w, err option) handler" where
  "act_block_tunnel env ip teid = do {
     r \<leftarrow> world (BlockTunnel (updater env) ip teid);
     case r of
       Some e \<Rightarrow> do {
         emit [Mitigations_Inc ''ebpf_block_tunnel'' ''error''];
         emit (if IsMapFull e then [MitigationMapFull_Inc ''tunnel_blocklist''] else []);
         return (Some (wrap ''ebpf block tunnel'' e)) }
     | None \<Rightarrow> do {
         emit [Mitigations_Inc ''ebpf_block_tunnel'' ''success''];
         return None } }"

definition act_block :: "('l, 'w) env \<Rightarrow> ip \<Rightarrow> ('l, 'w, err option) handler" where
  "act_block env ip = do {
     r \<leftarrow> world (Block (updater env) ip);
     case r of
       Some e \<Rightarrow> do {
         emit [Mitigations_Inc ''ebpf_block'' ''error''];
         emit (if IsMapFull e then [MitigationMapFull_Inc ''blocklist''] else []);
         return (Some (wrap ''ebpf block'' e)) }
     | None \<Rightarrow> do {
         emit [Mitigations_Inc ''ebpf_block'' ''success''];
         return None } }"

definition act_quarantine :: "('l, 'w) env \<Rightarrow> Policy \<Rightarrow> labels \<Rightarrow> ('l, 'w, err option) handler" where
  "act_quarantine env policy selector = do {
     r \<leftarrow> world (mesh_Quarantine env (p_Namespace policy) selector);
     case r of
       Some e \<Rightarrow> do {
         emit [Mitigations_Inc ''mesh_quarantine'' ''error''];
         return (Some (wrap ''mesh quarantine'' e)) }
     | None \<Rightarrow> do {
         emit [Mitigations_Inc ''mesh_quarantine'' ''success''];
         return None } }"

text \<open>The status that records the intent, and the part of \<open>applyPolicy\<close> that mitigates.\<close>

definition intended :: "ThreatScoreEvent \<Rightarrow> bool \<Rightarrow> bool \<Rightarrow> time \<Rightarrow> PolicyStatus \<Rightarrow> PolicyStatus" where
  "intended event blockTunnel blockSource now st =
     (let st1 = (if blockTunnel
                 then st\<lparr>BlockedTunnels := appendUnique (BlockedTunnels st) (formatTunnel (ts_SourceIP event) (ts_TEID event))\<rparr>
                 else st);
          st2 = (if blockSource
                 then st1\<lparr>BlockedSourceIPs := appendUnique (BlockedSourceIPs st1) (ts_SourceIP event)\<rparr>
                 else st1)
      in st2\<lparr>Phase := PhaseMitigating, LastMitigationTime := Some now\<rparr>)"

definition mitigate :: "('l, 'w) env \<Rightarrow> Policy \<Rightarrow> ThreatScoreEvent \<Rightarrow> Policy \<Rightarrow> ('l, 'w, err option) handler" where
  "mitigate env policy event latest =
     (let acts = Actions (Spec policy);
          ipo = ParseIP (ts_SourceIP event);
          blockTunnel = (EbpfBlockTunnel acts \<and> ipo \<noteq> None \<and> ts_TEID event \<noteq> 0);
          blockSource = (EbpfBlock acts \<and> ipo \<noteq> None);
          quarantineSelector = (if IsolatePod acts then firstMatchLabels (TargetWorkloads (Spec policy)) else None)
      in do {
        emit [ThresholdCrossings_Inc (p_Namespace policy) (p_Name policy) ''mitigating''];
        emit (if EbpfBlockTunnel acts \<and> \<not> blockTunnel \<and> ipo \<noteq> None \<and> ts_TEID event = 0
              then [Mitigations_Inc ''ebpf_block_tunnel'' ''no_teid''] else []);
        now \<leftarrow> world (clock env);
        or_fail (writeStatus env policy (with_status (intended event blockTunnel blockSource now) latest))
       (or_fail (if blockTunnel then act_block_tunnel env (the ipo) (ts_TEID event) else return None)
       (or_fail (if blockSource then act_block env (the ipo) else return None)
                (case quarantineSelector of Some sel \<Rightarrow> act_quarantine env policy sel | None \<Rightarrow> return None))) })"

definition threshold_of :: "ThreatScoreWatcher \<Rightarrow> Policy \<Rightarrow> float64" where
  "threshold_of tw policy =
     (let threshold = tw_BaseThreshold tw * sensitivityMultiplierOrDefault (Sensitivity (ThreatDetection (Spec policy)))
      in if threshold > 1 then 1 else threshold)"

definition applyPolicy ::
  "('l, 'w) env \<Rightarrow> ThreatScoreWatcher \<Rightarrow> Policy \<Rightarrow> ThreatScoreEvent \<Rightarrow> ('l, 'w, err option) handler" where
  "applyPolicy env tw policy event =
     (let latest = with_status (\<lambda>st. st\<lparr>ObservedThreatScore := format_4f (ts_Score event)\<rparr>) policy
      in if ts_Score event < threshold_of tw policy then
           writeStatus env policy
             (if Phase (Status latest) \<noteq> PhaseMitigating
              then with_status (\<lambda>st. st\<lparr>Phase := PhaseMonitoring\<rparr>) latest else latest)
         else if \<not> AutoMitigate (ThreatDetection (Spec policy)) then do {
           emit [ThresholdCrossings_Inc (p_Namespace policy) (p_Name policy) ''alerting''];
           writeStatus env policy (with_status (\<lambda>st. st\<lparr>Phase := PhaseAlerting\<rparr>) latest) }
         else do {
           engaged \<leftarrow> killSwitch_Engaged env;
           if engaged then do {
             emit (map MitigationsSuppressed_Inc (suppressedActions policy));
             emit [ThresholdCrossings_Inc (p_Namespace policy) (p_Name policy) ''alerting''];
             writeStatus env policy (with_status (\<lambda>st. st\<lparr>Phase := PhaseAlerting\<rparr>) latest) }
           else mitigate env policy event latest })"

definition handle ::
  "('l, 'w) env \<Rightarrow> ThreatScoreWatcher \<Rightarrow> ThreatScoreEvent \<Rightarrow> ('l, 'w, err option) handler" where
  "handle env tw event = do {
     emit [ThreatScoresReceived_Inc (scoreSourceLabel (ts_Model event)), ThreatScore_Observe (ts_Score event)];
     scoring_Observe env;
     r \<leftarrow> world (get_pod env (NsName (ts_Namespace event) (ts_PodName event)));
     case r of
       Inl e \<Rightarrow> if err_is e NotFound then return None else return (Some (wrap ''get pod'' e))
     | Inr pod \<Rightarrow> do {
         idx \<leftarrow> index_get;
         each_always (\<lambda>policy. applyPolicy env tw policy event)
           (MatchingPolicies (walk env) idx (ts_Namespace event) (pod_Labels pod));
         return None } }"

definition warmIndex :: "('l, 'w) env \<Rightarrow> ('l, 'w, err option) handler" where
  "warmIndex env = do {
     r \<leftarrow> world (list_policies env);
     case r of
       Inl e \<Rightarrow> return (Some e)
     | Inr items \<Rightarrow> do {
         each_always index_Put (filter (\<lambda>p. \<not> deleting p) items);
         return None } }"

text \<open>
  \<open>Start\<close> with the messages delivered until the context is done. \<open>conn\<close> and \<open>ctxErr\<close> are the connector
  and the context when \<open>Wait\<close> returns; a nil bus without an error would be a nil dereference. The
  result is the error returned, with what became of each message.
\<close>

definition watcher_Start ::
  "('l, 'w) env \<Rightarrow> ('c, 'w) nats \<Rightarrow> ThreatScoreWatcher \<Rightarrow> 'c Connector \<Rightarrow> err option \<Rightarrow> json option list \<Rightarrow>
   ('l, 'w, err option \<times> disposition list) handler" where
  "watcher_Start env n tw conn ctxErr messages = do {
     r \<leftarrow> warmIndex env;
     case r of
       Some e \<Rightarrow> return (Some (wrap ''populate policy index before subscribing'' e), [])
     | None \<Rightarrow> do {
         scoring_MarkStarted env;
         case Wait conn ctxErr of
           Inl e \<Rightarrow> return (None, [])
         | Inr None \<Rightarrow> return (Some (new_err ''nil pointer dereference''), [])
         | Inr (Some b) \<Rightarrow> do {
             sub \<leftarrow> world (SubscribeThreatScores n b (tw_Subject tw) ''sentinel5g-operator'');
             case sub of
               Some e \<Rightarrow> return (Some (wrap ''subscribe to threat scores'' e), [])
             | None \<Rightarrow> do {
                 ds \<leftarrow> each_always (\<lambda>m. State (on_threat_message (\<lambda>ev. run_state (handle env tw ev)) m)) messages;
                 return (None, ds) } } } }"

definition watcher_NeedLeaderElection :: bool where
  "watcher_NeedLeaderElection = True"

subsection \<open>Sets of blocked sources\<close>

lemma set_appendUnique [simp]: "set (appendUnique xs x) = insert x (set xs)"
  by (auto simp: appendUnique_def)

lemma distinct_appendUnique: "distinct (appendUnique xs x) \<longleftrightarrow> distinct xs"
  by (auto simp: appendUnique_def)

lemma equalStringSet_subset: "equalStringSet a b \<Longrightarrow> set b \<subseteq> set a"
  by (auto simp: equalStringSet_def list_all_iff)

lemma equalStringSet_iff:
  assumes "distinct a" "distinct b"
  shows "equalStringSet a b \<longleftrightarrow> set a = set b"
proof
  assume e: "equalStringSet a b"
  have "card (set a) = card (set b)" using e assms by (simp add: equalStringSet_def distinct_card)
  then show "set a = set b" using card_subset_eq [OF finite_set equalStringSet_subset [OF e]] by simp
next
  assume "set a = set b"
  then show "equalStringSet a b"
    using distinct_card [OF assms(1)] distinct_card [OF assms(2)] by (simp add: equalStringSet_def list_all_iff)
qed

lemma claimed_mono:
  "set (BlockedSourceIPs st) \<subseteq> set (BlockedSourceIPs st') \<Longrightarrow> claimed_ips st \<subseteq> claimed_ips st'"
  "set (BlockedTunnels st) \<subseteq> set (BlockedTunnels st') \<Longrightarrow> claimed_tunnels st \<subseteq> claimed_tunnels st'"
  by (auto simp: claimed_ips_def claimed_tunnels_def)

lemma unchanged_subset:
  assumes "\<not> statusDecisionChanged prev nxt"
  shows "set (BlockedSourceIPs (Status nxt)) \<subseteq> set (BlockedSourceIPs (Status prev))"
    and "set (BlockedTunnels (Status nxt)) \<subseteq> set (BlockedTunnels (Status prev))"
  using assms by (auto simp: statusDecisionChanged_def dest: equalStringSet_subset split: if_splits)

subsection \<open>Everything dropped stays recorded\<close>

text \<open>The next object is made from the previous one by adding claims.\<close>

definition extends :: "Policy \<Rightarrow> Policy \<Rightarrow> bool" where
  "extends prev nxt \<longleftrightarrow> policy_key nxt = policy_key prev \<and> p_ResourceVersion nxt = p_ResourceVersion prev \<and>
     set (BlockedSourceIPs (Status prev)) \<subseteq> set (BlockedSourceIPs (Status nxt)) \<and>
     set (BlockedTunnels (Status prev)) \<subseteq> set (BlockedTunnels (Status nxt))"

context cluster
begin

lemma extends_growing:
  assumes "good w prev" "extends prev nxt"
  shows "growing w nxt"
proof -
  obtain st where st: "hist w (policy_key prev) (p_ResourceVersion prev) = Some st"
      "BlockedSourceIPs st = BlockedSourceIPs (Status prev)" "BlockedTunnels st = BlockedTunnels (Status prev)"
    using assms(1) by (auto simp: good_def reflects_def)
  have "claimed_ips st \<subseteq> claimed_ips (Status nxt)" "claimed_tunnels st \<subseteq> claimed_tunnels (Status nxt)"
    using assms(2) st by (auto simp: extends_def intro!: claimed_mono)
  then show ?thesis using assms(2) st(1) by (simp add: growing_def extends_def)
qed

lemma keeps_updateStatus:
  assumes "prev \<in> X" "extends prev nxt"
  shows "triple (op_inv {} X) (updateStatus env nxt) (\<lambda>r s. op_inv {} X s \<and> (r = None \<longrightarrow> current (stored (o_World s)) nxt))"
proof (rule tripleI)
  fix s r s' assume s: "op_inv {} X s" "run_state (updateStatus env nxt) s = (r, s')"
  obtain x w' where u: "update_status env nxt (o_World s) = (x, w')" by fastforce
  have g: "growing (o_World s) nxt" using extends_growing [OF op_invD(4) [OF s(1) assms(1)] assms(2)] .
  note ok = status_write_ok [OF s(1) u growing_safe [OF g] disjI1 [OF g]]
  show "op_inv {} X s' \<and> (r = None \<longrightarrow> current (stored (o_World s')) nxt)"
  proof (cases x)
    case (Inl e)
    then show ?thesis using s(2) u ok by (auto simp: updateStatus_def)
  next
    case (Inr p')
    then have s': "s' = (s\<lparr>o_World := w'\<rparr>)\<lparr>o_Index := Put p' (o_Index (s\<lparr>o_World := w'\<rparr>)), o_Metrics := o_Metrics s'\<rparr>"
      using s(2) u by (auto simp: updateStatus_def)
    have p': "op_inv (insert (policy_key nxt) {}) X (s\<lparr>o_World := w'\<rparr>)" "good w' p'" "policy_key p' = policy_key nxt"
        "Status p' = Status nxt" "current (stored w') p'"
      using ok Inr by simp_all
    have "op_inv {} X ((s\<lparr>o_World := w'\<rparr>)\<lparr>o_Index := Put p' (o_Index (s\<lparr>o_World := w'\<rparr>))\<rparr>)"
      using put_ok [of p' "{}" X "s\<lparr>o_World := w'\<rparr>"] p' by simp
    then have "op_inv {} X s'" by (subst s') simp
    moreover have "o_World s' = w'" by (subst s') simp
    ultimately show ?thesis using p' by (simp add: current_def)
  qed
qed

lemma keeps_writeStatus:
  assumes "prev \<in> X" "extends prev nxt"
  shows "triple (op_inv {} X) (writeStatus env prev nxt) (\<lambda>r s. op_inv {} X s \<and> (r = None \<longrightarrow> current (stored (o_World s)) nxt))"
proof (cases "statusDecisionChanged prev nxt")
  case True
  then show ?thesis using keeps_updateStatus [OF assms] by (simp add: writeStatus_def)
next
  case False
  have sub: "claimed_ips (Status nxt) \<subseteq> claimed_ips (Status prev)" "claimed_tunnels (Status nxt) \<subseteq> claimed_tunnels (Status prev)"
    using claimed_mono unchanged_subset [OF False] by blast+
  have quiet: "triple (\<lambda>s. op_inv {} X s \<and> calm) (emit ms) (\<lambda>_ s. op_inv {} X s \<and> calm)" for ms
    by (rule quiet_emit)
  have "triple (\<lambda>s. op_inv {} X s \<and> (ok \<or> calm))
      (if ok then updateStatus env nxt
       else do { emit [ReactorThrottled_Inc (p_Namespace nxt) (p_Name nxt)]; return None })
      (\<lambda>r s. op_inv {} X s \<and> (r = None \<longrightarrow> current (stored (o_World s)) nxt))" for ok
  proof (cases ok)
    case True
    then show ?thesis using triple_conseq [OF keeps_updateStatus [OF assms]] by simp
  next
    case False
    have "current (stored (o_World s)) nxt" if "op_inv {} X s" "calm" for s
    proof -
      have "current (stored (o_World s)) prev" using op_invD(4) [OF that(1) assms(1)] that(2) by (rule good_current)
      then show ?thesis using sub assms(2) by (auto simp: current_def extends_def)
    qed
    then have "triple (\<lambda>s. op_inv {} X s \<and> calm)
        (do { emit [ReactorThrottled_Inc (p_Namespace nxt) (p_Name nxt)]; return None })
        (\<lambda>r s. op_inv {} X s \<and> (r = None \<longrightarrow> current (stored (o_World s)) nxt))"
      by (intro triple_bind [OF quiet] triple_return) auto
    then show ?thesis using False by simp
  qed
  moreover have "triple (op_inv {} X) (limiter_allows env k) (\<lambda>ok s. op_inv {} X s \<and> (ok \<or> calm))" for k
    using quiet_allows [of "{}" X "\<lambda>_. True" k] by simp
  ultimately show ?thesis using False by (simp add: writeStatus_def) (rule triple_bind)
qed

lemma keeps_act_block:
  assumes "valid_ip ip" "\<And>st. S st \<Longrightarrow> \<exists>k q. st k = Some q \<and> canon ip \<in> claimed_ips (Status q)"
  shows "triple (holds K X S) (act_block env ip) (\<lambda>_. holds K X S)"
  unfolding act_block_def
  by (rule triple_bind [OF keeps_block [OF assms]])
    (auto split: option.split intro!: triple_bind [OF quiet_emit] quiet_return)

lemma keeps_act_block_tunnel:
  assumes "valid_ip ip" "\<And>st. S st \<Longrightarrow> \<exists>k q. st k = Some q \<and> (canon ip, t) \<in> claimed_tunnels (Status q)"
  shows "triple (holds K X S) (act_block_tunnel env ip t) (\<lambda>_. holds K X S)"
  unfolding act_block_tunnel_def
  by (rule triple_bind [OF keeps_block_tunnel [OF assms]])
    (auto split: option.split intro!: triple_bind [OF quiet_emit] quiet_return)

lemma keeps_act_quarantine: "triple (holds K X S) (act_quarantine env p sel) (\<lambda>_. holds K X S)"
  unfolding act_quarantine_def
  by (rule triple_bind [OF quiet_quarantine])
    (auto split: option.split intro!: triple_bind [OF quiet_emit] quiet_return)

lemma or_fail_keeps:
  "triple P m (\<lambda>_. P) \<Longrightarrow> triple P n (\<lambda>_. P) \<Longrightarrow> triple P (or_fail m n) (\<lambda>_. P)"
  by (rule triple_or_fail) (auto elim: triple_conseq)

end

lemma current_claimed:
  "current st p \<Longrightarrow> d \<in> claimed_ips (Status p) \<Longrightarrow> \<exists>k q. st k = Some q \<and> d \<in> claimed_ips (Status q)"
  "current st p \<Longrightarrow> t \<in> claimed_tunnels (Status p) \<Longrightarrow> \<exists>k q. st k = Some q \<and> t \<in> claimed_tunnels (Status q)"
  by (auto simp: current_def split: option.splits)

lemma intended_claims:
  "bs \<Longrightarrow> ParseIP (ts_SourceIP ev) = Some ip \<Longrightarrow> canon ip \<in> claimed_ips (intended ev bt bs now st)"
  "bt \<Longrightarrow> ParseIP (ts_SourceIP ev) = Some ip \<Longrightarrow> (canon ip, ts_TEID ev) \<in> claimed_tunnels (intended ev bt bs now st)"
  by (force simp: intended_def Let_def claimed_ips_def claimed_tunnels_def parse_format)+

lemma intended_grows:
  "set (BlockedSourceIPs st) \<subseteq> set (BlockedSourceIPs (intended ev bt bs now st))"
  "set (BlockedTunnels st) \<subseteq> set (BlockedTunnels (intended ev bt bs now st))"
  by (auto simp: intended_def Let_def)

lemma extends_status:
  "extends p (p\<lparr>Status := st\<rparr>) \<longleftrightarrow> set (BlockedSourceIPs (Status p)) \<subseteq> set (BlockedSourceIPs st) \<and>
     set (BlockedTunnels (Status p)) \<subseteq> set (BlockedTunnels st)"
  by (simp add: extends_def policy_key_def)

context cluster
begin

lemma keeps_mitigate:
  assumes "policy \<in> X" "latest = with_status (\<lambda>st. st\<lparr>ObservedThreatScore := x\<rparr>) policy"
  shows "triple (op_inv {} X) (mitigate env policy event latest) (\<lambda>_. op_inv {} X)"
proof -
  define acts where "acts = Actions (Spec policy)"
  define ipo where "ipo = ParseIP (ts_SourceIP event)"
  define bt where "bt = (EbpfBlockTunnel acts \<and> ipo \<noteq> None \<and> ts_TEID event \<noteq> 0)"
  define bs where "bs = (EbpfBlock acts \<and> ipo \<noteq> None)"
  define nxt where "nxt now = with_status (intended event bt bs now) latest" for now
  define S where "S now st = current st (nxt now)" for now st
  have quiet: "triple (op_inv {} X) (emit ms) (\<lambda>_. op_inv {} X)" for ms
    using quiet_emit [of "{}" X "\<lambda>_. True"] by simp
  have clock: "triple (op_inv {} X) (world (clock env)) (\<lambda>_. op_inv {} X)"
    using quiet_clock [of "{}" X "\<lambda>_. True"] by simp
  have wr: "triple (op_inv {} X) (writeStatus env policy (nxt now))
      (\<lambda>r s. (r = None \<longrightarrow> holds {} X (S now) s) \<and> (r \<noteq> None \<longrightarrow> op_inv {} X s))" for now
    by (rule triple_conseq [OF keeps_writeStatus [OF assms(1)]])
      (use intended_grows [of "Status latest"] in \<open>auto simp: nxt_def S_def assms(2) extends_status\<close>)
  have tunnel: "triple (holds {} X (S now)) (if bt then act_block_tunnel env (the ipo) (ts_TEID event) else return None)
      (\<lambda>_. holds {} X (S now))" for now
  proof (cases bt)
    case True
    then obtain ip where ip: "ipo = Some ip" by (auto simp: bt_def)
    have "\<exists>k q. st k = Some q \<and> (canon ip, ts_TEID event) \<in> claimed_tunnels (Status q)" if "S now st" for st
      using current_claimed(2) [OF that [unfolded S_def]] intended_claims(2) [OF True, of event ip] ip
      by (simp add: nxt_def ipo_def)
    then show ?thesis using True ip keeps_act_block_tunnel ParseIP_valid by (simp add: ipo_def)
  qed (simp add: quiet_return)
  have source: "triple (holds {} X (S now)) (if bs then act_block env (the ipo) else return None)
      (\<lambda>_. holds {} X (S now))" for now
  proof (cases bs)
    case True
    then obtain ip where ip: "ipo = Some ip" by (auto simp: bs_def)
    have "\<exists>k q. st k = Some q \<and> canon ip \<in> claimed_ips (Status q)" if "S now st" for st
      using current_claimed(1) [OF that [unfolded S_def]] intended_claims(1) [OF True, of event ip] ip
      by (simp add: nxt_def ipo_def)
    then show ?thesis using True ip keeps_act_block ParseIP_valid by (simp add: ipo_def)
  qed (simp add: quiet_return)
  have mesh: "triple (holds {} X (S now)) (case sel of Some l \<Rightarrow> act_quarantine env policy l | None \<Rightarrow> return None)
      (\<lambda>_. holds {} X (S now))" for now sel
    by (cases sel) (simp_all add: quiet_return keeps_act_quarantine)
  have run: "triple (op_inv {} X)
      (or_fail (writeStatus env policy (nxt now))
        (or_fail (if bt then act_block_tunnel env (the ipo) (ts_TEID event) else return None)
        (or_fail (if bs then act_block env (the ipo) else return None)
          (case sel of Some l \<Rightarrow> act_quarantine env policy l | None \<Rightarrow> return None))))
      (\<lambda>_. op_inv {} X)" for now sel
    by (rule triple_or_fail [OF wr], rule triple_conseq [OF or_fail_keeps [OF tunnel or_fail_keeps [OF source mesh]]]) auto
  show ?thesis
    unfolding mitigate_def Let_def acts_def [symmetric] ipo_def [symmetric] bt_def [symmetric] bs_def [symmetric] nxt_def [symmetric]
    by (rule triple_bind [OF quiet], rule triple_bind [OF quiet], rule triple_bind [OF clock], rule run)
qed

lemma keeps_applyPolicy:
  assumes "policy \<in> X"
  shows "triple (op_inv {} X) (applyPolicy env tw policy event) (\<lambda>_. op_inv {} X)"
proof -
  let ?latest = "with_status (\<lambda>st. st\<lparr>ObservedThreatScore := format_4f (ts_Score event)\<rparr>) policy"
  have quiet: "triple (op_inv {} X) (emit ms) (\<lambda>_. op_inv {} X)" for ms
    using quiet_emit [of "{}" X "\<lambda>_. True"] by simp
  have engaged: "triple (op_inv {} X) (killSwitch_Engaged env) (\<lambda>_. op_inv {} X)"
    using quiet_Engaged [of "{}" X "\<lambda>_. True"] by simp
  have wr: "triple (op_inv {} X) (writeStatus env policy nxt) (\<lambda>_. op_inv {} X)" if "extends policy nxt" for nxt
    by (rule triple_conseq [OF keeps_writeStatus [OF assms that]]) auto
  show ?thesis
    unfolding applyPolicy_def Let_def
    by (auto simp: extends_status intro!: wr triple_bind [OF quiet] triple_bind [OF engaged] keeps_mitigate [OF assms refl])
qed

lemma op_inv_weaken: "op_inv K X s \<Longrightarrow> K \<subseteq> K' \<Longrightarrow> X' \<subseteq> X \<Longrightarrow> op_inv K' X' s"
  by (auto simp: op_inv_def)

lemma matching_good:
  assumes "op_inv {} X s" "p \<in> set (MatchingPolicies (walk env) (o_Index s) ns ls)"
  shows "good (o_World s) p"
  using MatchingPolicies_spec [OF op_invD(2) [OF assms(1)] walks] assms op_invD(5) [OF assms(1)] by blast

lemma keeps_handle: "triple (op_inv {} {}) (handle env tw event) (\<lambda>_. op_inv {} {})"
proof -
  note quiet = quiet_emit [of "{}" "{}" "\<lambda>_. True", simplified] quiet_Observe [of "{}" "{}" "\<lambda>_. True", simplified]
    quiet_get_pod [of "{}" "{}" "\<lambda>_. True", simplified]
  have apply_all: "triple (\<lambda>s. op_inv {} {} s \<and> idx = o_Index s)
      (do { each_always (\<lambda>policy. applyPolicy env tw policy event) (MatchingPolicies (walk env) idx ns ls); return None })
      (\<lambda>_. op_inv {} {})" for idx ns ls
  proof -
    let ?ps = "MatchingPolicies (walk env) idx ns ls"
    have "triple (op_inv {} (set ?ps)) (each_always (\<lambda>policy. applyPolicy env tw policy event) ?ps) (\<lambda>_. op_inv {} (set ?ps))"
      by (rule triple_each_always) (rule keeps_applyPolicy)
    moreover have "op_inv {} (set ?ps) s" if "op_inv {} {} s \<and> idx = o_Index s" for s
    proof -
      have "\<forall>p \<in> set ?ps. good (o_World s) p" using matching_good [of "{}" s] that by blast
      then show ?thesis using that by (simp add: op_inv_def)
    qed
    ultimately have "triple (\<lambda>s. op_inv {} {} s \<and> idx = o_Index s)
        (each_always (\<lambda>policy. applyPolicy env tw policy event) ?ps) (\<lambda>_. op_inv {} {})"
      by (rule triple_conseq) (assumption, erule op_inv_weaken, simp_all)
    then show ?thesis by (rule triple_bind) (simp add: triple_return)
  qed
  have get: "triple (op_inv {} {}) index_get (\<lambda>idx s. op_inv {} {} s \<and> idx = o_Index s)"
    by (rule tripleI) auto
  show ?thesis unfolding handle_def
    by (rule triple_bind [OF quiet(1)], rule triple_bind [OF quiet(2)], rule triple_bind [OF quiet(3)])
      (auto split: sum.split intro!: triple_return triple_bind [OF get apply_all])
qed

lemma keeps_warmIndex: "triple (op_inv {} {}) (warmIndex env) (\<lambda>_. op_inv {} {})"
proof -
  have list: "triple (op_inv {} {}) (world (list_policies env)) (\<lambda>r s. case r of Inl e \<Rightarrow> op_inv {} {} s | Inr ps \<Rightarrow> op_inv {} (set ps) s)"
  proof (rule tripleI)
    fix s r s' assume s: "op_inv {} {} s" "run_state (world (list_policies env)) s = (r, s')"
    have o: "op_inv {} {} s'" using tripleD [OF quiet_list [of "{}" "{}" "\<lambda>_. True"] _ s(2)] s(1) by simp
    obtain w' where w': "list_policies env (o_World s) = (r, w')" "o_World s' = w'" using s(2) by (auto split: prod.splits)
    have same: "stored w' = stored (o_World s)" "hist w' = hist (o_World s)"
      using neutral [OF op_invD(1) [OF s(1)], of w'] w'(1) by simp_all
    show "case r of Inl e \<Rightarrow> op_inv {} {} s' | Inr ps \<Rightarrow> op_inv {} (set ps) s'"
    proof (cases r)
      case (Inr ps)
      have "good w' p" if "p \<in> set ps" for p
        using listed [OF op_invD(1) [OF s(1)] w'(1) [unfolded Inr] that] same
        by (auto simp: good_def reflects_def current_def)
      then show ?thesis using o w'(2) Inr by (simp add: op_inv_def)
    qed (use o in simp)
  qed
  have put: "triple (op_inv {} X) (index_Put p) (\<lambda>_. op_inv {} X)" if "p \<in> X" for p X
  proof (rule tripleI)
    fix s r s' assume s: "op_inv {} X s" "run_state (index_Put p) s = (r, s')"
    have "op_inv {policy_key p} X s" using s(1) by (rule op_inv_weaken) auto
    from put_ok [OF this op_invD(4) [OF s(1) that]] show "op_inv {} X s'" using s(2) by auto
  qed
  have all: "triple (op_inv {} (set ps)) (do { each_always index_Put (filter f ps); return None }) (\<lambda>_. op_inv {} {})" for ps f
    by (rule triple_bind [OF triple_each_always [where I = "op_inv {} (set ps)"]])
      (auto intro!: put triple_return elim: op_inv_weaken)
  show ?thesis unfolding warmIndex_def
    by (rule triple_bind [OF list]) (auto split: sum.split intro!: all triple_return)
qed

end

subsection \<open>What a score can do to the kernel\<close>

definition event_ips :: "ThreatScoreEvent \<Rightarrow> bytes set" where
  "event_ips event = (case ParseIP (ts_SourceIP event) of None \<Rightarrow> {} | Some ip \<Rightarrow> {canon ip})"

definition event_tunnels :: "ThreatScoreEvent \<Rightarrow> (bytes \<times> u32) set" where
  "event_tunnels event = (case ParseIP (ts_SourceIP event) of None \<Rightarrow> {} | Some ip \<Rightarrow> {(canon ip, ts_TEID event)})"

lemma triple_if_dep: "(c \<Longrightarrow> triple P m Q) \<Longrightarrow> (\<not> c \<Longrightarrow> triple P n Q) \<Longrightarrow> triple P (if c then m else n) Q"
  by simp

lemma triple_or_fail_same: "triple P m (\<lambda>_. P) \<Longrightarrow> triple P n (\<lambda>_. P) \<Longrightarrow> triple P (or_fail m n) (\<lambda>_. P)"
  by (rule triple_or_fail) (auto elim: triple_conseq)

context cluster
begin

lemma still_updateStatus: "triple (kernel_ok Q) (updateStatus env p) (\<lambda>_. kernel_ok Q)"
  unfolding updateStatus_def
  by (rule triple_bind [OF still_writes(1)]) (auto split: sum.split intro!: triple_bind [OF still_local(3)] triple_bind [OF still_local(1)] still_local(5))

lemma still_writeStatus: "triple (kernel_ok Q) (writeStatus env prev nxt) (\<lambda>_. kernel_ok Q)"
  unfolding writeStatus_def
  by (rule triple_if [OF still_updateStatus triple_bind [OF still_shared(5) triple_if [OF still_updateStatus triple_bind [OF still_local(1) still_local(5)]]]])

lemma adds_mitigate:
  fixes D T event
  defines "Q \<equiv> (\<lambda>d t. (D \<subseteq> d \<and> d \<subseteq> D \<union> event_ips event) \<and> T \<subseteq> t \<and> t \<subseteq> T \<union> event_tunnels event)"
  shows "triple (kernel_ok Q) (mitigate env policy event latest) (\<lambda>_. kernel_ok Q)"
proof -
  have source: "triple (kernel_ok Q) (act_block env ip) (\<lambda>_. kernel_ok Q)" if ip: "ParseIP (ts_SourceIP event) = Some ip" for ip
  proof -
    have "Q = (\<lambda>d t. D \<subseteq> d \<and> d \<subseteq> insert (canon ip) D \<and> T \<subseteq> t \<and> t \<subseteq> T \<union> event_tunnels event)"
      by (simp add: Q_def event_ips_def ip conj_assoc)
    then have "triple (kernel_ok Q) (world (Block (updater env) ip)) (\<lambda>_. kernel_ok Q)"
      using block_adds [OF ParseIP_valid [OF ip], of D "\<lambda>t. T \<subseteq> t \<and> t \<subseteq> T \<union> event_tunnels event"] by metis
    then show ?thesis unfolding act_block_def
      by (rule triple_bind) (auto split: option.split intro!: triple_bind [OF still_local(1)] still_local(5))
  qed
  have tunnel: "triple (kernel_ok Q) (act_block_tunnel env ip (ts_TEID event)) (\<lambda>_. kernel_ok Q)"
    if ip: "ParseIP (ts_SourceIP event) = Some ip" for ip
  proof -
    have "Q = (\<lambda>d t. (D \<subseteq> d \<and> d \<subseteq> D \<union> event_ips event) \<and> T \<subseteq> t \<and> t \<subseteq> insert (canon ip, ts_TEID event) T)"
      by (simp add: Q_def event_tunnels_def ip)
    then have "triple (kernel_ok Q) (world (BlockTunnel (updater env) ip (ts_TEID event))) (\<lambda>_. kernel_ok Q)"
      using block_tunnel_adds [OF ParseIP_valid [OF ip], of "\<lambda>d. D \<subseteq> d \<and> d \<subseteq> D \<union> event_ips event" T "ts_TEID event"] by metis
    then show ?thesis unfolding act_block_tunnel_def
      by (rule triple_bind) (auto split: option.split intro!: triple_bind [OF still_local(1)] still_local(5))
  qed
  have mesh: "triple (kernel_ok Q) (act_quarantine env policy sel) (\<lambda>_. kernel_ok Q)" for sel
    unfolding act_quarantine_def
    by (rule triple_bind [OF still_neutral(5)]) (auto split: option.split intro!: triple_bind [OF still_local(1)] still_local(5))
  show ?thesis unfolding mitigate_def Let_def
    by (rule triple_bind [OF still_local(1)], rule triple_bind [OF still_local(1)], rule triple_bind [OF still_neutral(1)])
      (auto intro!: triple_or_fail_same triple_if_dep still_writeStatus source tunnel mesh still_local(5) split: option.split)
qed

lemma adds_handle:
  fixes D T event
  defines "Q \<equiv> (\<lambda>d t. (D \<subseteq> d \<and> d \<subseteq> D \<union> event_ips event) \<and> T \<subseteq> t \<and> t \<subseteq> T \<union> event_tunnels event)"
  shows "triple (kernel_ok Q) (handle env tw event) (\<lambda>_. kernel_ok Q)"
proof -
  have app: "triple (kernel_ok Q) (applyPolicy env tw policy event) (\<lambda>_. kernel_ok Q)" for policy
    unfolding applyPolicy_def Let_def
    by (auto intro!: still_writeStatus triple_bind [OF still_local(1)] triple_bind [OF still_shared(4)]
        adds_mitigate [of D event T, folded Q_def])
  have all: "triple (kernel_ok Q) (do { each_always (\<lambda>p. applyPolicy env tw p event) ps; return x }) (\<lambda>_. kernel_ok Q)" for ps and x :: "err option"
    by (rule triple_bind [OF triple_each_always still_local(5)]) (rule app)
  show ?thesis unfolding handle_def
    by (rule triple_bind [OF still_local(1)], rule triple_bind [OF still_shared(1)], rule triple_bind [OF still_neutral(2)])
      (auto split: sum.split intro!: still_local(5) triple_bind [OF still_local(2)] all)
qed

end

context cluster
begin

lemma enforces_act_block:
  assumes "valid_ip ip" "\<And>d t. Q d t \<Longrightarrow> R (insert (canon ip) d) t"
  shows "triple (kernel_ok Q) (act_block env ip) (\<lambda>r s. r = None \<longrightarrow> kernel_ok R s)"
proof (rule tripleI)
  fix s r s' assume s: "kernel_ok Q s" "run_state (act_block env ip) s = (r, s')"
  obtain x w' where b: "Block (updater env) ip (o_World s) = (x, w')" by fastforce
  have i: "inv (o_World s)" using s(1) by (simp add: kernel_ok_def)
  show "r = None \<longrightarrow> kernel_ok R s'"
    using s b block [OF i assms(1) b] assms(2) by (auto simp: act_block_def kernel_ok_def split: option.splits)
qed

lemma enforces_act_block_tunnel:
  assumes "valid_ip ip" "\<And>d t. Q d t \<Longrightarrow> R d (insert (canon ip, x) t)"
  shows "triple (kernel_ok Q) (act_block_tunnel env ip x) (\<lambda>r s. r = None \<longrightarrow> kernel_ok R s)"
proof (rule tripleI)
  fix s r s' assume s: "kernel_ok Q s" "run_state (act_block_tunnel env ip x) s = (r, s')"
  obtain y w' where b: "BlockTunnel (updater env) ip x (o_World s) = (y, w')" by fastforce
  have i: "inv (o_World s)" using s(1) by (simp add: kernel_ok_def)
  show "r = None \<longrightarrow> kernel_ok R s'"
    using s b block_tunnel [OF i assms(1) b] assms(2) by (auto simp: act_block_tunnel_def kernel_ok_def split: option.splits)
qed

lemma still_act_quarantine: "triple (kernel_ok Q) (act_quarantine env policy sel) (\<lambda>_. kernel_ok Q)"
  unfolding act_quarantine_def
  by (rule triple_bind [OF still_neutral(5)]) (auto split: option.split intro!: triple_bind [OF still_local(1)] still_local(5))

lemma triple_success:
  assumes "triple P m (\<lambda>r s. r = None \<longrightarrow> R s)" "triple R n (\<lambda>r s. r = None \<longrightarrow> Q s)"
  shows "triple P (or_fail m n) (\<lambda>r s. r = None \<longrightarrow> Q s)"
  by (rule triple_or_fail [OF triple_conseq [OF assms(1)] assms(2)]) auto

lemma triple_true: "triple P m (\<lambda>r s. r = None \<longrightarrow> True)"
  by (simp add: triple_def)

lemma mitigate_enforces:
  fixes policy event
  defines "acts \<equiv> Actions (Spec policy)"
  assumes ip: "ParseIP (ts_SourceIP event) = Some ip"
  shows "triple (kernel_ok (\<lambda>_ _. True)) (mitigate env policy event latest)
    (\<lambda>r s. r = None \<longrightarrow> kernel_ok (\<lambda>d t. (EbpfBlock acts \<longrightarrow> canon ip \<in> d) \<and>
       (EbpfBlockTunnel acts \<and> ts_TEID event \<noteq> 0 \<longrightarrow> (canon ip, ts_TEID event) \<in> t)) s)"
proof -
  let ?T = "\<lambda>(d :: bytes set) t. EbpfBlockTunnel acts \<and> ts_TEID event \<noteq> 0 \<longrightarrow> (canon ip, ts_TEID event) \<in> t"
  let ?B = "\<lambda>d t. (EbpfBlock acts \<longrightarrow> canon ip \<in> d) \<and> ?T d t"
  note v = ParseIP_valid [OF ip]
  have w: "triple (kernel_ok (\<lambda>_ _. True)) (writeStatus env policy nxt) (\<lambda>r s. r = None \<longrightarrow> kernel_ok (\<lambda>_ _. True) s)" for nxt
    by (rule triple_conseq [OF still_writeStatus]) auto
  have t: "triple (kernel_ok (\<lambda>_ _. True))
      (if EbpfBlockTunnel acts \<and> Some ip \<noteq> None \<and> ts_TEID event \<noteq> 0
       then act_block_tunnel env (the (Some ip)) (ts_TEID event) else return None)
      (\<lambda>r s. r = None \<longrightarrow> kernel_ok ?T s)"
    unfolding option.sel
    by (rule triple_if_dep [OF enforces_act_block_tunnel [OF v] triple_return]) (auto simp: kernel_ok_def)
  have b: "triple (kernel_ok ?T) (if EbpfBlock acts \<and> Some ip \<noteq> None then act_block env (the (Some ip)) else return None)
      (\<lambda>r s. r = None \<longrightarrow> kernel_ok ?B s)"
    unfolding option.sel
    by (rule triple_if_dep [OF enforces_act_block [OF v] triple_return]) (auto simp: kernel_ok_def)
  have m: "triple (kernel_ok ?B) (case sel of Some l \<Rightarrow> act_quarantine env policy l | None \<Rightarrow> return None)
      (\<lambda>r s. r = None \<longrightarrow> kernel_ok ?B s)" for sel
    by (cases sel) (auto intro!: triple_conseq [OF still_act_quarantine] triple_return)
  show ?thesis
    unfolding mitigate_def Let_def acts_def [symmetric] ip
    by (rule triple_bind [OF still_local(1)], rule triple_bind [OF still_local(1)], rule triple_bind [OF still_neutral(1)],
      rule triple_success [OF w triple_success [OF t triple_success [OF b m]]])
qed

end

text \<open>
  C7: mitigation is precise, and repeating a delivery is harmless. Whatever policies match, whatever fails and
  however often the message is delivered, handling a score never takes a drop away and adds at most
  the address the score names and its tunnel: no other source and no other tunnel is ever blocked
  because of it.
\<close>

theorem score_blocks_only_its_source:
  assumes "cluster env ins winv drops tdrops stored hist calm" "winv (o_World s)"
    and "run_state (handle env tw event) s = (r, s')"
  shows "drops (o_World s) \<subseteq> drops (o_World s') \<and> drops (o_World s') \<subseteq> drops (o_World s) \<union> event_ips event \<and>
    tdrops (o_World s) \<subseteq> tdrops (o_World s') \<and> tdrops (o_World s') \<subseteq> tdrops (o_World s) \<union> event_tunnels event"
  using tripleD [OF cluster.adds_handle [OF assms(1), of "drops (o_World s)" event "tdrops (o_World s)"] _ assms(3)] assms(2)
  by (simp add: cluster.kernel_ok_def [OF assms(1)])

text \<open>A cluster with one policy and one Pod, and a score for that Pod.\<close>

definition demo_pod :: Pod where
  "demo_pod = \<lparr>pod_Namespace = ''core'', pod_Name = ''upf-0'', pod_Labels = [(''app'', ''upf'')], pod_PodIP = ''10.1.0.7''\<rparr>"

definition demo_world :: sim where
  "demo_world = sim_create sample_policy (sim_start\<lparr>s_pods := [(NsName ''core'' ''upf-0'', demo_pod)]\<rparr>)"

definition demo_watcher :: ThreatScoreWatcher where
  "demo_watcher = \<lparr>tw_Subject = ''threats'', tw_BaseThreshold = 8 / 10\<rparr>"

definition demo_policy :: Policy where
  "demo_policy = sample_policy\<lparr>p_ResourceVersion := []\<rparr>"

definition demo_op :: "(nat, sim) op" where
  "demo_op = \<lparr>o_Index = Put demo_policy NewPolicyIndex, o_Scoring = None, o_KillSwitch = None, o_ActionLimiter = None,
     o_Metrics = [], o_World = demo_world\<rparr>"

definition demo_score :: ThreatScoreEvent where
  "demo_score = zero_score\<lparr>ts_Namespace := ''core'', ts_PodName := ''upf-0'', ts_SourceIP := ''10.0.0.1'', ts_TEID := 7, ts_Score := 1\<rparr>"

lemma demo_world_inv: "sim_inv demo_world"
proof -
  have i: "sim_inv (sim_start\<lparr>s_pods := ps\<rparr>)" for ps using sim_start_inv by (simp add: sim_inv_def)
  obtain q w where "sim_store sample_policy (sim_start\<lparr>s_pods := [(NsName ''core'' ''upf-0'', demo_pod)]\<rparr>) = (q, w)" by fastforce
  then show ?thesis using sim_store_effect [OF i] by (simp add: demo_world_def sim_create_def)
qed

lemma demo_stored: "map_of (s_policies demo_world) (policy_key demo_policy) = Some demo_policy"
  by (simp add: demo_world_def sim_create_def sim_store_def Let_def policy_key_def sample_policy_def demo_policy_def)

lemma demo_world_parts: "s_kernel demo_world = mem_kernel" "\<not> s_apiDown demo_world"
  by (simp_all add: demo_world_def sim_create_def sim_store_def Let_def)

lemma demo_op_simps [simp]: "o_World demo_op = demo_world" "o_KillSwitch demo_op = None" "o_ActionLimiter demo_op = None"
  by (simp_all add: demo_op_def)

theorem score_blocks_only_its_source_witness:
  "sim_drops (o_World (snd (run_state (handle sim_env demo_watcher demo_score) demo_op))) \<subseteq>
     sim_drops demo_world \<union> event_ips demo_score"
proof -
  obtain r s' where h: "run_state (handle sim_env demo_watcher demo_score) demo_op = (r, s')" by fastforce
  show ?thesis
    using score_blocks_only_its_source [OF sim_cluster.cluster_axioms _ h] demo_world_inv h by simp
qed

text \<open>
  C6: a mitigation reported as successful is in force. When a score reaches the threshold of an armed policy
  (\<open>autoMitigate\<close> on, kill switch not engaged) and \<open>applyPolicy\<close> returns no error, the kernel drops the source
  address if \<open>ebpfBlock\<close> is on, and the tunnel if \<open>ebpfBlockTunnel\<close> is on and the score carries a TEID, even
  when the status write was throttled.
\<close>

theorem mitigation_in_force:
  assumes "cluster env ins winv drops tdrops stored hist calm" "winv (o_World s)"
    and "threshold_of tw policy \<le> ts_Score event" "AutoMitigate (ThreatDetection (Spec policy))"
    and "\<not> fst (run_state (killSwitch_Engaged env) s)" "ParseIP (ts_SourceIP event) = Some ip"
    and "run_state (applyPolicy env tw policy event) s = (None, s')"
  shows "(EbpfBlock (Actions (Spec policy)) \<longrightarrow> canon ip \<in> drops (o_World s')) \<and>
    (EbpfBlockTunnel (Actions (Spec policy)) \<and> ts_TEID event \<noteq> 0 \<longrightarrow> (canon ip, ts_TEID event) \<in> tdrops (o_World s'))"
proof -
  let ?latest = "with_status (\<lambda>st. st\<lparr>ObservedThreatScore := format_4f (ts_Score event)\<rparr>) policy"
  obtain s1 where e: "run_state (killSwitch_Engaged env) s = (False, s1)" using assms(5) by (cases "run_state (killSwitch_Engaged env) s") auto
  have k: "cluster.kernel_ok winv drops tdrops (\<lambda>_ _. True) s1"
    using tripleD [OF cluster.still_shared(4) [OF assms(1)] _ e, of "\<lambda>_ _. True"] assms(2)
    by (simp add: cluster.kernel_ok_def [OF assms(1)])
  have "run_state (mitigate env policy event ?latest) s1 = (None, s')"
    using assms(3,4,7) e by (simp add: applyPolicy_def Let_def)
  from tripleD [OF cluster.mitigate_enforces [OF assms(1,6)] k this] show ?thesis
    by (simp add: cluster.kernel_ok_def [OF assms(1)])
qed

lemma demo_applies_any:
  fixes s :: "(nat, sim) op"
  assumes ev: "ts_Score ev = 1" "ts_SourceIP ev = ''10.0.0.1''" "ts_TEID ev = 7" and s: "o_World s = demo_world" "o_KillSwitch s = None"
  shows "\<exists>s' ms. run_state (applyPolicy sim_env demo_watcher demo_policy ev) s = (None, s') \<and> o_Metrics s' = o_Metrics s @ ms \<and>
    Mitigations_Inc ''ebpf_block_tunnel'' ''success'' \<in> set ms \<and>
    (\<exists>k2. Loader_BlockTunnel (v4InV6Prefix @ [10, 0, 0, 1]) 7 mem_kernel = (None, k2) \<and>
       Loader_Block (v4InV6Prefix @ [10, 0, 0, 1]) k2 = (None, s_kernel (o_World s')))"
proof -
  define st where "st now = intended ev True True now (Status demo_policy\<lparr>ObservedThreatScore := format_4f 1\<rparr>)" for now
  obtain p' w1 where w1: "sim_update_status (demo_policy\<lparr>Status := st 0\<rparr>) demo_world = (Inr p', w1)" "s_kernel w1 = mem_kernel"
    using sim_status_accepts [OF demo_world_parts(2), of "demo_policy\<lparr>Status := st 0\<rparr>" demo_policy] demo_stored demo_world_parts(1)
    by (auto simp: policy_key_def)
  have v: "valid_ip (v4InV6Prefix @ [10, 0, 0, 1])" by (rule ParseIP_valid [OF ParseIP_sample])
  have m: "k_sys mem_kernel = mem_sys" by (simp add: mem_kernel_def)
  obtain k2 where k2: "Loader_BlockTunnel (v4InV6Prefix @ [10, 0, 0, 1]) 7 mem_kernel = (None, k2)" "k_sys k2 = mem_sys"
    using mem_never_fails(3) [OF m v, of 7] by auto
  obtain k3 where k3: "Loader_Block (v4InV6Prefix @ [10, 0, 0, 1]) k2 = (None, k3)"
    using mem_never_fails(1) [OF k2(2) v] by auto
  have changed: "statusDecisionChanged demo_policy (demo_policy\<lparr>Status := st now\<rparr>)" for now
    by (simp add: statusDecisionChanged_def st_def intended_def demo_policy_def sample_policy_def Let_def)
  have now: "s_now demo_world = 0" by (simp add: demo_world_def sim_create_def sim_store_def Let_def)
  have acts: "Actions (Spec demo_policy) = \<lparr>EbpfBlock = True, EbpfBlockTunnel = True, IsolatePod = True\<rparr>"
     "AutoMitigate (ThreatDetection (Spec demo_policy))" "threshold_of demo_watcher demo_policy \<le> 1"
     "TargetWorkloads (Spec demo_policy) = [selector_app ''upf'']"
    by (simp_all add: demo_policy_def sample_policy_def threshold_of_def Let_def)
  have "run_state (killSwitch_Engaged sim_env) s = (False, s)"
    using s by (simp add: killSwitch_Engaged_def Engaged_def)
  then show ?thesis
    using acts s ev
    by (simp add: applyPolicy_def mitigate_def Let_def ParseIP_sample run_or_fail now st_def [symmetric] writeStatus_def changed updateStatus_def w1
        act_block_tunnel_def act_block_def sim_updater_def on_kernel_def k2 k3 act_quarantine_def selector_app_def)
qed

lemma demo_applies: "\<exists>s'. run_state (applyPolicy sim_env demo_watcher demo_policy demo_score) demo_op = (None, s')"
  using demo_applies_any [of demo_score demo_op] by (auto simp: demo_score_def)

theorem mitigation_in_force_witness:
  "canon (v4InV6Prefix @ [10, 0, 0, 1]) \<in>
     sim_drops (o_World (snd (run_state (applyPolicy sim_env demo_watcher demo_policy demo_score) demo_op)))"
proof -
  obtain s' where run: "run_state (applyPolicy sim_env demo_watcher demo_policy demo_score) demo_op = (None, s')"
    using demo_applies by blast
  have "threshold_of demo_watcher demo_policy \<le> ts_Score demo_score" "AutoMitigate (ThreatDetection (Spec demo_policy))"
      "EbpfBlock (Actions (Spec demo_policy))" "ParseIP (ts_SourceIP demo_score) = Some (v4InV6Prefix @ [10, 0, 0, 1])"
    by (simp_all add: demo_policy_def sample_policy_def threshold_of_def Let_def demo_score_def ParseIP_sample)
  then show ?thesis
    using mitigation_in_force [OF sim_cluster.cluster_axioms _ _ _ _ _ run] demo_world_inv run
    by (simp add: killSwitch_Engaged_def Engaged_def)
qed



subsection \<open>An API outage\<close>

lemma triple_and: "triple P m (\<lambda>_. P) \<Longrightarrow> triple P' m (\<lambda>_. P') \<Longrightarrow> triple (\<lambda>s. P s \<and> P' s) m (\<lambda>_ s. P s \<and> P' s)"
  unfolding triple_def by blast

lemma unlimited:
  "triple (\<lambda>s. o_ActionLimiter s = None) (emit ms) (\<lambda>_ s. o_ActionLimiter s = None)"
  "triple (\<lambda>s. o_ActionLimiter s = None) (world f) (\<lambda>_ s. o_ActionLimiter s = None)"
  "triple (\<lambda>s. o_ActionLimiter s = None) (scoring_Observe env) (\<lambda>_ s. o_ActionLimiter s = None)"
  "triple (\<lambda>s. o_ActionLimiter s = None) (killSwitch_Engaged env) (\<lambda>_ s. o_ActionLimiter s = None)"
  "triple (\<lambda>s. o_ActionLimiter s = None) (limiter_allows env k) (\<lambda>ok s. o_ActionLimiter s = None \<and> ok)"
  by (rule tripleI, auto simp: scoring_Observe_def killSwitch_Engaged_def limiter_allows_def Allow_nil split: option.splits prod.splits)+

context cluster
begin

lemma outage_handle:
  assumes out: "\<And>p w. isl (fst (update_status env p w))"
  shows "triple (\<lambda>s. kernel_ok Q s \<and> o_ActionLimiter s = None) (handle env tw event) (\<lambda>_ s. kernel_ok Q s \<and> o_ActionLimiter s = None)"
proof -
  let ?P = "\<lambda>s. kernel_ok Q s \<and> o_ActionLimiter s = None"
  note em = triple_and [OF still_local(1) unlimited(1)]
  have up: "triple ?P (updateStatus env p) (\<lambda>r s. r \<noteq> None \<and> ?P s)" for p
  proof (rule tripleI)
    fix s r s' assume s: "?P s" "run_state (updateStatus env p) s = (r, s')"
    obtain e w' where u: "update_status env p (o_World s) = (Inl e, w')"
      using out [of p "o_World s"] by (cases "update_status env p (o_World s)") (auto simp: isl_def)
    then have s': "r \<noteq> None" "o_ActionLimiter s' = None" using s by (auto simp: updateStatus_def)
    then show "r \<noteq> None \<and> ?P s'" using tripleD [OF still_updateStatus _ s(2), of Q] s(1) by blast
  qed
  have al: "triple ?P (limiter_allows env k) (\<lambda>ok s. ok \<and> ?P s)" for k
  proof (rule tripleI)
    fix s r s' assume s: "?P s" "run_state (limiter_allows env k) s = (r, s')"
    have "o_ActionLimiter s' = None \<and> r" by (rule tripleD [OF unlimited(5) _ s(2)]) (use s(1) in simp)
    moreover have "kernel_ok Q s'" by (rule tripleD [OF still_shared(5) _ s(2)]) (use s(1) in simp)
    ultimately show "r \<and> ?P s'" by simp
  qed
  have wr: "triple ?P (writeStatus env prev nxt) (\<lambda>r s. r \<noteq> None \<and> ?P s)" for prev nxt
    unfolding writeStatus_def
  proof (rule triple_if [OF up], rule triple_bind [OF al])
    show "triple (\<lambda>s. ok \<and> ?P s) (if ok then updateStatus env nxt
        else do { emit [ReactorThrottled_Inc (p_Namespace nxt) (p_Name nxt)]; return None }) (\<lambda>r s. r \<noteq> None \<and> ?P s)" for ok
    proof (cases ok)
      case True
      then show ?thesis using up by simp
    next
      case False
      then show ?thesis by (simp add: triple_def)
    qed
  qed
  have wr': "triple ?P (writeStatus env prev nxt) (\<lambda>_. ?P)" for prev nxt by (rule triple_conseq [OF wr]) auto
  have stop: "triple ?P (or_fail (writeStatus env prev nxt) n) (\<lambda>_. ?P)" for prev nxt n
  proof (rule triple_or_fail)
    show "triple ?P (writeStatus env prev nxt) (\<lambda>r s. (r = None \<longrightarrow> False) \<and> (r \<noteq> None \<longrightarrow> ?P s))" by (rule triple_conseq [OF wr]) auto
    show "triple (\<lambda>s. False) n (\<lambda>_. ?P)" by (simp add: triple_def)
  qed
  have mit: "triple ?P (mitigate env policy event latest) (\<lambda>_. ?P)" for policy latest
    unfolding mitigate_def Let_def
    by (rule triple_bind [OF em], rule triple_bind [OF em], rule triple_bind [OF triple_and [OF still_neutral(1) unlimited(2)]], rule stop)
  have app: "triple ?P (applyPolicy env tw policy event) (\<lambda>_. ?P)" for policy
    unfolding applyPolicy_def Let_def
    by (auto intro!: wr' mit triple_bind [OF em] triple_bind [OF triple_and [OF still_shared(4) unlimited(4)]])
  have ret: "triple ?P (return x) (\<lambda>_. ?P)" for x :: "err option" by (rule triple_return)
  have all: "triple ?P (do { each_always (\<lambda>p. applyPolicy env tw p event) ps; return x }) (\<lambda>_. ?P)" for ps and x :: "err option"
    by (rule triple_bind [OF triple_each_always ret]) (rule app)
  have ix: "triple ?P index_get (\<lambda>_. ?P)" by (rule tripleI) auto
  show ?thesis unfolding handle_def
    by (rule triple_bind [OF em], rule triple_bind [OF triple_and [OF still_shared(1) unlimited(3)]],
        rule triple_bind [OF triple_and [OF still_neutral(2) unlimited(2)]])
      (auto split: sum.split intro!: ret triple_bind [OF ix] all)
qed

end

text \<open>
  C12: nothing is blocked that could not be recorded. While the API server refuses every status write, for whatever
  reason, and status writes are not throttled, no score of any strength changes what the kernel drops.
\<close>

theorem outage_blocks_nothing:
  assumes "cluster env ins winv drops tdrops stored hist calm" "winv (o_World s)" "o_ActionLimiter s = None"
    and "\<forall>p w. isl (fst (update_status env p w))"
    and "run_state (handle env tw event) s = (r, s')"
  shows "drops (o_World s') = drops (o_World s) \<and> tdrops (o_World s') = tdrops (o_World s)"
proof -
  have "cluster.kernel_ok winv drops tdrops (\<lambda>d t. d = drops (o_World s) \<and> t = tdrops (o_World s)) s' \<and> o_ActionLimiter s' = None"
    by (rule tripleD [OF cluster.outage_handle [OF assms(1) assms(4) [rule_format]] _ assms(5)])
      (simp add: cluster.kernel_ok_def [OF assms(1)] assms(2,3))
  then show ?thesis by (simp add: cluster.kernel_ok_def [OF assms(1)])
qed

definition outage_env :: "(nat, sim) env" where
  "outage_env = sim_env\<lparr>update_status := (\<lambda>p w. (Inl unreachable, w))\<rparr>"

lemma outage_cluster: "cluster outage_env sim_inspector sim_inv sim_drops sim_tdrops sim_stored sim_hist True"
proof -
  note c = sim_cluster.cluster_axioms
  have f: "updater outage_env = updater sim_env" by (simp add: outage_env_def)
  have e: "enforcer (updater outage_env) sim_inspector sim_inv sim_drops sim_tdrops" unfolding f by (rule sim_enforcer)
  show ?thesis
  proof (rule cluster.intro [OF e], rule cluster_axioms.intro, goal_cases)
    case (1 w w' k l ns sel obj reason)
    then show ?case using sim_cluster.neutral [of w w' k l ns sel obj reason] by (simp add: outage_env_def)
  next
    case (2 w w' ip t)
    then show ?case using sim_cluster.kernel_only [of w w' ip t] by (simp add: outage_env_def)
  next
    case (3 w k q)
    then show ?case by (rule sim_cluster.stored_hist)
  next
    case (4 w k p w')
    then show ?case using sim_cluster.get [of w k p w'] by (simp add: outage_env_def)
  next
    case (5 w ps w' p)
    then show ?case using sim_cluster.listed [of w ps w' p] by (simp add: outage_env_def)
  next
    case (6 w p r w')
    then show ?case by (auto simp: outage_env_def)
  next
    case (7 w p r w')
    then show ?case using sim_cluster.object_write [of w p r w'] by (simp add: outage_env_def)
  next
    case 8
    then show ?case using sim_cluster.library by (simp add: outage_env_def)
  next
    case 9
    then show ?case using sim_cluster.walks by (simp add: outage_env_def)
  qed
qed

theorem outage_blocks_nothing_witness:
  "sim_drops (o_World (snd (run_state (handle outage_env demo_watcher demo_score) demo_op))) = sim_drops demo_world"
proof -
  obtain r s' where h: "run_state (handle outage_env demo_watcher demo_score) demo_op = (r, s')" by fastforce
  show ?thesis
    using outage_blocks_nothing [OF outage_cluster _ _ _ h] demo_world_inv h by (simp add: outage_env_def)
qed

end
