(* ===== verification/Policy_Reconciler.thy ===== *)
theory Policy_Reconciler
  imports Threat_Watcher
begin

text \<open>
  The reconciler of policies (\<open>pkg/controller/telecomsecuritypolicy_controller.go\<close>): it admits a policy,
  keeps its conditions, reverses its mitigations after a quiet period and releases them when it is
  deleted. \<open>Blocklist\<close> and \<open>Mesh\<close> are wired, as \<open>cmd/operator/main.go\<close> always does; \<open>Now\<close> is the
  clock of the environment. The object the source updates in place is threaded through the calls.
\<close>

definition telecomSecurityPolicyFinalizer :: string where
  "telecomSecurityPolicyFinalizer = ''security.sentinel5g.io/finalizer''"

definition defaultDeEscalationDwell :: duration where
  "defaultDeEscalationDwell = 5 * minute"

record Reconciler =
  DeEscalationDwell :: duration
  HasRecorder :: bool

text \<open>\<open>ctrl.Result\<close>.\<close>

record Result =
  RequeueAfter :: duration

definition deEscalationDwell :: "Reconciler \<Rightarrow> duration" where
  "deEscalationDwell r = (if DeEscalationDwell r > 0 then DeEscalationDwell r else defaultDeEscalationDwell)"

definition withSoonerRequeue :: "Result \<Rightarrow> duration \<Rightarrow> Result" where
  "withSoonerRequeue result after =
     (if after \<le> 0 then result
      else if RequeueAfter result = 0 \<or> after < RequeueAfter result then result\<lparr>RequeueAfter := after\<rparr>
      else result)"

definition scoring_message :: "string \<Rightarrow> string" where
  "scoring_message reason =
     (if reason = ReasonScoresReceived then ''The AI engine has published at least one threat score.''
      else if reason = ReasonAwaitingFirstScore then
        ''Subscribed to the threat score subject; no score has arrived yet. Normal shortly after install.''
      else ''Subscribed to the threat score subject, but no threat score has ever arrived. '' @
        ''The AI engine (cmd/ai-engine) is deployed separately from this operator and needs a trained model; '' @
        ''without it nothing publishes a score and this policy will stay in its current phase indefinitely. '' @
        ''See docs/production-install.md.'')"

definition scoring_condition :: "Policy \<Rightarrow> string \<Rightarrow> Condition" where
  "scoring_condition policy reason =
     \<lparr>c_Type = ConditionScoringPipelineReady, c_Status = (reason = ReasonScoresReceived), c_Reason = reason,
      c_Message = scoring_message reason, c_ObservedGeneration = p_Generation policy, c_LastTransitionTime = zero_time\<rparr>"

text \<open>The result is the object as left behind, with an error or the delay after which the answer may change.\<close>

definition reportScoringPipeline ::
  "('l, 'w) env \<Rightarrow> Reconciler \<Rightarrow> Policy \<Rightarrow> ('l, 'w, Policy \<times> (err + duration)) handler" where
  "reportScoringPipeline env r policy = do {
     st \<leftarrow> scoring_Status env;
     case st of
       None \<Rightarrow> return (policy, Inr 0)
     | Some (reason, retryAfter) \<Rightarrow>
         (let condition = scoring_condition policy reason;
              unchanged = (case FindStatusCondition (k8s env) (Conditions (Status policy)) ConditionScoringPipelineReady of
                  None \<Rightarrow> False
                | Some existing \<Rightarrow> c_Status existing = c_Status condition \<and> c_Reason existing = c_Reason condition);
              policy1 = with_status (\<lambda>s. s\<lparr>Conditions := SetStatusCondition (k8s env) (Conditions s) condition\<rparr>) policy
          in if unchanged then return (policy, Inr retryAfter)
             else do {
               u \<leftarrow> world (update_status env policy1);
               case u of
                 Inl e \<Rightarrow> if err_is e Conflict then return (policy1, Inr second)
                          else return (policy1, Inl (wrap ''update scoring pipeline condition'' e))
               | Inr policy2 \<Rightarrow> do {
                   index_Put policy2;
                   (if reason = ReasonNoThreatScoresReceived \<and> HasRecorder r
                    then world (\<lambda>w. ((), record_event env (p_Name policy2) ''ScoringPipelineNotReady'' w))
                    else return ());
                   return (policy2, Inr retryAfter) } }) }"

text \<open>The two loops that undo what the status records; an entry that does not parse is skipped.\<close>

definition unblock_ips :: "('l, 'w) env \<Rightarrow> string \<Rightarrow> string list \<Rightarrow> ('l, 'w, err option) handler" where
  "unblock_ips env what = each (\<lambda>raw.
     case ParseIP raw of
       None \<Rightarrow> return None
     | Some ip \<Rightarrow> do { r \<leftarrow> world (Unblock (updater env) ip); return (map_option (wrap what) r) })"

definition unblock_tunnels :: "('l, 'w) env \<Rightarrow> string \<Rightarrow> string list \<Rightarrow> ('l, 'w, err option) handler" where
  "unblock_tunnels env what = each (\<lambda>entry.
     case parseTunnel entry of
       Inl e \<Rightarrow> return None
     | Inr (ip, teid) \<Rightarrow> do { r \<leftarrow> world (UnblockTunnel (updater env) ip teid); return (map_option (wrap what) r) })"

definition release_mesh :: "('l, 'w) env \<Rightarrow> string \<Rightarrow> Policy \<Rightarrow> ('l, 'w, err option) handler" where
  "release_mesh env what policy =
     (case firstMatchLabels (TargetWorkloads (Spec policy)) of
        None \<Rightarrow> return None
      | Some selector \<Rightarrow> do { r \<leftarrow> world (mesh_Release env (p_Namespace policy) selector); return (map_option (wrap what) r) })"

abbreviation zero_result :: Result where
  "zero_result \<equiv> \<lparr>RequeueAfter = 0\<rparr>"

definition cleared :: "PolicyStatus \<Rightarrow> PolicyStatus" where
  "cleared st = st\<lparr>BlockedSourceIPs := [], BlockedTunnels := [], Phase := PhaseMonitoring\<rparr>"

definition tryDeEscalate ::
  "('l, 'w) env \<Rightarrow> Reconciler \<Rightarrow> Policy \<Rightarrow> ('l, 'w, Result \<times> err option) handler" where
  "tryDeEscalate env r policy =
     (case LastMitigationTime (Status policy) of
        None \<Rightarrow> return (zero_result, None)
      | Some mitigated \<Rightarrow> do {
          now \<leftarrow> world (clock env);
          let elapsed = now - mitigated;
              remaining = deEscalationDwell r - elapsed
          in if remaining > 0 then return (\<lparr>RequeueAfter = remaining\<rparr>, None)
             else do {
               e \<leftarrow> or_fail (unblock_ips env ''de-escalate: unblock'' (BlockedSourceIPs (Status policy)))
                   (or_fail (unblock_tunnels env ''de-escalate: unblock tunnel'' (BlockedTunnels (Status policy)))
                            (if IsolatePod (Actions (Spec policy))
                             then release_mesh env ''de-escalate: release mesh quarantine'' policy else return None));
               case e of
                 Some err \<Rightarrow> return (zero_result, Some err)
               | None \<Rightarrow> do {
                   u \<leftarrow> world (update_status env (with_status cleared policy));
                   case u of
                     Inl err \<Rightarrow> return (zero_result, Some (wrap ''update status after de-escalating'' err))
                   | Inr policy' \<Rightarrow> do {
                       index_Put policy';
                       emit (SetPolicyPhase (p_Namespace policy') (p_Name policy') (Phase (Status policy')));
                       return (zero_result, None) } } } })"

definition finalize :: "('l, 'w) env \<Rightarrow> Policy \<Rightarrow> ('l, 'w, Result \<times> err option) handler" where
  "finalize env policy =
     (if \<not> ContainsFinalizer (k8s env) (p_Finalizers policy) telecomSecurityPolicyFinalizer then return (zero_result, None)
      else do {
        e \<leftarrow> or_fail (release_mesh env ''release mesh quarantine'' policy)
            (or_fail (unblock_ips env ''unblock'' (BlockedSourceIPs (Status policy)))
                     (unblock_tunnels env ''unblock tunnel'' (BlockedTunnels (Status policy))));
        case e of
          Some err \<Rightarrow> return (zero_result, Some err)
        | None \<Rightarrow> do {
            u \<leftarrow> world (update_policy env
                   (policy\<lparr>p_Finalizers := RemoveFinalizer (k8s env) (p_Finalizers policy) telecomSecurityPolicyFinalizer\<rparr>));
            case u of
              Inl err \<Rightarrow> return (zero_result, Some (wrap ''remove finalizer'' err))
            | Inr policy' \<Rightarrow> do {
                index_Remove (policy_key policy');
                emit (ForgetPolicyMetrics (p_Namespace policy') (p_Name policy'));
                return (zero_result, None) } } })"

text \<open>The parts of \<open>Reconcile\<close> that admit a policy: the finalizer, and the first phases.\<close>

definition ensure_finalizer :: "('l, 'w) env \<Rightarrow> Policy \<Rightarrow> ('l, 'w, err + Policy) handler" where
  "ensure_finalizer env policy =
     (if ContainsFinalizer (k8s env) (p_Finalizers policy) telecomSecurityPolicyFinalizer then return (Inr policy)
      else do {
        u \<leftarrow> world (update_policy env
               (policy\<lparr>p_Finalizers := AddFinalizer (k8s env) (p_Finalizers policy) telecomSecurityPolicyFinalizer\<rparr>));
        return (case u of Inl e \<Rightarrow> Inl (wrap ''add finalizer'' e) | Inr p \<Rightarrow> Inr p) })"

definition admit :: "('l, 'w) env \<Rightarrow> Policy \<Rightarrow> ('l, 'w, err + Policy) handler" where
  "admit env policy =
     (let policy1 = (if Phase (Status policy) = PhaseNone then with_status (\<lambda>s. s\<lparr>Phase := PhasePending\<rparr>) policy else policy)
      in if Phase (Status policy1) = PhasePending then do {
           u \<leftarrow> world (update_status env (with_status (\<lambda>s. s\<lparr>Phase := PhaseMonitoring\<rparr>) policy1));
           case u of
             Inl e \<Rightarrow> return (Inl (wrap ''update status'' e))
           | Inr p \<Rightarrow> do { index_Put p; return (Inr p) } }
         else return (Inr policy1))"

definition Reconcile :: "('l, 'w) env \<Rightarrow> Reconciler \<Rightarrow> nsname \<Rightarrow> ('l, 'w, Result \<times> err option) handler" where
  "Reconcile env r key = do {
     got \<leftarrow> world (get_policy env key);
     case got of
       Inl e \<Rightarrow>
         if err_is e NotFound then do {
           index_Remove key;
           emit (ForgetPolicyMetrics (ns_of key) (name_of key));
           return (zero_result, None) }
         else return (zero_result, Some (wrap ''get TelecomSecurityPolicy'' e))
     | Inr policy \<Rightarrow>
         if deleting policy then finalize env policy
         else do {
           f \<leftarrow> ensure_finalizer env policy;
           case f of
             Inl e \<Rightarrow> return (zero_result, Some e)
           | Inr policy1 \<Rightarrow> do {
               index_Put policy1;
               a \<leftarrow> admit env policy1;
               case a of
                 Inl e \<Rightarrow> return (zero_result, Some e)
               | Inr policy2 \<Rightarrow> do {
                   emit (SetPolicyPhase (p_Namespace policy2) (p_Name policy2) (Phase (Status policy2)));
                   (policy3, retry) \<leftarrow> reportScoringPipeline env r policy2;
                   case retry of
                     Inl e \<Rightarrow> return (zero_result, Some e)
                   | Inr scoringRetry \<Rightarrow>
                       if Phase (Status policy3) = PhaseMitigating then do {
                         (result, e) \<leftarrow> tryDeEscalate env r policy3;
                         return (withSoonerRequeue result scoringRetry, e) }
                       else return (withSoonerRequeue zero_result scoringRetry, None) } } } }"

subsection \<open>Everything dropped stays recorded\<close>

definition ips_of :: "string list \<Rightarrow> bytes set" where
  "ips_of raws = {canon ip | raw ip. raw \<in> set raws \<and> ParseIP raw = Some ip}"

definition tunnels_of :: "string list \<Rightarrow> (bytes \<times> u32) set" where
  "tunnels_of es = {(canon ip, t) | e ip t. e \<in> set es \<and> parseTunnel e = Inr (ip, t)}"

lemma claimed_of: "claimed_ips st = ips_of (BlockedSourceIPs st)" "claimed_tunnels st = tunnels_of (BlockedTunnels st)"
  by (simp_all add: claimed_ips_def claimed_tunnels_def ips_of_def tunnels_of_def)

lemma ips_of_simps [simp]:
  "ips_of [] = {}" "ips_of (x # xs) = (case ParseIP x of None \<Rightarrow> {} | Some ip \<Rightarrow> {canon ip}) \<union> ips_of xs"
  by (auto simp: ips_of_def split: option.split)

lemma tunnels_of_simps [simp]:
  "tunnels_of [] = {}"
  "tunnels_of (y # ys) = (case parseTunnel y of Inl _ \<Rightarrow> {} | Inr (ip, t) \<Rightarrow> {(canon ip, t)}) \<union> tunnels_of ys"
  by (auto simp: tunnels_of_def split: sum.split)

text \<open>A loop of \<open>or_fail\<close> bodies, each of which takes something out of a set on success.\<close>

lemma triple_each_diff:
  assumes "\<And>x A. x \<in> set xs \<Longrightarrow> triple (\<lambda>s. P A s) (f x) (\<lambda>r s. P (if r = None then A - g x else A) s)"
    and "\<And>A B s. P A s \<Longrightarrow> A \<subseteq> B \<Longrightarrow> P B s"
  shows "triple (\<lambda>s. P A s) (each f xs) (\<lambda>r s. P (if r = None then A - \<Union>(g ` set xs) else A) s)"
  using assms(1)
proof (induction xs arbitrary: A)
  case Nil
  then show ?case by (simp add: triple_return)
next
  case (Cons x xs)
  have "triple (\<lambda>s. P A s) (f x) (\<lambda>r s. (r = None \<longrightarrow> P (A - g x) s) \<and> (r \<noteq> None \<longrightarrow> P (if r = None then A - \<Union>(g ` set (x # xs)) else A) s))"
    by (rule triple_conseq [OF Cons.prems]) auto
  moreover have "triple (\<lambda>s. P (A - g x) s) (each f xs) (\<lambda>r s. P (if r = None then A - \<Union>(g ` set (x # xs)) else A) s)"
  proof (rule triple_conseq [OF Cons.IH [OF Cons.prems [OF list.set_intros(2)]]])
    show "P (if r = None then A - \<Union>(g ` set (x # xs)) else A) s" if "P (if r = None then A - g x - \<Union>(g ` set xs) else A - g x) s" for r s
      using that by (auto simp: Diff_eq Int_assoc intro: assms(2))
  qed
  ultimately show ?case unfolding each.simps by (rule triple_or_fail)
qed

lemma ips_of_UN: "ips_of xs = \<Union>((\<lambda>x. case ParseIP x of None \<Rightarrow> {} | Some ip \<Rightarrow> {canon ip}) ` set xs)"
  by (induction xs) auto

lemma tunnels_of_UN: "tunnels_of xs = \<Union>((\<lambda>x. case parseTunnel x of Inl _ \<Rightarrow> {} | Inr (ip, t) \<Rightarrow> {(canon ip, t)}) ` set xs)"
  by (induction xs) auto

lemma claimed_somewhere_upd:
  assumes "st k' = Some x" "P (Status x)" "k' = k \<Longrightarrow> Status q' = Status x"
  shows "\<exists>j y. (st(k \<mapsto> q')) j = Some y \<and> P (Status y)"
proof (cases "k' = k")
  case True
  then have "(st(k \<mapsto> q')) k = Some q' \<and> P (Status q')" using assms by simp
  then show ?thesis by blast
next
  case False
  then have "(st(k \<mapsto> q')) k' = Some x" using assms(1) by simp
  then show ?thesis using assms(2) by blast
qed

lemma covered_same:
  assumes "covered ds ts st" "st k = Some q" "Status q' = Status q"
  shows "covered ds ts (st(k \<mapsto> q'))"
  unfolding covered_def
proof (intro conjI ballI)
  fix d assume "d \<in> ds"
  then obtain k' x where x: "st k' = Some x" "d \<in> claimed_ips (Status x)" using assms(1) unfolding covered_def by blast
  show "\<exists>j y. (st(k \<mapsto> q')) j = Some y \<and> d \<in> claimed_ips (Status y)"
    by (rule claimed_somewhere_upd [where st = st and P = "\<lambda>st. d \<in> claimed_ips st", OF x]) (use assms(2,3) x(1) in simp)
next
  fix t assume "t \<in> ts"
  then obtain k' x where x: "st k' = Some x" "t \<in> claimed_tunnels (Status x)" using assms(1) unfolding covered_def by blast
  show "\<exists>j y. (st(k \<mapsto> q')) j = Some y \<and> t \<in> claimed_tunnels (Status y)"
    by (rule claimed_somewhere_upd [where st = st and P = "\<lambda>st. t \<in> claimed_tunnels st", OF x]) (use assms(2,3) x(1) in simp)
qed

lemma covered_without:
  assumes "covered ds ts st" "st k = Some q" "claimed_ips (Status q) \<inter> ds = {}" "claimed_tunnels (Status q) \<inter> ts = {}"
  shows "covered ds ts (st(k := None))"
  unfolding covered_def
proof (intro conjI ballI)
  fix d assume d: "d \<in> ds"
  then obtain k' x where x: "st k' = Some x" "d \<in> claimed_ips (Status x)" using assms(1) unfolding covered_def by blast
  then have "k' \<noteq> k" using assms(2,3) d by auto
  then have "(st(k := None)) k' = Some x" using x(1) by simp
  then show "\<exists>j y. (st(k := None)) j = Some y \<and> d \<in> claimed_ips (Status y)" using x(2) by blast
next
  fix t assume t: "t \<in> ts"
  then obtain k' x where x: "st k' = Some x" "t \<in> claimed_tunnels (Status x)" using assms(1) unfolding covered_def by blast
  then have "k' \<noteq> k" using assms(2,4) t by auto
  then have "(st(k := None)) k' = Some x" using x(1) by simp
  then show "\<exists>j y. (st(k := None)) j = Some y \<and> t \<in> claimed_tunnels (Status y)" using x(2) by blast
qed

context cluster
begin

lemma unblock_ips_clears:
  "triple (\<lambda>s. holds K X S s \<and> confined D T s) (unblock_ips env what raws)
     (\<lambda>r s. holds K X S s \<and> confined (if r = None then D - ips_of raws else D) T s)"
  unfolding unblock_ips_def ips_of_UN
proof (rule triple_each_diff)
  fix x D
  show "triple (\<lambda>s. holds K X S s \<and> confined D T s)
      (case ParseIP x of None \<Rightarrow> return None | Some ip \<Rightarrow> do { r \<leftarrow> world (Unblock (updater env) ip); return (map_option (wrap what) r) })
      (\<lambda>r s. holds K X S s \<and> confined (if r = None then D - (case ParseIP x of None \<Rightarrow> {} | Some ip \<Rightarrow> {canon ip}) else D) T s)"
  proof (cases "ParseIP x")
    case (Some ip)
    show ?thesis unfolding Some option.simps
      by (rule triple_bind [OF keeps_unblock [OF ParseIP_valid [OF Some]]], rule triple_return) simp
  qed (simp add: triple_return)
qed auto

lemma unblock_tunnels_clears:
  "triple (\<lambda>s. holds K X S s \<and> confined D T s) (unblock_tunnels env what es)
     (\<lambda>r s. holds K X S s \<and> confined D (if r = None then T - tunnels_of es else T) s)"
  unfolding unblock_tunnels_def tunnels_of_UN
proof (rule triple_each_diff)
  fix x T
  show "triple (\<lambda>s. holds K X S s \<and> confined D T s)
      (case parseTunnel x of Inl e \<Rightarrow> return None
       | Inr (ip, teid) \<Rightarrow> do { r \<leftarrow> world (UnblockTunnel (updater env) ip teid); return (map_option (wrap what) r) })
      (\<lambda>r s. holds K X S s \<and> confined D (if r = None then T - (case parseTunnel x of Inl _ \<Rightarrow> {} | Inr (ip, t) \<Rightarrow> {(canon ip, t)}) else T) s)"
  proof (cases "parseTunnel x")
    case (Inr it)
    obtain ip t where it: "it = (ip, t)" by fastforce
    show ?thesis unfolding Inr it sum.simps prod.simps
      by (rule triple_bind [OF keeps_unblock_tunnel [OF parseTunnel_valid [OF Inr [unfolded it]]]], rule triple_return) simp
  qed (simp add: triple_return)
qed auto

text \<open>Writing an object's status and then the index.\<close>

lemma keeps_status_write:
  assumes "prev \<in> X" "extends prev nxt"
  shows "triple (op_inv {} X) (world (update_status env nxt))
    (\<lambda>r s. case r of Inl e \<Rightarrow> op_inv {} X s | Inr p' \<Rightarrow> op_inv {policy_key p'} (insert p' X) s \<and> Status p' = Status nxt)"
proof (rule tripleI)
  fix s r s' assume s: "op_inv {} X s" "run_state (world (update_status env nxt)) s = (r, s')"
  obtain w' where w': "update_status env nxt (o_World s) = (r, w')" "s' = s\<lparr>o_World := w'\<rparr>"
    using s(2) by (auto split: prod.splits)
  have g: "growing (o_World s) nxt" using extends_growing [OF op_invD(4) [OF s(1) assms(1)] assms(2)] .
  show "case r of Inl e \<Rightarrow> op_inv {} X s' | Inr p' \<Rightarrow> op_inv {policy_key p'} (insert p' X) s' \<and> Status p' = Status nxt"
    using status_write_ok [OF s(1) w'(1) growing_safe [OF g] disjI1 [OF g]] w'(2)
    by (cases r) (auto simp: op_inv_def)
qed

lemma keeps_Put: "triple (op_inv {policy_key p} (insert p X)) (index_Put p) (\<lambda>_. op_inv {} (insert p X))"
proof (rule tripleI)
  fix s r s' assume s: "op_inv {policy_key p} (insert p X) s" "run_state (index_Put p) s = (r, s')"
  then show "op_inv {} (insert p X) s'" using put_ok [OF s(1) op_invD(4) [OF s(1)]] by auto
qed

lemma good_cong:
  assumes "policy_key p = policy_key q" "p_ResourceVersion p = p_ResourceVersion q"
    and "BlockedSourceIPs (Status p) = BlockedSourceIPs (Status q)" "BlockedTunnels (Status p) = BlockedTunnels (Status q)"
  shows "good w p = good w q"
  using assms by (simp add: good_def reflects_def current_def claimed_of)

text \<open>
  A safe write of an object's status that may give up claims: afterwards the old object is not kept.
\<close>

lemma keeps_safe_write:
  shows "triple (\<lambda>s. op_inv {} {} s \<and> safe (o_World s) nxt) (world (update_status env nxt))
    (\<lambda>r s. case r of Inl e \<Rightarrow> op_inv {} {} s | Inr p' \<Rightarrow> op_inv {policy_key p'} {p'} s \<and> Status p' = Status nxt)"
proof (rule tripleI)
  fix s r s' assume s: "op_inv {} {} s \<and> safe (o_World s) nxt" "run_state (world (update_status env nxt)) s = (r, s')"
  obtain w' where w': "update_status env nxt (o_World s) = (r, w')" "s' = s\<lparr>o_World := w'\<rparr>"
    using s(2) by (auto split: prod.splits)
  show "case r of Inl e \<Rightarrow> op_inv {} {} s' | Inr p' \<Rightarrow> op_inv {policy_key p'} {p'} s' \<and> Status p' = Status nxt"
    using status_write_ok [OF conjunct1 [OF s(1)] w'(1) conjunct2 [OF s(1)]] w'(2)
    by (cases r) (auto simp: op_inv_def)
qed

text \<open>Writing the object itself: its claims stay unless it goes away, and then nothing it claims may be dropped.\<close>

definition released :: "'w \<Rightarrow> Policy \<Rightarrow> bool" where
  "released w p \<longleftrightarrow> (\<forall>st. hist w (policy_key p) (p_ResourceVersion p) = Some st \<longrightarrow>
     claimed_ips st \<inter> drops w = {} \<and> claimed_tunnels st \<inter> tdrops w = {})"

lemma current_same: "st k = Some q \<Longrightarrow> Status q' = Status q \<Longrightarrow> current (st(k \<mapsto> q')) x = current st x"
  by (auto simp: current_def)

lemma covered_object:
  assumes "inv w" "covered (drops w) (tdrops w) (stored w)" "accepted_object (stored w) p st'"
    and "p_Finalizers p \<noteq> [] \<or> released w p"
  shows "covered (drops w) (tdrops w) st'"
proof -
  obtain q where q: "stored w (policy_key p) = Some q" "p_ResourceVersion q = p_ResourceVersion p"
    and st': "(\<exists>q'. Status q' = Status q \<and> st' = (stored w)(policy_key p \<mapsto> q')) \<or>
      p_Finalizers p = [] \<and> st' = (stored w)(policy_key p := None)"
    using assms(3) unfolding accepted_object_def by blast
  have "hist w (policy_key p) (p_ResourceVersion p) = Some (Status q)" using stored_hist [OF assms(1) q(1)] q(2) by simp
  then show ?thesis
    using st' assms(4) covered_same [OF assms(2), of "policy_key p"] covered_without [OF assms(2), of "policy_key p"] q(1) by (auto simp: released_def)
qed

lemma object_write_ok:
  assumes s: "op_inv {} X s" and u: "update_policy env p (o_World s) = (r, w')"
    and p: "p_Finalizers p \<noteq> [] \<or> released (o_World s) p \<and> X = {}"
  shows "case r of
      Inl e \<Rightarrow> op_inv {} X (s\<lparr>o_World := w'\<rparr>)
    | Inr p' \<Rightarrow> op_inv {policy_key p} X (s\<lparr>o_World := w'\<rparr>) \<and> policy_key p' = policy_key p \<and>
        (p_Finalizers p \<noteq> [] \<longrightarrow> good w' p')"
proof -
  let ?w = "o_World s"
  note inv = op_invD(1) [OF s]
  note law = object_write [OF inv u]
  have rel: "p_Finalizers p \<noteq> [] \<or> released ?w p" using p by blast
  have acc: "covered (drops w') (tdrops w') (stored w')" if "accepted_object (stored ?w) p (stored w')"
    using covered_object [OF inv op_invD(3) [OF s] that rel] law by simp
  show ?thesis
  proof (cases r)
    case (Inl e)
    have cov: "covered (drops w') (tdrops w') (stored w')" using Inl law acc op_invD(3) [OF s] by auto
    have g: "good w' x" if "good ?w x" for x using good_mono [OF that, of w'] law Inl by auto
    then have "op_inv {} X (s\<lparr>o_World := w'\<rparr>)" using s cov law by (auto simp: op_inv_def)
    then show ?thesis using Inl by simp
  next
    case (Inr p')
    then have a: "accepted_object (stored ?w) p (stored w')" and p': "policy_key p' = policy_key p" using law by simp_all
    obtain q where q: "stored ?w (policy_key p) = Some q"
      and st': "(\<exists>q'. Status q' = Status q \<and> stored w' = (stored ?w)(policy_key p \<mapsto> q')) \<or>
        p_Finalizers p = [] \<and> stored w' = (stored ?w)(policy_key p := None)"
      using a unfolding accepted_object_def by blast
    have cur: "current (stored w') x" if "current (stored ?w) x" "p_Finalizers p \<noteq> [] \<or> policy_key x \<noteq> policy_key p" for x
      using st'
    proof (elim disjE exE conjE)
      fix q' assume "Status q' = Status q" "stored w' = (stored ?w)(policy_key p \<mapsto> q')"
      then show ?thesis using that(1) current_same [of "stored ?w" "policy_key p", OF q] by metis
    next
      assume "p_Finalizers p = []" "stored w' = (stored ?w)(policy_key p := None)"
      then show ?thesis using that by (simp add: current_def)
    qed
    have g: "good w' x" if "good ?w x" "p_Finalizers p \<noteq> [] \<or> policy_key x \<noteq> policy_key p" for x
      using good_mono [OF that(1), of w'] law cur [OF _ that(2)] by blast
    have keys: "index_lookup (o_Index s) k = Some x \<Longrightarrow> policy_key x = k" for k x
      using policy_index.look_key [OF op_invD(2) [OF s]] by blast
    have op: "op_inv {policy_key p} X (s\<lparr>o_World := w'\<rparr>)"
      using s acc [OF a] law g p keys by (auto simp: op_inv_def)
    have "good w' p'" if "p_Finalizers p \<noteq> []"
      using that law Inr p' st' q by (auto simp: good_def reflects_def current_def)
    then show ?thesis using Inr op p' by simp
  qed
qed

lemma keeps_release_mesh:
  "triple (\<lambda>s. holds K X S s \<and> confined D T s) (release_mesh env what p) (\<lambda>_ s. holds K X S s \<and> confined D T s)"
proof -
  have "triple (\<lambda>s. holds K X S s \<and> confined D T s) (world (mesh_Release env ns sel)) (\<lambda>_ s. holds K X S s \<and> confined D T s)" for ns sel
  proof (rule tripleI)
    fix s r s' assume s: "holds K X S s \<and> confined D T s" "run_state (world (mesh_Release env ns sel)) s = (r, s')"
    have "o_World s' = snd (mesh_Release env ns sel (o_World s))" using s(2) by (auto split: prod.splits)
    then have "drops (o_World s') = drops (o_World s)" "tdrops (o_World s') = tdrops (o_World s)"
      using neutral [OF op_invD(1), of K X s "o_World s'" undefined undefined ns sel] s(1) by simp_all
    then show "holds K X S s' \<and> confined D T s'" 
      using tripleD [OF quiet_release [of K X S] conjunct1 [OF s(1)] s(2)] s(1) by simp
  qed
  then show ?thesis unfolding release_mesh_def
    by (cases "firstMatchLabels (TargetWorkloads (Spec p))") (auto intro!: triple_return triple_bind)
qed

lemma released_claims:
  assumes "good w p" "drops w \<subseteq> - ips_of (BlockedSourceIPs (Status p))" "tdrops w \<subseteq> - tunnels_of (BlockedTunnels (Status p))"
    and "policy_key q = policy_key p" "p_ResourceVersion q = p_ResourceVersion p"
  shows "released w q"
proof -
  obtain st where st: "hist w (policy_key p) (p_ResourceVersion p) = Some st"
      "BlockedSourceIPs st = BlockedSourceIPs (Status p)" "BlockedTunnels st = BlockedTunnels (Status p)"
    using assms(1) by (auto simp: good_def reflects_def)
  then have "claimed_ips st \<inter> drops w = {} \<and> claimed_tunnels st \<inter> tdrops w = {}"
    using assms(2,3) by (auto simp: claimed_of)
  then show ?thesis using st(1) assms(4,5) by (simp add: released_def)
qed

lemma released_safe: "released w p \<Longrightarrow> safe w p"
  by (auto simp: released_def safe_def)

lemma ors_keep:
  assumes "triple P m (\<lambda>r s. if r = None then Q s else P s)" "triple Q n (\<lambda>r s. if r = None then R s else Q s)"
    and "\<And>s. Q s \<Longrightarrow> P s"
  shows "triple P (or_fail m n) (\<lambda>r s. if r = None then R s else P s)"
proof (rule triple_or_fail)
  show "triple P m (\<lambda>r s. (r = None \<longrightarrow> Q s) \<and> (r \<noteq> None \<longrightarrow> (if r = None then R s else P s)))"
    by (rule triple_conseq [OF assms(1)]) auto
  show "triple Q n (\<lambda>r s. if r = None then R s else P s)"
    by (rule triple_conseq [OF assms(2)]) (auto split: if_splits intro: assms(3))
qed

lemma keeps_undo_loops:
  "triple (op_inv K X) (or_fail (unblock_ips env a raws) (unblock_tunnels env b es))
      (\<lambda>r s. if r = None then op_inv K X s \<and> confined (- ips_of raws) (- tunnels_of es) s else op_inv K X s)"
proof (rule ors_keep)
  show "triple (op_inv K X) (unblock_ips env a raws)
      (\<lambda>r s. if r = None then op_inv K X s \<and> confined (- ips_of raws) UNIV s else op_inv K X s)"
    by (rule triple_conseq [OF unblock_ips_clears [where D = UNIV and T = UNIV and S = "\<lambda>_. True"]]) auto
  show "triple (\<lambda>s. op_inv K X s \<and> confined (- ips_of raws) UNIV s) (unblock_tunnels env b es)
      (\<lambda>r s. if r = None then op_inv K X s \<and> confined (- ips_of raws) (- tunnels_of es) s
             else op_inv K X s \<and> confined (- ips_of raws) UNIV s)"
    by (rule triple_conseq [OF unblock_tunnels_clears [where D = "- ips_of raws" and T = UNIV and S = "\<lambda>_. True"]]) auto
qed simp

lemma or_fail_assoc: "or_fail m (or_fail n l) = or_fail (or_fail m n) l"
  by (rule state_ext) (auto simp: run_or_fail split: prod.split option.split)

lemma keeps_tryDeEscalate: "triple (op_inv {} {policy}) (tryDeEscalate env r policy) (\<lambda>_. op_inv {} {})"
proof (cases "LastMitigationTime (Status policy)")
  case None
  then show ?thesis by (auto simp: tryDeEscalate_def intro!: triple_return elim: op_inv_weaken)
next
  case (Some mitigated)
  let ?ips = "ips_of (BlockedSourceIPs (Status policy))" and ?ts = "tunnels_of (BlockedTunnels (Status policy))"
  let ?undone = "\<lambda>s. op_inv {} {policy} s \<and> confined (- ?ips) (- ?ts) s"
  have clock: "triple (op_inv {} {policy}) (world (clock env)) (\<lambda>_. op_inv {} {policy})"
    using quiet_clock [of "{}" "{policy}" "\<lambda>_. True"] by simp
  have loops: "triple (op_inv {} {policy}) (or_fail (unblock_ips env a (BlockedSourceIPs (Status policy))) (unblock_tunnels env b (BlockedTunnels (Status policy))))
      (\<lambda>r s. if r = None then ?undone s else op_inv {} {policy} s)" for a b
    by (rule keeps_undo_loops)
  have mesh: "triple ?undone (if c then release_mesh env d policy else return None) (\<lambda>r s. if r = None then ?undone s else ?undone s)" for c d
    using keeps_release_mesh [of "{}" "{policy}" "\<lambda>_. True" "- ?ips" "- ?ts" d policy] by (simp add: triple_return)
  note undo = ors_keep [OF loops mesh conjunct1, unfolded or_fail_assoc [symmetric]]
  have safe: "op_inv {} {} s \<and> safe (o_World s) (with_status cleared policy)" if "?undone s" for s
    using released_safe [OF released_claims [OF op_invD(4), of "{}" "{policy}" s policy "with_status cleared policy"]] that
    by (auto simp: policy_key_def elim: op_inv_weaken)
  have put: "triple (\<lambda>s. op_inv {policy_key p} {p} s \<and> Status p = st) (index_Put p) (\<lambda>_. op_inv {} {})" for p st
    by (rule triple_conseq [OF keeps_Put [of p "{}"]]) (auto elim: op_inv_weaken)
  note emit = quiet_emit [of "{}" "{}" "\<lambda>_. True", simplified]
  have finish: "triple ?undone (do {
      u \<leftarrow> world (update_status env (with_status cleared policy));
      case u of
        Inl err \<Rightarrow> return (zero_result, Some (wrap msg err))
      | Inr policy' \<Rightarrow> do {
          index_Put policy';
          emit (SetPolicyPhase (p_Namespace policy') (p_Name policy') (Phase (Status policy')));
          return (zero_result, None) } }) (\<lambda>_. op_inv {} {})" for msg
    by (rule triple_bind [OF triple_pre [OF keeps_safe_write safe]])
      (auto split: sum.split intro!: triple_return triple_bind [OF put] triple_bind [OF emit])
  have act: "triple (op_inv {} {policy}) (do {
      e \<leftarrow> or_fail (unblock_ips env a (BlockedSourceIPs (Status policy)))
          (or_fail (unblock_tunnels env b (BlockedTunnels (Status policy)))
                   (if c then release_mesh env d policy else return None));
      case e of Some err \<Rightarrow> return (zero_result, Some err) | None \<Rightarrow> k }) (\<lambda>_. op_inv {} {})"
    if k: "triple ?undone k (\<lambda>_. op_inv {} {})" for a b c d k
  proof (rule triple_bind [OF undo])
    fix x
    show "triple (\<lambda>s. if x = None then ?undone s else op_inv {} {policy} s)
        (case x of Some err \<Rightarrow> return (zero_result, Some err) | None \<Rightarrow> k) (\<lambda>_. op_inv {} {})"
      using k by (cases x) (auto intro!: triple_return elim: op_inv_weaken)
  qed
  have idle: "triple (op_inv {} {policy}) (return x) (\<lambda>_. op_inv {} {})" for x :: "Result \<times> err option"
    by (rule triple_return) (erule op_inv_weaken, simp_all)
  show ?thesis
    unfolding tryDeEscalate_def Some option.simps Let_def
    by (rule triple_bind [OF clock], rule triple_if [OF idle act [OF finish]])
qed

lemma keeps_object_write:
  "triple (\<lambda>s. op_inv {} X s \<and> (p_Finalizers p \<noteq> [] \<or> released (o_World s) p \<and> X = {})) (world (update_policy env p))
    (\<lambda>r s. case r of
       Inl e \<Rightarrow> op_inv {} X s
     | Inr p' \<Rightarrow> op_inv {policy_key p'} X s \<and> (p_Finalizers p \<noteq> [] \<longrightarrow> good (o_World s) p'))"
proof (rule tripleI)
  fix s r s' assume s: "op_inv {} X s \<and> (p_Finalizers p \<noteq> [] \<or> released (o_World s) p \<and> X = {})"
    "run_state (world (update_policy env p)) s = (r, s')"
  obtain w' where w': "update_policy env p (o_World s) = (r, w')" "s' = s\<lparr>o_World := w'\<rparr>"
    using s(2) by (auto split: prod.splits)
  show "case r of Inl e \<Rightarrow> op_inv {} X s' | Inr p' \<Rightarrow> op_inv {policy_key p'} X s' \<and> (p_Finalizers p \<noteq> [] \<longrightarrow> good (o_World s') p')"
    using object_write_ok [OF conjunct1 [OF s(1)] w'(1) conjunct2 [OF s(1)]] w'(2) by (cases r) simp_all
qed

lemma keeps_Remove: "triple (op_inv {k} X) (index_Remove k) (\<lambda>_. op_inv {} X)"
  by (rule tripleI) (auto dest: remove_ok)

lemma keeps_finalize: "triple (op_inv {} {policy}) (finalize env policy) (\<lambda>_. op_inv {} {})"
proof -
  let ?ips = "ips_of (BlockedSourceIPs (Status policy))" and ?ts = "tunnels_of (BlockedTunnels (Status policy))"
  let ?undone = "\<lambda>s. op_inv {} {policy} s \<and> confined (- ?ips) (- ?ts) s"
  let ?p = "policy\<lparr>p_Finalizers := RemoveFinalizer (k8s env) (p_Finalizers policy) telecomSecurityPolicyFinalizer\<rparr>"
  have idle: "triple (op_inv {} {policy}) (return x) (\<lambda>_. op_inv {} {})" for x :: "Result \<times> err option"
    by (rule triple_return) (erule op_inv_weaken, simp_all)
  have mesh: "triple (op_inv {} {policy}) (release_mesh env d policy)
      (\<lambda>r s. if r = None then op_inv {} {policy} s else op_inv {} {policy} s)" for d
    using keeps_release_mesh [of "{}" "{policy}" "\<lambda>_. True" UNIV UNIV d policy] by simp
  note undo = ors_keep [OF mesh keeps_undo_loops]
  have released: "op_inv {} {} s \<and> (p_Finalizers ?p \<noteq> [] \<or> released (o_World s) ?p \<and> {} = {})" if "?undone s" for s
    using released_claims [OF op_invD(4), of "{}" "{policy}" s policy ?p] that
    by (auto simp: policy_key_def elim: op_inv_weaken)
  note emit = quiet_emit [of "{}" "{}" "\<lambda>_. True", simplified]
  have remove: "triple (\<lambda>s. op_inv {policy_key p} {} s \<and> A s) (index_Remove (policy_key p)) (\<lambda>_. op_inv {} {})" for p A
    by (rule triple_pre [OF keeps_Remove]) simp
  have finish: "triple ?undone (do {
      u \<leftarrow> world (update_policy env ?p);
      case u of
        Inl err \<Rightarrow> return (zero_result, Some (wrap msg err))
      | Inr policy' \<Rightarrow> do {
          index_Remove (policy_key policy');
          emit (ForgetPolicyMetrics (p_Namespace policy') (p_Name policy'));
          return (zero_result, None) } }) (\<lambda>_. op_inv {} {})" for msg
    by (rule triple_bind [OF triple_pre [OF keeps_object_write released]])
      (auto split: sum.split intro!: triple_return triple_bind [OF remove] triple_bind [OF emit])
  have act: "triple (op_inv {} {policy}) (do {
      e \<leftarrow> or_fail (release_mesh env a policy)
          (or_fail (unblock_ips env b (BlockedSourceIPs (Status policy))) (unblock_tunnels env c (BlockedTunnels (Status policy))));
      case e of Some err \<Rightarrow> return (zero_result, Some err) | None \<Rightarrow> k }) (\<lambda>_. op_inv {} {})"
    if k: "triple ?undone k (\<lambda>_. op_inv {} {})" for a b c k
  proof (rule triple_bind [OF undo])
    show "triple (\<lambda>s. if x = None then ?undone s else op_inv {} {policy} s)
        (case x of Some err \<Rightarrow> return (zero_result, Some err) | None \<Rightarrow> k) (\<lambda>_. op_inv {} {})" for x
      using k idle by (cases x) auto
  qed
  show ?thesis unfolding finalize_def by (rule triple_if [OF idle act [OF finish]])
qed

lemma keeps_ensure_finalizer:
  "triple (op_inv {} {policy}) (ensure_finalizer env policy)
     (\<lambda>r s. case r of Inl e \<Rightarrow> op_inv {} {} s | Inr p \<Rightarrow> op_inv {policy_key p} {p} s)"
proof -
  let ?p = "policy\<lparr>p_Finalizers := AddFinalizer (k8s env) (p_Finalizers policy) telecomSecurityPolicyFinalizer\<rparr>"
  have ne: "p_Finalizers ?p \<noteq> []"
    using k8s_lib_okD(2) [OF library, of "p_Finalizers policy" telecomSecurityPolicyFinalizer] by auto
  have w: "triple (op_inv {} {policy}) (world (update_policy env ?p))
      (\<lambda>r s. case r of Inl e \<Rightarrow> op_inv {} {} s | Inr p' \<Rightarrow> op_inv {policy_key p'} {p'} s)"
    by (rule triple_conseq [OF keeps_object_write [where X = "{policy}"]])
      (use ne in \<open>auto simp: op_inv_def split: sum.splits\<close>)
  show ?thesis unfolding ensure_finalizer_def
    by (rule triple_if) (auto intro!: triple_return triple_bind [OF w] elim: op_inv_weaken split: sum.splits)
qed

lemma keeps_admit:
  "triple (op_inv {} {policy}) (admit env policy)
     (\<lambda>r s. case r of Inl e \<Rightarrow> op_inv {} {} s | Inr p \<Rightarrow> op_inv {} {p} s)"
proof -
  let ?p1 = "if Phase (Status policy) = PhaseNone then with_status (\<lambda>s. s\<lparr>Phase := PhasePending\<rparr>) policy else policy"
  let ?p2 = "with_status (\<lambda>s. s\<lparr>Phase := PhaseMonitoring\<rparr>) ?p1"
  have ext: "extends policy ?p2" by (simp add: extends_status)
  have same: "good w ?p1 = good w policy" for w by (rule good_cong) (simp_all add: policy_key_def)
  have put: "triple (\<lambda>s. op_inv {policy_key p} (insert p X) s \<and> A s) (index_Put p) (\<lambda>_. op_inv {} {p})" for p X A
    by (rule triple_conseq [OF keeps_Put [of p X]]) (auto elim: op_inv_weaken)
  show ?thesis unfolding admit_def Let_def
  proof (rule triple_if)
    show "triple (op_inv {} {policy}) (do {
        u \<leftarrow> world (update_status env ?p2);
        case u of Inl e \<Rightarrow> return (Inl (wrap ''update status'' e)) | Inr p \<Rightarrow> do { index_Put p; return (Inr p) } })
      (\<lambda>r s. case r of Inl e \<Rightarrow> op_inv {} {} s | Inr p \<Rightarrow> op_inv {} {p} s)"
      by (rule triple_bind [OF keeps_status_write [OF singletonI ext]])
        (auto split: sum.split intro!: triple_return triple_bind [OF put] elim: op_inv_weaken)
    show "triple (op_inv {} {policy}) (return (Inr ?p1)) (\<lambda>r s. case r of Inl e \<Rightarrow> op_inv {} {} s | Inr p \<Rightarrow> op_inv {} {p} s)"
      by (rule triple_return) (simp add: op_inv_def same)
  qed
qed

lemma keeps_report:
  "triple (op_inv {} {policy}) (reportScoringPipeline env r policy) (\<lambda>(p, _) s. op_inv {} {p} s)"
proof -
  note status = quiet_Status [of "{}" "{policy}" "\<lambda>_. True", simplified]
  have idle: "triple (op_inv {} {policy}) (return (policy, x)) (\<lambda>(p, _) s. op_inv {} {p} s)" for x :: "err + duration"
    by (rule triple_return) simp
  have put: "triple (\<lambda>s. op_inv {policy_key p} (insert p X) s \<and> A s) (index_Put p) (\<lambda>_. op_inv {} {p})" for p X A
    by (rule triple_conseq [OF keeps_Put [of p X]]) (auto elim: op_inv_weaken)
  note event = quiet_event [where S = "\<lambda>_. True", simplified]
  have update: "triple (op_inv {} {policy}) (do {
      u \<leftarrow> world (update_status env q);
      case u of
        Inl e \<Rightarrow> if err_is e Conflict then return (q, Inr second) else return (q, Inl (wrap msg e))
      | Inr p \<Rightarrow> do {
          index_Put p;
          (if c then world (\<lambda>w. ((), record_event env (p_Name p) ''ScoringPipelineNotReady'' w)) else return ());
          return (p, Inr d) } }) (\<lambda>(p, _) s. op_inv {} {p} s)"
    if q: "q = with_status (\<lambda>s. s\<lparr>Conditions := cs s\<rparr>) policy" for q cs msg c d
  proof -
    have ext: "extends policy q" by (simp add: q extends_status)
    have same: "good w q = good w policy" for w by (rule good_cong) (simp_all add: q policy_key_def)
    have bk: "op_inv {} {policy} s \<Longrightarrow> op_inv {} {q} s" for s by (simp add: op_inv_def same)
    show ?thesis
      by (rule triple_bind [OF keeps_status_write [OF singletonI ext]])
        (auto split: sum.split intro!: triple_return bk triple_bind [OF put] triple_bind [OF event])
  qed
  have decide: "triple (op_inv {} {policy}) (case st of None \<Rightarrow> return (policy, Inr 0)
     | Some (reason, retryAfter) \<Rightarrow>
         (let condition = scoring_condition policy reason;
              unchanged = (case FindStatusCondition (k8s env) (Conditions (Status policy)) ConditionScoringPipelineReady of
                  None \<Rightarrow> False
                | Some existing \<Rightarrow> c_Status existing = c_Status condition \<and> c_Reason existing = c_Reason condition);
              policy1 = with_status (\<lambda>s. s\<lparr>Conditions := SetStatusCondition (k8s env) (Conditions s) condition\<rparr>) policy
          in if unchanged then return (policy, Inr retryAfter)
             else do {
               u \<leftarrow> world (update_status env policy1);
               case u of
                 Inl e \<Rightarrow> if err_is e Conflict then return (policy1, Inr second)
                          else return (policy1, Inl (wrap ''update scoring pipeline condition'' e))
               | Inr policy2 \<Rightarrow> do {
                   index_Put policy2;
                   (if reason = ReasonNoThreatScoresReceived \<and> HasRecorder r
                    then world (\<lambda>w. ((), record_event env (p_Name policy2) ''ScoringPipelineNotReady'' w))
                    else return ());
                   return (policy2, Inr retryAfter) } })) (\<lambda>(p, _) s. op_inv {} {p} s)" for st
  proof (cases st)
    case (Some x)
    obtain reason d where x: "x = (reason, d)" by fastforce
    show ?thesis unfolding Some x option.simps prod.simps Let_def
      by (rule triple_if [OF idle update]) (rule refl)
  qed (simp add: idle)
  show ?thesis unfolding reportScoringPipeline_def by (rule triple_bind [OF status decide])
qed

lemma keeps_get:
  "triple (op_inv {} {}) (world (get_policy env key)) (\<lambda>r s. case r of Inl e \<Rightarrow> op_inv {} {} s | Inr p \<Rightarrow> op_inv {} {p} s)"
proof (rule tripleI)
  fix s r s' assume s: "op_inv {} {} s" "run_state (world (get_policy env key)) s = (r, s')"
  have o: "op_inv {} {} s'" using tripleD [OF quiet_get_policy [of "{}" "{}" "\<lambda>_. True"] _ s(2)] s(1) by simp
  obtain w' where w': "get_policy env key (o_World s) = (r, w')" "o_World s' = w'" using s(2) by (auto split: prod.splits)
  have same: "stored w' = stored (o_World s)" "hist w' = hist (o_World s)"
    using neutral [OF op_invD(1) [OF s(1)], of w' key] w'(1) by simp_all
  show "case r of Inl e \<Rightarrow> op_inv {} {} s' | Inr p \<Rightarrow> op_inv {} {p} s'"
  proof (cases r)
    case (Inr p)
    have "good w' p" using get [OF op_invD(1) [OF s(1)] w'(1) [unfolded Inr]] same
      by (auto simp: good_def reflects_def current_def)
    then show ?thesis using o w'(2) Inr by (simp add: op_inv_def)
  qed (use o in simp)
qed

lemma keeps_Reconcile: "triple (op_inv {} {}) (Reconcile env r key) (\<lambda>_. op_inv {} {})"
proof -
  note emit = quiet_emit [where S = "\<lambda>_. True", simplified]
  have idle: "triple (op_inv {} X) (return x) (\<lambda>_. op_inv {} {})" for X and x :: "Result \<times> err option"
    by (rule triple_return) (erule op_inv_weaken, simp_all)
  have gone: "triple (op_inv {} {}) (index_Remove k) (\<lambda>_. op_inv {} {})" for k
    by (rule triple_pre [OF keeps_Remove]) (erule op_inv_weaken, simp_all)
  have put: "triple (op_inv {policy_key p} {p}) (index_Put p) (\<lambda>_. op_inv {} {p})" for p
    by (rule keeps_Put)
  have dee: "triple (op_inv {} {p}) (do { (result, e) \<leftarrow> tryDeEscalate env r p; return (withSoonerRequeue result x, e) }) (\<lambda>_. op_inv {} {})" for p x
    by (rule triple_bind [OF keeps_tryDeEscalate]) (auto split: prod.split intro: idle)
  have last_part: "triple (op_inv {} {p}) (do {
      (policy3, retry) \<leftarrow> reportScoringPipeline env r p;
      case retry of
        Inl e \<Rightarrow> return (zero_result, Some e)
      | Inr scoringRetry \<Rightarrow>
          if Phase (Status policy3) = PhaseMitigating then do {
            (result, e) \<leftarrow> tryDeEscalate env r policy3;
            return (withSoonerRequeue result scoringRetry, e) }
          else return (withSoonerRequeue zero_result scoringRetry, None) }) (\<lambda>_. op_inv {} {})" for p
    by (rule triple_bind [OF keeps_report]) (auto split: prod.split sum.split intro!: idle dee)
  have admitted: "triple (case a of Inl e \<Rightarrow> op_inv {} {} | Inr p \<Rightarrow> op_inv {} {p}) (case a of
        Inl e \<Rightarrow> return (zero_result, Some e)
      | Inr policy2 \<Rightarrow> do {
          emit (SetPolicyPhase (p_Namespace policy2) (p_Name policy2) (Phase (Status policy2)));
          (policy3, retry) \<leftarrow> reportScoringPipeline env r policy2;
          case retry of
            Inl e \<Rightarrow> return (zero_result, Some e)
          | Inr scoringRetry \<Rightarrow>
              if Phase (Status policy3) = PhaseMitigating then do {
                (result, e) \<leftarrow> tryDeEscalate env r policy3;
                return (withSoonerRequeue result scoringRetry, e) }
              else return (withSoonerRequeue zero_result scoringRetry, None) }) (\<lambda>_. op_inv {} {})" for a
    by (cases a) (simp_all add: idle triple_bind [OF emit last_part])
  have a: "triple (op_inv {} {p}) (admit env p) (\<lambda>r. case r of Inl e \<Rightarrow> op_inv {} {} | Inr p \<Rightarrow> op_inv {} {p})" for p
    by (rule triple_conseq [OF keeps_admit]) (auto split: sum.splits)
  have f: "triple (op_inv {} {p}) (ensure_finalizer env p) (\<lambda>r. case r of Inl e \<Rightarrow> op_inv {} {} | Inr p \<Rightarrow> op_inv {policy_key p} {p})" for p
    by (rule triple_conseq [OF keeps_ensure_finalizer]) (auto split: sum.splits)
  have g: "triple (op_inv {} {}) (world (get_policy env key)) (\<lambda>r. case r of Inl e \<Rightarrow> op_inv {} {} | Inr p \<Rightarrow> op_inv {} {p})"
    by (rule triple_conseq [OF keeps_get]) (auto split: sum.splits)
  show ?thesis unfolding Reconcile_def
    by (rule triple_bind [OF g])
      (auto split: sum.split intro!: idle triple_bind [OF gone] triple_bind [OF emit] keeps_finalize
        triple_bind [OF f] triple_bind [OF put] triple_bind [OF a] admitted)
qed

end

subsection \<open>De-escalation and deletion undo exactly what the status records\<close>

context cluster
begin

lemma unblock_takes:
  assumes "valid_ip ip" "canon ip \<notin> L"
  shows "triple (kernel_ok (\<lambda>d t. L \<subseteq> d \<and> d \<subseteq> A \<and> t = T)) (world (Unblock (updater env) ip))
    (\<lambda>r. kernel_ok (\<lambda>d t. L \<subseteq> d \<and> d \<subseteq> (if r = None then A - {canon ip} else A) \<and> t = T))"
proof (rule tripleI)
  fix s r s' assume s: "kernel_ok (\<lambda>d t. L \<subseteq> d \<and> d \<subseteq> A \<and> t = T) s" "run_state (world (Unblock (updater env) ip)) s = (r, s')"
  have i: "inv (o_World s)" using s(1) by (simp add: kernel_ok_def)
  have b: "Unblock (updater env) ip (o_World s) = (r, o_World s')" using s(2) by (auto split: prod.splits)
  show "kernel_ok (\<lambda>d t. L \<subseteq> d \<and> d \<subseteq> (if r = None then A - {canon ip} else A) \<and> t = T) s'"
    using unblock [OF i assms(1) b] s(1) assms(2) by (auto simp: kernel_ok_def)
qed

lemma unblock_tunnel_takes:
  assumes "valid_ip ip" "(canon ip, x) \<notin> L"
  shows "triple (kernel_ok (\<lambda>d t. d = D \<and> L \<subseteq> t \<and> t \<subseteq> A)) (world (UnblockTunnel (updater env) ip x))
    (\<lambda>r. kernel_ok (\<lambda>d t. d = D \<and> L \<subseteq> t \<and> t \<subseteq> (if r = None then A - {(canon ip, x)} else A)))"
proof (rule tripleI)
  fix s r s' assume s: "kernel_ok (\<lambda>d t. d = D \<and> L \<subseteq> t \<and> t \<subseteq> A) s" "run_state (world (UnblockTunnel (updater env) ip x)) s = (r, s')"
  have i: "inv (o_World s)" using s(1) by (simp add: kernel_ok_def)
  have b: "UnblockTunnel (updater env) ip x (o_World s) = (r, o_World s')" using s(2) by (auto split: prod.splits)
  show "kernel_ok (\<lambda>d t. d = D \<and> L \<subseteq> t \<and> t \<subseteq> (if r = None then A - {(canon ip, x)} else A)) s'"
    using unblock_tunnel [OF i assms(1) b] s(1) assms(2) by (auto simp: kernel_ok_def)
qed

lemma unblock_ips_exact:
  "triple (kernel_ok (\<lambda>d t. d = D \<and> t = T)) (unblock_ips env what raws)
     (\<lambda>r s. r = None \<longrightarrow> kernel_ok (\<lambda>d t. d = D - ips_of raws \<and> t = T) s)"
proof -
  have "triple (kernel_ok (\<lambda>d t. D - ips_of raws \<subseteq> d \<and> d \<subseteq> D \<and> t = T)) (unblock_ips env what raws)
      (\<lambda>r. kernel_ok (\<lambda>d t. D - ips_of raws \<subseteq> d \<and> d \<subseteq> (if r = None then D - ips_of raws else D) \<and> t = T))"
    unfolding unblock_ips_def ips_of_UN [of raws]
  proof (rule triple_each_diff [where P = "\<lambda>A. kernel_ok (\<lambda>d t. D - \<Union>((\<lambda>x. case ParseIP x of None \<Rightarrow> {} | Some ip \<Rightarrow> {canon ip}) ` set raws) \<subseteq> d \<and> d \<subseteq> A \<and> t = T)"])
    fix x A assume x: "x \<in> set raws"
    show "triple (kernel_ok (\<lambda>d t. D - \<Union>((\<lambda>x. case ParseIP x of None \<Rightarrow> {} | Some ip \<Rightarrow> {canon ip}) ` set raws) \<subseteq> d \<and> d \<subseteq> A \<and> t = T))
        (case ParseIP x of None \<Rightarrow> return None | Some ip \<Rightarrow> do { r \<leftarrow> world (Unblock (updater env) ip); return (map_option (wrap what) r) })
        (\<lambda>r. kernel_ok (\<lambda>d t. D - \<Union>((\<lambda>x. case ParseIP x of None \<Rightarrow> {} | Some ip \<Rightarrow> {canon ip}) ` set raws) \<subseteq> d \<and>
          d \<subseteq> (if r = None then A - (case ParseIP x of None \<Rightarrow> {} | Some ip \<Rightarrow> {canon ip}) else A) \<and> t = T))"
    proof (cases "ParseIP x")
      case (Some ip)
      have out: "canon ip \<notin> D - \<Union>((\<lambda>x. case ParseIP x of None \<Rightarrow> {} | Some ip \<Rightarrow> {canon ip}) ` set raws)"
        using x Some by force
      show ?thesis unfolding Some option.simps(5)
        by (rule triple_bind [OF unblock_takes [OF ParseIP_valid [OF Some] out]], rule triple_return) simp
    qed (simp add: triple_return)
  qed (auto simp: kernel_ok_def)
  then show ?thesis by (rule triple_conseq) (auto simp: kernel_ok_def)
qed

lemma unblock_tunnels_exact:
  "triple (kernel_ok (\<lambda>d t. d = D \<and> t = T)) (unblock_tunnels env what es)
     (\<lambda>r s. r = None \<longrightarrow> kernel_ok (\<lambda>d t. d = D \<and> t = T - tunnels_of es) s)"
proof -
  let ?g = "\<lambda>x. case parseTunnel x of Inl _ \<Rightarrow> {} | Inr (ip, t) \<Rightarrow> {(canon ip, t)}"
  have "triple (kernel_ok (\<lambda>d t. d = D \<and> T - tunnels_of es \<subseteq> t \<and> t \<subseteq> T)) (unblock_tunnels env what es)
      (\<lambda>r. kernel_ok (\<lambda>d t. d = D \<and> T - tunnels_of es \<subseteq> t \<and> t \<subseteq> (if r = None then T - tunnels_of es else T)))"
    unfolding unblock_tunnels_def tunnels_of_UN [of es]
  proof (rule triple_each_diff [where P = "\<lambda>A. kernel_ok (\<lambda>d t. d = D \<and> T - \<Union>(?g ` set es) \<subseteq> t \<and> t \<subseteq> A)"])
    fix x A assume x: "x \<in> set es"
    show "triple (kernel_ok (\<lambda>d t. d = D \<and> T - \<Union>(?g ` set es) \<subseteq> t \<and> t \<subseteq> A))
        (case parseTunnel x of Inl e \<Rightarrow> return None
         | Inr (ip, teid) \<Rightarrow> do { r \<leftarrow> world (UnblockTunnel (updater env) ip teid); return (map_option (wrap what) r) })
        (\<lambda>r. kernel_ok (\<lambda>d t. d = D \<and> T - \<Union>(?g ` set es) \<subseteq> t \<and> t \<subseteq> (if r = None then A - ?g x else A)))"
    proof (cases "parseTunnel x")
      case (Inr it)
      obtain ip t where it: "it = (ip, t)" by fastforce
      have out: "(canon ip, t) \<notin> T - \<Union>(?g ` set es)" using x Inr it by force
      show ?thesis unfolding Inr it sum.simps(6) prod.simps(2)
        by (rule triple_bind [OF unblock_tunnel_takes [OF parseTunnel_valid [OF Inr [unfolded it]] out]], rule triple_return) simp
    qed (simp add: triple_return)
  qed (auto simp: kernel_ok_def)
  then show ?thesis by (rule triple_conseq) (auto simp: kernel_ok_def)
qed

lemma still_release_mesh: "triple (kernel_ok Q) (release_mesh env what p) (\<lambda>_. kernel_ok Q)"
  unfolding release_mesh_def
  by (cases "firstMatchLabels (TargetWorkloads (Spec p))") (auto intro!: still_local(5) triple_bind [OF still_neutral(6)])

lemma triple_then:
  assumes "triple P m (\<lambda>r s. r = None \<longrightarrow> R s)" "triple R n (\<lambda>r s. r = None \<longrightarrow> Q s)"
    and "run_state (or_fail m n) s = (None, s')" "P s"
  shows "Q s'"
  using tripleD [OF triple_success [OF assms(1,2)] assms(4,3)] by simp

lemma undo_exact:
  assumes "run_state (or_fail (unblock_ips env a (BlockedSourceIPs st)) (unblock_tunnels env b (BlockedTunnels st))) s = (None, s')"
    and "inv (o_World s)"
  shows "kernel_ok (\<lambda>d t. d = drops (o_World s) - claimed_ips st \<and> t = tdrops (o_World s) - claimed_tunnels st) s'"
  unfolding claimed_of
  by (rule triple_then [OF unblock_ips_exact [of "drops (o_World s)" "tdrops (o_World s)"] unblock_tunnels_exact assms(1)])
    (simp add: kernel_ok_def assms(2))

lemma deescalate_exact:
  assumes i: "inv (o_World s)" and "LastMitigationTime (Status policy) = Some t0"
    and "deEscalationDwell r \<le> fst (clock env (o_World s)) - t0"
    and run: "run_state (tryDeEscalate env r policy) s = ((res, None), s')"
  shows "drops (o_World s') = drops (o_World s) - claimed_ips (Status policy) \<and>
    tdrops (o_World s') = tdrops (o_World s) - claimed_tunnels (Status policy) \<and>
    (\<exists>q. stored (o_World s') (policy_key policy) = Some q \<and> Status q = cleared (Status policy))"
proof -
  obtain now w1 where c: "clock env (o_World s) = (now, w1)" by fastforce
  let ?s1 = "s\<lparr>o_World := w1\<rparr>"
  let ?undo = "or_fail (unblock_ips env ''de-escalate: unblock'' (BlockedSourceIPs (Status policy)))
     (or_fail (unblock_tunnels env ''de-escalate: unblock tunnel'' (BlockedTunnels (Status policy)))
       (if IsolatePod (Actions (Spec policy)) then release_mesh env ''de-escalate: release mesh quarantine'' policy else return None))"
  have w1: "inv w1" "drops w1 = drops (o_World s)" "tdrops w1 = tdrops (o_World s)" using neutral_eqD(1) [OF i c] by simp_all
  obtain e s2 where u: "run_state ?undo ?s1 = (e, s2)" by fastforce
  obtain x w3 where up: "update_status env (with_status cleared policy) (o_World s2) = (x, w3)" by fastforce
  have e: "e = None" and x: "\<not> isl x" and s': "o_World s' = w3"
    using run u up assms(2,3) c
    by (auto simp: tryDeEscalate_def Let_def split: option.splits sum.splits)
  have k: "kernel_ok (\<lambda>d t. d = drops w1 - claimed_ips (Status policy) \<and> t = tdrops w1 - claimed_tunnels (Status policy)) s2"
  proof (rule triple_then [OF _ _ u [unfolded e or_fail_assoc]])
    show "triple (\<lambda>s. s = ?s1) (or_fail (unblock_ips env ''de-escalate: unblock'' (BlockedSourceIPs (Status policy)))
        (unblock_tunnels env ''de-escalate: unblock tunnel'' (BlockedTunnels (Status policy))))
      (\<lambda>r s. r = None \<longrightarrow> kernel_ok (\<lambda>d t. d = drops w1 - claimed_ips (Status policy) \<and> t = tdrops w1 - claimed_tunnels (Status policy)) s)"
      by (rule tripleI) (use undo_exact [of _ "Status policy" _ ?s1] w1(1) in auto)
    show "triple (kernel_ok Q) (if IsolatePod (Actions (Spec policy)) then release_mesh env ''de-escalate: release mesh quarantine'' policy else return None)
      (\<lambda>r s. r = None \<longrightarrow> kernel_ok Q s)" for Q
      by (rule triple_conseq [OF triple_if [OF still_release_mesh still_local(5)]]) auto
  qed simp
  then have "inv (o_World s2)" by (simp add: kernel_ok_def)
  from status_write [OF this up] x k w1 s' show ?thesis
    by (cases x) (auto simp: kernel_ok_def accepted_def policy_key_def)
qed

lemma finalize_exact:
  assumes i: "inv (o_World s)" and "ContainsFinalizer (k8s env) (p_Finalizers policy) telecomSecurityPolicyFinalizer"
    and run: "run_state (finalize env policy) s = ((res, None), s')" and ok: "index_ok (o_Index s)"
  shows "drops (o_World s') = drops (o_World s) - claimed_ips (Status policy) \<and>
    tdrops (o_World s') = tdrops (o_World s) - claimed_tunnels (Status policy) \<and>
    index_lookup (o_Index s') (policy_key policy) = None"
proof -
  let ?undo = "or_fail (release_mesh env ''release mesh quarantine'' policy)
     (or_fail (unblock_ips env ''unblock'' (BlockedSourceIPs (Status policy)))
              (unblock_tunnels env ''unblock tunnel'' (BlockedTunnels (Status policy))))"
  let ?p = "policy\<lparr>p_Finalizers := RemoveFinalizer (k8s env) (p_Finalizers policy) telecomSecurityPolicyFinalizer\<rparr>"
  obtain e s2 where u: "run_state ?undo s = (e, s2)" by fastforce
  obtain x w3 where up: "update_policy env ?p (o_World s2) = (x, w3)" by fastforce
  have e: "e = None" and x: "\<not> isl x" using run u up assms(2) by (auto simp: finalize_def split: option.splits sum.splits)
  obtain p' where p': "x = Inr p'" using x by (cases x) auto
  have s': "o_World s' = w3" "o_Index s' = Remove (policy_key p') (o_Index s2)"
    using run u up assms(2) e p' by (auto simp: finalize_def)
  have keep: "triple (\<lambda>s. index_ok (o_Index s)) ?undo (\<lambda>_ s. index_ok (o_Index s))"
  proof -
    have w: "triple (\<lambda>s. index_ok (o_Index s)) (world f) (\<lambda>_ s. index_ok (o_Index s))" for f :: "'w \<Rightarrow> 'b \<times> 'w"
      by (rule tripleI) (auto split: prod.splits)
    have r: "triple (\<lambda>s. index_ok (o_Index s)) (return y) (\<lambda>_ s. index_ok (o_Index s))" for y :: "err option" by (rule triple_return)
    have "triple (\<lambda>s. index_ok (o_Index s)) (release_mesh env a policy) (\<lambda>_ s. index_ok (o_Index s))" for a
      unfolding release_mesh_def by (auto split: option.split intro!: r triple_bind [OF w])
    moreover have "triple (\<lambda>s. index_ok (o_Index s)) (unblock_ips env a raws) (\<lambda>_ s. index_ok (o_Index s))" for a raws
      unfolding unblock_ips_def by (rule triple_each) (auto split: option.split intro!: r triple_bind [OF w])
    moreover have "triple (\<lambda>s. index_ok (o_Index s)) (unblock_tunnels env a es) (\<lambda>_ s. index_ok (o_Index s))" for a es
      unfolding unblock_tunnels_def by (rule triple_each) (auto split: sum.split prod.split intro!: r triple_bind [OF w])
    ultimately show ?thesis by (intro triple_or_fail_same)
  qed
  have k: "kernel_ok (\<lambda>d t. d = drops (o_World s) - claimed_ips (Status policy) \<and> t = tdrops (o_World s) - claimed_tunnels (Status policy)) s2"
  proof (rule triple_then [OF _ _ u [unfolded e]])
    let ?Q = "\<lambda>d t. d = drops (o_World s) \<and> t = tdrops (o_World s)"
    show "triple (kernel_ok ?Q) (release_mesh env ''release mesh quarantine'' policy) (\<lambda>r s. r = None \<longrightarrow> kernel_ok ?Q s)"
      by (rule triple_conseq [OF still_release_mesh]) auto
    show "triple (kernel_ok ?Q) (or_fail (unblock_ips env ''unblock'' (BlockedSourceIPs (Status policy)))
        (unblock_tunnels env ''unblock tunnel'' (BlockedTunnels (Status policy))))
      (\<lambda>r s'. r = None \<longrightarrow> kernel_ok (\<lambda>d t. d = drops (o_World s) - claimed_ips (Status policy) \<and> t = tdrops (o_World s) - claimed_tunnels (Status policy)) s')"
      by (rule tripleI) (use undo_exact in \<open>auto simp: kernel_ok_def\<close>)
  qed (simp add: kernel_ok_def i)
  then have i2: "inv (o_World s2)" by (simp add: kernel_ok_def)
  have "index_ok (o_Index s2)" by (rule tripleD [OF keep ok u])
  moreover have "policy_key p' = policy_key policy" using object_write [OF i2 up] p' by (simp add: policy_key_def)
  ultimately have "index_lookup (o_Index s') (policy_key policy) = None" using s'(2) policy_index.look_rem by simp
  then show ?thesis using object_write [OF i2 up] k s'(1) by (simp add: kernel_ok_def)
qed

end

text \<open>
  C9: de-escalation reverses the mitigation completely and touches nothing else. Once a Mitigating policy has been
  quiet for the dwell time and \<open>tryDeEscalate\<close> reports success, the kernel drops exactly what it dropped
  before less the addresses and tunnels of the policy's status, and the stored status claims nothing any more and is
  back in Monitoring.
\<close>

theorem deescalation_releases:
  assumes "cluster env ins winv drops tdrops stored hist calm" "winv (o_World s)"
    and "LastMitigationTime (Status policy) = Some t0" "deEscalationDwell r \<le> fst (clock env (o_World s)) - t0"
    and "run_state (tryDeEscalate env r policy) s = ((res, None), s')"
  shows "drops (o_World s') = drops (o_World s) - claimed_ips (Status policy) \<and>
    tdrops (o_World s') = tdrops (o_World s) - claimed_tunnels (Status policy) \<and>
    (\<exists>q. stored (o_World s') (policy_key policy) = Some q \<and> Status q = cleared (Status policy))"
  by (rule cluster.deescalate_exact [OF assms])

definition mitigated_policy :: Policy where
  "mitigated_policy = with_status (\<lambda>st. st\<lparr>Phase := PhaseMitigating, LastMitigationTime := Some 0, BlockedSourceIPs := [''10.0.0.1''],
     BlockedTunnels := [formatTunnel ''10.0.0.1'' 7]\<rparr>) demo_policy"

definition mitigated_world :: sim where
  "mitigated_world = sim_create mitigated_policy
     (sim_start\<lparr>s_now := 10 * minute, s_kernel := snd (Loader_Block (v4InV6Prefix @ [10, 0, 0, 1]) mem_kernel)\<rparr>)"

definition mitigated_op :: "(nat, sim) op" where
  "mitigated_op = demo_op\<lparr>o_Index := Put mitigated_policy NewPolicyIndex, o_World := mitigated_world\<rparr>"

definition demo_reconciler :: Reconciler where
  "demo_reconciler = \<lparr>DeEscalationDwell = 0, HasRecorder = True\<rparr>"

lemma sample_valid: "valid_ip (v4InV6Prefix @ [10, 0, 0, 1])"
  by (rule ParseIP_valid [OF ParseIP_sample])

lemma blocked_kernel:
  obtains k where "Loader_Block (v4InV6Prefix @ [10, 0, 0, 1]) mem_kernel = (None, k)" "k_sys k = mem_sys" "loader_inv k"
    "loader_drops k = {canon (v4InV6Prefix @ [10, 0, 0, 1])}" "loader_tdrops k = {}"
proof -
  obtain k where k: "Loader_Block (v4InV6Prefix @ [10, 0, 0, 1]) mem_kernel = (None, k)" "k_sys k = mem_sys"
    using mem_never_fails(1) [OF _ sample_valid, of mem_kernel] by (auto simp: mem_kernel_def)
  then show ?thesis using that Loader_Block_contract [OF mem_kernel_inv sample_valid k(1)] by (simp add: mem_kernel_empty)
qed

lemma mitigated_world_facts:
  "sim_inv mitigated_world" "s_now mitigated_world = 10 * minute" "\<not> s_apiDown mitigated_world"
  "map_of (s_policies mitigated_world) (policy_key mitigated_policy) = Some mitigated_policy"
  "s_kernel mitigated_world = snd (Loader_Block (v4InV6Prefix @ [10, 0, 0, 1]) mem_kernel)"
proof -
  obtain k where k: "Loader_Block (v4InV6Prefix @ [10, 0, 0, 1]) mem_kernel = (None, k)" "loader_inv k"
    using blocked_kernel by metis
  have i: "sim_inv (sim_start\<lparr>s_now := 10 * minute, s_kernel := k\<rparr>)" using sim_start_inv k(2) by (simp add: sim_inv_def)
  then show "sim_inv mitigated_world"
    using sim_store_effect [OF i, of mitigated_policy] k(1) by (metis mitigated_world_def sim_create_def prod.collapse snd_conv)
  show "map_of (s_policies mitigated_world) (policy_key mitigated_policy) = Some mitigated_policy"
    by (simp add: mitigated_world_def sim_create_def sim_store_def Let_def mitigated_policy_def demo_policy_def)
qed (simp_all add: mitigated_world_def sim_create_def sim_store_def Let_def)

lemma mitigated_deescalates:
  "\<exists>res s'. run_state (tryDeEscalate sim_env demo_reconciler mitigated_policy) mitigated_op = ((res, None), s')"
proof -
  obtain k where k: "Loader_Block (v4InV6Prefix @ [10, 0, 0, 1]) mem_kernel = (None, k)" "k_sys k = mem_sys"
    using blocked_kernel by metis
  obtain k1 where k1: "Loader_Unblock (v4InV6Prefix @ [10, 0, 0, 1]) k = (None, k1)" "k_sys k1 = mem_sys"
    using mem_never_fails(2) [OF k(2) sample_valid] by auto
  obtain k2 where k2: "Loader_UnblockTunnel (v4InV6Prefix @ [10, 0, 0, 1]) 7 k1 = (None, k2)"
    using mem_never_fails(4) [OF k1(2) sample_valid, of 7] by auto
  have pol: "LastMitigationTime (Status mitigated_policy) = Some 0" "BlockedSourceIPs (Status mitigated_policy) = [''10.0.0.1'']"
      "BlockedTunnels (Status mitigated_policy) = [formatTunnel ''10.0.0.1'' 7]"
      "firstMatchLabels (TargetWorkloads (Spec mitigated_policy)) = Some [(''app'', ''upf'')]"
    by (simp_all add: mitigated_policy_def demo_policy_def sample_policy_def selector_app_def)
  have acc: "\<exists>p' w'. sim_update_status (with_status cleared mitigated_policy) w = (Inr p', w')"
    if "s_policies w = s_policies mitigated_world" "\<not> s_apiDown w" for w
    using sim_status_accepts [of w "with_status cleared mitigated_policy" mitigated_policy] mitigated_world_facts(4) that
    by (auto simp: policy_key_def)
  have quiet: "deEscalationDwell demo_reconciler \<le> 10 * minute"
    by (simp add: demo_reconciler_def deEscalationDwell_def defaultDeEscalationDwell_def)
  have mp: "IsolatePod (Actions (Spec mitigated_policy))"
    by (simp add: mitigated_policy_def demo_policy_def sample_policy_def)
  let ?w2 = "mitigated_world\<lparr>s_kernel := k2, s_quarantined := filter (\<lambda>q. q \<noteq> (p_Namespace mitigated_policy, [(''app'', ''upf'')])) (s_quarantined mitigated_world)\<rparr>"
  obtain p' w' where a: "sim_update_status (with_status cleared mitigated_policy) ?w2 = (Inr p', w')"
    using acc [of ?w2] mitigated_world_facts(3) by auto
  have sys: "sim_updater = \<lparr>Block = (\<lambda>ip. on_kernel (Loader_Block ip)), Unblock = (\<lambda>ip. on_kernel (Loader_Unblock ip)),
     BlockTunnel = (\<lambda>ip t. on_kernel (Loader_BlockTunnel ip t)), UnblockTunnel = (\<lambda>ip t. on_kernel (Loader_UnblockTunnel ip t))\<rparr>"
    by (simp add: sim_updater_def)
  show ?thesis
    using quiet a
    by (simp add: tryDeEscalate_def pol mitigated_op_def mitigated_world_facts(2,5) unblock_ips_def unblock_tunnels_def run_or_fail
        ParseIP_sample parse_format [OF ParseIP_sample] sys on_kernel_def k k1 k2 release_mesh_def mp Let_def)
qed

theorem deescalation_releases_witness:
  "canon (v4InV6Prefix @ [10, 0, 0, 1]) \<in> sim_drops mitigated_world \<and>
   canon (v4InV6Prefix @ [10, 0, 0, 1]) \<notin>
     sim_drops (o_World (snd (run_state (tryDeEscalate sim_env demo_reconciler mitigated_policy) mitigated_op)))"
proof -
  obtain res s' where run: "run_state (tryDeEscalate sim_env demo_reconciler mitigated_policy) mitigated_op = ((res, None), s')"
    using mitigated_deescalates by blast
  have "LastMitigationTime (Status mitigated_policy) = Some 0" "canon (v4InV6Prefix @ [10, 0, 0, 1]) \<in> claimed_ips (Status mitigated_policy)"
    "deEscalationDwell demo_reconciler \<le> fst (clock sim_env (o_World mitigated_op)) - 0" "sim_inv (o_World mitigated_op)"
    by (auto simp: mitigated_policy_def claimed_ips_def ParseIP_sample mitigated_op_def mitigated_world_facts demo_reconciler_def
        deEscalationDwell_def defaultDeEscalationDwell_def)
  then have "canon (v4InV6Prefix @ [10, 0, 0, 1]) \<notin> sim_drops (o_World s')"
    using deescalation_releases [OF sim_cluster.cluster_axioms _ _ _ run] by blast
  moreover have "canon (v4InV6Prefix @ [10, 0, 0, 1]) \<in> sim_drops mitigated_world"
    by (rule blocked_kernel) (simp add: sim_drops_def mitigated_world_facts(5))
  ultimately show ?thesis using run by simp
qed

text \<open>
  C8: deleting a policy releases everything it caused. When \<open>finalize\<close> succeeds on a policy that carries the
  finalizer, the kernel drops exactly what it dropped before less what the policy's status claims, and the
  policy is no longer in the index, so that no score can match it again.
\<close>

theorem finalize_releases:
  assumes "cluster env ins winv drops tdrops stored hist calm" "winv (o_World s)" "index_ok (o_Index s)"
    and "telecomSecurityPolicyFinalizer \<in> set (p_Finalizers policy)"
    and "run_state (finalize env policy) s = ((res, None), s')"
  shows "drops (o_World s') = drops (o_World s) - claimed_ips (Status policy) \<and>
    tdrops (o_World s') = tdrops (o_World s) - claimed_tunnels (Status policy) \<and>
    index_lookup (o_Index s') (policy_key policy) = None"
proof -
  have "ContainsFinalizer (k8s env) (p_Finalizers policy) telecomSecurityPolicyFinalizer"
    using k8s_lib_okD(1) [OF cluster.library [OF assms(1)]] assms(4) by simp
  then show ?thesis by (rule cluster.finalize_exact [OF assms(1,2) _ assms(5,3)])
qed

definition doomed_policy :: Policy where
  "doomed_policy = mitigated_policy\<lparr>p_Finalizers := [telecomSecurityPolicyFinalizer], p_DeletionTimestamp := Some 5\<rparr>"

definition doomed_op :: "(nat, sim) op" where
  "doomed_op = demo_op\<lparr>o_Index := Put doomed_policy NewPolicyIndex,
     o_World := sim_create doomed_policy
       (sim_start\<lparr>s_kernel := snd (Loader_Block (v4InV6Prefix @ [10, 0, 0, 1]) mem_kernel)\<rparr>)\<rparr>"

lemma doomed_facts:
  "sim_inv (o_World doomed_op)" "\<not> s_apiDown (o_World doomed_op)"
  "map_of (s_policies (o_World doomed_op)) (policy_key doomed_policy) = Some doomed_policy"
  "s_kernel (o_World doomed_op) = snd (Loader_Block (v4InV6Prefix @ [10, 0, 0, 1]) mem_kernel)"
  "index_ok (o_Index doomed_op)"
proof -
  obtain k where k: "Loader_Block (v4InV6Prefix @ [10, 0, 0, 1]) mem_kernel = (None, k)" "loader_inv k"
    using blocked_kernel by metis
  have i: "sim_inv (sim_start\<lparr>s_kernel := k\<rparr>)" using sim_start_inv k(2) by (simp add: sim_inv_def)
  obtain q w' where "sim_store doomed_policy (sim_start\<lparr>s_kernel := k\<rparr>) = (q, w')" by fastforce
  then show "sim_inv (o_World doomed_op)" using sim_store_effect [OF i, of doomed_policy] k(1) by (simp add: doomed_op_def sim_create_def)
  show "index_ok (o_Index doomed_op)" by (simp add: doomed_op_def index_ok_Put [OF index_ok_new])
  show "map_of (s_policies (o_World doomed_op)) (policy_key doomed_policy) = Some doomed_policy"
    by (simp add: doomed_op_def sim_create_def sim_store_def Let_def doomed_policy_def mitigated_policy_def demo_policy_def)
qed (simp_all add: doomed_op_def sim_create_def sim_store_def Let_def)

lemma doomed_finalizes: "\<exists>res s'. run_state (finalize sim_env doomed_policy) doomed_op = ((res, None), s')"
proof -
  obtain k where k: "Loader_Block (v4InV6Prefix @ [10, 0, 0, 1]) mem_kernel = (None, k)" "k_sys k = mem_sys"
    using blocked_kernel by metis
  obtain k1 where k1: "Loader_Unblock (v4InV6Prefix @ [10, 0, 0, 1]) k = (None, k1)" "k_sys k1 = mem_sys"
    using mem_never_fails(2) [OF k(2) sample_valid] by auto
  obtain k2 where k2: "Loader_UnblockTunnel (v4InV6Prefix @ [10, 0, 0, 1]) 7 k1 = (None, k2)"
    using mem_never_fails(4) [OF k1(2) sample_valid, of 7] by auto
  have pol: "BlockedSourceIPs (Status doomed_policy) = [''10.0.0.1'']" "p_Finalizers doomed_policy = [telecomSecurityPolicyFinalizer]"
      "BlockedTunnels (Status doomed_policy) = [formatTunnel ''10.0.0.1'' 7]"
      "firstMatchLabels (TargetWorkloads (Spec doomed_policy)) = Some [(''app'', ''upf'')]"
    by (simp_all add: doomed_policy_def mitigated_policy_def demo_policy_def sample_policy_def selector_app_def)
  define d where "d = doomed_policy\<lparr>p_Finalizers := []\<rparr>"
  have acc: "\<exists>p' w'. sim_update_policy d w = (Inr p', w')"
    if "s_policies w = s_policies (o_World doomed_op)" "\<not> s_apiDown w" for w
  proof -
    have "map_of (s_policies w) (policy_key d) = Some doomed_policy" "p_ResourceVersion d = p_ResourceVersion doomed_policy"
      using doomed_facts(3) that(1) by (simp_all add: d_def policy_key_def)
    then show ?thesis using that(2) by (simp add: sim_update_policy_def sim_write_def Let_def d_def doomed_policy_def split: prod.split)
  qed
  let ?w2 = "o_World doomed_op\<lparr>s_quarantined := filter (\<lambda>q. q \<noteq> (p_Namespace doomed_policy, [(''app'', ''upf'')])) (s_quarantined (o_World doomed_op)),
    s_kernel := k2\<rparr>"
  obtain p' w' where a: "sim_update_policy d ?w2 = (Inr p', w')" using acc [of ?w2] doomed_facts(2) by auto
  show ?thesis
    using a unfolding d_def
    by (simp add: finalize_def pol doomed_facts(4) unblock_ips_def unblock_tunnels_def run_or_fail k8s_ref_def
        ParseIP_sample parse_format [OF ParseIP_sample] sim_updater_def on_kernel_def k k1 k2 release_mesh_def)
qed

theorem finalize_releases_witness:
  "canon (v4InV6Prefix @ [10, 0, 0, 1]) \<in> sim_drops (o_World doomed_op) \<and>
   canon (v4InV6Prefix @ [10, 0, 0, 1]) \<notin> sim_drops (o_World (snd (run_state (finalize sim_env doomed_policy) doomed_op)))"
proof -
  obtain res s' where run: "run_state (finalize sim_env doomed_policy) doomed_op = ((res, None), s')"
    using doomed_finalizes by blast
  have "canon (v4InV6Prefix @ [10, 0, 0, 1]) \<in> claimed_ips (Status doomed_policy)"
    "telecomSecurityPolicyFinalizer \<in> set (p_Finalizers doomed_policy)"
    by (auto simp: doomed_policy_def mitigated_policy_def claimed_ips_def ParseIP_sample)
  then have "canon (v4InV6Prefix @ [10, 0, 0, 1]) \<notin> sim_drops (o_World s')"
    using finalize_releases [OF sim_cluster.cluster_axioms doomed_facts(1,5) _ run] by blast
  moreover have "canon (v4InV6Prefix @ [10, 0, 0, 1]) \<in> sim_drops (o_World doomed_op)"
    by (rule blocked_kernel) (simp add: sim_drops_def doomed_facts(4))
  ultimately show ?thesis using run by simp
qed

text \<open>
  The dwell time is observed to the nanosecond. Before it is over \<open>tryDeEscalate\<close> does nothing but look at the clock,
  and it asks to be called again after exactly the time that is left.
\<close>

theorem deescalation_waits:
  assumes "LastMitigationTime (Status policy) = Some t0" "clock env (o_World s) = (now, w')" "now - t0 < deEscalationDwell r"
  shows "run_state (tryDeEscalate env r policy) s =
      ((\<lparr>RequeueAfter = deEscalationDwell r - (now - t0)\<rparr>, None), s\<lparr>o_World := w'\<rparr>) \<and>
    (let later = now + (deEscalationDwell r - (now - t0)) in deEscalationDwell r \<le> later - t0 \<and> now < later)"
  using assms by (simp add: tryDeEscalate_def Let_def)

theorem deescalation_waits_witness:
  "RequeueAfter (fst (fst (run_state (tryDeEscalate sim_env demo_reconciler mitigated_policy)
     (mitigated_op\<lparr>o_World := mitigated_world\<lparr>s_now := minute\<rparr>\<rparr>)))) = 4 * minute"
proof -
  have "LastMitigationTime (Status mitigated_policy) = Some 0" "deEscalationDwell demo_reconciler = 5 * minute"
    by (simp_all add: mitigated_policy_def demo_reconciler_def deEscalationDwell_def defaultDeEscalationDwell_def)
  then show ?thesis
    using deescalation_waits [of mitigated_policy 0 sim_env "mitigated_op\<lparr>o_World := mitigated_world\<lparr>s_now := minute\<rparr>\<rparr>"
        minute "mitigated_world\<lparr>s_now := minute\<rparr>" demo_reconciler]
    by simp
qed


definition alerting_policy :: Policy where
  "alerting_policy = with_status (\<lambda>st. st\<lparr>Phase := PhaseAlerting\<rparr>) (mitigated_policy\<lparr>p_Finalizers := [telecomSecurityPolicyFinalizer]\<rparr>)"

definition alerting_op :: "(nat, sim) op" where
  "alerting_op = mitigated_op\<lparr>o_World := sim_create alerting_policy
     (sim_start\<lparr>s_kernel := snd (Loader_Block (v4InV6Prefix @ [10, 0, 0, 1]) mem_kernel)\<rparr>)\<rparr>"


end
