(* ===== verification/Blocklist_Reconciler.thy ===== *)
theory Blocklist_Reconciler
  imports Policy_Reconciler
begin

text \<open>
  The drift reconciler (\<open>pkg/controller/blocklist_reconciler.go\<close>): it makes the enforcement maps equal to what
  the policies' statuses claim. The maps keyed by text are association lists. \<open>unclaimed\<close>, the keys the previous
  pass found without a claim, is threaded through the passes; \<open>ins\<close> is the inspector, \<open>None\<close> for a nil one.
\<close>

definition defaultBlocklistReconcileInterval :: duration where
  "defaultBlocklistReconcileInterval = minute"

record BlocklistReconciler =
  br_HasBlocklist :: bool
  br_Interval :: duration
  br_HasRecorder :: bool
  br_HasPodRef :: bool
  br_unclaimed :: "string list"

record DriftReport =
  MissingIPs :: nat
  MissingTunnels :: nat
  ExtraIPs :: nat
  ExtraTunnels :: nat
  PendingExtraIPs :: nat
  PendingExtraTunnels :: nat
  DesiredIPs :: nat
  DesiredTunnels :: nat
  KernelIPs :: nat
  KernelTunnels :: nat

definition zero_report :: DriftReport where
  "zero_report = \<lparr>MissingIPs = 0, MissingTunnels = 0, ExtraIPs = 0, ExtraTunnels = 0, PendingExtraIPs = 0,
     PendingExtraTunnels = 0, DesiredIPs = 0, DesiredTunnels = 0, KernelIPs = 0, KernelTunnels = 0\<rparr>"

definition Drifted :: "DriftReport \<Rightarrow> bool" where
  "Drifted d = (MissingIPs d + MissingTunnels d + ExtraIPs d + ExtraTunnels d > 0)"

definition interval :: "BlocklistReconciler \<Rightarrow> duration" where
  "interval b = (if br_Interval b = 0 then defaultBlocklistReconcileInterval else br_Interval b)"

definition blocklist_NeedLeaderElection :: bool where
  "blocklist_NeedLeaderElection = False"

definition desired_ip :: "string \<Rightarrow> (string \<times> ip) list \<Rightarrow> (string \<times> ip) list" where
  "desired_ip raw ips = (case ParseIP raw of None \<Rightarrow> ips | Some ip \<Rightarrow> AList.update (IP_String ip) ip ips)"

definition desired_tunnel :: "string \<Rightarrow> (string \<times> BlockedTunnel) list \<Rightarrow> (string \<times> BlockedTunnel) list" where
  "desired_tunnel entry tunnels =
     (case parseTunnel entry of
        Inl e \<Rightarrow> tunnels
      | Inr (ip, teid) \<Rightarrow>
          if teid = 0 then tunnels
          else AList.update (formatTunnel (IP_String ip) teid) \<lparr>bt_IP = ip, bt_TEID = teid\<rparr> tunnels)"

definition desiredEnforcement :: "Policy list \<Rightarrow> (string \<times> ip) list \<times> (string \<times> BlockedTunnel) list" where
  "desiredEnforcement policies =
     fold (\<lambda>policy (ips, tunnels).
         if deleting policy then (ips, tunnels)
         else (fold desired_ip (BlockedSourceIPs (Status policy)) ips, fold desired_tunnel (BlockedTunnels (Status policy)) tunnels))
       policies ([], [])"

text \<open>What became of one key: nothing to do, left for the next pass, or corrected with this result.\<close>

datatype outcome = InSync | Pending | Corrected "err option"

definition reapply ::
  "string \<Rightarrow> (string \<times> 'v) list \<Rightarrow> (string \<times> 'v) list \<Rightarrow> ('v \<Rightarrow> 'w \<Rightarrow> err option \<times> 'w) \<Rightarrow> string \<Rightarrow> ('l, 'w, outcome) handler" where
  "reapply kind desired actual act key =
     (if map_of actual key \<noteq> None then return InSync
      else do {
        emit [BlocklistDrift_Inc kind ''missing''];
        r \<leftarrow> world (act (the (map_of desired key)));
        return (Corrected (map_option (wrap ''re-apply'') r)) })"

definition remove_extra ::
  "string \<Rightarrow> string list \<Rightarrow> (string \<times> 'v) list \<Rightarrow> (string \<times> 'v) list \<Rightarrow> ('v \<Rightarrow> 'w \<Rightarrow> err option \<times> 'w) \<Rightarrow> string \<Rightarrow>
   ('l, 'w, outcome) handler" where
  "remove_extra kind unclaimed desired actual act key =
     (if map_of desired key \<noteq> None then return InSync
      else if kind @ '':'' @ key \<notin> set unclaimed then return Pending
      else do {
        emit [BlocklistDrift_Inc kind ''extra''];
        r \<leftarrow> world (act (the (map_of actual key)));
        return (Corrected (map_option (wrap ''remove unclaimed'') r)) })"

fun is_corrected :: "outcome \<Rightarrow> bool" where
  "is_corrected (Corrected r) = True"
| "is_corrected _ = False"

definition errors_of :: "outcome list \<Rightarrow> err list" where
  "errors_of rs = concat (map (\<lambda>r. case r of Corrected (Some e) \<Rightarrow> [e] | _ \<Rightarrow> []) rs)"

definition actual_ips :: "ip list \<Rightarrow> (string \<times> ip) list" where
  "actual_ips kernelIPs = fold (\<lambda>ip. AList.update (IP_String ip) ip) kernelIPs []"

definition actual_tunnels :: "BlockedTunnel list \<Rightarrow> (string \<times> BlockedTunnel) list" where
  "actual_tunnels kernelTunnels = fold (\<lambda>t. AList.update (formatTunnel (IP_String (bt_IP t)) (bt_TEID t)) t) kernelTunnels []"

definition still_unclaimed :: "string \<Rightarrow> (string \<times> 'v) list \<Rightarrow> (string \<times> 'v) list \<Rightarrow> string list" where
  "still_unclaimed kind desired actual = map (\<lambda>key. kind @ '':'' @ key) (filter (\<lambda>key. map_of desired key = None) (sortedKeys actual))"

text \<open>The gauges published at the end of a pass.\<close>

definition publish_gauges :: "'w BlocklistInspector \<Rightarrow> DriftReport \<Rightarrow> ('l, 'w, unit) handler" where
  "publish_gauges ins report = do {
     emit [BlocklistEntries_Set ''ip'' ''desired'' (int (DesiredIPs report)), BlocklistEntries_Set ''tunnel'' ''desired'' (int (DesiredTunnels report)),
           BlocklistEntries_Set ''ip'' ''kernel'' (int (KernelIPs report)), BlocklistEntries_Set ''tunnel'' ''kernel'' (int (KernelTunnels report))];
     caps \<leftarrow> world (\<lambda>w. (MapCapacity ins w, w));
     emit [BlocklistCapacity_Set ''ip'' (uint (fst caps)), BlocklistCapacity_Set ''tunnel'' (uint (snd caps))];
     occ \<leftarrow> world (ObservationOccupancy ins);
     case occ of
       Inl e \<Rightarrow> return ()
     | Inr (n, cap) \<Rightarrow> emit [ObservationMapOccupancy_Set ''tunnel_rate'' (uint n), ObservationMapCapacity_Set ''tunnel_rate'' (uint cap)] }"

definition Sync ::
  "('l, 'w) env \<Rightarrow> 'w BlocklistInspector \<Rightarrow> BlocklistReconciler \<Rightarrow> ('l, 'w, (DriftReport \<times> err option) \<times> BlocklistReconciler) handler" where
  "Sync env ins b = do {
     listed \<leftarrow> world (list_policies env);
     case listed of
       Inl e \<Rightarrow> return ((zero_report, Some (wrap ''list TelecomSecurityPolicies'' e)), b)
     | Inr items \<Rightarrow>
         (let (desiredIPs, desiredTunnels) = desiredEnforcement items;
              report1 = zero_report\<lparr>DesiredIPs := length desiredIPs, DesiredTunnels := length desiredTunnels\<rparr>
          in do {
            readIPs \<leftarrow> world (inspect_BlockedIPs ins);
            case readIPs of
              Inl e \<Rightarrow> return ((report1, Some (wrap ''read kernel blocklist'' e)), b)
            | Inr kernelIPs \<Rightarrow> do {
                readTunnels \<leftarrow> world (inspect_BlockedTunnels ins);
                case readTunnels of
                  Inl e \<Rightarrow> return ((report1, Some (wrap ''read kernel tunnel blocklist'' e)), b)
                | Inr kernelTunnels \<Rightarrow>
                    (let actualIPs = actual_ips kernelIPs;
                         actualTunnels = actual_tunnels kernelTunnels
                     in do {
                       r1 \<leftarrow> each_always (reapply ''ip'' desiredIPs actualIPs (Block (updater env))) (sortedKeys desiredIPs);
                       r2 \<leftarrow> each_always (remove_extra ''ip'' (br_unclaimed b) desiredIPs actualIPs (Unblock (updater env))) (sortedKeys actualIPs);
                       r3 \<leftarrow> each_always (reapply ''tunnel'' desiredTunnels actualTunnels
                               (\<lambda>t. BlockTunnel (updater env) (bt_IP t) (bt_TEID t))) (sortedKeys desiredTunnels);
                       r4 \<leftarrow> each_always (remove_extra ''tunnel'' (br_unclaimed b) desiredTunnels actualTunnels
                               (\<lambda>t. UnblockTunnel (updater env) (bt_IP t) (bt_TEID t))) (sortedKeys actualTunnels);
                       let report = report1\<lparr>KernelIPs := length kernelIPs, KernelTunnels := length kernelTunnels,
                             MissingIPs := length (filter is_corrected r1), ExtraIPs := length (filter is_corrected r2),
                             PendingExtraIPs := length (filter (\<lambda>r. r = Pending) r2),
                             MissingTunnels := length (filter is_corrected r3), ExtraTunnels := length (filter is_corrected r4),
                             PendingExtraTunnels := length (filter (\<lambda>r. r = Pending) r4)\<rparr>;
                           b' = b\<lparr>br_unclaimed := still_unclaimed ''ip'' desiredIPs actualIPs @ still_unclaimed ''tunnel'' desiredTunnels actualTunnels\<rparr>;
                           errs = errors_of (r1 @ r2 @ r3 @ r4)
                       in do {
                         publish_gauges ins report;
                         if length errs > 0 then do {
                           emit [BlocklistReconciles_Inc ''error''];
                           return ((report, Some (Errorf ''blocklist reconciliation'' errs)), b') }
                         else do {
                           emit [BlocklistReconciles_Inc ''success''];
                           return ((report, None), b') } } }) } }) }"

definition reportPinState :: "('l, 'w) env \<Rightarrow> 'w BlocklistInspector \<Rightarrow> BlocklistReconciler \<Rightarrow> ('l, 'w, unit) handler" where
  "reportPinState env ins b = do {
     pinPath \<leftarrow> world (\<lambda>w. (PinPath ins w, w));
     emit [EnforcementPinned_Set (if pinPath = [] then 0 else 1)];
     reset \<leftarrow> world (\<lambda>w. (PinReset ins w, w));
     if \<not> reset then return ()
     else if br_HasRecorder b \<and> br_HasPodRef b
     then world (\<lambda>w. ((), record_event env ''pod'' ''EBPFPinsReset'' w))
     else return () }"

text \<open>
  \<open>Start\<close> until the context is done: \<open>ticks\<close> are the ticks that fire before that, each with what happens to the
  world up to it. Errors of a pass are logged and the loop goes on.
\<close>

primrec tick_loop ::
  "('l, 'w) env \<Rightarrow> 'w BlocklistInspector \<Rightarrow> ('w \<Rightarrow> 'w) list \<Rightarrow> BlocklistReconciler \<Rightarrow> ('l, 'w, BlocklistReconciler) handler" where
  "tick_loop env ins [] b = return b"
| "tick_loop env ins (t # ts) b = do {
     world (\<lambda>w. ((), t w));
     (x, b') \<leftarrow> Sync env ins b;
     tick_loop env ins ts b' }"

definition blocklist_Start ::
  "('l, 'w) env \<Rightarrow> 'w BlocklistInspector option \<Rightarrow> ('w \<Rightarrow> 'w) list \<Rightarrow> BlocklistReconciler \<Rightarrow> ('l, 'w, BlocklistReconciler) handler" where
  "blocklist_Start env inso ticks b =
     (case inso of
        None \<Rightarrow> return b
      | Some ins \<Rightarrow>
          if \<not> br_HasBlocklist b then return b
          else do {
            reportPinState env ins b;
            (x, b') \<leftarrow> Sync env ins b;
            if interval b' \<le> 0 then return b'
            else tick_loop env ins ticks b' })"

subsection \<open>Maps keyed by a canonical text\<close>

text \<open>
  Both pairs of maps are keyed by a text that identifies what the kernel would drop: equal keys mean equal
  entries. The laws are stated once, for addresses and for tunnels.
\<close>

locale keyed =
  fixes key :: "'a \<Rightarrow> string" and view :: "'a \<Rightarrow> 'b" and ok :: "'a \<Rightarrow> bool"
  assumes key_view: "ok a \<Longrightarrow> ok b \<Longrightarrow> key a = key b \<longleftrightarrow> view a = view b"
begin

definition wf :: "(string \<times> 'a) list \<Rightarrow> bool" where
  "wf m \<longleftrightarrow> (\<forall>k a. map_of m k = Some a \<longrightarrow> ok a \<and> key a = k)"

definition views :: "(string \<times> 'a) list \<Rightarrow> 'b set" where
  "views m = {view a | k a. map_of m k = Some a}"

lemma wf_empty: "wf []" "views [] = {}"
  by (simp_all add: wf_def views_def)

lemma wf_update: "wf m \<Longrightarrow> ok a \<Longrightarrow> wf (AList.update (key a) a m)"
  by (simp add: wf_def update_conv')

lemma views_mem:
  assumes "wf m" "ok a"
  shows "view a \<in> views m \<longleftrightarrow> map_of m (key a) \<noteq> None"
proof
  assume "view a \<in> views m"
  then obtain k b where b: "map_of m k = Some b" "view a = view b" by (auto simp: views_def)
  then have "key a = k" using assms key_view [of a b] by (auto simp: wf_def)
  then show "map_of m (key a) \<noteq> None" using b by simp
next
  assume "map_of m (key a) \<noteq> None"
  then obtain b where b: "map_of m (key a) = Some b" by blast
  then have "view b = view a" using assms key_view [of a b] by (auto simp: wf_def)
  then show "view a \<in> views m" using b unfolding views_def by (metis (mono_tags, lifting) mem_Collect_eq)
qed

lemma views_update:
  assumes "wf m" "ok a"
  shows "views (AList.update (key a) a m) = insert (view a) (views m)"
proof (intro equalityI subsetI)
  fix x assume "x \<in> views (AList.update (key a) a m)"
  then show "x \<in> insert (view a) (views m)" by (auto simp: views_def update_conv' split: if_splits)
next
  fix x assume "x \<in> insert (view a) (views m)"
  moreover have "view a \<in> views (AList.update (key a) a m)" unfolding views_def update_conv' by force
  moreover have "x \<in> views (AList.update (key a) a m)" if x: "x \<in> views m"
  proof -
    obtain k b where b: "map_of m k = Some b" "x = view b" using x by (auto simp: views_def)
    show ?thesis
    proof (cases "k = key a")
      case True
      then have "x = view a" using b assms key_view [of a b] by (auto simp: wf_def)
      then show ?thesis unfolding views_def update_conv' by force
    next
      case False
      then show ?thesis using b unfolding views_def update_conv' by force
    qed
  qed
  ultimately show "x \<in> views (AList.update (key a) a m)" by blast
qed

lemma fold_update:
  assumes "\<forall>a \<in> set as. ok a" "wf m"
  shows "wf (fold (\<lambda>a. AList.update (key a) a) as m) \<and> views (fold (\<lambda>a. AList.update (key a) a) as m) = view ` set as \<union> views m"
  using assms
proof (induction as arbitrary: m)
  case (Cons a as)
  then show ?case using Cons.IH [of "AList.update (key a) a m"] wf_update [of m a] views_update [of m a] by auto
qed simp

end

text \<open>One family of entries with the operations that add and take away one.\<close>

locale corrector = keyed key view ok for key :: "'a \<Rightarrow> string" and view :: "'a \<Rightarrow> 'b" and ok :: "'a \<Rightarrow> bool" +
  fixes winv :: "'w \<Rightarrow> bool" and sel :: "'w \<Rightarrow> 'b set" and rest :: "'w \<Rightarrow> 'c"
    and put :: "'a \<Rightarrow> 'w \<Rightarrow> err option \<times> 'w" and del :: "'a \<Rightarrow> 'w \<Rightarrow> err option \<times> 'w"
  assumes put: "winv w \<Longrightarrow> ok a \<Longrightarrow> put a w = (r, w') \<Longrightarrow>
      winv w' \<and> rest w' = rest w \<and> sel w' = (if r = None then insert (view a) (sel w) else sel w)"
    and del: "winv w \<Longrightarrow> ok a \<Longrightarrow> del a w = (r, w') \<Longrightarrow>
      winv w' \<and> rest w' = rest w \<and> sel w' = (if r = None then sel w - {view a} else sel w)"
begin

definition same_process :: "('l, 'w) op \<Rightarrow> ('l, 'w) op \<Rightarrow> bool" where
  "same_process s s' \<longleftrightarrow> winv (o_World s') \<and> rest (o_World s') = rest (o_World s) \<and>
     o_Index s' = o_Index s \<and> o_Scoring s' = o_Scoring s \<and> o_KillSwitch s' = o_KillSwitch s \<and> o_ActionLimiter s' = o_ActionLimiter s"

lemma same_process_trans: "same_process s s' \<Longrightarrow> same_process s' s'' \<Longrightarrow> same_process s s''"
  by (auto simp: same_process_def)

lemma same_process_refl: "winv (o_World s) \<Longrightarrow> same_process s s"
  by (simp add: same_process_def)

lemma reapply_effect:
  assumes "wf desired" "winv (o_World s)" "\<forall>k \<in> set keys. map_of desired k \<noteq> None"
    and "run_state (each_always (reapply kind desired actual put) keys) s = (rs, s')"
  shows "same_process s s' \<and> sel (o_World s) \<subseteq> sel (o_World s') \<and> sel (o_World s') \<subseteq> sel (o_World s) \<union> views desired \<and>
    (errors_of rs = [] \<longrightarrow> (\<forall>k \<in> set keys. map_of actual k \<noteq> None \<or> view (the (map_of desired k)) \<in> sel (o_World s')))"
  using assms(2-)
proof (induction keys arbitrary: s rs)
  case Nil
  then show ?case by (simp add: same_process_refl)
next
  case (Cons k keys)
  obtain a where a: "map_of desired k = Some a" using Cons.prems(2) by auto
  then have ok: "ok a" "view a \<in> views desired" using assms(1) by (auto simp: wf_def views_def)
  obtain r s1 where r: "run_state (reapply kind desired actual put k) s = (r, s1)" by fastforce
  obtain rs1 where rs: "run_state (each_always (reapply kind desired actual put) keys) s1 = (rs1, s')" "rs = r # rs1"
    using Cons.prems(3) r by (auto split: prod.splits)
  have step: "same_process s s1 \<and> sel (o_World s) \<subseteq> sel (o_World s1) \<and> sel (o_World s1) \<subseteq> insert (view a) (sel (o_World s)) \<and>
      (errors_of [r] = [] \<longrightarrow> map_of actual k \<noteq> None \<or> view a \<in> sel (o_World s1))"
  proof (cases "map_of actual k")
    case None
    obtain x w' where p: "put a (o_World s) = (x, w')" by fastforce
    then have "r = Corrected (map_option (wrap ''re-apply'') x)" "s1 = s\<lparr>o_Metrics := o_Metrics s @ [BlocklistDrift_Inc kind ''missing''], o_World := w'\<rparr>"
      using r None a by (auto simp: reapply_def)
    then show ?thesis using put [OF Cons.prems(1) ok(1) p] by (auto simp: same_process_def errors_of_def split: option.splits)
  next
    case (Some b)
    then show ?thesis using r Cons.prems(1) by (auto simp: reapply_def same_process_refl)
  qed
  have i1: "winv (o_World s1)" using step by (simp add: same_process_def)
  note IH = Cons.IH [OF i1 _ rs(1)]
  have "errors_of rs = errors_of [r] @ errors_of rs1" using rs(2) by (simp add: errors_of_def)
  then show ?case using IH Cons.prems(2) step ok(2) a same_process_trans by auto
qed

lemma remove_effect:
  fixes unclaimed desired actual kind
  defines "stale \<equiv> {view a | k a. map_of actual k = Some a \<and> map_of desired k = None \<and> kind @ '':'' @ k \<in> set unclaimed}"
  assumes "wf actual" "winv (o_World s)" "\<forall>k \<in> set keys. map_of actual k \<noteq> None"
    and "run_state (each_always (remove_extra kind unclaimed desired actual del) keys) s = (rs, s')"
  shows "same_process s s' \<and> sel (o_World s') \<subseteq> sel (o_World s) \<and> sel (o_World s) \<subseteq> sel (o_World s') \<union> stale \<and>
    (errors_of rs = [] \<longrightarrow> (\<forall>k \<in> set keys. map_of desired k = None \<longrightarrow> kind @ '':'' @ k \<in> set unclaimed \<longrightarrow>
       view (the (map_of actual k)) \<notin> sel (o_World s')))"
  using assms(3-)
proof (induction keys arbitrary: s rs)
  case Nil
  then show ?case by (simp add: same_process_refl)
next
  case (Cons k keys)
  obtain a where a: "map_of actual k = Some a" using Cons.prems(2) by auto
  then have ok: "ok a" using assms(2) by (auto simp: wf_def)
  obtain r s1 where r: "run_state (remove_extra kind unclaimed desired actual del k) s = (r, s1)" by fastforce
  obtain rs1 where rs: "run_state (each_always (remove_extra kind unclaimed desired actual del) keys) s1 = (rs1, s')" "rs = r # rs1"
    using Cons.prems(3) r by (auto split: prod.splits)
  have step: "same_process s s1 \<and> sel (o_World s1) \<subseteq> sel (o_World s) \<and> sel (o_World s) \<subseteq> sel (o_World s1) \<union> stale \<and>
      (errors_of [r] = [] \<longrightarrow> map_of desired k = None \<longrightarrow> kind @ '':'' @ k \<in> set unclaimed \<longrightarrow> view a \<notin> sel (o_World s1))"
  proof (cases "map_of desired k = None \<and> kind @ '':'' @ k \<in> set unclaimed")
    case True
    obtain x w' where p: "del a (o_World s) = (x, w')" by fastforce
    then have "r = Corrected (map_option (wrap ''remove unclaimed'') x)" "s1 = s\<lparr>o_Metrics := o_Metrics s @ [BlocklistDrift_Inc kind ''extra''], o_World := w'\<rparr>"
      using r True a by (auto simp: remove_extra_def)
    moreover have "view a \<in> stale" using True a unfolding stale_def by blast
    ultimately show ?thesis using del [OF Cons.prems(1) ok p] by (auto simp: same_process_def errors_of_def split: option.splits)
  next
    case False
    then have "s1 = s" using r by (auto simp: remove_extra_def split: if_splits)
    then show ?thesis using False Cons.prems(1) by (auto simp: same_process_refl)
  qed
  have i1: "winv (o_World s1)" using step by (simp add: same_process_def)
  note IH = Cons.IH [OF i1 _ rs(1)]
  have "errors_of rs = errors_of [r] @ errors_of rs1" using rs(2) by (simp add: errors_of_def)
  then show ?case using IH Cons.prems(2) step a same_process_trans by auto
qed

end

abbreviation tunnel_key :: "BlockedTunnel \<Rightarrow> string" where
  "tunnel_key t \<equiv> formatTunnel (IP_String (bt_IP t)) (bt_TEID t)"

abbreviation tunnel_view :: "BlockedTunnel \<Rightarrow> bytes \<times> u32" where
  "tunnel_view t \<equiv> (canon (bt_IP t), bt_TEID t)"

lemma canon_eq_iff: "valid_ip a \<Longrightarrow> valid_ip b \<Longrightarrow> canon a = canon b \<longleftrightarrow> To16 a = To16 b"
  using To16_valid [of a] To16_valid [of b] by (auto simp: canon_def)

interpretation ip_keys: keyed IP_String canon valid_ip
  by unfold_locales (simp add: IP_String_eq_iff canon_eq_iff)

interpretation tunnel_keys: keyed tunnel_key tunnel_view "\<lambda>t. valid_ip (bt_IP t)"
  by unfold_locales (simp add: formatTunnel_eq_iff canon_eq_iff)

interpretation loader_ips: corrector IP_String canon valid_ip loader_inv loader_drops loader_tdrops Loader_Block Loader_Unblock
  using Loader_Block_contract Loader_Unblock_contract by unfold_locales blast+

sublocale cluster \<subseteq> ips: corrector IP_String canon valid_ip inv drops "\<lambda>w. (tdrops w, stored w, hist w)"
  "Block (updater env)" "Unblock (updater env)"
proof (unfold_locales, goal_cases)
  case (1 w a r w')
  then show ?case using block [OF 1] kernel_only [OF 1(1), of w' a 0] by simp
next
  case (2 w a r w')
  then show ?case using unblock [OF 2] kernel_only [OF 2(1), of w' a 0] by simp
qed

sublocale cluster \<subseteq> tns: corrector tunnel_key tunnel_view "\<lambda>t. valid_ip (bt_IP t)" inv tdrops "\<lambda>w. (drops w, stored w, hist w)"
  "\<lambda>t. BlockTunnel (updater env) (bt_IP t) (bt_TEID t)" "\<lambda>t. UnblockTunnel (updater env) (bt_IP t) (bt_TEID t)"
proof (unfold_locales, goal_cases)
  case (1 w a r w')
  then show ?case using block_tunnel [OF 1] kernel_only [OF 1(1), of w' "bt_IP a" "bt_TEID a"] by simp
next
  case (2 w a r w')
  then show ?case using unblock_tunnel [OF 2] kernel_only [OF 2(1), of w' "bt_IP a" "bt_TEID a"] by simp
qed

subsection \<open>What should be enforced\<close>

definition wanted_ips :: "Policy list \<Rightarrow> bytes set" where
  "wanted_ips items = (\<Union>p \<in> {p \<in> set items. \<not> deleting p}. claimed_ips (Status p))"

definition wanted_tunnels :: "Policy list \<Rightarrow> (bytes \<times> u32) set" where
  "wanted_tunnels items = {t \<in> (\<Union>p \<in> {p \<in> set items. \<not> deleting p}. claimed_tunnels (Status p)). snd t \<noteq> 0}"

lemma desired_ip_fold:
  "ip_keys.wf m \<Longrightarrow> ip_keys.wf (fold desired_ip raws m) \<and> ip_keys.views (fold desired_ip raws m) = ip_keys.views m \<union> ips_of raws"
proof (induction raws arbitrary: m)
  case (Cons raw raws)
  show ?case
  proof (cases "ParseIP raw")
    case None
    then show ?thesis using Cons by (simp add: desired_ip_def)
  next
    case (Some ip)
    note v = ParseIP_valid [OF Some]
    show ?thesis using Cons.IH [OF ip_keys.wf_update [OF Cons.prems v]] Some
      by (simp add: desired_ip_def ip_keys.views_update [OF Cons.prems v])
  qed
qed simp

lemma desired_tunnel_fold:
  "tunnel_keys.wf m \<Longrightarrow> tunnel_keys.wf (fold desired_tunnel es m) \<and>
     tunnel_keys.views (fold desired_tunnel es m) = tunnel_keys.views m \<union> {t \<in> tunnels_of es. snd t \<noteq> 0}"
proof (induction es arbitrary: m)
  case (Cons e es)
  show ?case
  proof (cases "parseTunnel e")
    case (Inl x)
    then show ?thesis using Cons by (simp add: desired_tunnel_def)
  next
    case (Inr it)
    obtain ip t where it: "it = (ip, t)" by fastforce
    have v: "valid_ip (bt_IP \<lparr>bt_IP = ip, bt_TEID = t\<rparr>)" using parseTunnel_valid [OF Inr [unfolded it]] by simp
    show ?thesis
    proof (cases "t = 0")
      case True
      then show ?thesis using Cons Inr it by (auto simp: desired_tunnel_def)
    next
      case False
      have "{x \<in> tunnels_of (e # es). snd x \<noteq> 0} = insert (canon ip, t) {x \<in> tunnels_of es. snd x \<noteq> 0}"
        using Inr it False by auto
      then show ?thesis
        using Cons.IH [OF tunnel_keys.wf_update [OF Cons.prems v]] tunnel_keys.views_update [OF Cons.prems v] Inr it False
        by (simp add: desired_tunnel_def)
    qed
  qed
qed simp

lemma desiredEnforcement_spec:
  assumes "desiredEnforcement items = (ips, ts)"
  shows "ip_keys.wf ips" "ip_keys.views ips = wanted_ips items" "tunnel_keys.wf ts" "tunnel_keys.views ts = wanted_tunnels items"
proof -
  have "ip_keys.wf (fst r) \<and> ip_keys.views (fst r) = ip_keys.views (fst m) \<union> wanted_ips items \<and>
      tunnel_keys.wf (snd r) \<and> tunnel_keys.views (snd r) = tunnel_keys.views (snd m) \<union> wanted_tunnels items"
    if "r = fold (\<lambda>policy (ips, tunnels). if deleting policy then (ips, tunnels)
         else (fold desired_ip (BlockedSourceIPs (Status policy)) ips, fold desired_tunnel (BlockedTunnels (Status policy)) tunnels)) items m"
      "ip_keys.wf (fst m)" "tunnel_keys.wf (snd m)" for r m
    using that
  proof (induction items arbitrary: m)
    case Nil
    then show ?case by (simp add: wanted_ips_def wanted_tunnels_def)
  next
    case (Cons p items)
    show ?case
    proof (cases "deleting p")
      case True
      then have "wanted_ips (p # items) = wanted_ips items" "wanted_tunnels (p # items) = wanted_tunnels items"
        by (auto simp: wanted_ips_def wanted_tunnels_def)
      then show ?thesis using True Cons by (auto split: prod.splits)
    next
      case False
      let ?m = "(fold desired_ip (BlockedSourceIPs (Status p)) (fst m), fold desired_tunnel (BlockedTunnels (Status p)) (snd m))"
      have w: "wanted_ips (p # items) = ips_of (BlockedSourceIPs (Status p)) \<union> wanted_ips items"
          "wanted_tunnels (p # items) = {t \<in> tunnels_of (BlockedTunnels (Status p)). snd t \<noteq> 0} \<union> wanted_tunnels items"
        using False by (auto simp: wanted_ips_def wanted_tunnels_def claimed_of)
      have "r = fold (\<lambda>policy (ips, tunnels). if deleting policy then (ips, tunnels)
         else (fold desired_ip (BlockedSourceIPs (Status policy)) ips, fold desired_tunnel (BlockedTunnels (Status policy)) tunnels)) items ?m"
        using Cons.prems(1) False by (cases m) simp
      from Cons.IH [OF this] show ?thesis
        using desired_ip_fold [OF Cons.prems(2)] desired_tunnel_fold [OF Cons.prems(3)] w by auto
    qed
  qed
  from this [of "(ips, ts)" "([], [])"] assms show "ip_keys.wf ips" "ip_keys.views ips = wanted_ips items"
    "tunnel_keys.wf ts" "tunnel_keys.views ts = wanted_tunnels items"
    by (simp_all add: desiredEnforcement_def ip_keys.wf_empty tunnel_keys.wf_empty)
qed

subsection \<open>One pass\<close>

context keyed
begin

lemma claimed_key: "wf desired \<Longrightarrow> wf actual \<Longrightarrow> map_of actual k = Some a \<Longrightarrow> map_of desired k = None \<longleftrightarrow> view a \<notin> views desired"
  using views_mem [of desired a] by (auto simp: wf_def)

lemma marked:
  assumes "wf desired" "wf actual" "\<And>a. ok a \<Longrightarrow> mark (view a) = kind @ '':'' @ key a"
    and "map_of actual k = Some a"
  shows "mark (view a) = kind @ '':'' @ k" "view a \<in> views actual" "map_of desired k = None \<longleftrightarrow> view a \<notin> views desired"
  using assms(2-) claimed_key [OF assms(1,2,4)] by (auto simp: wf_def views_def)

lemma marks:
  assumes "wf desired" "wf actual" "\<And>a. ok a \<Longrightarrow> mark (view a) = kind @ '':'' @ key a"
  shows "set (still_unclaimed kind desired actual) = mark ` (views actual - views desired)"
proof (intro equalityI subsetI)
  fix x assume "x \<in> set (still_unclaimed kind desired actual)"
  then obtain k where k: "x = kind @ '':'' @ k" "map_of desired k = None" "k \<in> fst ` set actual" by (auto simp: still_unclaimed_def)
  then obtain a where a: "map_of actual k = Some a" by (metis map_of_eq_None_iff not_None_eq)
  then have "x = mark (view a)" "view a \<in> views actual - views desired" using marked [OF assms a] k by auto
  then show "x \<in> mark ` (views actual - views desired)" by blast
next
  fix x assume "x \<in> mark ` (views actual - views desired)"
  then obtain k a where a: "map_of actual k = Some a" "x = mark (view a)" "view a \<notin> views desired" by (auto simp: views_def [of actual])
  then have "x = kind @ '':'' @ k" "map_of desired k = None" "k \<in> fst ` set actual"
    using marked [OF assms a(1)] map_of_SomeD [OF a(1)] by (auto intro: rev_image_eqI)
  then show "x \<in> set (still_unclaimed kind desired actual)" by (auto simp: still_unclaimed_def)
qed

lemma stale_entries:
  assumes "wf desired" "wf actual" "\<And>a. ok a \<Longrightarrow> mark (view a) = kind @ '':'' @ key a"
  shows "{view a | k a. map_of actual k = Some a \<and> map_of desired k = None \<and> kind @ '':'' @ k \<in> U} =
    {x \<in> views actual - views desired. mark x \<in> U}"
proof (intro equalityI subsetI)
  fix x assume "x \<in> {view a | k a. map_of actual k = Some a \<and> map_of desired k = None \<and> kind @ '':'' @ k \<in> U}"
  then obtain k a where "x = view a" "map_of actual k = Some a" "map_of desired k = None" "kind @ '':'' @ k \<in> U" by blast
  then show "x \<in> {x \<in> views actual - views desired. mark x \<in> U}" using marked [OF assms, of k a] by auto
next
  fix x assume x: "x \<in> {x \<in> views actual - views desired. mark x \<in> U}"
  then obtain k a where a: "map_of actual k = Some a" "x = view a" by (auto simp: views_def [of actual])
  then have "map_of desired k = None" "kind @ '':'' @ k \<in> U" using x marked [OF assms a(1)] by auto
  then show "x \<in> {view a | k a. map_of actual k = Some a \<and> map_of desired k = None \<and> kind @ '':'' @ k \<in> U}" using a by blast
qed

lemma keys_present: "\<forall>k \<in> set (sortedKeys m). map_of m k \<noteq> None"
  by (auto simp: map_of_eq_None_iff)

end

definition ip_mark :: "bytes \<Rightarrow> string" where
  "ip_mark x = ''ip'' @ '':'' @ IP_String x"

definition tunnel_mark :: "bytes \<times> u32 \<Rightarrow> string" where
  "tunnel_mark t = ''tunnel'' @ '':'' @ formatTunnel (IP_String (fst t)) (snd t)"

lemma canon_canonical:
  assumes "valid_ip ip"
  shows "IP_String (canon ip) = IP_String ip"
proof -
  obtain b where b: "To16 ip = Some b" "length b = 16" using To16_valid [OF assms] by blast
  then have "valid_ip (canon ip)" "canon (canon ip) = canon ip" by (simp_all add: canon_def valid_ip_def To16_def)
  then show ?thesis using ip_keys.key_view [of "canon ip" ip] assms by simp
qed

text \<open>What a pass works on: the marks of the entries it finds unclaimed, and those it may remove.\<close>

definition unclaimed_now :: "bytes set \<Rightarrow> (bytes \<times> u32) set \<Rightarrow> Policy list \<Rightarrow> string set" where
  "unclaimed_now D T items = ip_mark ` (D - wanted_ips items) \<union> tunnel_mark ` (T - wanted_tunnels items)"

definition stale_ips :: "bytes set \<Rightarrow> Policy list \<Rightarrow> string set \<Rightarrow> bytes set" where
  "stale_ips D items U = {x \<in> D - wanted_ips items. ip_mark x \<in> U}"

definition stale_tunnels :: "(bytes \<times> u32) set \<Rightarrow> Policy list \<Rightarrow> string set \<Rightarrow> (bytes \<times> u32) set" where
  "stale_tunnels T items U = {x \<in> T - wanted_tunnels items. tunnel_mark x \<in> U}"

lemma kernel_ips_map:
  assumes "\<forall>ip \<in> set ips. valid_ip ip"
  shows "ip_keys.wf (actual_ips ips)" "ip_keys.views (actual_ips ips) = canon ` set ips"
  using ip_keys.fold_update [OF assms ip_keys.wf_empty(1)] by (simp_all add: actual_ips_def ip_keys.wf_empty)

lemma kernel_tunnels_map:
  assumes "\<forall>t \<in> set ts. valid_ip (bt_IP t)"
  shows "tunnel_keys.wf (actual_tunnels ts)" "tunnel_keys.views (actual_tunnels ts) = tunnel_view ` set ts"
  using tunnel_keys.fold_update [OF assms tunnel_keys.wf_empty(1)] by (simp_all add: actual_tunnels_def tunnel_keys.wf_empty)

lemma ip_mark_canon: "valid_ip a \<Longrightarrow> ip_mark (canon a) = ''ip'' @ '':'' @ IP_String a"
  by (simp add: ip_mark_def canon_canonical)

lemma tunnel_mark_view: "valid_ip (bt_IP a) \<Longrightarrow> tunnel_mark (tunnel_view a) = ''tunnel'' @ '':'' @ tunnel_key a"
  by (simp add: tunnel_mark_def canon_canonical)

context corrector
begin

lemma pass_effect:
  fixes desired actual mark kind U s
  defines "D \<equiv> sel (o_World s)" and "W \<equiv> views desired"
  defines "St \<equiv> {x \<in> D - W. mark x \<in> set U}"
  assumes wf: "wf desired" "wf actual" and inv: "winv (o_World s)" and act: "views actual = D"
    and mark: "\<And>a. ok a \<Longrightarrow> mark (view a) = kind @ '':'' @ key a"
    and r1: "run_state (each_always (reapply kind desired actual put) (sortedKeys desired)) s = (rs1, s1)"
    and r2: "run_state (each_always (remove_extra kind U desired actual del) (sortedKeys actual)) s1 = (rs2, s2)"
  shows "same_process s s2 \<and> sel (o_World s2) \<subseteq> D \<union> W \<and> D \<subseteq> sel (o_World s2) \<union> St \<and>
    (errors_of rs1 = [] \<and> errors_of rs2 = [] \<longrightarrow> sel (o_World s2) = (D \<union> W) - St)"
proof -
  note e1 = reapply_effect [OF wf(1) inv keys_present r1]
  have i1: "winv (o_World s1)" using e1 by (simp add: same_process_def)
  note stale = stale_entries [OF wf mark, of "set U", folded W_def, unfolded act, folded St_def]
  note e2 = remove_effect [OF wf(2) i1 keys_present r2]
  have kept: "sel (o_World s1) \<subseteq> sel (o_World s2) \<union> St" using e2 stale by metis
  have added: "W \<subseteq> sel (o_World s1)" if "errors_of rs1 = []"
  proof
    fix x assume "x \<in> W"
    then obtain k a where a: "map_of desired k = Some a" "x = view a" by (auto simp: W_def views_def)
    have "k \<in> set (sortedKeys desired)" using map_of_SomeD [OF a(1)] by (auto intro: rev_image_eqI)
    then have "map_of actual k \<noteq> None \<or> x \<in> sel (o_World s1)" using e1 that a by auto
    moreover have "x \<in> D" if "map_of actual k \<noteq> None"
      using that views_mem [OF wf(2), of a] wf(1) a act by (auto simp: wf_def)
    ultimately show "x \<in> sel (o_World s1)" using e1 by (auto simp: D_def)
  qed
  have gone: "St \<inter> sel (o_World s2) = {}" if "errors_of rs2 = []"
  proof -
    have "x \<notin> sel (o_World s2)" if x: "x \<in> St" for x
    proof -
      have "x \<in> {view a | k a. map_of actual k = Some a \<and> map_of desired k = None \<and> kind @ '':'' @ k \<in> set U}" using x stale by simp
      then obtain k a where a: "x = view a" "map_of actual k = Some a" "map_of desired k = None" "kind @ '':'' @ k \<in> set U" by blast
      have "k \<in> set (sortedKeys actual)" using map_of_SomeD [OF a(2)] by (auto intro: rev_image_eqI)
      then show ?thesis using e2 \<open>errors_of rs2 = []\<close> a by auto
    qed
    then show ?thesis by blast
  qed
  have "same_process s s2" using e1 e2 same_process_trans by blast
  moreover have "sel (o_World s2) \<subseteq> D \<union> W" "D \<subseteq> sel (o_World s2) \<union> St"
    using conjunct1 [OF conjunct2 [OF e1]] conjunct1 [OF conjunct2 [OF conjunct2 [OF e1]]] conjunct1 [OF conjunct2 [OF e2]] kept unfolding D_def W_def by blast+
  moreover have "sel (o_World s2) = (D \<union> W) - St" if "errors_of rs1 = [] \<and> errors_of rs2 = []"
  proof -
    have "sel (o_World s1) = D \<union> W" using e1 added that by (auto simp: D_def W_def)
    then show ?thesis using conjunct1 [OF conjunct2 [OF e2]] kept gone that unfolding St_def by blast
  qed
  ultimately show ?thesis by blast
qed

end

context cluster
begin

text \<open>What a pass never touches: the stored policies and the rest of the operator's shared state.\<close>

definition undisturbed :: "('l, 'w) op \<Rightarrow> ('l, 'w) op \<Rightarrow> bool" where
  "undisturbed s s' \<longleftrightarrow> inv (o_World s') \<and> stored (o_World s') = stored (o_World s) \<and> hist (o_World s') = hist (o_World s) \<and>
     o_Index s' = o_Index s \<and> o_Scoring s' = o_Scoring s \<and> o_KillSwitch s' = o_KillSwitch s \<and> o_ActionLimiter s' = o_ActionLimiter s"

lemma undisturbed_trans: "undisturbed s s' \<Longrightarrow> undisturbed s' s'' \<Longrightarrow> undisturbed s s''"
  by (auto simp: undisturbed_def)

lemma undisturbed_read:
  assumes "inv (o_World s)" "list_policies env (o_World s) = (l, w1)" "inspect_BlockedIPs ins w1 = (ri, w2)"
    "inspect_BlockedTunnels ins w2 = (rt, w3)" "w \<in> {w1, w2, w3}"
  shows "undisturbed s (s\<lparr>o_World := w\<rparr>) \<and> drops w = drops (o_World s) \<and> tdrops w = tdrops (o_World s)"
proof -
  have w1: "inv w1" "drops w1 = drops (o_World s)" "tdrops w1 = tdrops (o_World s)" "stored w1 = stored (o_World s)" "hist w1 = hist (o_World s)"
    using neutral [OF assms(1), of w1] assms(2) by simp_all
  note w2 = blocked_ips [OF w1(1) assms(3)] kernel_only [OF w1(1), of w2]
  note w3 = blocked_tunnels [OF conjunct1 [OF w2(1)] assms(4)] kernel_only [OF conjunct1 [OF w2(1)], of w3]
  show ?thesis using w1 w2 w3 assms(3-5) by (auto simp: undisturbed_def)
qed

lemma gauges_effect:
  assumes "inv (o_World s)" "run_state (publish_gauges ins rep) s = (r, s')"
  shows "undisturbed s s'" "drops (o_World s') = drops (o_World s)" "tdrops (o_World s') = tdrops (o_World s)"
proof -
  have "o_World s' = snd (ObservationOccupancy ins (o_World s)) \<and> o_Index s' = o_Index s \<and> o_Scoring s' = o_Scoring s \<and>
      o_KillSwitch s' = o_KillSwitch s \<and> o_ActionLimiter s' = o_ActionLimiter s"
    using assms(2) by (auto simp: publish_gauges_def split: prod.splits sum.splits)
  then show "undisturbed s s'" "drops (o_World s') = drops (o_World s)" "tdrops (o_World s') = tdrops (o_World s)"
    using neutral [OF assms(1), of "o_World s'"] by (simp_all add: undisturbed_def)
qed

text \<open>
  A pass either stops at a failed read and changes nothing, or it adds only what is wanted, takes away only what was
  found unclaimed before, and without errors makes exactly these corrections.
\<close>

definition unread :: "('l, 'w) op \<Rightarrow> ('l, 'w) op \<Rightarrow> bool" where
  "unread s s' \<longleftrightarrow> drops (o_World s') = drops (o_World s) \<and> tdrops (o_World s') = tdrops (o_World s)"

definition corrected :: "Policy list \<Rightarrow> string set \<Rightarrow> ('l, 'w) op \<Rightarrow> ('l, 'w) op \<Rightarrow> bool \<Rightarrow> bool" where
  "corrected items U s s' clean \<longleftrightarrow>
     (let D = drops (o_World s); D' = drops (o_World s'); T = tdrops (o_World s); T' = tdrops (o_World s') in
      D' \<subseteq> D \<union> wanted_ips items \<and> D \<subseteq> D' \<union> stale_ips D items U \<and>
      T' \<subseteq> T \<union> wanted_tunnels items \<and> T \<subseteq> T' \<union> stale_tunnels T items U \<and>
      (clean \<longrightarrow> D' = (D \<union> wanted_ips items) - stale_ips D items U \<and> T' = (T \<union> wanted_tunnels items) - stale_tunnels T items U))"

lemma passes_effect:
  fixes items kips kts U s
  defines "dips \<equiv> fst (desiredEnforcement items)" and "dts \<equiv> snd (desiredEnforcement items)"
  defines "a \<equiv> actual_ips kips" and "t \<equiv> actual_tunnels kts"
  assumes inv: "inv (o_World s)"
    and kips: "\<forall>ip \<in> set kips. valid_ip ip" "canon ` set kips = drops (o_World s)"
    and kts: "\<forall>t \<in> set kts. valid_ip (bt_IP t)" "tunnel_view ` set kts = tdrops (o_World s)"
    and r1: "run_state (each_always (reapply ''ip'' dips a (Block (updater env))) (sortedKeys dips)) s = (r1, s1)"
    and r2: "run_state (each_always (remove_extra ''ip'' U dips a (Unblock (updater env))) (sortedKeys a)) s1 = (r2, s2)"
    and r3: "run_state (each_always (reapply ''tunnel'' dts t (\<lambda>t. BlockTunnel (updater env) (bt_IP t) (bt_TEID t))) (sortedKeys dts)) s2 = (r3, s3)"
    and r4: "run_state (each_always (remove_extra ''tunnel'' U dts t (\<lambda>t. UnblockTunnel (updater env) (bt_IP t) (bt_TEID t))) (sortedKeys t)) s3 = (r4, s4)"
  shows "undisturbed s s4 \<and> corrected items (set U) s s4 (errors_of (r1 @ r2 @ r3 @ r4) = []) \<and>
    set (still_unclaimed ''ip'' dips a @ still_unclaimed ''tunnel'' dts t) = unclaimed_now (drops (o_World s)) (tdrops (o_World s)) items"
proof -
  note des = desiredEnforcement_spec [of items dips dts, unfolded dips_def dts_def, simplified, folded dips_def dts_def]
  note am = kernel_ips_map [OF kips(1), folded a_def, unfolded kips(2)] and tm = kernel_tunnels_map [OF kts(1), folded t_def, unfolded kts(2)]
  have p1: "ips.same_process s s2 \<and> drops (o_World s2) \<subseteq> drops (o_World s) \<union> wanted_ips items \<and>
      drops (o_World s) \<subseteq> drops (o_World s2) \<union> stale_ips (drops (o_World s)) items (set U) \<and>
      (errors_of r1 = [] \<and> errors_of r2 = [] \<longrightarrow> drops (o_World s2) = (drops (o_World s) \<union> wanted_ips items) - stale_ips (drops (o_World s)) items (set U))"
    using ips.pass_effect [where mark = ip_mark, OF des(1) am(1) inv am(2) ip_mark_canon r1 r2] by (simp add: stale_ips_def des(2))
  have i2: "inv (o_World s2)" "tdrops (o_World s2) = tdrops (o_World s)" using p1 by (simp_all add: ips.same_process_def)
  have p2: "tns.same_process s2 s4 \<and> tdrops (o_World s4) \<subseteq> tdrops (o_World s) \<union> wanted_tunnels items \<and>
      tdrops (o_World s) \<subseteq> tdrops (o_World s4) \<union> stale_tunnels (tdrops (o_World s)) items (set U) \<and>
      (errors_of r3 = [] \<and> errors_of r4 = [] \<longrightarrow> tdrops (o_World s4) = (tdrops (o_World s) \<union> wanted_tunnels items) - stale_tunnels (tdrops (o_World s)) items (set U))"
    using tns.pass_effect [where mark = tunnel_mark, OF des(3) tm(1) i2(1) _ tunnel_mark_view r3 r4]
    by (simp add: stale_tunnels_def des(4) tm(2) i2(2))
  have i4: "drops (o_World s4) = drops (o_World s2)" using p2 by (simp add: tns.same_process_def)
  have "undisturbed s s4" using p1 p2 by (simp add: undisturbed_def ips.same_process_def tns.same_process_def)
  moreover have "corrected items (set U) s s4 (errors_of (r1 @ r2 @ r3 @ r4) = [])"
  proof -
    have e: "errors_of (r1 @ r2 @ r3 @ r4) = [] \<longleftrightarrow> (errors_of r1 = [] \<and> errors_of r2 = []) \<and> (errors_of r3 = [] \<and> errors_of r4 = [])"
      by (auto simp: errors_of_def)
    show ?thesis unfolding corrected_def Let_def i4 e using p1 p2 by blast
  qed
  moreover have "set (still_unclaimed ''ip'' dips a @ still_unclaimed ''tunnel'' dts t) = unclaimed_now (drops (o_World s)) (tdrops (o_World s)) items"
    using ip_keys.marks [OF des(1) am(1), of ip_mark "''ip''", OF ip_mark_canon]
      tunnel_keys.marks [OF des(3) tm(1), of tunnel_mark "''tunnel''", OF tunnel_mark_view]
    by (simp add: unclaimed_now_def am(2) tm(2) des(2,4))
  ultimately show ?thesis by blast
qed

lemma Sync_effect:
  assumes inv: "inv (o_World s)" and run: "run_state (Sync env ins b) s = (((rep, e), b'), s')"
  shows "undisturbed s s' \<and>
    (case fst (list_policies env (o_World s)) of
       Inl f \<Rightarrow> e \<noteq> None \<and> b' = b \<and> unread s s'
     | Inr items \<Rightarrow> e \<noteq> None \<and> b' = b \<and> unread s s' \<or>
         set (br_unclaimed b') = unclaimed_now (drops (o_World s)) (tdrops (o_World s)) items \<and>
         corrected items (set (br_unclaimed b)) s s' (e = None))"
proof -
  obtain l w1 where l: "list_policies env (o_World s) = (l, w1)" by fastforce
  obtain ri w2 where ri: "inspect_BlockedIPs ins w1 = (ri, w2)" by fastforce
  obtain rt w3 where rt: "inspect_BlockedTunnels ins w2 = (rt, w3)" by fastforce
  note reads = undisturbed_read [OF inv l ri rt]
  show ?thesis
  proof (cases "isl l \<or> isl ri \<or> isl rt")
    case True
    then have "e \<noteq> None \<and> b' = b \<and> s' \<in> {s\<lparr>o_World := w1\<rparr>, s\<lparr>o_World := w2\<rparr>, s\<lparr>o_World := w3\<rparr>}"
      using run l ri rt by (cases l; cases ri; cases rt) (auto simp: Sync_def Let_def split: prod.splits)
    then have "e \<noteq> None \<and> b' = b \<and> undisturbed s s' \<and> unread s s'" using reads [of w1] reads [of w2] reads [of w3] by (elim conjE insertE emptyE) (simp_all add: unread_def)
    then show ?thesis using l by (auto split: sum.split)
  next
    case False
    then obtain items kips kts where ok: "l = Inr items" "ri = Inr kips" "rt = Inr kts" by (cases l; cases ri; cases rt) auto
    obtain dips dts where d: "desiredEnforcement items = (dips, dts)" by (rule prod.exhaust)
    let ?a = "actual_ips kips" and ?t = "actual_tunnels kts" and ?U = "br_unclaimed b" and ?s3 = "s\<lparr>o_World := w3\<rparr>"
    obtain r1 s4 where r1: "run_state (each_always (reapply ''ip'' dips ?a (Block (updater env))) (sortedKeys dips)) ?s3 = (r1, s4)" by (rule prod.exhaust)
    obtain r2 s5 where r2: "run_state (each_always (remove_extra ''ip'' ?U dips ?a (Unblock (updater env))) (sortedKeys ?a)) s4 = (r2, s5)" by (rule prod.exhaust)
    obtain r3 s6 where r3: "run_state (each_always (reapply ''tunnel'' dts ?t (\<lambda>t. BlockTunnel (updater env) (bt_IP t) (bt_TEID t))) (sortedKeys dts)) s5 = (r3, s6)" by (rule prod.exhaust)
    obtain r4 s7 where r4: "run_state (each_always (remove_extra ''tunnel'' ?U dts ?t (\<lambda>t. UnblockTunnel (updater env) (bt_IP t) (bt_TEID t))) (sortedKeys ?t)) s6 = (r4, s7)" by (rule prod.exhaust)
    have i1: "inv w1" "inv w2" "inv w3" using reads by (auto simp: undisturbed_def)
    have v: "\<forall>ip \<in> set kips. valid_ip ip" "canon ` set kips = drops w3" "\<forall>t \<in> set kts. valid_ip (bt_IP t)" "tunnel_view ` set kts = tdrops w3"
      using blocked_ips [OF i1(1) ri] blocked_tunnels [OF i1(2) rt] ok by auto
    have w3: "inv (o_World ?s3)" "canon ` set kips = drops (o_World ?s3)" "tunnel_view ` set kts = tdrops (o_World ?s3)" using i1 v by simp_all
    note p = passes_effect [of ?s3 kips kts items, unfolded d fst_conv snd_conv, OF w3(1) v(1) w3(2) v(3) w3(3) r1 r2 r3 r4]
    obtain rep' s8 x ms where g: "run_state (publish_gauges ins rep') s7 = (x, s8)" "s' = s8\<lparr>o_Metrics := ms\<rparr>"
        "b' = b\<lparr>br_unclaimed := still_unclaimed ''ip'' dips ?a @ still_unclaimed ''tunnel'' dts ?t\<rparr>"
        "e = None \<longleftrightarrow> errors_of (r1 @ r2 @ r3 @ r4) = []"
      using run by (auto simp: Sync_def Let_def l ri rt ok d r1 r2 r3 r4 split: prod.splits if_splits)
    have u7: "undisturbed s s7" using undisturbed_trans [of s ?s3 s7] reads [of w3] p by simp
    then have "inv (o_World s7)" by (simp add: undisturbed_def)
    note g8 = gauges_effect [OF this g(1)]
    have "undisturbed s s'" using undisturbed_trans [OF u7 g8(1)] g(2) by (simp add: undisturbed_def)
    moreover have "set (br_unclaimed b') = unclaimed_now (drops (o_World s)) (tdrops (o_World s)) items"
      using p g(3) reads [of w3] by simp
    moreover have "corrected items (set ?U) s s' (e = None)"
      using p g(2,4) g8(2,3) reads [of w3] by (simp add: corrected_def Let_def)
    ultimately show ?thesis using l ok by simp
  qed
qed

end

context cluster
begin

lemma keeps_Sync:
  assumes calm
  shows "triple (op_inv {} {}) (Sync env ins b) (\<lambda>_. op_inv {} {})"
proof (rule tripleI)
  fix s r s' assume s: "op_inv {} {} s" and run: "run_state (Sync env ins b) s = (r, s')"
  obtain rep e b' where r: "r = ((rep, e), b')" by (metis surj_pair)
  note eff = Sync_effect [OF op_invD(1) [OF s] run [unfolded r]]
  have st: "stored (o_World s') = stored (o_World s)" "hist (o_World s') = hist (o_World s)" "o_Index s' = o_Index s"
      "o_ActionLimiter s' = o_ActionLimiter s" "inv (o_World s')"
    using eff by (simp_all add: undisturbed_def)
  have cov: "covered (drops (o_World s')) (tdrops (o_World s')) (stored (o_World s'))"
  proof (cases "fst (list_policies env (o_World s))")
    case (Inl f)
    then show ?thesis using eff op_invD(3) [OF s] st by (simp add: unread_def)
  next
    case (Inr items)
    then obtain w1 where l: "list_policies env (o_World s) = (Inr items, w1)" by (metis prod.collapse)
    have listed_claims: "stored (o_World s) (policy_key p) = Some p" if "p \<in> set items" for p
      using listed [OF op_invD(1) [OF s] l that] assms by blast
    have "drops (o_World s') \<subseteq> drops (o_World s) \<union> wanted_ips items \<and> tdrops (o_World s') \<subseteq> tdrops (o_World s) \<union> wanted_tunnels items"
      using eff Inr by (auto simp: unread_def corrected_def Let_def)
    moreover have "covered (wanted_ips items) (wanted_tunnels items) (stored (o_World s))"
      using listed_claims unfolding covered_def wanted_ips_def wanted_tunnels_def by blast
    ultimately show ?thesis using op_invD(3) [OF s] unfolding st(1) covered_def by blast
  qed
  show "op_inv {} {} s'"
    using s cov st unfolding op_inv_def good_def by simp
qed

end


text \<open>
  C2: the kernel converges to what the policies claim. After two passes without errors over the same
  policies, the kernel drops exactly the addresses and tunnels that the policies claim, whatever it dropped before
  and whichever entries it lost in between.
\<close>

theorem Sync_converges:
  assumes "cluster env ins winv drops tdrops stored hist calm" "winv (o_World s)" "winv (o_World m)"
    and "run_state (Sync env ins b) s = (((rep1, None), b1), s1)" "run_state (Sync env ins b1) m = (((rep2, None), b2), s2)"
    and "fst (list_policies env (o_World s)) = Inr items" "fst (list_policies env (o_World m)) = Inr items"
    and "drops (o_World m) \<subseteq> drops (o_World s1)" "tdrops (o_World m) \<subseteq> tdrops (o_World s1)"
  shows "drops (o_World s2) = wanted_ips items \<and> tdrops (o_World s2) = wanted_tunnels items"
proof -
  note defs = cluster.unread_def [OF assms(1)] cluster.corrected_def [OF assms(1)] Let_def stale_ips_def stale_tunnels_def
  have one: "set (br_unclaimed b1) = unclaimed_now (drops (o_World s)) (tdrops (o_World s)) items"
      "drops (o_World s1) \<subseteq> drops (o_World s) \<union> wanted_ips items" "tdrops (o_World s1) \<subseteq> tdrops (o_World s) \<union> wanted_tunnels items"
    using cluster.Sync_effect [OF assms(1,2,4)] assms(6) by (auto simp: defs)
  have two: "drops (o_World s2) = (drops (o_World m) \<union> wanted_ips items) - stale_ips (drops (o_World m)) items (set (br_unclaimed b1))"
      "tdrops (o_World s2) = (tdrops (o_World m) \<union> wanted_tunnels items) - stale_tunnels (tdrops (o_World m)) items (set (br_unclaimed b1))"
    using cluster.Sync_effect [OF assms(1,3,5)] assms(7) by (simp_all add: defs)
  have "stale_ips (drops (o_World m)) items (set (br_unclaimed b1)) = drops (o_World m) - wanted_ips items"
      "stale_tunnels (tdrops (o_World m)) items (set (br_unclaimed b1)) = tdrops (o_World m) - wanted_tunnels items"
    using one assms(8,9) by (auto simp: stale_ips_def stale_tunnels_def unclaimed_now_def)
  then show ?thesis using two by auto
qed

definition orphan_kernel :: "(nat, mem) kernel" where
  "orphan_kernel = mem_kernel\<lparr>k_world := (\<lambda>_. [])(2 := [([10, 0, 0, 1], [1])])\<rparr>"

definition orphan_op :: "(nat, sim) op" where
  "orphan_op = demo_op\<lparr>o_World := sim_start\<lparr>s_kernel := orphan_kernel\<rparr>\<rparr>"

definition demo_blocklist :: BlocklistReconciler where
  "demo_blocklist = \<lparr>br_HasBlocklist = True, br_Interval = 0, br_HasRecorder = False, br_HasPodRef = False, br_unclaimed = []\<rparr>"

lemma orphan_is: "Loader_Block (v4InV6Prefix @ [10, 0, 0, 1]) mem_kernel = (None, orphan_kernel)"
  by (simp add: Loader_Block_def blocklistMapAndKey_def isIPv4_def ipv4Key_def blockedValue_def mem_kernel_def mem_sys_def orphan_kernel_def mem_loader_def To4_def v4InV6Prefix_def)

lemma orphan_calls:
  "Loader_BlockedIPs orphan_kernel = (Inr [[10, 0, 0, 1]], orphan_kernel)"
  "Loader_BlockedTunnels orphan_kernel = (Inr [], orphan_kernel)"
  "Loader_Unblock [10, 0, 0, 1] orphan_kernel = (None, mem_kernel)"
  "Loader_ObservationOccupancy orphan_kernel = (Inr (0, 65536), orphan_kernel)"
  "Loader_ObservationOccupancy mem_kernel = (Inr (0, 65536), mem_kernel)"
  by (simp_all add: orphan_kernel_def mem_kernel_def mem_sys_def mem_loader_def Loader_BlockedIPs_def Loader_BlockedTunnels_def
    Loader_Unblock_def blocklistMapAndKey_def isIPv4_def ipv4Key_def To4_def Loader_ObservationOccupancy_def countMapEntries_def fun_upd_idem)

lemmas pass_defs = Sync_def Let_def orphan_op_def desiredEnforcement_def sim_inspector_def on_kernel_def orphan_calls sim_updater_def
  actual_ips_def actual_tunnels_def remove_extra_def demo_blocklist_def still_unclaimed_def errors_of_def sortedKeys_def publish_gauges_def

lemma first_pass:
  assumes "o_World s = o_World orphan_op"
  shows "\<exists>rep s'. run_state (Sync sim_env sim_inspector demo_blocklist) s =
     (((rep, None), demo_blocklist\<lparr>br_unclaimed := [''ip:'' @ IP_String [10, 0, 0, 1]]\<rparr>), s') \<and> o_World s' = o_World orphan_op"
  using assms by (simp add: pass_defs)

lemma second_pass:
  assumes "o_World s = o_World orphan_op"
  shows "\<exists>rep b' s'. run_state (Sync sim_env sim_inspector (demo_blocklist\<lparr>br_unclaimed := [''ip:'' @ IP_String [10, 0, 0, 1]]\<rparr>)) s =
     (((rep, None), b'), s') \<and> o_World s' = sim_start\<lparr>s_kernel := mem_kernel\<rparr>"
  using assms by (simp add: pass_defs)

lemma orphan_facts:
  "sim_inv (o_World orphan_op)" "sim_drops (o_World orphan_op) = {canon (v4InV6Prefix @ [10, 0, 0, 1])}" "sim_tdrops (o_World orphan_op) = {}"
  "list_policies sim_env (o_World orphan_op) = (Inr [], o_World orphan_op)"
proof -
  have "loader_inv orphan_kernel" "loader_drops orphan_kernel = {canon (v4InV6Prefix @ [10, 0, 0, 1])}" "loader_tdrops orphan_kernel = {}"
    using blocked_kernel orphan_is by (metis prod.inject)+
  then show "sim_inv (o_World orphan_op)" "sim_drops (o_World orphan_op) = {canon (v4InV6Prefix @ [10, 0, 0, 1])}" "sim_tdrops (o_World orphan_op) = {}"
    using sim_start_inv by (simp_all add: sim_inv_def orphan_op_def sim_drops_def sim_tdrops_def)
qed (simp add: orphan_op_def)


theorem Sync_converges_witness:
  "\<exists>b1 s1. snd (fst (run_state (Sync sim_env sim_inspector demo_blocklist) orphan_op)) = b1 \<and>
     snd (run_state (Sync sim_env sim_inspector demo_blocklist) orphan_op) = s1 \<and> sim_drops (o_World s1) \<noteq> {} \<and>
     sim_drops (o_World (snd (run_state (Sync sim_env sim_inspector b1) s1))) = {}"
proof -
  obtain rep s1 where one: "run_state (Sync sim_env sim_inspector demo_blocklist) orphan_op =
      (((rep, None), demo_blocklist\<lparr>br_unclaimed := [''ip:'' @ IP_String [10, 0, 0, 1]]\<rparr>), s1)" "o_World s1 = o_World orphan_op"
    using first_pass [of orphan_op] by blast
  obtain rep2 b2 s2 where two: "run_state (Sync sim_env sim_inspector (demo_blocklist\<lparr>br_unclaimed := [''ip:'' @ IP_String [10, 0, 0, 1]]\<rparr>)) s1 =
      (((rep2, None), b2), s2)"
    using second_pass [OF one(2)] by blast
  have "sim_drops (o_World s2) = wanted_ips []"
    using Sync_converges [OF sim_cluster.cluster_axioms orphan_facts(1) _ one(1) two, of "[]"] orphan_facts one(2) by simp
  then show ?thesis using one two orphan_facts(2) by (simp add: wanted_ips_def)
qed

text \<open>
  C11: a pass that cannot see acts on nothing. When the policies cannot be listed or one of the two kernel maps cannot
  be read, the pass reports the error and leaves the kernel, the stored policies and the set of entries waiting
  for their second pass as they were, so that an unreadable list is never taken for an empty one.
\<close>

theorem blind_pass_changes_nothing:
  assumes "cluster env ins winv drops tdrops stored hist calm" "winv (o_World s)"
    and "list_policies env (o_World s) = (l, w1)" "inspect_BlockedIPs ins w1 = (ri, w2)" "inspect_BlockedTunnels ins w2 = (rt, w3)"
    and "isl l \<or> isl ri \<or> isl rt" and "run_state (Sync env ins b) s = (((rep, e), b'), s')"
  shows "e \<noteq> None \<and> b' = b \<and> drops (o_World s') = drops (o_World s) \<and> tdrops (o_World s') = tdrops (o_World s) \<and>
    stored (o_World s') = stored (o_World s) \<and> o_Index s' = o_Index s"
proof -
  note reads = cluster.undisturbed_read [OF assms(1-5)]
  have "e \<noteq> None \<and> b' = b \<and> s' \<in> {s\<lparr>o_World := w1\<rparr>, s\<lparr>o_World := w2\<rparr>, s\<lparr>o_World := w3\<rparr>}"
    using assms(3-7) by (cases l; cases ri; cases rt) (auto simp: Sync_def Let_def split: prod.splits)
  then show ?thesis using reads [of w1] reads [of w2] reads [of w3]
    by (elim conjE insertE emptyE) (simp_all add: cluster.undisturbed_def [OF assms(1)])
qed

theorem blind_pass_changes_nothing_witness:
  "sim_drops (o_World (snd (run_state (Sync sim_env sim_inspector (demo_blocklist\<lparr>br_unclaimed := [''ip:'' @ IP_String [10, 0, 0, 1]]\<rparr>))
     (orphan_op\<lparr>o_World := (o_World orphan_op)\<lparr>s_apiDown := True\<rparr>\<rparr>)))) = {canon (v4InV6Prefix @ [10, 0, 0, 1])}"
proof -
  let ?s = "orphan_op\<lparr>o_World := (o_World orphan_op)\<lparr>s_apiDown := True\<rparr>\<rparr>" and ?b = "demo_blocklist\<lparr>br_unclaimed := [''ip:'' @ IP_String [10, 0, 0, 1]]\<rparr>"
  obtain rep e b' s' where run: "run_state (Sync sim_env sim_inspector ?b) ?s = (((rep, e), b'), s')" by (metis surj_pair)
  obtain ri w2 where ri: "inspect_BlockedIPs sim_inspector (o_World ?s) = (ri, w2)" by (rule prod.exhaust)
  obtain rt w3 where rt: "inspect_BlockedTunnels sim_inspector w2 = (rt, w3)" by (rule prod.exhaust)
  have "sim_inv (o_World ?s)" "list_policies sim_env (o_World ?s) = (Inl unreachable, o_World ?s)"
    "sim_drops (o_World ?s) = {canon (v4InV6Prefix @ [10, 0, 0, 1])}"
    using orphan_facts by (simp_all add: sim_inv_def sim_api_inv_def sim_drops_def)
  then show ?thesis using blind_pass_changes_nothing [OF sim_cluster.cluster_axioms _ _ ri rt _ run] run by simp
qed

end
