(* ===== verification/Operator_Steps.thy ===== *)
theory Operator_Steps
  imports Blocklist_Reconciler
begin

text \<open>
  The running operator as a transition system: the controllers of one process take turns on the state they
  share (a threat score is handled, a policy is reconciled, the index is warmed, the kernel is compared with
  the policies), the process restarts, and the cluster changes around it. A handler runs to its end before
  the next one starts; what other writers do to the API server is a step of the outside.
\<close>

text \<open>
  What may happen outside: entries get lost from the kernel, policies appear, their specs change and their deletion is
  requested; the finalizer keeps an object, with its status, until the operator lets it go.
\<close>

definition outside_step ::
  "('w \<Rightarrow> bool) \<Rightarrow> ('w \<Rightarrow> bytes set) \<Rightarrow> ('w \<Rightarrow> (bytes \<times> u32) set) \<Rightarrow> ('w \<Rightarrow> nsname \<Rightarrow> Policy option) \<Rightarrow>
   ('w \<Rightarrow> nsname \<Rightarrow> string \<Rightarrow> PolicyStatus option) \<Rightarrow> 'w \<Rightarrow> 'w \<Rightarrow> bool" where
  "outside_step winv drops tdrops stored hist w w' \<longleftrightarrow>
     winv w' \<and> drops w' \<subseteq> drops w \<and> tdrops w' \<subseteq> tdrops w \<and> (\<forall>k. hist w k \<subseteq>\<^sub>m hist w' k) \<and>
     (\<forall>k q. stored w k = Some q \<longrightarrow> (\<exists>q'. stored w' k = Some q' \<and> Status q' = Status q))"

text \<open>
  One step. The kernel is compared only with a current list (\<open>calm\<close>): a pass over an out-of-date list can re-apply what was
  just released, which the second pass after it takes away again.
\<close>

inductive op_step ::
  "('l, 'w) env \<Rightarrow> 'w BlocklistInspector \<Rightarrow> ThreatScoreWatcher \<Rightarrow> Reconciler \<Rightarrow> ('w \<Rightarrow> 'w \<Rightarrow> bool) \<Rightarrow> bool \<Rightarrow>
   ('l, 'w) op \<times> BlocklistReconciler \<Rightarrow> ('l, 'w) op \<times> BlocklistReconciler \<Rightarrow> bool"
  for env ins tw r outside calm where
  score: "run_state (handle env tw event) s = (x, s') \<Longrightarrow> op_step env ins tw r outside calm (s, b) (s', b)"
| reconcile: "run_state (Reconcile env r key) s = (y, s') \<Longrightarrow> op_step env ins tw r outside calm (s, b) (s', b)"
| warm: "run_state (warmIndex env) s = (x, s') \<Longrightarrow> op_step env ins tw r outside calm (s, b) (s', b)"
| sync: "calm \<Longrightarrow> run_state (Sync env ins b) s = ((z, b'), s') \<Longrightarrow> op_step env ins tw r outside calm (s, b) (s', b')"
| restart: "(o_ActionLimiter s = None \<longrightarrow> lm = None) \<Longrightarrow> op_step env ins tw r outside calm (s, b)
    (\<lparr>o_Index = NewPolicyIndex, o_Scoring = sc, o_KillSwitch = ks, o_ActionLimiter = lm, o_Metrics = [], o_World = o_World s\<rparr>,
     b\<lparr>br_unclaimed := []\<rparr>)"
| world: "outside (o_World s) w' \<Longrightarrow> op_step env ins tw r outside calm (s, b) (s\<lparr>o_World := w'\<rparr>, b)"

context cluster
begin

lemma op_inv_start:
  assumes "inv (o_World s)" "o_Index s = NewPolicyIndex" "covered (drops (o_World s)) (tdrops (o_World s)) (stored (o_World s))"
    "calm \<or> o_ActionLimiter s = None"
  shows "op_inv {} {} s"
  using assms by (simp add: op_inv_def index_ok_def NewPolicyIndex_def index_lookup_def)

lemma op_inv_outside:
  assumes s: "op_inv {} {} s" and w: "outside_step inv drops tdrops stored hist (o_World s) w'"
  shows "op_inv {} {} (s\<lparr>o_World := w'\<rparr>)"
proof -
  have keep: "stored (o_World s) k = Some q \<Longrightarrow> \<exists>q'. stored w' k = Some q' \<and> Status q' = Status q" for k q
    using w by (auto simp: outside_step_def)
  have sub: "drops w' \<subseteq> drops (o_World s)" "tdrops w' \<subseteq> tdrops (o_World s)" and hist: "hist (o_World s) k \<subseteq>\<^sub>m hist w' k" and iw: "inv w'" for k
    using w by (auto simp: outside_step_def)
  have "covered (drops w') (tdrops w') (stored w')"
    unfolding covered_def
  proof (intro conjI ballI)
    fix d assume "d \<in> drops w'"
    then obtain k q where q: "stored (o_World s) k = Some q" "d \<in> claimed_ips (Status q)"
      using op_invD(3) [OF s] sub(1) unfolding covered_def by blast
    then show "\<exists>k q. stored w' k = Some q \<and> d \<in> claimed_ips (Status q)" using keep [OF q(1)] by metis
  next
    fix d assume "d \<in> tdrops w'"
    then obtain k q where q: "stored (o_World s) k = Some q" "d \<in> claimed_tunnels (Status q)"
      using op_invD(3) [OF s] sub(2) unfolding covered_def by blast
    then show "\<exists>k q. stored w' k = Some q \<and> d \<in> claimed_tunnels (Status q)" using keep [OF q(1)] by metis
  qed
  moreover have "good w' p" if g: "good (o_World s) p" for p
  proof -
    have "reflects (hist w') p"
    proof -
      obtain st where st: "hist (o_World s) (policy_key p) (p_ResourceVersion p) = Some st"
          "BlockedSourceIPs st = BlockedSourceIPs (Status p)" "BlockedTunnels st = BlockedTunnels (Status p)"
        using g by (auto simp: good_def reflects_def)
      then have "hist w' (policy_key p) (p_ResourceVersion p) = Some st" using hist [of "policy_key p"] by (simp add: map_le_def dom_def)
      then show ?thesis using st by (simp add: reflects_def)
    qed
    moreover have "current (stored w') p" if "current (stored (o_World s)) p"
      using that keep [of "policy_key p"] by (auto simp: current_def split: option.splits)
    ultimately show ?thesis using g by (auto simp: good_def)
  qed
  ultimately show ?thesis using s iw unfolding op_inv_def by simp
qed

lemma op_step_inv:
  assumes "op_step env ins tw r (outside_step inv drops tdrops stored hist) calm c c'" "op_inv {} {} (fst c)"
  shows "op_inv {} {} (fst c')"
  using assms
proof (induction rule: op_step.induct)
  case (score event s x s' b)
  then show ?case using tripleD [OF keeps_handle] by simp
next
  case (reconcile key s y s' b)
  then show ?case using tripleD [OF keeps_Reconcile] by simp
next
  case (warm s x s' b)
  then show ?case using tripleD [OF keeps_warmIndex] by simp
next
  case (sync b s z b' s')
  then show ?case using tripleD [OF keeps_Sync] by simp
next
  case (restart s lm b sc ks)
  then show ?case using op_invD(1,3,6) [of "{}" "{}" s] by (auto intro: op_inv_start)
next
  case (world s w' b)
  then show ?case using op_inv_outside by simp
qed

lemma reachable_inv:
  assumes "(op_step env ins tw r (outside_step inv drops tdrops stored hist) calm)\<^sup>*\<^sup>* c c'" "op_inv {} {} (fst c)"
  shows "op_inv {} {} (fst c')"
  using assms by (induction rule: rtranclp_induct) (auto intro: op_step_inv)

end


lemma mitigated_covered: "covered (sim_drops mitigated_world) (sim_tdrops mitigated_world) (sim_stored mitigated_world)"
proof -
  obtain k where k: "Loader_Block (v4InV6Prefix @ [10, 0, 0, 1]) mem_kernel = (None, k)"
      "loader_drops k = {canon (v4InV6Prefix @ [10, 0, 0, 1])}" "loader_tdrops k = {}"
    using blocked_kernel by metis
  have "canon (v4InV6Prefix @ [10, 0, 0, 1]) \<in> claimed_ips (Status mitigated_policy)"
    by (auto simp: mitigated_policy_def claimed_ips_def ParseIP_sample)
  then show ?thesis
    using mitigated_world_facts(4) k unfolding covered_def sim_drops_def sim_tdrops_def sim_stored_def mitigated_world_facts(5) by auto
qed


end
