(* ===== verification/Operator_Main.thy ===== *)
theory Operator_Main
  imports Ebpf_Attach Mesh Falco Operator_Steps
begin

text \<open>
  The operator's \<open>main\<close> (\<open>cmd/operator\<close>): the fall-back from pinned to unpinned to no enforcement, the choice of the mesh adapter, the TLS set-up for Hubble,
  and the wiring of the parts from one configuration. What the manager and the system calls return is a record; logging is left out.
\<close>

subsection \<open>Enforcement\<close>

datatype 'h enforcement = Attached "'h Loader" | NoopBlocklist

text \<open>The updater of the fall-back: every call succeeds and does nothing.\<close>

definition noopBlocklist :: "'w BlocklistUpdater" where
  "noopBlocklist = \<lparr>Block = (\<lambda>ip w. (None, w)), Unblock = (\<lambda>ip w. (None, w)), BlockTunnel = (\<lambda>ip teid w. (None, w)), UnblockTunnel = (\<lambda>ip teid w. (None, w))\<rparr>"

record object_reference =
  ref_Name :: string
  ref_Namespace :: string

definition operatorPodRef :: "environ \<Rightarrow> object_reference option" where
  "operatorPodRef env =
     (let name = Getenv env ''POD_NAME''; namespace = Getenv env ''POD_NAMESPACE'' in
      if name = [] \<or> namespace = [] then None else Some \<lparr>ref_Name = name, ref_Namespace = namespace\<rparr>)"

text \<open>The result, the reasons of the events recorded, and the world.\<close>

definition attachBlocklist ::
  "('h, 'w) bpf_lib \<Rightarrow> object_reference option \<Rightarrow> string \<Rightarrow> string \<Rightarrow> string \<Rightarrow> 'w \<Rightarrow> 'h enforcement \<times> string list \<times> 'w" where
  "attachBlocklist lib ref objectPath iface pin w =
     (let failed = (if ref \<noteq> None then [''EBPFAttachFailed''] else []) in
      case AttachWithOptions lib objectPath iface pin w of
        (Inr loader, w1) \<Rightarrow> (Attached loader, [], w1)
      | (Inl e, w1) \<Rightarrow>
          if pin \<noteq> [] \<and> err_is e ErrPinPathNotBPFFS
          then (let warned = (if ref \<noteq> None then [''EBPFPinUnavailable''] else []) in
                case AttachWithOptions lib objectPath iface [] w1 of
                  (Inr unpinned, w2) \<Rightarrow> (Attached unpinned, warned, w2)
                | (Inl retryErr, w2) \<Rightarrow> (NoopBlocklist, warned @ failed, w2))
          else (NoopBlocklist, failed, w1))"

subsection \<open>The other parts\<close>

definition natsReadyzCheck :: "'c Connector \<Rightarrow> err option" where
  "natsReadyzCheck conn = (if \<not> Connected conn then Some (new_err ''not yet connected to NATS JetStream'') else None)"

text \<open>\<open>mapping\<close> is what the REST mapper returns for a kind; an unknown adapter ends the process.\<close>

definition buildMeshAdapter :: "string \<Rightarrow> 'k kube \<Rightarrow> (GroupVersionKind \<Rightarrow> err option) \<Rightarrow> err + 'k Adapter" where
  "buildMeshAdapter kind c mapping =
     (if kind = ''istio'' \<and> mapping \<lparr>gv_Group = ''security.istio.io'', gv_Version = ''v1'', gv_Kind = ''AuthorizationPolicy''\<rparr> \<noteq> None then Inr NoopAdapter
      else if kind = ''cilium'' \<and> mapping \<lparr>gv_Group = ''cilium.io'', gv_Version = ''v2'', gv_Kind = ''CiliumNetworkPolicy''\<rparr> \<noteq> None then Inr NoopAdapter
      else if kind = ''linkerd'' \<and> mapping \<lparr>gv_Group = ''policy.linkerd.io'', gv_Version = ''v1beta3'', gv_Kind = ''Server''\<rparr> \<noteq> None then Inr NoopAdapter
      else NewAdapter kind c)"

record ('p, 'x) tls_config =
  tls_RootCAs :: "'p option"
  tls_Certificates :: "'x list"

record ('p, 'x) tls_files =
  os_ReadFile :: "string \<Rightarrow> err + string"
  pool_of_PEM :: "string \<Rightarrow> 'p option"
  LoadX509KeyPair :: "string \<Rightarrow> string \<Rightarrow> err + 'x"

text \<open>\<open>None\<close> is a plaintext connection; an error ends the process.\<close>

definition hubbleTLSConfig :: "('p, 'x) tls_files \<Rightarrow> OperatorConfig \<Rightarrow> err + ('p, 'x) tls_config option" where
  "hubbleTLSConfig fs cfg =
     (if oc_HubbleTLSCAFile cfg = [] \<and> oc_HubbleTLSCertFile cfg = [] \<and> oc_HubbleTLSKeyFile cfg = [] then Inr None
      else
        and_then (if oc_HubbleTLSCAFile cfg \<noteq> []
                  then (case os_ReadFile fs (oc_HubbleTLSCAFile cfg) of
                          Inl e \<Rightarrow> Inl e
                        | Inr caCert \<Rightarrow> (case pool_of_PEM fs caCert of None \<Rightarrow> Inl (new_err ''no certificates found'') | Some p \<Rightarrow> Inr (Some p)))
                  else Inr None) (\<lambda>pool.
        and_then (if oc_HubbleTLSCertFile cfg \<noteq> []
                  then (case LoadX509KeyPair fs (oc_HubbleTLSCertFile cfg) (oc_HubbleTLSKeyFile cfg) of Inl e \<Rightarrow> Inl e | Inr cert \<Rightarrow> Inr [cert])
                  else Inr []) (\<lambda>certs.
        Inr (Some \<lparr>tls_RootCAs = pool, tls_Certificates = certs\<rparr>))))"

definition operator_events_config :: "string \<Rightarrow> OperatorConfig \<Rightarrow> Config" where
  "operator_events_config defaultURL cfg =
     \<lparr>URL = oc_NATSURL cfg, StreamName = oc_NATSStreamName cfg, EventsSubject = oc_NATSEventsSubject cfg, ThreatsSubject = oc_NATSThreatsSubject cfg,
      ConnectTimeout = ConnectTimeout (DefaultConfig defaultURL), CredentialsFile = oc_NATSCredentialsFile cfg, Username = oc_NATSUsername cfg,
      Password = oc_NATSPassword cfg, TLSCAFile = oc_NATSTLSCAFile cfg, TLSCertFile = oc_NATSTLSCertFile cfg, TLSKeyFile = oc_NATSTLSKeyFile cfg\<rparr>"

definition operator_publisher :: "OperatorConfig \<Rightarrow> string \<Rightarrow> Publisher" where
  "operator_publisher cfg nodeName =
     \<lparr>pb_Subject = oc_NATSEventsSubject cfg, pb_NodeName = nodeName,
      pb_TunnelFlood = Some (NewGTPUFloodDetector \<lparr>fc_Enabled = oc_GTPUTunnelFloodEnabled cfg, fc_PacketsPerSecond = oc_GTPUTunnelFloodPPS cfg,
        fc_Cooldown = oc_GTPUTunnelFloodCooldown cfg, fc_MaxTrackedTunnels = 0\<rparr>),
      pb_SourceFlood = Some (NewGTPUSourceFloodDetector \<lparr>sf_Enabled = oc_GTPUSourceFloodEnabled cfg, sf_PacketsPerSecond = oc_GTPUSourceFloodPPS cfg,
        sf_DistinctTunnels = oc_GTPUSourceFloodDistinctTunnels cfg, sf_Window = oc_GTPUSourceFloodWindow cfg, sf_Cooldown = oc_GTPUSourceFloodCooldown cfg,
        sf_MaxTrackedSources = 0, sf_MaxTunnelsPerSource = 0\<rparr>),
      pb_ThreatsSubject = oc_NATSThreatsSubject cfg, pb_BatchSize = oc_NATSEventBatchSize cfg, pb_FlushInterval = oc_NATSEventFlushInterval cfg\<rparr>"

definition operator_observer :: "OperatorConfig \<Rightarrow> bool \<Rightarrow> Observer" where
  "operator_observer cfg tls = \<lparr>ob_Addr = oc_HubbleAddr cfg, ob_TLS = tls, ob_Subject = oc_NATSEventsSubject cfg\<rparr>"

definition operator_killSwitch :: "OperatorConfig \<Rightarrow> KillSwitch option" where
  "operator_killSwitch cfg =
     (if oc_KillSwitchConfigMapName cfg \<noteq> [] \<and> oc_KillSwitchNamespace cfg \<noteq> []
      then Some \<lparr>ks_HasReader = True, ks_Key = NsName (oc_KillSwitchNamespace cfg) (oc_KillSwitchConfigMapName cfg), ks_TTL = oc_KillSwitchPollInterval cfg,
                 ks_lastChecked = zero_time, ks_engaged = False, ks_everRead = False\<rparr>
      else None)"

subsection \<open>The process\<close>

text \<open>What is registered with the manager; the watcher keeps its threshold, kill switch, rate and burst.\<close>

datatype runnable =
    RunPodIndexer
  | RunPublisher Publisher
  | RunObserver Observer
  | RunReconciler Reconciler
  | RunWatcher string float_value "KillSwitch option" float_value int
  | RunDrift BlocklistReconciler

record ('p, 'x) boot =
  bt_args :: "string list"
  bt_env :: environ
  bt_get :: "string \<Rightarrow> err + nat"
  bt_bpfObject :: string
  bt_bpfInterface :: string
  bt_manager :: "err option"
  bt_register :: "runnable \<Rightarrow> err option"
  bt_hostname :: "err + string"
  bt_tls :: "('p, 'x) tls_files"
  bt_mapping :: "GroupVersionKind \<Rightarrow> err option"
  bt_check :: "string \<Rightarrow> err option"
  bt_mgrStart :: "err option"

datatype outcome = Exited nat | Served "err option" "runnable list"

definition operator_runHealthcheck :: "environ \<Rightarrow> (string \<Rightarrow> err + nat) \<Rightarrow> nat" where
  "operator_runHealthcheck env get =
     (case Load env of
        Inl _ \<Rightarrow> 1
      | Inr cfg \<Rightarrow>
          (case get (''http://127.0.0.1'' @ oc_HealthProbeBindAddress cfg @ ''/healthz'') of
             Inl _ \<Rightarrow> 1
           | Inr status \<Rightarrow> if status \<noteq> StatusOK then 1 else 0))"

text \<open>Registration in order: the first that fails ends the process.\<close>

fun register_all :: "('p, 'x) boot \<Rightarrow> runnable list \<Rightarrow> runnable list \<Rightarrow> runnable list option" where
  "register_all b done [] = Some done"
| "register_all b done (r # rs) = (if bt_register b r \<noteq> None then None else register_all b (done @ [r]) rs)"

definition capture_parts :: "('p, 'x) boot \<Rightarrow> OperatorConfig \<Rightarrow> 'h enforcement \<Rightarrow> runnable list option" where
  "capture_parts b cfg bl =
     (case bl of
        NoopBlocklist \<Rightarrow> Some []
      | Attached _ \<Rightarrow> (case bt_hostname b of Inl _ \<Rightarrow> None | Inr nodeName \<Rightarrow> Some [RunPublisher (operator_publisher cfg nodeName)]))"

definition hubble_parts :: "('p, 'x) boot \<Rightarrow> OperatorConfig \<Rightarrow> runnable list option" where
  "hubble_parts b cfg =
     (if oc_HubbleAddr cfg \<noteq> []
      then (case hubbleTLSConfig (bt_tls b) cfg of Inl _ \<Rightarrow> None | Inr tls \<Rightarrow> Some [RunObserver (operator_observer cfg (tls \<noteq> None))])
      else Some [])"

definition drift_parts :: "('p, 'x) boot \<Rightarrow> OperatorConfig \<Rightarrow> 'h enforcement \<Rightarrow> runnable list" where
  "drift_parts b cfg bl =
     (case bl of
        NoopBlocklist \<Rightarrow> []
      | Attached _ \<Rightarrow> [RunDrift \<lparr>br_HasBlocklist = True, br_Interval = oc_BlocklistReconcileInterval cfg, br_HasRecorder = True,
                         br_HasPodRef = (operatorPodRef (bt_env b) \<noteq> None), br_unclaimed = []\<rparr>])"

definition operator_parts :: "('p, 'x) boot \<Rightarrow> 'k kube \<Rightarrow> OperatorConfig \<Rightarrow> 'h enforcement \<Rightarrow> runnable list option" where
  "operator_parts b c cfg bl =
     Option.bind (register_all b [] [RunPodIndexer]) (\<lambda>rs0.
     Option.bind (capture_parts b cfg bl) (\<lambda>publisher.
     Option.bind (register_all b rs0 publisher) (\<lambda>rs1.
     Option.bind (hubble_parts b cfg) (\<lambda>observer.
     Option.bind (register_all b rs1 observer) (\<lambda>rs2.
     case buildMeshAdapter (oc_MeshAdapter cfg) c (bt_mapping b) of
       Inl _ \<Rightarrow> None
     | Inr _ \<Rightarrow>
         Option.bind (register_all b rs2 [RunReconciler \<lparr>DeEscalationDwell = oc_DeEscalationDwell cfg, HasRecorder = True\<rparr>]) (\<lambda>rs3.
         Option.bind (register_all b rs3 [RunWatcher (oc_NATSThreatsSubject cfg) (oc_ThreatScoreThreshold cfg) (operator_killSwitch cfg)
                                            (oc_ReactorStatusWritesPerSecond cfg) (oc_ReactorStatusWriteBurst cfg)]) (\<lambda>rs4.
         register_all b rs4 (drift_parts b cfg bl))))))))"

definition operator_main :: "('h, 'w) bpf_lib \<Rightarrow> 'k kube \<Rightarrow> ('p, 'x) boot \<Rightarrow> 'w \<Rightarrow> outcome \<times> 'w" where
  "operator_main lib c b w =
     (if 1 < length (bt_args b) \<and> bt_args b ! 1 = ''healthcheck'' then (Exited (operator_runHealthcheck (bt_env b) (bt_get b)), w)
      else case Load (bt_env b) of
        Inl _ \<Rightarrow> (Exited 1, w)
      | Inr cfg \<Rightarrow>
          if bt_manager b \<noteq> None then (Exited 1, w)
          else
            (case attachBlocklist lib (operatorPodRef (bt_env b)) (bt_bpfObject b) (bt_bpfInterface b) (oc_BPFPinPath cfg) w of
               (bl, _, w1) \<Rightarrow>
                 (case operator_parts b c cfg bl of
                    None \<Rightarrow> (Exited 1, w1)
                  | Some rs \<Rightarrow>
                      if bt_check b ''healthz'' \<noteq> None \<or> bt_check b ''readyz'' \<noteq> None \<or> bt_check b ''nats'' \<noteq> None then (Exited 1, w1)
                      else if bt_mgrStart b \<noteq> None then (Served (bt_mgrStart b) rs, w1)
                      else (Served None rs, (case bl of Attached l \<Rightarrow> snd (Loader_Close lib l w1) | NoopBlocklist \<Rightarrow> w1)))))"

subsection \<open>Properties\<close>



subsubsection \<open>What is registered\<close>

lemma register_all_Some: "register_all b done rs = Some rs' \<Longrightarrow> rs' = done @ rs"
proof (induction rs arbitrary: "done")
  case (Cons r rs)
  then have "register_all b (done @ [r]) rs = Some rs'" by (simp split: if_splits)
  from Cons.IH [OF this] show ?case by simp
qed simp

lemma operator_parts_Some:
  assumes "operator_parts b c cfg bl = Some rs"
  obtains publisher observer where "capture_parts b cfg bl = Some publisher" "hubble_parts b cfg = Some observer"
    "rs = [RunPodIndexer] @ publisher @ observer @ [RunReconciler \<lparr>DeEscalationDwell = oc_DeEscalationDwell cfg, HasRecorder = True\<rparr>,
       RunWatcher (oc_NATSThreatsSubject cfg) (oc_ThreatScoreThreshold cfg) (operator_killSwitch cfg) (oc_ReactorStatusWritesPerSecond cfg) (oc_ReactorStatusWriteBurst cfg)] @
       drift_parts b cfg bl"
  using assms that unfolding operator_parts_def
  by (cases "buildMeshAdapter (oc_MeshAdapter cfg) c (bt_mapping b)")
    (auto simp: bind_eq_Some_conv simp del: register_all.simps dest!: register_all_Some)

lemma operator_main_Served:
  assumes "operator_main lib c b w = (Served e rs, w')"
  obtains cfg bl events w1 where "Load (bt_env b) = Inr cfg"
    "attachBlocklist lib (operatorPodRef (bt_env b)) (bt_bpfObject b) (bt_bpfInterface b) (oc_BPFPinPath cfg) w = (bl, events, w1)"
    "operator_parts b c cfg bl = Some rs"
  using assms that unfolding operator_main_def
  by (auto split: if_splits sum.splits prod.splits option.splits)

lemma loaded_safe: "Load env = Inr cfg \<Longrightarrow> safe_config cfg \<and> 0 \<le> oc_GTPUSourceFloodDistinctTunnels cfg"
  using Load_validated [of env cfg] parseIntEnv_range [of env "''GTPU_SOURCE_FLOOD_DISTINCT_TUNNELS''" 2048 "oc_GTPUSourceFloodDistinctTunnels cfg"]
  by (simp add: validate_Inr)

text \<open>The detectors of the wired publisher: enabled is armed.\<close>

definition tunnel_armed :: "Publisher \<Rightarrow> u32 \<Rightarrow> bool" where
  "tunnel_armed p pps \<longleftrightarrow> (\<exists>d. pb_TunnelFlood p = Some d \<and>
     (\<forall>evt now. ne_Protocol evt = ProtocolGTPU \<and> ne_TEID evt \<noteq> 0 \<and> of_nat (unat pps) \<le> ne_TunnelRatePerSecond evt \<longrightarrow> fst (Evaluate d evt now) \<noteq> None))"

lemma wired_tunnel_armed:
  assumes "oc_GTPUTunnelFloodEnabled cfg" "oc_GTPUTunnelFloodPPS cfg \<noteq> 0"
  shows "tunnel_armed (operator_publisher cfg node) (oc_GTPUTunnelFloodPPS cfg)"
  using assms by (auto simp: tunnel_armed_def operator_publisher_def NewGTPUFloodDetector_def Evaluate_def claim_def Let_def)

lemma wired_source_armed:
  assumes "oc_GTPUSourceFloodEnabled cfg" "safe_config cfg" "0 \<le> oc_GTPUSourceFloodDistinctTunnels cfg"
  shows "\<exists>d. pb_SourceFlood (operator_publisher cfg node) = Some d \<and> Configured d"
  using assms by (auto simp: operator_publisher_def NewGTPUSourceFloodDetector_def Configured_def source_defaults_def Let_def safe_config_def word_neq_0_conv)


definition demo_boot :: "(unit, unit) boot" where
  "demo_boot = \<lparr>bt_args = [''manager''], bt_env = demo_environ, bt_get = (\<lambda>_. Inr 200), bt_bpfObject = ''missing.o'', bt_bpfInterface = ''eth0'', bt_manager = None,
     bt_register = (\<lambda>_. None), bt_hostname = Inr ''node-1'', bt_tls = \<lparr>os_ReadFile = (\<lambda>_. Inr []), pool_of_PEM = (\<lambda>_. None), LoadX509KeyPair = (\<lambda>_ _. Inr ())\<rparr>,
     bt_mapping = (\<lambda>_. None), bt_check = (\<lambda>_. None), bt_mgrStart = None\<rparr>"


text \<open>
  A configuration can switch the source detector on, pass every check of \<open>Load\<close> and still leave a detector that never reports: with the rate threshold at zero and
  more than 4096 distinct tunnels asked for, no sequence of events is ever reported, since a source is not tracked beyond 4096 tunnels.
\<close>

theorem blind_detector_loads:
  assumes "Load env = Inr cfg" "oc_GTPUSourceFloodEnabled cfg" "oc_GTPUSourceFloodPPS cfg = 0" "4096 < oc_GTPUSourceFloodDistinctTunnels cfg"
    and "pb_SourceFlood (operator_publisher cfg node) = Some d"
  shows "Configured d \<and> \<not> source_fires (fold source_step evs d) e"
  using cardinality_unreachable [of "\<lparr>sf_Enabled = oc_GTPUSourceFloodEnabled cfg, sf_PacketsPerSecond = oc_GTPUSourceFloodPPS cfg,
        sf_DistinctTunnels = oc_GTPUSourceFloodDistinctTunnels cfg, sf_Window = oc_GTPUSourceFloodWindow cfg, sf_Cooldown = oc_GTPUSourceFloodCooldown cfg,
        sf_MaxTrackedSources = 0, sf_MaxTunnelsPerSource = 0\<rparr>" evs e] assms by (auto simp: operator_publisher_def)

theorem blind_detector_loads_witness:
  "\<exists>d. Load (demo_environ(''GTPU_SOURCE_FLOOD_PPS'' \<mapsto> ''0'', ''GTPU_SOURCE_FLOOD_DISTINCT_TUNNELS'' \<mapsto> ''5000'')) =
      Inr (demo_config\<lparr>oc_GTPUSourceFloodPPS := 0, oc_GTPUSourceFloodDistinctTunnels := 5000\<rparr>) \<and>
    pb_SourceFlood (operator_publisher (demo_config\<lparr>oc_GTPUSourceFloodPPS := 0, oc_GTPUSourceFloodDistinctTunnels := 5000\<rparr>) ''node-1'') = Some d \<and>
    (\<forall>evs e. \<not> source_fires (fold source_step evs d) e)"
proof -
  let ?env = "demo_environ(''GTPU_SOURCE_FLOOD_PPS'' \<mapsto> ''0'', ''GTPU_SOURCE_FLOOD_DISTINCT_TUNNELS'' \<mapsto> ''5000'')"
  let ?cfg = "demo_config\<lparr>oc_GTPUSourceFloodPPS := 0, oc_GTPUSourceFloodDistinctTunnels := 5000\<rparr>"
  have "safe_config ?cfg" by (simp add: safe_config_def demo_config_def natsHasCredentials_def)
  moreover have "oc_ThreatScoreThreshold ?cfg = Finite (9 / 10)" by (simp add: demo_config_def)
  ultimately have "validate ?cfg = Inr ?cfg"
    unfolding validate_Inr by (intro conjI disjI2 exI [of _ "9 / 10"]) simp_all
  moreover have "ParseUint10 32 ''0'' = Inr 0" "Atoi ''5000'' = Inr 5000"
    by (simp_all add: ParseUint10_def Atoi_def dec_val_def sign_of_def)
  then have "Load ?env = validate ?cfg"
    unfolding Load_def
    by (simp add: and_then_def env_reads demo_environ_def demo_threshold demo_parses demo_dwell DefaultPinPath_def demo_config_def)
  ultimately have load: "Load ?env = Inr ?cfg" by simp
  obtain d where d: "pb_SourceFlood (operator_publisher ?cfg ''node-1'') = Some d" by (simp add: operator_publisher_def)
  have "\<not> source_fires (fold source_step evs d) e" for evs e
    using blind_detector_loads [OF load _ _ _ d, of evs e] by (simp add: demo_config_def)
  with load d show ?thesis by blast
qed

end
