(* ===== verification/Packet_Filter.thy ===== *)
theory Packet_Filter
  imports Ebpf_Loader "HOL-Library.Monad_Syntax"
begin

text \<open>
  The XDP program (\<open>bpf/packet_filter.c\<close>, with \<open>headers/common.h\<close> and \<open>headers/vmlinux_min.h\<close>). Pointers into the packet are offsets from its start,
  \<open>data_end\<close> is its length, and a load outside the packet has no result: \<open>None\<close> is the access the verifier must exclude. A map is a table from the bytes of a key, laid
  out as the Go mirrors lay them out, to values; writing through the pointer of a lookup writes the table. What the kernel's helpers answer is the record \<open>xdp_env\<close>,
  indexed by the number of calls made. One run is atomic: two CPUs racing on an entry are not modelled.
\<close>

subsection \<open>Constants\<close>

definition ETH_P_IP :: u16 where "ETH_P_IP = 0x0800"
definition ETH_P_IPV6 :: u16 where "ETH_P_IPV6 = 0x86DD"
definition ETH_P_8021Q :: u16 where "ETH_P_8021Q = 0x8100"
definition GTPU_PORT :: u16 where "GTPU_PORT = 2152"
definition SIP_PORT :: u16 where "SIP_PORT = 5060"
definition GTPU_MSG_TPDU :: u8 where "GTPU_MSG_TPDU = 0xFF"
definition GTPU_MAX_EXT_HEADERS :: nat where "GTPU_MAX_EXT_HEADERS = 4"
definition GTPU_MAX_HDR_BYTES :: nat where "GTPU_MAX_HDR_BYTES = 64"
definition SIGNALING_RATE_WINDOW_NS :: u64 where "SIGNALING_RATE_WINDOW_NS = 1000000000"
definition SCAN_EMIT_THRESHOLD :: u32 where "SCAN_EMIT_THRESHOLD = 10"
definition MULTIPORT_SCAN_THRESHOLD :: nat where "MULTIPORT_SCAN_THRESHOLD = 15"
definition MULTIPORT_SCAN_WINDOW_NS :: u64 where "MULTIPORT_SCAN_WINDOW_NS = 30000000000"
definition IPPROTO_UDP :: u8 where "IPPROTO_UDP = 17"

text \<open>The message types without user plane: echo request and response, error indication, supported extension headers, end marker.\<close>

definition path_management :: "u8 set" where
  "path_management = {1, 2, 26, 31, 254}"

subsection \<open>State\<close>

datatype xdp_action = XDP_DROP | XDP_PASS

record port_scan_entry =
  ps_window_start_ns :: u64
  ps_distinct_count :: nat
  ps_emitted :: bool
  ps_ports :: "u16 list"

text \<open>
  What the helpers answer: the clock at the \<open>n\<close>th call, the keys an LRU map gave up at the \<open>n\<close>th update (\<open>None\<close>: the update failed), and
  whether the ring buffer had room at the \<open>n\<close>th reservation.
\<close>

record xdp_env =
  ktime_get_ns :: "nat \<Rightarrow> u64"
  evicted :: "nat \<Rightarrow> bytes set option"
  ringbuf_room :: "nat \<Rightarrow> bool"

record xdp =
  x_blocklist :: "bytes \<rightharpoonup> u8"
  x_signal_rate :: "bytes \<rightharpoonup> signalRateEntry"
  x_scan_rate :: "bytes \<rightharpoonup> signalRateEntry"
  x_tunnel_rate :: "bytes \<rightharpoonup> signalRateEntry"
  x_tunnel_blocklist :: "bytes \<rightharpoonup> u8"
  x_port_scan :: "bytes \<rightharpoonup> port_scan_entry"
  x_blocklist_v6 :: "bytes \<rightharpoonup> u8"
  x_signal_rate_v6 :: "bytes \<rightharpoonup> signalRateEntry"
  x_scan_rate_v6 :: "bytes \<rightharpoonup> signalRateEntry"
  x_tunnel_rate_v6 :: "bytes \<rightharpoonup> signalRateEntry"
  x_tunnel_blocklist_v6 :: "bytes \<rightharpoonup> u8"
  x_port_scan_v6 :: "bytes \<rightharpoonup> port_scan_entry"
  x_events :: "rawSignalingEvent list"
  x_events_v6 :: "rawSignalingEventV6 list"
  x_ktimes :: nat
  x_updates :: nat
  x_reserves :: nat

subsection \<open>Helpers\<close>

definition ld8 :: "bytes \<Rightarrow> nat \<Rightarrow> u8 option" where
  "ld8 pkt p = (if p < length pkt then Some (pkt ! p) else None)"

definition ld_bytes :: "bytes \<Rightarrow> nat \<Rightarrow> nat \<Rightarrow> bytes option" where
  "ld_bytes pkt p n = (if p + n \<le> length pkt then Some (take n (drop p pkt)) else None)"

text \<open>A load of a big-endian field followed by \<open>bpf_ntohs\<close> or \<open>bpf_ntohl\<close>.\<close>

definition be_Uint16 :: "bytes \<Rightarrow> u16" where
  "be_Uint16 b = word_of_nat (le_nat (rev b))"

definition be_Uint32 :: "bytes \<Rightarrow> u32" where
  "be_Uint32 b = word_of_nat (le_nat (rev b))"

definition ld_be16 :: "bytes \<Rightarrow> nat \<Rightarrow> u16 option" where
  "ld_be16 pkt p = map_option be_Uint16 (ld_bytes pkt p 2)"

definition ld_be32 :: "bytes \<Rightarrow> nat \<Rightarrow> u32 option" where
  "ld_be32 pkt p = map_option be_Uint32 (ld_bytes pkt p 4)"

definition bpf_ktime_get_ns :: "xdp_env \<Rightarrow> xdp \<Rightarrow> u64 \<times> xdp" where
  "bpf_ktime_get_ns env s = (ktime_get_ns env (x_ktimes s), s\<lparr>x_ktimes := Suc (x_ktimes s)\<rparr>)"

definition bpf_map_update_elem :: "xdp_env \<Rightarrow> nat \<Rightarrow> bytes \<Rightarrow> 'v \<Rightarrow> (bytes \<rightharpoonup> 'v) \<Rightarrow> (bytes \<rightharpoonup> 'v)" where
  "bpf_map_update_elem env n key v t = (case evicted env n of None \<Rightarrow> t | Some gone \<Rightarrow> (t |` (- gone))(key \<mapsto> v))"

definition is_blocked :: "(bytes \<rightharpoonup> u8) \<Rightarrow> bytes \<Rightarrow> bool" where
  "is_blocked t key = (case t key of None \<Rightarrow> False | Some v \<Rightarrow> v \<noteq> 0)"

subsection \<open>Observations\<close>

definition emit_signaling_event ::
  "xdp_env \<Rightarrow> bytes \<Rightarrow> bytes \<Rightarrow> u16 \<Rightarrow> u16 \<Rightarrow> u8 \<Rightarrow> bool \<Rightarrow> u16 \<Rightarrow> u32 \<Rightarrow> u32 \<Rightarrow> xdp \<Rightarrow> xdp" where
  "emit_signaling_event env saddr daddr dest_port payload_size protocol malformed vlan_id teid tunnel_rate s =
     (let s1 = s\<lparr>x_reserves := Suc (x_reserves s)\<rparr> in
      if \<not> ringbuf_room env (x_reserves s) then s1
      else case bpf_ktime_get_ns env s1 of
        (t, s2) \<Rightarrow> s2\<lparr>x_events := x_events s2 @ [\<lparr>TimestampNs = t, Saddr = le_Uint32 saddr, Daddr = le_Uint32 daddr, r_DestPort = dest_port,
           r_PayloadSize = payload_size, r_Protocol = protocol, r_Malformed = (if malformed then 1 else 0), r_VlanID = vlan_id,
           r_TEID = teid, r_TunnelRate = tunnel_rate\<rparr>]\<rparr>)"

definition emit_signaling_event_v6 ::
  "xdp_env \<Rightarrow> bytes \<Rightarrow> bytes \<Rightarrow> u16 \<Rightarrow> u16 \<Rightarrow> u8 \<Rightarrow> bool \<Rightarrow> u16 \<Rightarrow> u32 \<Rightarrow> u32 \<Rightarrow> xdp \<Rightarrow> xdp" where
  "emit_signaling_event_v6 env saddr daddr dest_port payload_size protocol malformed vlan_id teid tunnel_rate s =
     (let s1 = s\<lparr>x_reserves := Suc (x_reserves s)\<rparr> in
      if \<not> ringbuf_room env (x_reserves s) then s1
      else case bpf_ktime_get_ns env s1 of
        (t, s2) \<Rightarrow> s2\<lparr>x_events_v6 := x_events_v6 s2 @ [\<lparr>v6_TimestampNs = t, v6_Saddr = saddr, v6_Daddr = daddr, v6_DestPort = dest_port,
           v6_PayloadSize = payload_size, v6_Protocol = protocol, v6_Malformed = (if malformed then 1 else 0), v6_VlanID = vlan_id,
           v6_TEID = teid, v6_TunnelRate = tunnel_rate\<rparr>]\<rparr>)"

definition is_signaling_port :: "u16 \<Rightarrow> bool" where
  "is_signaling_port dest_port_host = (dest_port_host = GTPU_PORT \<or> dest_port_host = SIP_PORT)"

subsection \<open>The GTP-U header\<close>

datatype gtpu_parse = GTPU_PARSE_TPDU | GTPU_PARSE_OTHER | GTPU_PARSE_MALFORMED

text \<open>The loop over the extension headers, with the iterations left; behind it, a chain that has not ended is malformed.\<close>

fun ext_walk :: "nat \<Rightarrow> bytes \<Rightarrow> nat \<Rightarrow> u8 \<Rightarrow> nat \<Rightarrow> gtpu_parse option" where
  "ext_walk i pkt gtp nxt off =
     (if i = 0 then Some (if nxt \<noteq> 0 then GTPU_PARSE_MALFORMED else GTPU_PARSE_TPDU)
      else if nxt = 0 then Some GTPU_PARSE_TPDU
      else if off > GTPU_MAX_HDR_BYTES - 4 then Some GTPU_PARSE_MALFORMED
      else if gtp + off + 1 > length pkt then Some GTPU_PARSE_MALFORMED
      else do {
        n \<leftarrow> ld8 pkt (gtp + off);
        let elen = unat n * 4 in
        if elen = 0 then Some GTPU_PARSE_MALFORMED
        else if off + elen > GTPU_MAX_HDR_BYTES then Some GTPU_PARSE_MALFORMED
        else if gtp + off + elen - 1 + 1 > length pkt then Some GTPU_PARSE_MALFORMED
        else do {
          nxt' \<leftarrow> ld8 pkt (gtp + off + elen - 1);
          ext_walk (i - 1) pkt gtp nxt' (off + elen) } })"

text \<open>The result with the value of \<open>*teid_out\<close>, whose old value is the argument.\<close>

definition parse_gtpu :: "bytes \<Rightarrow> nat \<Rightarrow> u32 \<Rightarrow> (gtpu_parse \<times> u32) option" where
  "parse_gtpu pkt gtp teid_out =
     (if gtp + 8 > length pkt then Some (GTPU_PARSE_MALFORMED, teid_out)
      else do {
        flags \<leftarrow> ld8 pkt gtp;
        if and flags 0xF0 \<noteq> 0x30 then Some (GTPU_PARSE_MALFORMED, teid_out)
        else do {
          msg_type \<leftarrow> ld8 pkt (gtp + 1);
          if msg_type \<in> path_management then Some (GTPU_PARSE_OTHER, teid_out)
          else if msg_type \<noteq> GTPU_MSG_TPDU then Some (GTPU_PARSE_MALFORMED, teid_out)
          else do {
            teid \<leftarrow> ld_be32 pkt (gtp + 4);
            if and flags 0x07 = 0 then Some (GTPU_PARSE_TPDU, teid)
            else if gtp + 12 > length pkt then Some (GTPU_PARSE_MALFORMED, teid)
            else do {
              nxt \<leftarrow> ld8 pkt (gtp + 11);
              r \<leftarrow> ext_walk GTPU_MAX_EXT_HEADERS pkt gtp nxt 12;
              Some (r, teid) } } } })"

subsection \<open>Rates\<close>

text \<open>
  What \<open>track_signal_rate\<close>, \<open>track_scan_rate\<close> and \<open>track_tunnel_rate\<close> do to their map: the count before this packet (0 in a new window), the table, and the number of
  updates made. The subtraction wraps.
\<close>

definition count_packet :: "xdp_env \<Rightarrow> nat \<Rightarrow> bytes \<Rightarrow> u64 \<Rightarrow> (bytes \<rightharpoonup> signalRateEntry) \<Rightarrow> u32 \<times> (bytes \<rightharpoonup> signalRateEntry) \<times> nat" where
  "count_packet env n key now t =
     (case t key of
        None \<Rightarrow> (0, bpf_map_update_elem env n key \<lparr>re_WindowStartNs = now, re_Count = 1\<rparr> t, Suc n)
      | Some entry \<Rightarrow>
          if now - re_WindowStartNs entry > SIGNALING_RATE_WINDOW_NS
          then (0, t(key \<mapsto> \<lparr>re_WindowStartNs = now, re_Count = 1\<rparr>), n)
          else (re_Count entry, t(key \<mapsto> entry\<lparr>re_Count := re_Count entry + 1\<rparr>), n))"

definition track_signal_rate :: "xdp_env \<Rightarrow> bytes \<Rightarrow> u64 \<Rightarrow> xdp \<Rightarrow> xdp" where
  "track_signal_rate env saddr now s =
     (case count_packet env (x_updates s) saddr now (x_signal_rate s) of
        (_, t, n) \<Rightarrow> s\<lparr>x_signal_rate := t, x_updates := n\<rparr>)"

definition track_scan_rate :: "xdp_env \<Rightarrow> bytes \<Rightarrow> u16 \<Rightarrow> u64 \<Rightarrow> xdp \<Rightarrow> u32 \<times> xdp" where
  "track_scan_rate env saddr dest_port now s =
     (case count_packet env (x_updates s) (scanRateKey_bytes (le_Uint32 saddr) dest_port) now (x_scan_rate s) of
        (prior, t, n) \<Rightarrow> (prior, s\<lparr>x_scan_rate := t, x_updates := n\<rparr>))"

definition track_tunnel_rate :: "xdp_env \<Rightarrow> bytes \<Rightarrow> u32 \<Rightarrow> u64 \<Rightarrow> xdp \<Rightarrow> u32 \<times> xdp" where
  "track_tunnel_rate env saddr teid now s =
     (case count_packet env (x_updates s) (tunnelRateKey_bytes \<lparr>tk_Saddr = le_Uint32 saddr, tk_TEID = teid\<rparr>) now (x_tunnel_rate s) of
        (prior, t, n) \<Rightarrow> (prior + 1, s\<lparr>x_tunnel_rate := t, x_updates := n\<rparr>))"

text \<open>What \<open>track_port_scan\<close> does to its map: whether to report, the table, and the number of updates made.\<close>

definition port_touched :: "xdp_env \<Rightarrow> nat \<Rightarrow> bytes \<Rightarrow> u16 \<Rightarrow> u64 \<Rightarrow> (bytes \<rightharpoonup> port_scan_entry) \<Rightarrow> bool \<times> (bytes \<rightharpoonup> port_scan_entry) \<times> nat" where
  "port_touched env n key dest_port now t =
     (let fresh = \<lparr>ps_window_start_ns = now, ps_distinct_count = 1, ps_emitted = False,
                   ps_ports = dest_port # replicate (MULTIPORT_SCAN_THRESHOLD - 1) 0\<rparr> in
      case t key of
        None \<Rightarrow> (False, bpf_map_update_elem env n key fresh t, Suc n)
      | Some entry \<Rightarrow>
          if now - ps_window_start_ns entry > MULTIPORT_SCAN_WINDOW_NS then (False, bpf_map_update_elem env n key fresh t, Suc n)
          else if ps_emitted entry then (False, t, n)
          else if dest_port \<in> set (take (ps_distinct_count entry) (ps_ports entry)) then (False, t, n)
          else if ps_distinct_count entry \<ge> MULTIPORT_SCAN_THRESHOLD then (False, t, n)
          else
            (let entry' = entry\<lparr>ps_ports := (ps_ports entry)[ps_distinct_count entry := dest_port], ps_distinct_count := Suc (ps_distinct_count entry)\<rparr> in
             if ps_distinct_count entry' = MULTIPORT_SCAN_THRESHOLD then (True, t(key \<mapsto> entry'\<lparr>ps_emitted := True\<rparr>), n)
             else (False, t(key \<mapsto> entry'), n)))"

definition track_port_scan :: "xdp_env \<Rightarrow> bytes \<Rightarrow> u16 \<Rightarrow> u64 \<Rightarrow> xdp \<Rightarrow> bool \<times> xdp" where
  "track_port_scan env saddr dest_port now s =
     (case port_touched env (x_updates s) saddr dest_port now (x_port_scan s) of
        (report, t, n) \<Rightarrow> (report, s\<lparr>x_port_scan := t, x_updates := n\<rparr>))"

definition track_signal_rate_v6 :: "xdp_env \<Rightarrow> bytes \<Rightarrow> u64 \<Rightarrow> xdp \<Rightarrow> xdp" where
  "track_signal_rate_v6 env saddr6 now s =
     (case count_packet env (x_updates s) saddr6 now (x_signal_rate_v6 s) of
        (_, t, n) \<Rightarrow> s\<lparr>x_signal_rate_v6 := t, x_updates := n\<rparr>)"

definition track_scan_rate_v6 :: "xdp_env \<Rightarrow> bytes \<Rightarrow> u16 \<Rightarrow> u64 \<Rightarrow> xdp \<Rightarrow> u32 \<times> xdp" where
  "track_scan_rate_v6 env saddr6 dest_port now s =
     (case count_packet env (x_updates s) (scanRateKeyV6_bytes saddr6 dest_port) now (x_scan_rate_v6 s) of
        (prior, t, n) \<Rightarrow> (prior, s\<lparr>x_scan_rate_v6 := t, x_updates := n\<rparr>))"

definition track_tunnel_rate_v6 :: "xdp_env \<Rightarrow> bytes \<Rightarrow> u32 \<Rightarrow> u64 \<Rightarrow> xdp \<Rightarrow> u32 \<times> xdp" where
  "track_tunnel_rate_v6 env saddr6 teid now s =
     (case count_packet env (x_updates s) (tunnelRateKeyV6_bytes \<lparr>tk6_Saddr = saddr6, tk6_TEID = teid\<rparr>) now (x_tunnel_rate_v6 s) of
        (prior, t, n) \<Rightarrow> (prior + 1, s\<lparr>x_tunnel_rate_v6 := t, x_updates := n\<rparr>))"

definition track_port_scan_v6 :: "xdp_env \<Rightarrow> bytes \<Rightarrow> u16 \<Rightarrow> u64 \<Rightarrow> xdp \<Rightarrow> bool \<times> xdp" where
  "track_port_scan_v6 env saddr6 dest_port now s =
     (case port_touched env (x_updates s) saddr6 dest_port now (x_port_scan_v6 s) of
        (report, t, n) \<Rightarrow> (report, s\<lparr>x_port_scan_v6 := t, x_updates := n\<rparr>))"

subsection \<open>The program\<close>

text \<open>A packet for a signaling port: counted, and for GTP-U parsed, dropped if its tunnel is blocked, and counted per tunnel; then reported.\<close>

definition signaling_v6 :: "xdp_env \<Rightarrow> bytes \<Rightarrow> nat \<Rightarrow> bytes \<Rightarrow> bytes \<Rightarrow> u16 \<Rightarrow> u16 \<Rightarrow> u16 \<Rightarrow> xdp \<Rightarrow> (xdp_action \<times> xdp) option" where
  "signaling_v6 env pkt gtp saddr6 daddr6 dest_port6 payload_size6 vlan_id s =
     (case bpf_ktime_get_ns env s of
        (now6, s0) \<Rightarrow>
          (let s1 = track_signal_rate_v6 env saddr6 now6 s0 in
           if dest_port6 = GTPU_PORT then do {
             (rc6, teid6) \<leftarrow> parse_gtpu pkt gtp 0;
             let malformed6 = (rc6 = GTPU_PARSE_MALFORMED) in
             if teid6 \<noteq> 0 then
               if is_blocked (x_tunnel_blocklist_v6 s1) (tunnelRateKeyV6_bytes \<lparr>tk6_Saddr = saddr6, tk6_TEID = teid6\<rparr>) then Some (XDP_DROP, s1)
               else (case track_tunnel_rate_v6 env saddr6 teid6 now6 s1 of
                       (tunnel_rate6, s2) \<Rightarrow>
                         Some (XDP_PASS, emit_signaling_event_v6 env saddr6 daddr6 dest_port6 payload_size6 SignalProtoGTPU malformed6 vlan_id teid6 tunnel_rate6 s2))
             else Some (XDP_PASS, emit_signaling_event_v6 env saddr6 daddr6 dest_port6 payload_size6 SignalProtoGTPU malformed6 vlan_id 0 0 s1) }
           else Some (XDP_PASS, emit_signaling_event_v6 env saddr6 daddr6 dest_port6 payload_size6 SignalProtoSIP False vlan_id 0 0 s1)))"

definition off_port_v6 :: "xdp_env \<Rightarrow> bytes \<Rightarrow> bytes \<Rightarrow> u16 \<Rightarrow> u16 \<Rightarrow> u16 \<Rightarrow> xdp \<Rightarrow> xdp" where
  "off_port_v6 env saddr6 daddr6 dest_port6 payload_size6 vlan_id s =
     (case bpf_ktime_get_ns env s of
        (now6, s0) \<Rightarrow>
          (case track_scan_rate_v6 env saddr6 dest_port6 now6 s0 of
             (prior6, s1) \<Rightarrow>
               (let s2 = (if prior6 + 1 = SCAN_EMIT_THRESHOLD
                          then emit_signaling_event_v6 env saddr6 daddr6 dest_port6 payload_size6 SignalProtoUnknown False vlan_id 0 0 s1 else s1) in
                case track_port_scan_v6 env saddr6 dest_port6 now6 s2 of
                  (report, s3) \<Rightarrow>
                    if report then emit_signaling_event_v6 env saddr6 daddr6 dest_port6 (of_nat MULTIPORT_SCAN_THRESHOLD) SignalProtoPortScan False vlan_id 0 0 s3
                    else s3)))"

definition filter_ipv6 :: "xdp_env \<Rightarrow> bytes \<Rightarrow> nat \<Rightarrow> u16 \<Rightarrow> xdp \<Rightarrow> (xdp_action \<times> xdp) option" where
  "filter_ipv6 env pkt l3 vlan_id s =
     (if l3 + 40 > length pkt then Some (XDP_PASS, s)
      else do {
        saddr6 \<leftarrow> ld_bytes pkt (l3 + 8) 16;
        if is_blocked (x_blocklist_v6 s) saddr6 then Some (XDP_DROP, s)
        else do {
          nexthdr \<leftarrow> ld8 pkt (l3 + 6);
          if nexthdr \<noteq> IPPROTO_UDP then Some (XDP_PASS, s)
          else do {
            let udph6 = l3 + 40 in
            if udph6 + 8 > length pkt then do {
              daddr6 \<leftarrow> ld_bytes pkt (l3 + 24) 16;
              Some (XDP_PASS, emit_signaling_event_v6 env saddr6 daddr6 0 0 SignalProtoUnknown True vlan_id 0 0 s) }
            else do {
              dest_port6 \<leftarrow> ld_be16 pkt (udph6 + 2);
              daddr6 \<leftarrow> ld_bytes pkt (l3 + 24) 16;
              let payload_size6 = of_nat (length pkt - (udph6 + 8)) in
              if is_signaling_port dest_port6 then signaling_v6 env pkt (udph6 + 8) saddr6 daddr6 dest_port6 payload_size6 vlan_id s
              else Some (XDP_PASS, off_port_v6 env saddr6 daddr6 dest_port6 payload_size6 vlan_id s) } } } })"

definition signaling_v4 :: "xdp_env \<Rightarrow> bytes \<Rightarrow> nat \<Rightarrow> bytes \<Rightarrow> bytes \<Rightarrow> u16 \<Rightarrow> u16 \<Rightarrow> u16 \<Rightarrow> xdp \<Rightarrow> (xdp_action \<times> xdp) option" where
  "signaling_v4 env pkt gtp saddr daddr dest_port payload_size vlan_id s =
     (case bpf_ktime_get_ns env s of
        (now, s0) \<Rightarrow>
          (let s1 = track_signal_rate env saddr now s0 in
           if dest_port = GTPU_PORT then do {
             (rc, teid) \<leftarrow> parse_gtpu pkt gtp 0;
             let malformed = (rc = GTPU_PARSE_MALFORMED) in
             if teid \<noteq> 0 then
               if is_blocked (x_tunnel_blocklist s1) (tunnelRateKey_bytes \<lparr>tk_Saddr = le_Uint32 saddr, tk_TEID = teid\<rparr>) then Some (XDP_DROP, s1)
               else (case track_tunnel_rate env saddr teid now s1 of
                       (tunnel_rate, s2) \<Rightarrow>
                         Some (XDP_PASS, emit_signaling_event env saddr daddr dest_port payload_size SignalProtoGTPU malformed vlan_id teid tunnel_rate s2))
             else Some (XDP_PASS, emit_signaling_event env saddr daddr dest_port payload_size SignalProtoGTPU malformed vlan_id 0 0 s1) }
           else Some (XDP_PASS, emit_signaling_event env saddr daddr dest_port payload_size SignalProtoSIP False vlan_id 0 0 s1)))"

definition off_port_v4 :: "xdp_env \<Rightarrow> bytes \<Rightarrow> bytes \<Rightarrow> u16 \<Rightarrow> u16 \<Rightarrow> u16 \<Rightarrow> xdp \<Rightarrow> xdp" where
  "off_port_v4 env saddr daddr dest_port payload_size vlan_id s =
     (case bpf_ktime_get_ns env s of
        (now, s0) \<Rightarrow>
          (case track_scan_rate env saddr dest_port now s0 of
             (prior_count, s1) \<Rightarrow>
               (let s2 = (if prior_count + 1 = SCAN_EMIT_THRESHOLD
                          then emit_signaling_event env saddr daddr dest_port payload_size SignalProtoUnknown False vlan_id 0 0 s1 else s1) in
                case track_port_scan env saddr dest_port now s2 of
                  (report, s3) \<Rightarrow>
                    if report then emit_signaling_event env saddr daddr dest_port (of_nat MULTIPORT_SCAN_THRESHOLD) SignalProtoPortScan False vlan_id 0 0 s3
                    else s3)))"

definition filter_ipv4 :: "xdp_env \<Rightarrow> bytes \<Rightarrow> nat \<Rightarrow> u16 \<Rightarrow> xdp \<Rightarrow> (xdp_action \<times> xdp) option" where
  "filter_ipv4 env pkt l3 vlan_id s =
     (if l3 + 20 > length pkt then Some (XDP_PASS, s)
      else do {
        ver_ihl \<leftarrow> ld8 pkt l3;
        let ihl = unat (and ver_ihl 0x0F) in
        if ihl < 5 then Some (XDP_PASS, s)
        else do {
          saddr \<leftarrow> ld_bytes pkt (l3 + 12) 4;
          if is_blocked (x_blocklist s) saddr then Some (XDP_DROP, s)
          else do {
            protocol \<leftarrow> ld8 pkt (l3 + 9);
            if protocol \<noteq> IPPROTO_UDP then Some (XDP_PASS, s)
            else do {
              frag_off \<leftarrow> ld_be16 pkt (l3 + 6);
              if and frag_off 0x1FFF \<noteq> 0 then Some (XDP_PASS, s)
              else do {
                daddr \<leftarrow> ld_bytes pkt (l3 + 16) 4;
                let udph = l3 + ihl * 4 in
                if udph + 8 > length pkt then Some (XDP_PASS, emit_signaling_event env saddr daddr 0 0 SignalProtoUnknown True vlan_id 0 0 s)
                else do {
                  dest_port \<leftarrow> ld_be16 pkt (udph + 2);
                  let payload_size = of_nat (length pkt - (udph + 8)) in
                  if is_signaling_port dest_port then signaling_v4 env pkt (udph + 8) saddr daddr dest_port payload_size vlan_id s
                  else Some (XDP_PASS, off_port_v4 env saddr daddr dest_port payload_size vlan_id s) } } } } } })"

definition filter_l3 :: "xdp_env \<Rightarrow> bytes \<Rightarrow> u16 \<Rightarrow> nat \<Rightarrow> u16 \<Rightarrow> xdp \<Rightarrow> (xdp_action \<times> xdp) option" where
  "filter_l3 env pkt h_proto l3 vlan_id s =
     (if h_proto = ETH_P_IPV6 then filter_ipv6 env pkt l3 vlan_id s
      else if h_proto \<noteq> ETH_P_IP then Some (XDP_PASS, s)
      else filter_ipv4 env pkt l3 vlan_id s)"

definition xdp_packet_filter :: "xdp_env \<Rightarrow> bytes \<Rightarrow> xdp \<Rightarrow> (xdp_action \<times> xdp) option" where
  "xdp_packet_filter env pkt s =
     (if 14 > length pkt then Some (XDP_PASS, s)
      else do {
        h_proto \<leftarrow> ld_be16 pkt 12;
        if h_proto = ETH_P_8021Q then
          if 14 + 4 > length pkt then Some (XDP_PASS, s)
          else do {
            tci \<leftarrow> ld_be16 pkt 14;
            encapsulated \<leftarrow> ld_be16 pkt 16;
            filter_l3 env pkt encapsulated 18 (and tci 0x0FFF) s }
        else filter_l3 env pkt h_proto 14 0 s })"

subsection \<open>Loads stay inside the packet\<close>

declare ext_walk.simps [simp del]

lemma loads [simp]:
  "p < length pkt \<Longrightarrow> ld8 pkt p = Some (pkt ! p)"
  "p + n \<le> length pkt \<Longrightarrow> ld_bytes pkt p n = Some (take n (drop p pkt))"
  "p + 2 \<le> length pkt \<Longrightarrow> ld_be16 pkt p = Some (be_Uint16 (take 2 (drop p pkt)))"
  "p + 4 \<le> length pkt \<Longrightarrow> ld_be32 pkt p = Some (be_Uint32 (take 4 (drop p pkt)))"
  by (simp_all add: ld8_def ld_bytes_def ld_be16_def ld_be32_def)

lemma ext_walk_total: "\<exists>r. ext_walk i pkt gtp nxt off = Some r"
proof (induction i pkt gtp nxt off rule: ext_walk.induct)
  case (1 i pkt gtp nxt off)
  show ?case
  proof (cases "i = 0 \<or> nxt = 0 \<or> off > GTPU_MAX_HDR_BYTES - 4 \<or> gtp + off + 1 > length pkt")
    case False
    then have l: "ld8 pkt (gtp + off) = Some (pkt ! (gtp + off))" by simp
    show ?thesis
      using False 1 [OF _ _ _ _ l refl] by (subst ext_walk.simps) (auto simp: l Let_def)
  qed (auto simp: ext_walk.simps)
qed

text \<open>The TEID of a T-PDU, as the framing puts it; \<open>0\<close> where there is none.\<close>

definition gtpu_teid :: "bytes \<Rightarrow> u32" where
  "gtpu_teid p = (if 8 \<le> length p \<and> and (p ! 0) 0xF0 = 0x30 \<and> p ! 1 = 0xFF then be_Uint32 (take 4 (drop 4 p)) else 0)"

lemma parse_gtpu_total: "\<exists>r. parse_gtpu pkt gtp 0 = Some (r, gtpu_teid (drop gtp pkt))"
proof (cases "gtp + 8 \<le> length pkt")
  case True
  then have "drop gtp pkt ! 0 = pkt ! gtp" "drop gtp pkt ! 1 = pkt ! Suc gtp" "drop 4 (drop gtp pkt) = drop (gtp + 4) pkt"
    by (simp_all add: add.commute)
  with True show ?thesis
    using ext_walk_total [of GTPU_MAX_EXT_HEADERS pkt gtp "pkt ! (gtp + 11)" 12]
    by (auto simp: parse_gtpu_def gtpu_teid_def GTPU_MSG_TPDU_def path_management_def)
qed (auto simp: parse_gtpu_def gtpu_teid_def)

subsection \<open>What a packet is\<close>

text \<open>
  The packet cut into layers, as the protocols define them: the EtherType behind at most one VLAN tag with the datagram, the source address, and the UDP part.
\<close>

definition datagram :: "bytes \<Rightarrow> (u16 \<times> bytes) option" where
  "datagram pkt =
     (let ethertype = (\<lambda>p. be_Uint16 (take 2 (drop p pkt))) in
      if length pkt < 14 then None
      else if ethertype 12 \<noteq> ETH_P_8021Q then Some (ethertype 12, drop 14 pkt)
      else if length pkt < 18 then None else Some (ethertype 16, drop 18 pkt))"

datatype udp_view = NoUdp | ShortUdp | Udp u16 bytes

definition udp_at :: "nat \<Rightarrow> bytes \<Rightarrow> udp_view" where
  "udp_at h d = (if length d < h + 8 then ShortUdp else Udp (be_Uint16 (take 2 (drop (h + 2) d))) (drop (h + 8) d))"

definition ihl_of :: "bytes \<Rightarrow> nat" where
  "ihl_of d = unat (and (d ! 0) 0x0F)"

definition source4 :: "bytes \<Rightarrow> ip option" where
  "source4 d = (if 20 \<le> length d \<and> 5 \<le> ihl_of d then Some (take 4 (drop 12 d)) else None)"

definition udp4 :: "bytes \<Rightarrow> udp_view" where
  "udp4 d = (if d ! 9 = IPPROTO_UDP \<and> and (be_Uint16 (take 2 (drop 6 d))) 0x1FFF = 0 then udp_at (ihl_of d * 4) d else NoUdp)"

definition source6 :: "bytes \<Rightarrow> ip option" where
  "source6 d = (if 40 \<le> length d then Some (take 16 (drop 8 d)) else None)"

definition udp6 :: "bytes \<Rightarrow> udp_view" where
  "udp6 d = (if d ! 6 = IPPROTO_UDP then udp_at 40 d else NoUdp)"

definition packet_source :: "bytes \<Rightarrow> ip option" where
  "packet_source pkt =
     (case datagram pkt of
        None \<Rightarrow> None
      | Some (et, d) \<Rightarrow> if et = ETH_P_IPV6 then source6 d else if et = ETH_P_IP then source4 d else None)"

definition udp_teid :: "udp_view \<Rightarrow> u32" where
  "udp_teid u = (case u of Udp port p \<Rightarrow> if port = GTPU_PORT then gtpu_teid p else 0 | _ \<Rightarrow> 0)"

text \<open>The TEID of a GTP-U user-plane packet, \<open>0\<close> for every other packet.\<close>

definition packet_teid :: "bytes \<Rightarrow> u32" where
  "packet_teid pkt =
     (case datagram pkt of
        None \<Rightarrow> 0
      | Some (et, d) \<Rightarrow>
          if et = ETH_P_IPV6 \<and> source6 d \<noteq> None then udp_teid (udp6 d)
          else if et = ETH_P_IP \<and> source4 d \<noteq> None then udp_teid (udp4 d) else 0)"

subsection \<open>The program on the layers\<close>

definition report_v4 :: "xdp_env \<Rightarrow> bytes \<Rightarrow> nat \<Rightarrow> bytes \<Rightarrow> bytes \<Rightarrow> u16 \<Rightarrow> udp_view \<Rightarrow> xdp \<Rightarrow> (xdp_action \<times> xdp) option" where
  "report_v4 env pkt gtp saddr daddr vlan_id u s =
     (case u of
        NoUdp \<Rightarrow> Some (XDP_PASS, s)
      | ShortUdp \<Rightarrow> Some (XDP_PASS, emit_signaling_event env saddr daddr 0 0 SignalProtoUnknown True vlan_id 0 0 s)
      | Udp port p \<Rightarrow>
          if is_signaling_port port then signaling_v4 env pkt gtp saddr daddr port (of_nat (length p)) vlan_id s
          else Some (XDP_PASS, off_port_v4 env saddr daddr port (of_nat (length p)) vlan_id s))"

definition report_v6 :: "xdp_env \<Rightarrow> bytes \<Rightarrow> nat \<Rightarrow> bytes \<Rightarrow> bytes \<Rightarrow> u16 \<Rightarrow> udp_view \<Rightarrow> xdp \<Rightarrow> (xdp_action \<times> xdp) option" where
  "report_v6 env pkt gtp saddr daddr vlan_id u s =
     (case u of
        NoUdp \<Rightarrow> Some (XDP_PASS, s)
      | ShortUdp \<Rightarrow> Some (XDP_PASS, emit_signaling_event_v6 env saddr daddr 0 0 SignalProtoUnknown True vlan_id 0 0 s)
      | Udp port p \<Rightarrow>
          if is_signaling_port port then signaling_v6 env pkt gtp saddr daddr port (of_nat (length p)) vlan_id s
          else Some (XDP_PASS, off_port_v6 env saddr daddr port (of_nat (length p)) vlan_id s))"

lemma drop_nth: "l < length xs \<Longrightarrow> drop l xs ! i = xs ! (l + i)"
  by (cases "l + i < length xs") (simp_all add: add.commute)

lemma filter_ipv4_layers:
  "filter_ipv4 env pkt l3 v s =
     (let d = drop l3 pkt in
      case source4 d of
        None \<Rightarrow> Some (XDP_PASS, s)
      | Some src \<Rightarrow>
          if is_blocked (x_blocklist s) src then Some (XDP_DROP, s)
          else report_v4 env pkt (l3 + ihl_of d * 4 + 8) src (take 4 (drop 16 d)) v (udp4 d) s)"
proof (cases "l3 + 20 \<le> length pkt")
  case True
  then have "l3 < length pkt" by simp
  note n = drop_nth [OF this]
  have "pkt ! l3 = drop l3 pkt ! 0" using n [of 0] by simp
  then have i: "unat (and (pkt ! l3) 0x0F) = ihl_of (drop l3 pkt)" by (simp add: ihl_of_def)
  have "l3 + 20 \<le> length pkt" by (rule True)
  then show ?thesis
    using n [of 9]
    by (auto simp: filter_ipv4_def i source4_def udp4_def udp_at_def report_v4_def Let_def add.commute add.left_commute diff_diff_left split: if_splits)
qed (auto simp: filter_ipv4_def source4_def Let_def)

lemma filter_ipv6_layers:
  "filter_ipv6 env pkt l3 v s =
     (let d = drop l3 pkt in
      case source6 d of
        None \<Rightarrow> Some (XDP_PASS, s)
      | Some src \<Rightarrow>
          if is_blocked (x_blocklist_v6 s) src then Some (XDP_DROP, s)
          else report_v6 env pkt (l3 + 48) src (take 16 (drop 24 d)) v (udp6 d) s)"
proof (cases "l3 + 40 \<le> length pkt")
  case True
  then have "l3 < length pkt" by simp
  note n = drop_nth [OF this]
  show ?thesis
    using True n [of 6]
    by (auto simp: filter_ipv6_def source6_def udp6_def udp_at_def report_v6_def Let_def add.commute add.left_commute diff_diff_left split: if_splits)
qed (auto simp: filter_ipv6_def source6_def Let_def)

lemma xdp_layers:
  "\<exists>l3 v. xdp_packet_filter env pkt s =
     (case datagram pkt of None \<Rightarrow> Some (XDP_PASS, s) | Some (et, d) \<Rightarrow> filter_l3 env pkt et l3 v s) \<and>
     (\<forall>et d. datagram pkt = Some (et, d) \<longrightarrow> d = drop l3 pkt)"
  by (auto simp: xdp_packet_filter_def datagram_def Let_def)

text \<open>No operation writes a blocklist, and only the tracking operations write their table.\<close>

definition same_blocklists :: "xdp \<Rightarrow> xdp \<Rightarrow> bool" where
  "same_blocklists s s' \<longleftrightarrow> x_blocklist s' = x_blocklist s \<and> x_blocklist_v6 s' = x_blocklist_v6 s \<and>
     x_tunnel_blocklist s' = x_tunnel_blocklist s \<and> x_tunnel_blocklist_v6 s' = x_tunnel_blocklist_v6 s"

lemmas emit_defs = emit_signaling_event_def emit_signaling_event_v6_def bpf_ktime_get_ns_def
lemmas track_defs = track_signal_rate_def track_scan_rate_def track_tunnel_rate_def track_port_scan_def
  track_signal_rate_v6_def track_scan_rate_v6_def track_tunnel_rate_v6_def track_port_scan_v6_def

text \<open>
  What one packet leaves in the ring buffers: at most two records, all with its source address and its TEID, none if it is dropped, exactly one if it
  is a user-plane packet that passes while there is room.
\<close>

definition reports :: "xdp_env \<Rightarrow> ip option \<Rightarrow> u32 \<Rightarrow> xdp \<Rightarrow> xdp_action \<Rightarrow> xdp \<Rightarrow> bool" where
  "reports env src teid s act s' \<longleftrightarrow>
     (\<exists>new new6. x_events s' = x_events s @ new \<and> x_events_v6 s' = x_events_v6 s @ new6 \<and> length new + length new6 \<le> 2 \<and>
        (\<forall>r \<in> set new. src = Some (put_u32 (Saddr r)) \<and> r_TEID r = teid) \<and> (\<forall>r \<in> set new6. src = Some (v6_Saddr r) \<and> v6_TEID r = teid) \<and>
        (act = XDP_DROP \<longrightarrow> new = [] \<and> new6 = []) \<and>
        (act = XDP_PASS \<and> teid \<noteq> 0 \<longrightarrow> length new + length new6 = (if ringbuf_room env (x_reserves s) then 1 else 0)))"

text \<open>The same for a part of the program, with the number of records it may leave.\<close>

definition emits :: "nat \<Rightarrow> ip \<Rightarrow> u32 \<Rightarrow> xdp \<Rightarrow> xdp \<Rightarrow> bool" where
  "emits n src teid s s' \<longleftrightarrow> same_blocklists s s' \<and>
     (\<exists>new new6. x_events s' = x_events s @ new \<and> x_events_v6 s' = x_events_v6 s @ new6 \<and> length new + length new6 \<le> n \<and>
        (\<forall>r \<in> set new. src = put_u32 (Saddr r) \<and> r_TEID r = teid) \<and> (\<forall>r \<in> set new6. src = v6_Saddr r \<and> v6_TEID r = teid))"

lemma emits_trans:
  assumes "emits m src teid s s1" "emits n src teid s1 s2"
  shows "emits (m + n) src teid s s2"
proof -
  obtain n4 n6 m4 m6 where e: "x_events s1 = x_events s @ n4" "x_events_v6 s1 = x_events_v6 s @ n6" "x_events s2 = x_events s1 @ m4"
      "x_events_v6 s2 = x_events_v6 s1 @ m6" "length n4 + length n6 \<le> m" "length m4 + length m6 \<le> n"
      "\<forall>r \<in> set n4 \<union> set m4. src = put_u32 (Saddr r) \<and> r_TEID r = teid" "\<forall>r \<in> set n6 \<union> set m6. src = v6_Saddr r \<and> v6_TEID r = teid"
    using assms unfolding emits_def by (metis Un_iff)
  moreover have "same_blocklists s s2" using assms by (simp add: emits_def same_blocklists_def)
  ultimately show ?thesis
    unfolding emits_def by (intro conjI exI [of _ "n4 @ m4"] exI [of _ "n6 @ m6"]) auto
qed

lemma emits_track:
  "track_scan_rate env a port now s = (c, s1) \<Longrightarrow> emits 0 src teid s s1"
  "track_port_scan env a port now s = (b, s1) \<Longrightarrow> emits 0 src teid s s1"
  "track_scan_rate_v6 env a port now s = (c, s1) \<Longrightarrow> emits 0 src teid s s1"
  "track_port_scan_v6 env a port now s = (b, s1) \<Longrightarrow> emits 0 src teid s s1"
  by (auto simp: track_defs emits_def same_blocklists_def split: prod.splits)

lemma emits_event:
  "length src = 4 \<Longrightarrow> emits 1 src teid s (emit_signaling_event env src dst port psize proto mal v teid rate s)"
  "emits 1 src teid s (emit_signaling_event_v6 env src dst port psize proto mal v teid rate s)"
  by (simp_all add: emit_defs emits_def same_blocklists_def put_u32_le_Uint32 Let_def)

lemma emits_ktime: "bpf_ktime_get_ns env s = (now, s1) \<Longrightarrow> emits 0 src teid s s1"
  by (auto simp: bpf_ktime_get_ns_def emits_def same_blocklists_def)

lemma emits_refl: "emits 0 src teid s s"
  by (simp add: emits_def same_blocklists_def)

lemma emits_mono: "emits m src teid s s' \<Longrightarrow> m \<le> n \<Longrightarrow> emits n src teid s s'"
  unfolding emits_def by (meson order_trans)

lemma reports_nothing: "teid = 0 \<or> act = XDP_DROP \<Longrightarrow> reports env src teid s act s"
  by (auto simp: reports_def)

lemma reports_emits: "emits 2 src 0 s s' \<Longrightarrow> reports env (Some src) 0 s XDP_PASS s'"
  by (simp add: emits_def reports_def)

lemma off_port_effect:
  "length src = 4 \<Longrightarrow> emits 2 src 0 s (off_port_v4 env src dst port psize v s)"
  "emits 2 src 0 s (off_port_v6 env src dst port psize v s)"
proof -
  let ?e = "\<lambda>c s. if c then emit_signaling_event env src dst port psize SignalProtoUnknown False v 0 0 s else s"
  let ?e6 = "\<lambda>c s. if c then emit_signaling_event_v6 env src dst port psize SignalProtoUnknown False v 0 0 s else s"
  obtain now s0 where k: "bpf_ktime_get_ns env s = (now, s0)" by fastforce
  {
    assume l: "length src = 4"
    obtain prior s1 where t: "track_scan_rate env src port now s0 = (prior, s1)" by fastforce
    define s2 where "s2 = ?e (prior + 1 = SCAN_EMIT_THRESHOLD) s1"
    obtain rep s3 where q: "track_port_scan env src port now s2 = (rep, s3)" by fastforce
    have "emits 1 src 0 s1 s2" using emits_event(1) [OF l, of 0 s1] emits_mono [OF emits_refl, of 1] by (auto simp: s2_def)
    then have "emits 1 src 0 s s3"
      using emits_trans [OF emits_trans [OF emits_trans [OF emits_ktime [OF k] emits_track(1) [OF t]]] emits_track(2) [OF q]] by simp
    then show "emits 2 src 0 s (off_port_v4 env src dst port psize v s)"
      using emits_trans [OF _ emits_event(1) [OF l], of 1 0 s s3] emits_mono [of 1 src 0 s s3 2]
      by (simp add: off_port_v4_def k t q s2_def [symmetric] Let_def numeral_2_eq_2)
  next
    obtain prior s1 where t: "track_scan_rate_v6 env src port now s0 = (prior, s1)" by fastforce
    define s2 where "s2 = ?e6 (prior + 1 = SCAN_EMIT_THRESHOLD) s1"
    obtain rep s3 where q: "track_port_scan_v6 env src port now s2 = (rep, s3)" by fastforce
    have "emits 1 src 0 s1 s2" using emits_event(2) [of src 0 s1] emits_mono [OF emits_refl, of 1] by (auto simp: s2_def)
    then have "emits 1 src 0 s s3"
      using emits_trans [OF emits_trans [OF emits_trans [OF emits_ktime [OF k] emits_track(3) [OF t]]] emits_track(4) [OF q]] by simp
    then show "emits 2 src 0 s (off_port_v6 env src dst port psize v s)"
      using emits_trans [OF _ emits_event(2), of 1 src 0 s s3] emits_mono [of 1 src 0 s s3 2]
      by (simp add: off_port_v6_def k t q s2_def [symmetric] Let_def numeral_2_eq_2)
  }
qed

text \<open>Between the clock and the report, a user-plane packet is only counted.\<close>

definition counted_only :: "xdp \<Rightarrow> xdp \<Rightarrow> bool" where
  "counted_only s s' \<longleftrightarrow> same_blocklists s s' \<and> x_events s' = x_events s \<and> x_events_v6 s' = x_events_v6 s \<and> x_reserves s' = x_reserves s"

lemma counted_tracks:
  "counted_only s (track_signal_rate env a now (s\<lparr>x_ktimes := k\<rparr>))"
  "counted_only s (snd (track_tunnel_rate env a teid now (track_signal_rate env a now (s\<lparr>x_ktimes := k\<rparr>))))"
  "counted_only s (track_signal_rate_v6 env a now (s\<lparr>x_ktimes := k\<rparr>))"
  "counted_only s (snd (track_tunnel_rate_v6 env a teid now (track_signal_rate_v6 env a now (s\<lparr>x_ktimes := k\<rparr>))))"
  by (auto simp: track_defs counted_only_def same_blocklists_def split: prod.splits)

lemma reports_counted:
  assumes "counted_only s s1"
  shows "length src = 4 \<Longrightarrow> reports env (Some src) teid s XDP_PASS (emit_signaling_event env src dst port psize proto mal v teid rate s1)"
    and "reports env (Some src) teid s XDP_PASS (emit_signaling_event_v6 env src dst port psize proto mal v teid rate s1)"
    and "reports env so teid s XDP_DROP s1"
    and "same_blocklists s (emit_signaling_event env src dst port psize proto mal v teid rate s1)"
    and "same_blocklists s (emit_signaling_event_v6 env src dst port psize proto mal v teid rate s1)"
    and "same_blocklists s s1"
  using assms by (auto simp: emit_defs counted_only_def reports_def same_blocklists_def put_u32_le_Uint32 Let_def)

lemma signaling_v4_effect:
  assumes "length src = 4"
  defines "teid port pkt gtp \<equiv> if port = GTPU_PORT then gtpu_teid (drop gtp pkt) else 0"
  shows "\<exists>act s'. signaling_v4 env pkt gtp src dst port psize v s = Some (act, s') \<and> same_blocklists s s' \<and>
    (act = XDP_DROP \<longleftrightarrow> teid port pkt gtp \<noteq> 0 \<and>
       is_blocked (x_tunnel_blocklist s) (tunnelRateKey_bytes \<lparr>tk_Saddr = le_Uint32 src, tk_TEID = teid port pkt gtp\<rparr>)) \<and>
    reports env (Some src) (teid port pkt gtp) s act s'"
proof -
  obtain r where p: "parse_gtpu pkt gtp 0 = Some (r, gtpu_teid (drop gtp pkt))" using parse_gtpu_total by blast
  define now where "now = ktime_get_ns env (x_ktimes s)"
  define s1 where "s1 = track_signal_rate env src now (s\<lparr>x_ktimes := Suc (x_ktimes s)\<rparr>)"
  obtain c s2 where c: "track_tunnel_rate env src (gtpu_teid (drop gtp pkt)) now s1 = (c, s2)" by fastforce
  have "counted_only s s1" "counted_only s s2"
    using counted_tracks(1) [where s = s and env = env and a = src and now = now and k = "Suc (x_ktimes s)", folded s1_def]
      counted_tracks(2) [where s = s and env = env and a = src and now = now and k = "Suc (x_ktimes s)" and teid = "gtpu_teid (drop gtp pkt)", folded s1_def, unfolded c]
    by simp_all
  note r = reports_counted [OF this(1)] reports_counted [OF this(2)]
  have b: "x_tunnel_blocklist s1 = x_tunnel_blocklist s" using r(6) by (simp add: same_blocklists_def)
  show ?thesis
    using r assms(1) p c
    by (simp add: signaling_v4_def bpf_ktime_get_ns_def now_def [symmetric] s1_def [symmetric] b teid_def Let_def)
qed

lemma signaling_v6_effect:
  defines "teid port pkt gtp \<equiv> if port = GTPU_PORT then gtpu_teid (drop gtp pkt) else 0"
  shows "\<exists>act s'. signaling_v6 env pkt gtp src dst port psize v s = Some (act, s') \<and> same_blocklists s s' \<and>
    (act = XDP_DROP \<longleftrightarrow> teid port pkt gtp \<noteq> 0 \<and>
       is_blocked (x_tunnel_blocklist_v6 s) (tunnelRateKeyV6_bytes \<lparr>tk6_Saddr = src, tk6_TEID = teid port pkt gtp\<rparr>)) \<and>
    reports env (Some src) (teid port pkt gtp) s act s'"
proof -
  obtain r where p: "parse_gtpu pkt gtp 0 = Some (r, gtpu_teid (drop gtp pkt))" using parse_gtpu_total by blast
  define now where "now = ktime_get_ns env (x_ktimes s)"
  define s1 where "s1 = track_signal_rate_v6 env src now (s\<lparr>x_ktimes := Suc (x_ktimes s)\<rparr>)"
  obtain c s2 where c: "track_tunnel_rate_v6 env src (gtpu_teid (drop gtp pkt)) now s1 = (c, s2)" by fastforce
  have "counted_only s s1" "counted_only s s2"
    using counted_tracks(3) [where s = s and env = env and a = src and now = now and k = "Suc (x_ktimes s)", folded s1_def]
      counted_tracks(4) [where s = s and env = env and a = src and now = now and k = "Suc (x_ktimes s)" and teid = "gtpu_teid (drop gtp pkt)", folded s1_def, unfolded c]
    by simp_all
  note r = reports_counted [OF this(1)] reports_counted [OF this(2)]
  have b: "x_tunnel_blocklist_v6 s1 = x_tunnel_blocklist_v6 s" using r(6) by (simp add: same_blocklists_def)
  show ?thesis
    using r p c
    by (simp add: signaling_v6_def bpf_ktime_get_ns_def now_def [symmetric] s1_def [symmetric] b teid_def Let_def)
qed

subsection \<open>The whole program\<close>

lemma source_length: "source4 d = Some src \<Longrightarrow> length src = 4" "source6 d = Some src \<Longrightarrow> length src = 16"
  by (auto simp: source4_def source6_def split: if_splits)

definition tunnel_key_of :: "ip \<Rightarrow> u32 \<Rightarrow> bytes" where
  "tunnel_key_of src teid = (if length src = 4 then tunnelRateKey_bytes \<lparr>tk_Saddr = le_Uint32 src, tk_TEID = teid\<rparr>
     else tunnelRateKeyV6_bytes \<lparr>tk6_Saddr = src, tk6_TEID = teid\<rparr>)"

text \<open>The verdict, read off the tables by address family.\<close>

definition table_blocks :: "xdp \<Rightarrow> ip option \<Rightarrow> u32 \<Rightarrow> bool" where
  "table_blocks s so teid = (case so of None \<Rightarrow> False | Some src \<Rightarrow>
     if length src = 4 then is_blocked (x_blocklist s) src \<or> teid \<noteq> 0 \<and> is_blocked (x_tunnel_blocklist s) (tunnel_key_of src teid)
     else is_blocked (x_blocklist_v6 s) src \<or> teid \<noteq> 0 \<and> is_blocked (x_tunnel_blocklist_v6 s) (tunnel_key_of src teid))"

lemma same_blocklists_refl: "same_blocklists s s"
  by (simp add: same_blocklists_def)

lemma report_v4_effect:
  assumes "length src = 4" "\<And>port p. u = Udp port p \<Longrightarrow> p = drop gtp pkt"
  shows "\<exists>act s'. report_v4 env pkt gtp src dst v u s = Some (act, s') \<and> same_blocklists s s' \<and>
    (act = XDP_DROP \<longleftrightarrow> udp_teid u \<noteq> 0 \<and> is_blocked (x_tunnel_blocklist s) (tunnelRateKey_bytes \<lparr>tk_Saddr = le_Uint32 src, tk_TEID = udp_teid u\<rparr>)) \<and>
    reports env (Some src) (udp_teid u) s act s'"
proof (cases u)
  case ShortUdp
  have e: "emits 1 src 0 s (emit_signaling_event env src dst 0 0 SignalProtoUnknown True v 0 0 s)" using emits_event(1) [OF assms(1)] .
  have "reports env (Some src) 0 s XDP_PASS (emit_signaling_event env src dst 0 0 SignalProtoUnknown True v 0 0 s)" using reports_emits [OF emits_mono [OF e]] by simp
  then show ?thesis using e ShortUdp by (simp add: report_v4_def udp_teid_def emits_def)
next
  case (Udp port p)
  show ?thesis
  proof (cases "is_signaling_port port")
    case True
    then show ?thesis
      using signaling_v4_effect [OF assms(1), where env = env and pkt = pkt and gtp = gtp and port = port] Udp assms(2) by (simp add: report_v4_def udp_teid_def)
  next
    case False
    have "port \<noteq> GTPU_PORT" using False by (auto simp: is_signaling_port_def)
    then show ?thesis
      using False Udp off_port_effect(1) [OF assms(1)] reports_emits by (simp add: report_v4_def udp_teid_def emits_def)
  qed
qed (simp add: report_v4_def udp_teid_def reports_nothing same_blocklists_refl)

lemma report_v6_effect:
  assumes "\<And>port p. u = Udp port p \<Longrightarrow> p = drop gtp pkt"
  shows "\<exists>act s'. report_v6 env pkt gtp src dst v u s = Some (act, s') \<and> same_blocklists s s' \<and>
    (act = XDP_DROP \<longleftrightarrow> udp_teid u \<noteq> 0 \<and> is_blocked (x_tunnel_blocklist_v6 s) (tunnelRateKeyV6_bytes \<lparr>tk6_Saddr = src, tk6_TEID = udp_teid u\<rparr>)) \<and>
    reports env (Some src) (udp_teid u) s act s'"
proof (cases u)
  case ShortUdp
  have e: "emits 1 src 0 s (emit_signaling_event_v6 env src dst 0 0 SignalProtoUnknown True v 0 0 s)" using emits_event(2) .
  have "reports env (Some src) 0 s XDP_PASS (emit_signaling_event_v6 env src dst 0 0 SignalProtoUnknown True v 0 0 s)" using reports_emits [OF emits_mono [OF e]] by simp
  then show ?thesis using e ShortUdp by (simp add: report_v6_def udp_teid_def emits_def)
next
  case (Udp port p)
  show ?thesis
  proof (cases "is_signaling_port port")
    case True
    then show ?thesis
      using signaling_v6_effect [where env = env and pkt = pkt and gtp = gtp and port = port and src = src] Udp assms by (simp add: report_v6_def udp_teid_def)
  next
    case False
    have "port \<noteq> GTPU_PORT" using False by (auto simp: is_signaling_port_def)
    then show ?thesis
      using False Udp off_port_effect(2) reports_emits by (simp add: report_v6_def udp_teid_def emits_def)
  qed
qed (simp add: report_v6_def udp_teid_def reports_nothing same_blocklists_refl)

lemma filter_ipv4_effect:
  fixes pkt l3
  defines "d \<equiv> drop l3 pkt"
  defines "teid \<equiv> if source4 d = None then 0 else udp_teid (udp4 d)"
  shows "\<exists>act s'. filter_ipv4 env pkt l3 v s = Some (act, s') \<and> same_blocklists s s' \<and>
    (act = XDP_DROP \<longleftrightarrow> table_blocks s (source4 d) teid) \<and> reports env (source4 d) teid s act s'"
proof (cases "source4 d")
  case None
  then show ?thesis
    by (simp add: filter_ipv4_layers d_def [symmetric] Let_def table_blocks_def teid_def reports_nothing same_blocklists_refl)
next
  case (Some src)
  note l = source_length(1) [OF Some]
  have "p = drop (l3 + ihl_of d * 4 + 8) pkt" if "udp4 d = Udp port p" for port p
    using that by (auto simp: udp4_def udp_at_def d_def add.commute add.left_commute split: if_splits)
  note r = report_v4_effect [OF l this, where env = env and dst = "take 4 (drop 16 d)" and v = v and s = s]
  show ?thesis
    using Some l r
    by (cases "is_blocked (x_blocklist s) src")
      (simp_all add: filter_ipv4_layers d_def [symmetric] Let_def table_blocks_def tunnel_key_of_def teid_def reports_nothing same_blocklists_refl)
qed

lemma filter_ipv6_effect:
  fixes pkt l3
  defines "d \<equiv> drop l3 pkt"
  defines "teid \<equiv> if source6 d = None then 0 else udp_teid (udp6 d)"
  shows "\<exists>act s'. filter_ipv6 env pkt l3 v s = Some (act, s') \<and> same_blocklists s s' \<and>
    (act = XDP_DROP \<longleftrightarrow> table_blocks s (source6 d) teid) \<and> reports env (source6 d) teid s act s'"
proof (cases "source6 d")
  case None
  then show ?thesis
    by (simp add: filter_ipv6_layers d_def [symmetric] Let_def table_blocks_def teid_def reports_nothing same_blocklists_refl)
next
  case (Some src)
  note l = source_length(2) [OF Some]
  have "p = drop (l3 + 48) pkt" if "udp6 d = Udp port p" for port p
    using that by (auto simp: udp6_def udp_at_def d_def add.commute add.left_commute split: if_splits)
  note r = report_v6_effect [OF this, where env = env and src = src and dst = "take 16 (drop 24 d)" and v = v and s = s]
  show ?thesis
    using Some l r
    by (cases "is_blocked (x_blocklist_v6 s) src")
      (simp_all add: filter_ipv6_layers d_def [symmetric] Let_def table_blocks_def tunnel_key_of_def teid_def reports_nothing same_blocklists_refl)
qed

lemma filter_l3_effect:
  fixes et d
  defines "so \<equiv> if et = ETH_P_IPV6 then source6 d else if et = ETH_P_IP then source4 d else None"
  defines "teid \<equiv> if et = ETH_P_IPV6 \<and> source6 d \<noteq> None then udp_teid (udp6 d) else if et = ETH_P_IP \<and> source4 d \<noteq> None then udp_teid (udp4 d) else 0"
  assumes "d = drop l3 pkt"
  shows "\<exists>act s'. filter_l3 env pkt et l3 v s = Some (act, s') \<and> same_blocklists s s' \<and>
    (act = XDP_DROP \<longleftrightarrow> table_blocks s so teid) \<and> reports env so teid s act s'"
proof -
  have "ETH_P_IPV6 \<noteq> ETH_P_IP" by (simp add: ETH_P_IPV6_def ETH_P_IP_def)
  moreover have "table_blocks s None 0 = False" by (simp add: table_blocks_def)
  ultimately show ?thesis
    using filter_ipv4_effect [of env pkt l3 v s] filter_ipv6_effect [of env pkt l3 v s]
    by (auto simp: filter_l3_def so_def teid_def assms(3) reports_nothing same_blocklists_refl split: if_splits)
qed

lemma xdp_effect:
  "\<exists>act s'. xdp_packet_filter env pkt s = Some (act, s') \<and> same_blocklists s s' \<and>
    (act = XDP_DROP \<longleftrightarrow> table_blocks s (packet_source pkt) (packet_teid pkt)) \<and> reports env (packet_source pkt) (packet_teid pkt) s act s'"
proof -
  obtain l3 v where x: "xdp_packet_filter env pkt s =
       (case datagram pkt of None \<Rightarrow> Some (XDP_PASS, s) | Some (et, d) \<Rightarrow> filter_l3 env pkt et l3 v s)"
     and d: "\<And>et d. datagram pkt = Some (et, d) \<Longrightarrow> d = drop l3 pkt" using xdp_layers by metis
  show ?thesis
  proof (cases "datagram pkt")
    case None
    then show ?thesis by (simp add: x packet_source_def packet_teid_def table_blocks_def reports_nothing same_blocklists_refl)
  next
    case (Some z)
    obtain et dg where z: "z = (et, dg)" by fastforce
    show ?thesis
      using filter_l3_effect [OF d [OF Some [unfolded z]], where env = env and et = et and v = v and s = s] Some
      unfolding x packet_source_def packet_teid_def z by simp
  qed
qed

subsection \<open>Framing\<close>

text \<open>
  A GTP-U user-plane header as the standard frames it. An extension header has a type, a body of \<open>4n - 2\<close> bytes preceded by \<open>n\<close>, and behind it the type of the
  next one; type \<open>0\<close> ends the chain. \<open>gtpu_ok\<close> has the limits of this parser: four extension headers, 64 bytes.
\<close>

record gtpu_header =
  gh_flags :: u8
  gh_length :: bytes
  gh_teid :: bytes
  gh_optional :: bytes
  gh_exts :: "(u8 \<times> bytes) list"

fun chain_bytes :: "(u8 \<times> bytes) list \<Rightarrow> bytes" where
  "chain_bytes [] = [0]"
| "chain_bytes ((ty, body) # es) = ty # of_nat ((length body + 2) div 4) # body @ chain_bytes es"

definition gtpu_bytes :: "gtpu_header \<Rightarrow> bytes" where
  "gtpu_bytes h = [gh_flags h, 0xFF] @ gh_length h @ gh_teid h @ (if and (gh_flags h) 0x07 = 0 then [] else gh_optional h @ chain_bytes (gh_exts h))"

definition ext_ok :: "u8 \<times> bytes \<Rightarrow> bool" where
  "ext_ok e \<longleftrightarrow> fst e \<noteq> 0 \<and> (length (snd e) + 2) mod 4 = 0"

definition gtpu_ok :: "gtpu_header \<Rightarrow> bool" where
  "gtpu_ok h \<longleftrightarrow> and (gh_flags h) 0xF0 = 0x30 \<and> length (gh_length h) = 2 \<and> length (gh_teid h) = 4 \<and> length (gh_optional h) = 3 \<and>
     list_all ext_ok (gh_exts h) \<and> length (gh_exts h) \<le> GTPU_MAX_EXT_HEADERS \<and> length (gtpu_bytes h) \<le> GTPU_MAX_HDR_BYTES"

lemma unat_quarter: "n \<le> 64 \<Longrightarrow> unat (of_nat (n div 4) :: u8) = n div 4"
  by (simp add: unat_of_nat)

lemma ext_walk_complete:
  assumes "list_all ext_ok es" "length es \<le> i" "off + length (chain_bytes es) \<le> 65" "nxt # drop (gtp + off) pkt = chain_bytes es @ rest"
  shows "ext_walk i pkt gtp nxt off = Some GTPU_PARSE_TPDU"
  using assms
proof (induction es arbitrary: i off nxt)
  case Nil
  then show ?case by (auto simp: ext_walk.simps)
next
  case (Cons e es)
  obtain ty body where e: "e = (ty, body)" by fastforce
  define n where "n = length body + 2"
  have n: "n mod 4 = 0" "4 \<le> n" using Cons.prems(1) by (auto simp: e ext_ok_def n_def) (presburger)
  have ty: "nxt = ty" "ty \<noteq> 0" and d: "drop (gtp + off) pkt = of_nat (n div 4) # body @ chain_bytes es @ rest"
    using Cons.prems(1,4) by (auto simp: e ext_ok_def n_def)
  have c: "length (chain_bytes es) \<ge> 1" by (cases es) auto
  have off: "off + n + length (chain_bytes es) \<le> 65" using Cons.prems(3) by (simp add: e n_def)
  have len: "length pkt - (gtp + off) = n - 1 + length (chain_bytes es) + length rest" "gtp + off < length pkt"
    using arg_cong [OF d, of length] c by (auto simp: n_def)
  have at: "pkt ! (gtp + off) = of_nat (n div 4)" using arg_cong [OF d, of "\<lambda>b. b ! 0"] len by simp
  have u: "unat (of_nat (n div 4) :: u8) * 4 = n" using unat_quarter [of n] off n c by auto
  obtain nxt' tl' where cb: "chain_bytes es = nxt' # tl'" using c by (cases "chain_bytes es") auto
  have "drop (gtp + off + (n - 1)) pkt = drop (n - 1) (drop (gtp + off) pkt)" by (simp add: add.commute)
  also have "\<dots> = chain_bytes es @ rest" using n by (simp add: d n_def)
  finally have tail: "drop (gtp + off + (n - 1)) pkt = chain_bytes es @ rest" .
  have tl: "gtp + off + (n - 1) < length pkt" using len c by linarith
  have last: "pkt ! (gtp + off + (n - 1)) = nxt'" using arg_cong [OF tail, of "\<lambda>b. b ! 0"] tl cb by simp
  have "drop (gtp + (off + n)) pkt = drop 1 (drop (gtp + off + (n - 1)) pkt)" using n by (simp add: add.commute add.left_commute)
  also have "\<dots> = tl' @ rest" unfolding tail cb by simp
  finally have rest: "nxt' # drop (gtp + (off + n)) pkt = chain_bytes es @ rest" by (simp add: cb)
  have ih: "ext_walk (i - 1) pkt gtp nxt' (off + n) = Some GTPU_PARSE_TPDU"
    by (rule Cons.IH) (use Cons.prems off rest in \<open>auto simp: e\<close>)
  have q: "n div 4 * 4 = n" using n(1) by auto
  have pos: "0 < n div 4" "gtp + off + n \<le> length pkt" using n tl by (auto simp: div_greater_zero_iff)
  have "i \<noteq> 0" using Cons.prems(2) by simp
  then show ?case
    using ty len tl off n c ih last pos by (subst ext_walk.simps) (simp add: at u q Let_def GTPU_MAX_HDR_BYTES_def)
qed

lemma ext_walk_sound:
  assumes "ext_walk i pkt gtp nxt off = Some GTPU_PARSE_TPDU" "off \<le> 64"
  shows "\<exists>es rest. list_all ext_ok es \<and> length es \<le> i \<and> off + length (chain_bytes es) \<le> 65 \<and> nxt # drop (gtp + off) pkt = chain_bytes es @ rest"
  using assms
proof (induction i pkt gtp nxt off rule: ext_walk.induct)
  case (1 i pkt gtp nxt off)
  show ?case
  proof (cases "nxt = 0")
    case True
    then show ?thesis using 1(3) by (intro exI [of _ "[]"] exI [of _ "drop (gtp + off) pkt"]) auto
  next
    case False
    note run = 1(2) [unfolded ext_walk.simps [of i pkt gtp nxt off]]
    define n where "n = unat (pkt ! (gtp + off)) * 4"
    have g: "i \<noteq> 0" "off \<le> 60" "gtp + off < length pkt" "n \<noteq> 0" "off + n \<le> 64" "gtp + off + n \<le> length pkt"
      and ld: "ld8 pkt (gtp + off) = Some (pkt ! (gtp + off))" and ld': "ld8 pkt (gtp + off + n - 1) = Some (pkt ! (gtp + off + n - 1))"
      and w: "ext_walk (i - 1) pkt gtp (pkt ! (gtp + off + n - 1)) (off + n) = Some GTPU_PARSE_TPDU"
      using run False by (auto simp: GTPU_MAX_HDR_BYTES_def Let_def n_def ld8_def split: if_splits)
    obtain es rest where es: "list_all ext_ok es" "length es \<le> i - 1" "off + n + length (chain_bytes es) \<le> 65"
        "pkt ! (gtp + off + n - 1) # drop (gtp + (off + n)) pkt = chain_bytes es @ rest"
      using 1(1) [OF g(1) False _ _ ld refl _ _ _ ld' [unfolded n_def] w [unfolded n_def] g(5) [unfolded n_def]] g
      by (auto simp: GTPU_MAX_HDR_BYTES_def n_def)
    define body where "body = take (n - 2) (drop (gtp + off + 1) pkt)"
    have four: "4 \<le> n" using g(4) by (simp add: n_def)
    have at: "n - 2 + (gtp + off + 1) = gtp + off + n - 1" using four by simp
    have lb: "length body + 2 = n" using four g(6) by (simp add: body_def)
    have "drop (gtp + off) pkt = pkt ! (gtp + off) # drop (gtp + off + 1) pkt" using g(3) by (simp add: Cons_nth_drop_Suc)
    also have "drop (gtp + off + 1) pkt = body @ drop (gtp + off + n - 1) pkt"
      using append_take_drop_id [of "n - 2" "drop (gtp + off + 1) pkt"] by (simp only: body_def drop_drop at)
    also have "drop (gtp + off + n - 1) pkt = pkt ! (gtp + off + n - 1) # drop (gtp + (off + n)) pkt"
      using four g(6) Cons_nth_drop_Suc [of "gtp + off + n - 1" pkt] by (simp add: add.assoc)
    finally have d: "drop (gtp + off) pkt = pkt ! (gtp + off) # body @ chain_bytes es @ rest" using es(4) by simp
    have h: "of_nat ((length body + 2) div 4) = pkt ! (gtp + off)" unfolding lb by (simp add: n_def)
    have m: "(length body + 2) mod 4 = 0" unfolding lb by (simp add: n_def)
    have "ext_ok (nxt, body)" using m False by (simp add: ext_ok_def)
    then show ?thesis
      using es d h g(1) lb by (intro exI [of _ "(nxt, body) # es"] exI [of _ rest]) auto
  qed
qed

lemma parse_gtpu_view:
  "parse_gtpu (pre @ p) (length pre) 0 =
     (if length p < 8 \<or> and (p ! 0) 0xF0 \<noteq> 0x30 then Some (GTPU_PARSE_MALFORMED, 0)
      else if p ! 1 \<in> path_management then Some (GTPU_PARSE_OTHER, 0)
      else if p ! 1 \<noteq> 0xFF then Some (GTPU_PARSE_MALFORMED, 0)
      else if and (p ! 0) 0x07 = 0 then Some (GTPU_PARSE_TPDU, be_Uint32 (take 4 (drop 4 p)))
      else if length p < 12 then Some (GTPU_PARSE_MALFORMED, be_Uint32 (take 4 (drop 4 p)))
      else map_option (\<lambda>r. (r, be_Uint32 (take 4 (drop 4 p)))) (ext_walk GTPU_MAX_EXT_HEADERS (pre @ p) (length pre) (p ! 11) 12))"
proof (cases "length p < 8")
  case False
  then have "ld8 (pre @ p) (length pre) = Some (p ! 0)" "ld8 (pre @ p) (length pre + 1) = Some (p ! 1)"
      "ld_be32 (pre @ p) (length pre + 4) = Some (be_Uint32 (take 4 (drop 4 p)))"
      "12 \<le> length p \<Longrightarrow> ld8 (pre @ p) (length pre + 11) = Some (p ! 11)"
    by (auto simp: ld8_def nth_append)
  then show ?thesis
    using False
    by (cases "ext_walk GTPU_MAX_EXT_HEADERS (pre @ p) (length pre) (p ! 11) 12") (simp_all add: parse_gtpu_def GTPU_MSG_TPDU_def not_less)
qed (simp add: parse_gtpu_def)

text \<open>
  C15: the GTP-U parser accepts exactly the framed headers. It reports a user-plane packet, with TEID \<open>t\<close>, if and only if the UDP payload starts with a well-formed header
  of that TEID: version 1, message type 255, and where one of the flags E, S or PN is set the optional block and a chain of at most four extension headers
  in at most 64 bytes, the last one closed by type 0.
\<close>

theorem parse_gtpu_exact:
  "parse_gtpu (pre @ p) (length pre) 0 = Some (GTPU_PARSE_TPDU, t) \<longleftrightarrow>
    (\<exists>h rest. gtpu_ok h \<and> be_Uint32 (gh_teid h) = t \<and> p = gtpu_bytes h @ rest)"
proof
  assume parse: "parse_gtpu (pre @ p) (length pre) 0 = Some (GTPU_PARSE_TPDU, t)"
  have l8: "8 \<le> length p" and f: "and (p ! 0) 0xF0 = 0x30" and m: "p ! 1 = 0xFF" and t: "t = be_Uint32 (take 4 (drop 4 p))"
    using parse by (auto simp: parse_gtpu_view split: if_splits)
  have split8: "p = [p ! 0, 0xFF] @ take 2 (drop 2 p) @ take 4 (drop 4 p) @ drop 8 p"
  proof -
    have "p = take 2 p @ take 2 (drop 2 p) @ take 4 (drop 4 p) @ drop 8 p"
      using append_take_drop_id [of 2 p] append_take_drop_id [of 2 "drop 2 p"] append_take_drop_id [of 4 "drop 4 p"] by simp
    moreover have "take 2 p = [p ! 0, p ! 1]" using l8 by (cases p; cases "tl p") auto
    ultimately show ?thesis using m by simp
  qed
  show "\<exists>h rest. gtpu_ok h \<and> be_Uint32 (gh_teid h) = t \<and> p = gtpu_bytes h @ rest"
  proof (cases "and (p ! 0) 0x07 = 0")
    case True
    let ?h = "\<lparr>gh_flags = p ! 0, gh_length = take 2 (drop 2 p), gh_teid = take 4 (drop 4 p), gh_optional = [0, 0, 0], gh_exts = []\<rparr>"
    have "gtpu_ok ?h" "p = gtpu_bytes ?h @ drop 8 p"
      using l8 f True split8 by (auto simp: gtpu_ok_def gtpu_bytes_def GTPU_MAX_HDR_BYTES_def)
    then show ?thesis using t by force
  next
    case False
    have l12: "12 \<le> length p" and w: "ext_walk GTPU_MAX_EXT_HEADERS (pre @ p) (length pre) (p ! 11) 12 = Some GTPU_PARSE_TPDU"
      using parse False by (auto simp: parse_gtpu_view split: if_splits)
    obtain es rest where es: "list_all ext_ok es" "length es \<le> GTPU_MAX_EXT_HEADERS" "12 + length (chain_bytes es) \<le> 65" "p ! 11 # drop 12 p = chain_bytes es @ rest"
      using ext_walk_sound [OF w] by auto
    let ?h = "\<lparr>gh_flags = p ! 0, gh_length = take 2 (drop 2 p), gh_teid = take 4 (drop 4 p), gh_optional = take 3 (drop 8 p), gh_exts = es\<rparr>"
    have "drop 8 p = take 3 (drop 8 p) @ drop 11 p" using append_take_drop_id [of 3 "drop 8 p"] by simp
    also have "drop 11 p = chain_bytes es @ rest" using l12 es(4) Cons_nth_drop_Suc [of 11 p] by simp
    finally have "p = gtpu_bytes ?h @ rest" using split8 False by (simp add: gtpu_bytes_def)
    moreover have "gtpu_ok ?h" using l12 f es False by (simp add: gtpu_ok_def gtpu_bytes_def GTPU_MAX_HDR_BYTES_def)
    ultimately show ?thesis using t by force
  qed
next
  assume "\<exists>h rest. gtpu_ok h \<and> be_Uint32 (gh_teid h) = t \<and> p = gtpu_bytes h @ rest"
  then obtain h rest where h: "gtpu_ok h" "be_Uint32 (gh_teid h) = t" "p = gtpu_bytes h @ rest" by blast
  obtain a b where ab: "gh_length h = [a, b]" using h(1) by (auto simp: gtpu_ok_def length_Suc_conv numeral_2_eq_2)
  have hd: "p ! 0 = gh_flags h" "p ! 1 = 0xFF" "take 4 (drop 4 p) = gh_teid h" "8 \<le> length p"
    using h(1) by (auto simp: h(3) gtpu_bytes_def ab gtpu_ok_def)
  have ok: "and (gh_flags h) 0xF0 = 0x30" using h(1) by (simp add: gtpu_ok_def)
  show "parse_gtpu (pre @ p) (length pre) 0 = Some (GTPU_PARSE_TPDU, t)"
  proof (cases "and (gh_flags h) 0x07 = 0")
    case True
    then show ?thesis using hd ok h(2) by (simp add: parse_gtpu_view path_management_def)
  next
    case False
    have c: "1 \<le> length (chain_bytes (gh_exts h))" by (cases "gh_exts h") auto
    have p11: "drop 11 p = chain_bytes (gh_exts h) @ rest" and len: "12 \<le> length p" "12 + length (chain_bytes (gh_exts h)) \<le> 65"
      using h(1) False c by (auto simp: h(3) gtpu_bytes_def ab gtpu_ok_def GTPU_MAX_HDR_BYTES_def)
    have "p ! 11 # drop 12 p = drop 11 p" using len(1) Cons_nth_drop_Suc [of 11 p] by simp
    then have "ext_walk GTPU_MAX_EXT_HEADERS (pre @ p) (length pre) (p ! 11) 12 = Some GTPU_PARSE_TPDU"
      using h(1) len p11 by (intro ext_walk_complete) (auto simp: gtpu_ok_def)
    then show ?thesis using hd ok h(2) False len by (simp add: parse_gtpu_view path_management_def)
  qed
qed

end
