(* ===== verification/Packet_Verdict.thy ===== *)
theory Packet_Verdict
  imports Packet_Filter
begin

text \<open>
  What the XDP program does to packets, in terms of the packet and of the loader that feeds it: it stays inside the packet, its reports are true, it drops exactly what the
  loader has blocked, and its counters count.
\<close>

subsection \<open>Safety and reports\<close>

text \<open>
  C13: the XDP program is memory safe and total. On every packet of any length and content, in any state and whatever the kernel's helpers answer, no load
  leaves the packet and a verdict is reached; and no run changes a blocklist, which only the loader writes.
\<close>

theorem xdp_memory_safe:
  "\<exists>act s'. xdp_packet_filter env pkt s = Some (act, s') \<and>
     x_blocklist s' = x_blocklist s \<and> x_blocklist_v6 s' = x_blocklist_v6 s \<and>
     x_tunnel_blocklist s' = x_tunnel_blocklist s \<and> x_tunnel_blocklist_v6 s' = x_tunnel_blocklist_v6 s"
  using xdp_effect [of env pkt s] by (auto simp: same_blocklists_def)

text \<open>
  C14: what reaches the ring buffers is true. Each packet leaves at most two records, all with its own source address and the TEID of its own header; a dropped packet leaves
  none, and a user-plane packet that passes leaves exactly one if the ring buffer has room, so no crafted extension chain hides a tunnel.
\<close>

theorem xdp_reports_truthfully:
  "\<exists>act s' new new6. xdp_packet_filter env pkt s = Some (act, s') \<and>
     x_events s' = x_events s @ new \<and> x_events_v6 s' = x_events_v6 s @ new6 \<and> length new + length new6 \<le> 2 \<and>
     list_all (\<lambda>r. packet_source pkt = Some (put_u32 (Saddr r)) \<and> r_TEID r = packet_teid pkt) new \<and>
     list_all (\<lambda>r. packet_source pkt = Some (v6_Saddr r) \<and> v6_TEID r = packet_teid pkt) new6 \<and>
     length new + length new6 = (if act = XDP_DROP then 0
       else if packet_teid pkt \<noteq> 0 then (if ringbuf_room env (x_reserves s) then 1 else 0) else length new + length new6)"
proof -
  obtain act s' where x: "xdp_packet_filter env pkt s = Some (act, s')" and r: "reports env (packet_source pkt) (packet_teid pkt) s act s'"
    using xdp_effect [of env pkt s] by blast
  from r obtain new new6 where n: "x_events s' = x_events s @ new" "x_events_v6 s' = x_events_v6 s @ new6" "length new + length new6 \<le> 2"
      "\<forall>r \<in> set new. packet_source pkt = Some (put_u32 (Saddr r)) \<and> r_TEID r = packet_teid pkt"
      "\<forall>r \<in> set new6. packet_source pkt = Some (v6_Saddr r) \<and> v6_TEID r = packet_teid pkt"
      "act = XDP_DROP \<longrightarrow> new = [] \<and> new6 = []"
      "act = XDP_PASS \<and> packet_teid pkt \<noteq> 0 \<longrightarrow> length new + length new6 = (if ringbuf_room env (x_reserves s) then 1 else 0)"
    unfolding reports_def by blast
  show ?thesis
    by (intro exI conjI, rule x, rule n(1), rule n(2), rule n(3))
      (use n in \<open>cases act; simp add: list_all_iff\<close>)+
qed

subsection \<open>The loader's maps\<close>

text \<open>The program sees the maps the loader writes; an entry the loader made has the value one.\<close>

definition mirrors :: "('h, 'w) kernel \<Rightarrow> xdp \<Rightarrow> bool" where
  "mirrors k s \<longleftrightarrow>
     (let bytes_of = (\<lambda>m. kernel_map (k_sys k) (m (k_loader k)) (k_world k)) in
      bytes_of blocklist = map_option (\<lambda>v. [v]) \<circ> x_blocklist s \<and> bytes_of blocklistV6 = map_option (\<lambda>v. [v]) \<circ> x_blocklist_v6 s \<and>
      bytes_of tunnelBlocklist = map_option (\<lambda>v. [v]) \<circ> x_tunnel_blocklist s \<and>
      bytes_of tunnelBlocklistV6 = map_option (\<lambda>v. [v]) \<circ> x_tunnel_blocklist_v6 s)"

definition enforcing :: "('h, 'w) kernel \<Rightarrow> bool" where
  "enforcing k \<longleftrightarrow> (\<forall>m \<in> {blocklist, blocklistV6, tunnelBlocklist, tunnelBlocklistV6}.
     ran (kernel_map (k_sys k) (m (k_loader k)) (k_world k)) \<subseteq> {blockedValue})"

lemma enforcing_put:
  assumes "bpf_lawful (k_sys k)" "enforcing k" "map_Put (k_sys k) h key blockedValue (k_world k) = (r, w')"
  shows "enforcing (k\<lparr>k_world := w'\<rparr>)"
  using assms(2) bpf_lawfulD(1) [OF assms(1,3)] by (auto simp: enforcing_def ran_def split: if_splits)

lemma enforcing_delete:
  assumes "bpf_lawful (k_sys k)" "enforcing k" "map_Delete (k_sys k) h key (k_world k) = (r, w')"
  shows "enforcing (k\<lparr>k_world := w'\<rparr>)"
  using assms(2) bpf_lawfulD(2) [OF assms(1,3)] by (auto simp: enforcing_def ran_def split: if_splits)

text \<open>The four operations of the loader keep it so.\<close>

lemma loader_enforcing:
  assumes "loader_inv k" "enforcing k"
  shows "Loader_Block ip k = (r, k') \<Longrightarrow> enforcing k'" "Loader_Unblock ip k = (r, k') \<Longrightarrow> enforcing k'"
    and "Loader_BlockTunnel ip teid k = (r, k') \<Longrightarrow> enforcing k'" "Loader_UnblockTunnel ip teid k = (r, k') \<Longrightarrow> enforcing k'"
  using assms enforcing_put [of k] enforcing_delete [of k]
  by (auto simp: loader_inv_def Loader_Block_def Loader_Unblock_def Loader_BlockTunnel_def Loader_UnblockTunnel_def split: sum.splits prod.splits option.splits if_splits)

lemma is_blocked_content:
  assumes "mirrors k s" "enforcing k"
  shows "is_blocked (x_blocklist s) key \<longleftrightarrow> key \<in> content k blocklist" "is_blocked (x_blocklist_v6 s) key \<longleftrightarrow> key \<in> content k blocklistV6"
    and "is_blocked (x_tunnel_blocklist s) key \<longleftrightarrow> key \<in> content k tunnelBlocklist"
    and "is_blocked (x_tunnel_blocklist_v6 s) key \<longleftrightarrow> key \<in> content k tunnelBlocklistV6"
proof -
  have "is_blocked t key \<longleftrightarrow> key \<in> dom (map_option (\<lambda>v. [v]) \<circ> t)" if "ran (map_option (\<lambda>v. [v]) \<circ> t) \<subseteq> {blockedValue}" for t
    using that by (force simp: is_blocked_def ran_def dom_def blockedValue_def split: option.splits)
  then show "is_blocked (x_blocklist s) key \<longleftrightarrow> key \<in> content k blocklist" "is_blocked (x_blocklist_v6 s) key \<longleftrightarrow> key \<in> content k blocklistV6"
      "is_blocked (x_tunnel_blocklist s) key \<longleftrightarrow> key \<in> content k tunnelBlocklist"
      "is_blocked (x_tunnel_blocklist_v6 s) key \<longleftrightarrow> key \<in> content k tunnelBlocklistV6"
    using assms by (simp_all add: mirrors_def enforcing_def content_def Let_def)
qed

text \<open>An address in its own family: IPv4, or IPv6 and not an IPv4 address in IPv6 form.\<close>

definition native :: "ip \<Rightarrow> bool" where
  "native src \<longleftrightarrow> length src = 4 \<or> To4 src = None"

lemma loader_drops_native:
  assumes "loader_inv k"
  shows "length src = 4 \<Longrightarrow> src \<in> content k blocklist \<longleftrightarrow> canon src \<in> loader_drops k"
    and "length src = 16 \<Longrightarrow> src \<in> content k blocklistV6 \<longleftrightarrow> native src \<and> canon src \<in> loader_drops k"
proof -
  have k4: "\<And>b. b \<in> content k blocklist \<Longrightarrow> length b = 4" and k6: "\<And>b. b \<in> content k blocklistV6 \<Longrightarrow> key6_ok b"
    using assms by (auto simp: loader_inv_def key4_ok_def)
  show "length src = 4 \<Longrightarrow> src \<in> content k blocklist \<longleftrightarrow> canon src \<in> loader_drops k"
    using k4 k6 canon_inj4 canon_not_key6 [of src] by (fastforce simp: loader_drops_def)
  assume l: "length src = 16"
  then have "canon src = src" by (simp add: canon_def To16_def)
  then show "src \<in> content k blocklistV6 \<longleftrightarrow> native src \<and> canon src \<in> loader_drops k"
    using k4 k6 l To4_canon by (fastforce simp: loader_drops_def native_def key6_ok_def)
qed

lemma loader_tdrops_native:
  assumes "loader_inv k"
  shows "length src = 4 \<Longrightarrow> tunnel_key_of src t \<in> content k tunnelBlocklist \<longleftrightarrow> (canon src, t) \<in> loader_tdrops k"
    and "length src = 16 \<Longrightarrow> tunnel_key_of src t \<in> content k tunnelBlocklistV6 \<longleftrightarrow> native src \<and> (canon src, t) \<in> loader_tdrops k"
proof -
  let ?k = "tunnel_key_of src t"
  have t4: "\<And>b. b \<in> content k tunnelBlocklist \<Longrightarrow> tkey4_ok b" and t6: "\<And>b. b \<in> content k tunnelBlocklistV6 \<Longrightarrow> tkey6_ok b"
    using assms by (auto simp: loader_inv_def)
  {
    assume l: "length src = 4"
    then have v: "tkey4_ok ?k" "tview4 ?k = (canon src, t)"
      by (simp_all add: tunnel_key_of_def tunnelRateKey_bytes_def tkey4_ok_def tview4_def put_u32_le_Uint32)
    then show "?k \<in> content k tunnelBlocklist \<longleftrightarrow> (canon src, t) \<in> loader_tdrops k"
      using t4 t6 tview4_inj [of ?k] tview_differ [of ?k] unfolding loader_tdrops_def by (auto simp: image_iff v(2) [symmetric])
  next
    assume l: "length src = 16"
    then have c: "canon src = src" by (simp add: canon_def To16_def)
    have v: "tview6 ?k = (canon src, t)" and ok: "To4 src = None \<Longrightarrow> tkey6_ok ?k"
      using l by (simp_all add: tunnel_key_of_def tunnelRateKeyV6_bytes_def tkey6_ok_def tview6_def c)
    have n: "native src" if "?k \<in> content k tunnelBlocklistV6"
      using t6 [OF that] l by (simp add: native_def tkey6_ok_def tunnel_key_of_def tunnelRateKeyV6_bytes_def)
    have "?k \<in> content k tunnelBlocklistV6" if nat: "native src" and "(canon src, t) \<in> loader_tdrops k"
    proof -
      have o: "tkey6_ok ?k" using ok nat l by (simp add: native_def)
      show ?thesis
        using that(2) t4 t6 tview6_inj [OF o] tview_differ [OF _ o] unfolding loader_tdrops_def v [symmetric] by (auto simp: image_iff) metis+
    qed
    moreover have "(canon src, t) \<in> loader_tdrops k" if "?k \<in> content k tunnelBlocklistV6"
      unfolding loader_tdrops_def v [symmetric] using that by blast
    ultimately show "?k \<in> content k tunnelBlocklistV6 \<longleftrightarrow> native src \<and> (canon src, t) \<in> loader_tdrops k"
      using n by blast
  }
qed

lemma packet_source_length: "packet_source pkt = Some src \<Longrightarrow> length src = 4 \<or> length src = 16"
  by (auto simp: packet_source_def dest: source_length split: option.splits if_splits)

lemma drops_exactly:
  assumes "loader_inv k" "enforcing k" "mirrors k s" "xdp_packet_filter env pkt s = Some (act, s')"
  shows "act = XDP_DROP \<longleftrightarrow>
    (\<exists>src. packet_source pkt = Some src \<and> native src \<and>
       (canon src \<in> loader_drops k \<or> packet_teid pkt \<noteq> 0 \<and> (canon src, packet_teid pkt) \<in> loader_tdrops k))"
proof -
  have "act = XDP_DROP \<longleftrightarrow> table_blocks s (packet_source pkt) (packet_teid pkt)" using xdp_effect [of env pkt s] assms(4) by auto
  also have "\<dots> \<longleftrightarrow> (\<exists>src. packet_source pkt = Some src \<and> native src \<and>
       (canon src \<in> loader_drops k \<or> packet_teid pkt \<noteq> 0 \<and> (canon src, packet_teid pkt) \<in> loader_tdrops k))"
  proof (cases "packet_source pkt")
    case (Some src)
    have "length src = 4 \<or> length src = 16" by (rule packet_source_length [OF Some])
    then show ?thesis
      using Some loader_drops_native [OF assms(1), of src] loader_tdrops_native [OF assms(1), of src "packet_teid pkt"]
      by (auto simp: table_blocks_def is_blocked_content [OF assms(3,2)] native_def)
  qed (simp add: table_blocks_def)
  finally show ?thesis .
qed


text \<open>
  C5: the kernel program and the loader agree on what is blocked. In every state of the loader's maps a packet is dropped exactly if the loader counts its source address, or that address
  with the TEID of its GTP-U header, among what it drops: the keys the Go code writes are the keys the C code looks up, in both address families. The exception is an IPv6 packet
  whose source is an IPv4 address in IPv6 form: the loader files that address under IPv4, so the packet always passes.
\<close>

theorem xdp_drops_exactly:
  assumes "loader_inv k" "enforcing k" "mirrors k s" "xdp_packet_filter env pkt s = Some (act, s')"
  shows "act = XDP_DROP \<longleftrightarrow>
    (\<exists>src. packet_source pkt = Some src \<and> native src \<and>
       (canon src \<in> loader_drops k \<or> packet_teid pkt \<noteq> 0 \<and> (canon src, packet_teid pkt) \<in> loader_tdrops k))"
  using assms by (rule drops_exactly)

text \<open>A user-plane packet of tunnel 7 behind 10.0.0.1, and the loader's maps after that tunnel was blocked.\<close>

definition demo_packet :: bytes where
  "demo_packet = [2, 0, 0, 0, 0, 9, 2, 0, 0, 0, 0, 1, 0x08, 0x00] @
     [0x45, 0, 0, 44, 0, 0, 0, 0, 64, 17, 0, 0, 10, 0, 0, 1, 10, 0, 0, 9] @ [0x08, 0x68, 0x08, 0x68, 0, 24, 0, 0] @
     [0x34, 0xFF, 0, 8, 0, 0, 0, 7, 0, 0, 0, 0x85, 1, 0, 9, 0]"

lemma demo_packet_views: "packet_source demo_packet = Some [10, 0, 0, 1]" "packet_teid demo_packet = 7"
  by (simp_all add: demo_packet_def packet_source_def packet_teid_def datagram_def source4_def udp4_def udp_at_def udp_teid_def ihl_of_def gtpu_teid_def be_Uint16_def be_Uint32_def
      ETH_P_8021Q_def ETH_P_IPV6_def ETH_P_IP_def IPPROTO_UDP_def GTPU_PORT_def Let_def)

definition tables_of :: "('h, 'w) kernel \<Rightarrow> xdp" where
  "tables_of k =
     (let flags = (\<lambda>m. map_option hd \<circ> kernel_map (k_sys k) (m (k_loader k)) (k_world k)) in
      \<lparr>x_blocklist = flags blocklist, x_signal_rate = Map.empty, x_scan_rate = Map.empty, x_tunnel_rate = Map.empty, x_tunnel_blocklist = flags tunnelBlocklist,
       x_port_scan = Map.empty, x_blocklist_v6 = flags blocklistV6, x_signal_rate_v6 = Map.empty, x_scan_rate_v6 = Map.empty, x_tunnel_rate_v6 = Map.empty,
       x_tunnel_blocklist_v6 = flags tunnelBlocklistV6, x_port_scan_v6 = Map.empty, x_events = [], x_events_v6 = [], x_ktimes = 0, x_updates = 0, x_reserves = 0\<rparr>)"

lemma mirrors_tables_of:
  assumes "enforcing k"
  shows "mirrors k (tables_of k)"
proof -
  have "f = map_option (\<lambda>v. [v]) \<circ> (map_option hd \<circ> f)" if "ran f \<subseteq> {blockedValue}" for f :: "bytes \<rightharpoonup> bytes"
  proof
    fix x
    show "f x = (map_option (\<lambda>v. [v]) \<circ> (map_option hd \<circ> f)) x"
      using that ranI [of f x] by (cases "f x") (auto simp: blockedValue_def)
  qed
  then show ?thesis using assms by (simp add: mirrors_def tables_of_def enforcing_def Let_def)
qed

theorem xdp_drops_exactly_witness:
  "\<exists>k s'. Loader_BlockTunnel [10, 0, 0, 1] 7 mem_kernel = (None, k) \<and>
     xdp_packet_filter \<lparr>ktime_get_ns = (\<lambda>_. 0), evicted = (\<lambda>_. Some {}), ringbuf_room = (\<lambda>_. True)\<rparr> demo_packet (tables_of k) = Some (XDP_DROP, s')"
proof -
  have v: "valid_ip [10, 0, 0, 1]" by (simp add: valid_ip_def)
  obtain r k where b: "Loader_BlockTunnel [10, 0, 0, 1] 7 mem_kernel = (r, k)" by fastforce
  have r: "r = None" using b by (simp add: Loader_BlockTunnel_def tunnelBlocklistMapAndKey_def To4_def mem_kernel_def mem_sys_def)
  have "BlockTunnel loader_updater [10, 0, 0, 1] 7 mem_kernel = (r, k)" using b by (simp add: loader_updater_def)
  note law = loader.block_tunnel [OF mem_kernel_inv v this]
  have "enforcing mem_kernel" by (simp add: enforcing_def mem_kernel_def mem_sys_def)
  then have e: "enforcing k" using loader_enforcing(3) [OF mem_kernel_inv _ b] by blast
  let ?env = "\<lparr>ktime_get_ns = (\<lambda>_. 0), evicted = (\<lambda>_. Some {}), ringbuf_room = (\<lambda>_. True)\<rparr>"
  obtain act s' where x: "xdp_packet_filter ?env demo_packet (tables_of k) = Some (act, s')" using xdp_effect by blast
  have "act = XDP_DROP"
    using xdp_drops_exactly [OF _ e mirrors_tables_of [OF e] x] law r by (simp add: demo_packet_views native_def)
  then show ?thesis using b r x by blast
qed

end
