(* ===== verification/Packet_Rates.thy ===== *)
theory Packet_Rates
  imports Packet_Verdict
begin

text \<open>The counters of the XDP program: packets of one tunnel, and distinct ports touched by one source.\<close>

subsection \<open>One packet\<close>

text \<open>A user-plane packet over IPv4 from a source that is not blocked reaches the branch of the signaling ports.\<close>

lemma xdp_tunnel_signaling:
  assumes "packet_source pkt = Some src" "length src = 4" "packet_teid pkt \<noteq> 0" "\<not> is_blocked (x_blocklist s) src"
  shows "\<exists>gtp r dst psize v. xdp_packet_filter env pkt s = signaling_v4 env pkt gtp src dst GTPU_PORT psize v s \<and> parse_gtpu pkt gtp 0 = Some (r, packet_teid pkt)"
proof -
  obtain l3 v where x: "xdp_packet_filter env pkt s =
       (case datagram pkt of None \<Rightarrow> Some (XDP_PASS, s) | Some (et, d) \<Rightarrow> filter_l3 env pkt et l3 v s)"
     and dg: "\<And>et d. datagram pkt = Some (et, d) \<Longrightarrow> d = drop l3 pkt" using xdp_layers by metis
  have ne: "ETH_P_IPV6 \<noteq> ETH_P_IP" by (simp add: ETH_P_IPV6_def ETH_P_IP_def)
  have n6: "source6 b \<noteq> Some src" for b using source_length(2) [of b src] assms(2) by auto
  obtain d where d: "datagram pkt = Some (ETH_P_IP, d)" and src: "source4 d = Some src" and t: "packet_teid pkt = udp_teid (udp4 d)"
    using assms(1-3) ne n6 by (auto simp: packet_source_def packet_teid_def split: option.splits if_splits)
  obtain p where u: "udp4 d = Udp GTPU_PORT p" and tp: "packet_teid pkt = gtpu_teid p"
    using assms(3) t by (auto simp: udp_teid_def split: udp_view.splits if_splits)
  have p: "p = drop (l3 + ihl_of d * 4 + 8) pkt"
    using u dg [OF d] by (auto simp: udp4_def udp_at_def add.commute add.left_commute split: if_splits)
  obtain r where "parse_gtpu pkt (l3 + ihl_of d * 4 + 8) 0 = Some (r, packet_teid pkt)" using parse_gtpu_total tp p by metis
  moreover have "xdp_packet_filter env pkt s = signaling_v4 env pkt (l3 + ihl_of d * 4 + 8) src (take 4 (drop 16 d)) GTPU_PORT (of_nat (length p)) v s"
    using d ne assms(4) src u by (simp add: x filter_l3_def filter_ipv4_layers dg [OF d, symmetric] Let_def report_v4_def is_signaling_port_def)
  ultimately show ?thesis by blast
qed

lemma tunnel_blocklist_counted: "x_tunnel_blocklist (track_signal_rate env src now (s\<lparr>x_ktimes := k\<rparr>)) = x_tunnel_blocklist s"
  using counted_tracks(1) [of s env src now k] by (simp add: counted_only_def same_blocklists_def)

lemma xdp_tunnel_packet:
  assumes "packet_source pkt = Some src" "length src = 4" "packet_teid pkt \<noteq> 0" "\<not> table_blocks s (Some src) (packet_teid pkt)"
  shows "\<exists>dst psize mal v. xdp_packet_filter env pkt s =
     (let now = ktime_get_ns env (x_ktimes s); s1 = track_signal_rate env src now (s\<lparr>x_ktimes := Suc (x_ktimes s)\<rparr>) in
      case track_tunnel_rate env src (packet_teid pkt) now s1 of
        (c, s2) \<Rightarrow> Some (XDP_PASS, emit_signaling_event env src dst GTPU_PORT psize SignalProtoGTPU mal v (packet_teid pkt) c s2))"
proof -
  have nb: "\<not> is_blocked (x_blocklist s) src"
      "\<not> is_blocked (x_tunnel_blocklist s) (tunnelRateKey_bytes \<lparr>tk_Saddr = le_Uint32 src, tk_TEID = packet_teid pkt\<rparr>)"
    using assms(2-4) by (auto simp: table_blocks_def tunnel_key_of_def)
  obtain gtp r dst psize v where "xdp_packet_filter env pkt s = signaling_v4 env pkt gtp src dst GTPU_PORT psize v s" "parse_gtpu pkt gtp 0 = Some (r, packet_teid pkt)"
    using xdp_tunnel_signaling [OF assms(1-3) nb(1)] by blast
  then show ?thesis
    using assms(3) nb(2) by (auto simp: signaling_v4_def bpf_ktime_get_ns_def tunnel_blocklist_counted Let_def split: prod.splits)
qed

text \<open>
  A packet dropped for its tunnel has already been counted for its source: \<open>signal_rate\<close>, which later records of other tunnels behind the same address are reported with,
  goes on counting traffic that never reaches the workload.
\<close>

theorem tunnel_drop_still_counted:
  assumes "packet_source pkt = Some src" "length src = 4" "packet_teid pkt \<noteq> 0" "\<not> is_blocked (x_blocklist s) src"
    and "is_blocked (x_tunnel_blocklist s) (tunnel_key_of src (packet_teid pkt))"
  shows "xdp_packet_filter env pkt s =
    Some (XDP_DROP, track_signal_rate env src (ktime_get_ns env (x_ktimes s)) (s\<lparr>x_ktimes := Suc (x_ktimes s)\<rparr>))"
proof -
  obtain gtp r dst psize v where "xdp_packet_filter env pkt s = signaling_v4 env pkt gtp src dst GTPU_PORT psize v s" "parse_gtpu pkt gtp 0 = Some (r, packet_teid pkt)"
    using xdp_tunnel_signaling [OF assms(1-4)] by blast
  then show ?thesis
    using assms(2,3,5) by (simp add: signaling_v4_def bpf_ktime_get_ns_def tunnel_blocklist_counted tunnel_key_of_def Let_def)
qed

text \<open>What any packet does to the clock and to the table of the tunnels.\<close>

definition tunnel_step :: "xdp_env \<Rightarrow> (bytes \<times> u32) option \<Rightarrow> xdp \<Rightarrow> xdp \<Rightarrow> bool" where
  "tunnel_step env tun s s' \<longleftrightarrow> x_ktimes s \<le> x_ktimes s' \<and>
     (x_tunnel_rate s' = x_tunnel_rate s \<or>
      (\<exists>src teid n now. tun = Some (src, teid) \<and> x_tunnel_rate s' = fst (snd (count_packet env n (tunnel_key_of src teid) now (x_tunnel_rate s)))))"

lemma quiet_parts:
  "x_tunnel_rate (emit_signaling_event env a b c e f g h i j s) = x_tunnel_rate s" "x_ktimes (emit_signaling_event env a b c e f g h i j s) = x_ktimes s + (if ringbuf_room env (x_reserves s) then 1 else 0)"
  "x_tunnel_rate (emit_signaling_event_v6 env a b c e f g h i j s) = x_tunnel_rate s" "x_ktimes (emit_signaling_event_v6 env a b c e f g h i j s) = x_ktimes s + (if ringbuf_room env (x_reserves s) then 1 else 0)"
  "track_scan_rate env a c now s = (q, s1) \<Longrightarrow> x_tunnel_rate s1 = x_tunnel_rate s \<and> x_ktimes s1 = x_ktimes s"
  "track_port_scan env a c now s = (z, s1) \<Longrightarrow> x_tunnel_rate s1 = x_tunnel_rate s \<and> x_ktimes s1 = x_ktimes s"
  "track_scan_rate_v6 env a c now s = (q, s1) \<Longrightarrow> x_tunnel_rate s1 = x_tunnel_rate s \<and> x_ktimes s1 = x_ktimes s"
  "track_port_scan_v6 env a c now s = (z, s1) \<Longrightarrow> x_tunnel_rate s1 = x_tunnel_rate s \<and> x_ktimes s1 = x_ktimes s"
  "track_tunnel_rate_v6 env a i now s = (q, s1) \<Longrightarrow> x_tunnel_rate s1 = x_tunnel_rate s \<and> x_ktimes s1 = x_ktimes s"
  "x_tunnel_rate (track_signal_rate env a now s) = x_tunnel_rate s" "x_ktimes (track_signal_rate env a now s) = x_ktimes s"
  "x_tunnel_rate (track_signal_rate_v6 env a now s) = x_tunnel_rate s" "x_ktimes (track_signal_rate_v6 env a now s) = x_ktimes s"
  by (auto simp: emit_defs track_defs Let_def split: prod.splits)

lemma off_port_tunnels:
  "tunnel_step env None s (off_port_v4 env src dst port psize v s)" "tunnel_step env None s (off_port_v6 env src dst port psize v s)"
  by (auto simp: off_port_v4_def off_port_v6_def tunnel_step_def bpf_ktime_get_ns_def Let_def quiet_parts split: prod.splits
      dest!: quiet_parts(5-8))

lemma track_tunnel_rate_effect:
  assumes "track_tunnel_rate env src teid now s = (c, s1)" "length src = 4"
  shows "x_tunnel_rate s1 = fst (snd (count_packet env (x_updates s) (tunnel_key_of src teid) now (x_tunnel_rate s)))"
    and "c = fst (count_packet env (x_updates s) (tunnel_key_of src teid) now (x_tunnel_rate s)) + 1"
    and "x_ktimes s1 = x_ktimes s" "x_events s1 = x_events s" "x_reserves s1 = x_reserves s"
  using assms by (auto simp: track_tunnel_rate_def tunnel_key_of_def split: prod.splits)

lemma signaling_tunnels:
  assumes "length src = 4" "signaling_v4 env pkt gtp src dst port psize v s = Some (act, s')"
  shows "tunnel_step env (if port = GTPU_PORT \<and> gtpu_teid (drop gtp pkt) \<noteq> 0 then Some (src, gtpu_teid (drop gtp pkt)) else None) s s'"
proof -
  obtain r where p: "parse_gtpu pkt gtp 0 = Some (r, gtpu_teid (drop gtp pkt))" using parse_gtpu_total by blast
  define now where "now = ktime_get_ns env (x_ktimes s)"
  define s1 where "s1 = track_signal_rate env src now (s\<lparr>x_ktimes := Suc (x_ktimes s)\<rparr>)"
  obtain c s2 where c: "track_tunnel_rate env src (gtpu_teid (drop gtp pkt)) now s1 = (c, s2)" by fastforce
  note e = track_tunnel_rate_effect [OF c assms(1)]
  have s1: "x_tunnel_rate s1 = x_tunnel_rate s" "x_ktimes s1 = Suc (x_ktimes s)" by (simp_all add: s1_def quiet_parts)
  show ?thesis
  proof (cases "port = GTPU_PORT \<and> gtpu_teid (drop gtp pkt) \<noteq> 0")
    case True
    then have "s' = s1 \<or> s' = emit_signaling_event env src dst port psize SignalProtoGTPU (r = GTPU_PARSE_MALFORMED) v (gtpu_teid (drop gtp pkt)) c s2"
      using assms(2) by (auto simp: signaling_v4_def p bpf_ktime_get_ns_def Let_def now_def [symmetric] s1_def [symmetric] c split: if_splits)
    then show ?thesis
    proof
      assume "s' = s1"
      then show ?thesis using True s1 by (simp add: tunnel_step_def)
    next
      assume s': "s' = emit_signaling_event env src dst port psize SignalProtoGTPU (r = GTPU_PARSE_MALFORMED) v (gtpu_teid (drop gtp pkt)) c s2"
      have "x_tunnel_rate s' = fst (snd (count_packet env (x_updates s1) (tunnel_key_of src (gtpu_teid (drop gtp pkt))) now (x_tunnel_rate s)))"
        using e(1) s1(1) by (simp add: s' quiet_parts)
      moreover have "x_ktimes s \<le> x_ktimes s'" using e(3) s1(2) by (simp add: s' quiet_parts)
      ultimately show ?thesis unfolding tunnel_step_def using True by auto
    qed
  next
    case False
    then obtain proto mal where "s' = emit_signaling_event env src dst port psize proto mal v 0 0 s1"
      using assms(2) by (auto simp: signaling_v4_def p bpf_ktime_get_ns_def Let_def now_def [symmetric] s1_def [symmetric] split: if_splits)
    then show ?thesis using False s1 by (auto simp: tunnel_step_def quiet_parts)
  qed
qed

lemma signaling_tunnels_v6: "signaling_v6 env pkt gtp src dst port psize v s = Some (act, s') \<Longrightarrow> tunnel_step env None s s'"
proof -
  obtain r where p: "parse_gtpu pkt gtp 0 = Some (r, gtpu_teid (drop gtp pkt))" using parse_gtpu_total by blast
  assume "signaling_v6 env pkt gtp src dst port psize v s = Some (act, s')"
  then show ?thesis
    by (auto simp: signaling_v6_def p tunnel_step_def bpf_ktime_get_ns_def Let_def quiet_parts split: prod.splits if_splits dest!: quiet_parts(9))
qed


lemma tunnel_step_same: "tunnel_step env tun s s"
  by (simp add: tunnel_step_def)

lemma tunnel_step_None: "tunnel_step env None s s' \<Longrightarrow> tunnel_step env tun s s'"
  by (simp add: tunnel_step_def)

lemma report_tunnels:
  assumes "length src = 4" "\<And>port p. u = Udp port p \<Longrightarrow> p = drop gtp pkt" "report_v4 env pkt gtp src dst v u s = Some (act, s')"
  shows "tunnel_step env (if udp_teid u \<noteq> 0 then Some (src, udp_teid u) else None) s s'"
proof (cases u)
  case NoUdp
  then show ?thesis using assms(3) by (simp add: report_v4_def tunnel_step_same)
next
  case ShortUdp
  then show ?thesis using assms(3) by (auto simp: report_v4_def tunnel_step_def quiet_parts udp_teid_def)
next
  case (Udp port p)
  show ?thesis
  proof (cases "is_signaling_port port")
    case True
    then show ?thesis
      using signaling_tunnels [OF assms(1), of env pkt gtp dst port "of_nat (length p)" v s act s'] assms(2,3) Udp by (simp add: report_v4_def udp_teid_def split: if_splits)
  next
    case False
    then show ?thesis using assms(3) Udp off_port_tunnels(1) [THEN tunnel_step_None] by (auto simp: report_v4_def)
  qed
qed

lemma report_tunnels_v6:
  assumes "report_v6 env pkt gtp src dst v u s = Some (act, s')"
  shows "tunnel_step env None s s'"
proof (cases u)
  case (Udp port p)
  then show ?thesis
    using assms off_port_tunnels(2) signaling_tunnels_v6 by (cases "is_signaling_port port") (auto simp: report_v6_def)
qed (use assms in \<open>auto simp: report_v6_def tunnel_step_def quiet_parts\<close>)

text \<open>The tunnel of an IPv4 packet.\<close>

definition packet_tunnel :: "bytes \<Rightarrow> (ip \<times> u32) option" where
  "packet_tunnel pkt = (case packet_source pkt of
     Some src \<Rightarrow> if length src = 4 \<and> packet_teid pkt \<noteq> 0 then Some (src, packet_teid pkt) else None | None \<Rightarrow> None)"

lemma filter_tunnels:
  "filter_ipv4 env pkt l3 v s = Some (act, s') \<Longrightarrow>
     tunnel_step env (case source4 (drop l3 pkt) of
       Some src \<Rightarrow> if udp_teid (udp4 (drop l3 pkt)) \<noteq> 0 then Some (src, udp_teid (udp4 (drop l3 pkt))) else None | None \<Rightarrow> None) s s'"
  "filter_ipv6 env pkt l3 v s = Some (act, s') \<Longrightarrow> tunnel_step env None s s'"
proof -
  let ?d = "drop l3 pkt"
  assume f: "filter_ipv4 env pkt l3 v s = Some (act, s')"
  show "tunnel_step env (case source4 ?d of Some src \<Rightarrow> if udp_teid (udp4 ?d) \<noteq> 0 then Some (src, udp_teid (udp4 ?d)) else None | None \<Rightarrow> None) s s'"
  proof (cases "source4 ?d")
    case None
    then show ?thesis using f by (simp add: filter_ipv4_layers Let_def tunnel_step_same)
  next
    case (Some src)
    have "p = drop (l3 + ihl_of ?d * 4 + 8) pkt" if "udp4 ?d = Udp port p" for port p
      using that by (auto simp: udp4_def udp_at_def add.commute add.left_commute split: if_splits)
    note r = report_tunnels [OF source_length(1) [OF Some] this]
    show ?thesis
      using f Some r by (cases "is_blocked (x_blocklist s) src") (auto simp: filter_ipv4_layers Let_def tunnel_step_same)
  qed
next
  assume "filter_ipv6 env pkt l3 v s = Some (act, s')"
  then show "tunnel_step env None s s'"
    using report_tunnels_v6 by (auto simp: filter_ipv6_layers Let_def tunnel_step_same split: option.splits if_splits)
qed

lemma xdp_tunnels:
  assumes "xdp_packet_filter env pkt s = Some (act, s')"
  shows "tunnel_step env (packet_tunnel pkt) s s'"
proof -
  obtain l3 v where x: "xdp_packet_filter env pkt s =
       (case datagram pkt of None \<Rightarrow> Some (XDP_PASS, s) | Some (et, d) \<Rightarrow> filter_l3 env pkt et l3 v s)"
     and dg: "\<And>et d. datagram pkt = Some (et, d) \<Longrightarrow> d = drop l3 pkt" using xdp_layers by metis
  show ?thesis
  proof (cases "datagram pkt")
    case None
    then show ?thesis using assms x by (simp add: tunnel_step_same)
  next
    case (Some z)
    obtain et d where z: "z = (et, d)" by fastforce
    note d = dg [OF Some [unfolded z]]
    have run: "filter_l3 env pkt et l3 v s = Some (act, s')" using assms x Some z by simp
    have ne: "ETH_P_IPV6 \<noteq> ETH_P_IP" by (simp add: ETH_P_IPV6_def ETH_P_IP_def)
    consider "et = ETH_P_IPV6" | "et = ETH_P_IP" | "et \<noteq> ETH_P_IPV6" "et \<noteq> ETH_P_IP" by blast
    then show ?thesis
    proof cases
      case 1
      then show ?thesis using run filter_tunnels(2) tunnel_step_None by (auto simp: filter_l3_def)
    next
      case 2
      then have "packet_tunnel pkt = (case source4 d of Some src \<Rightarrow> if udp_teid (udp4 d) \<noteq> 0 then Some (src, udp_teid (udp4 d)) else None | None \<Rightarrow> None)"
        using Some z ne by (auto simp: packet_tunnel_def packet_source_def packet_teid_def source_length split: option.splits)
      then show ?thesis using run filter_tunnels(1) [of env pkt l3 v s act s', folded d] 2 ne by (simp add: filter_l3_def)
    next
      case 3
      then show ?thesis using run by (simp add: filter_l3_def tunnel_step_same)
    qed
  qed
qed

subsection \<open>A flood\<close>

fun xdp_run :: "xdp_env \<Rightarrow> bytes list \<Rightarrow> xdp \<Rightarrow> xdp option" where
  "xdp_run env [] s = Some s"
| "xdp_run env (pkt # pkts) s = (case xdp_packet_filter env pkt s of None \<Rightarrow> None | Some (_, s') \<Rightarrow> xdp_run env pkts s')"

text \<open>The rates reported for one tunnel, in the order of the records.\<close>

definition tunnel_rates :: "ip \<Rightarrow> u32 \<Rightarrow> rawSignalingEvent list \<Rightarrow> u32 list" where
  "tunnel_rates src teid evs = map r_TunnelRate (filter (\<lambda>r. put_u32 (Saddr r) = src \<and> r_TEID r = teid \<and> r_Protocol r = SignalProtoGTPU) evs)"

definition in_tunnel :: "ip \<Rightarrow> u32 \<Rightarrow> bytes \<Rightarrow> bool" where
  "in_tunnel src teid pkt \<longleftrightarrow> packet_source pkt = Some src \<and> packet_teid pkt = teid"

text \<open>The helpers in a quiet second: no entry is evicted, the ring buffer has room, and the clock moves on by one window at most.\<close>

definition one_window :: "xdp_env \<Rightarrow> bool" where
  "one_window env \<longleftrightarrow> (\<forall>n. evicted env n = Some {} \<and> ringbuf_room env n) \<and>
     (\<forall>i j. i \<le> j \<longrightarrow> ktime_get_ns env j - ktime_get_ns env i \<le> SIGNALING_RATE_WINDOW_NS)"

lemma tunnel_key_inj: "length a = 4 \<Longrightarrow> length b = 4 \<Longrightarrow> tunnel_key_of a t = tunnel_key_of b u \<Longrightarrow> a = b \<and> t = u"
  by (auto simp: tunnel_key_of_def tunnelRateKey_bytes_def) (metis put_u32_le_Uint32, metis le_Uint_put(5))

lemma count_packet_other:
  assumes "\<And>n. evicted env n = Some {}" "key \<noteq> key'"
  shows "fst (snd (count_packet env n key' now t)) key = t key"
  using assms by (auto simp: count_packet_def bpf_map_update_elem_def split: option.splits)

lemma rates_append: "tunnel_rates src teid (a @ b) = tunnel_rates src teid a @ tunnel_rates src teid b"
  by (simp add: tunnel_rates_def)

text \<open>The tunnel has been counted \<open>m\<close> times since a reading of the clock.\<close>

definition counted_so_far :: "xdp_env \<Rightarrow> ip \<Rightarrow> u32 \<Rightarrow> nat \<Rightarrow> xdp \<Rightarrow> bool" where
  "counted_so_far env src teid m s \<longleftrightarrow> \<not> table_blocks s (Some src) teid \<and>
     (case x_tunnel_rate s (tunnel_key_of src teid) of
        None \<Rightarrow> m = 0
      | Some e \<Rightarrow> 0 < m \<and> re_Count e = of_nat m \<and> (\<exists>i \<le> x_ktimes s. re_WindowStartNs e = ktime_get_ns env i))"

lemma table_blocks_same: "same_blocklists s s' \<Longrightarrow> table_blocks s' so teid = table_blocks s so teid"
  by (simp add: table_blocks_def same_blocklists_def split: option.split)

lemma step_other:
  assumes "one_window env" "length src = 4" "teid \<noteq> 0" "\<not> in_tunnel src teid pkt" "counted_so_far env src teid m s"
    and "xdp_packet_filter env pkt s = Some (act, s')"
  shows "counted_so_far env src teid m s' \<and> tunnel_rates src teid (x_events s') = tunnel_rates src teid (x_events s)"
proof -
  have same: "same_blocklists s s'" and r: "reports env (packet_source pkt) (packet_teid pkt) s act s'" using xdp_effect [of env pkt s] assms(6) by auto
  have ev: "evicted env n = Some {}" for n using assms(1) by (simp add: one_window_def)
  note st = xdp_tunnels [OF assms(6), unfolded tunnel_step_def]
  have key: "x_tunnel_rate s' (tunnel_key_of src teid) = x_tunnel_rate s (tunnel_key_of src teid)"
  proof (rule conjunct2 [OF st, THEN disjE])
    assume "\<exists>src0 t n now. packet_tunnel pkt = Some (src0, t) \<and> x_tunnel_rate s' = fst (snd (count_packet env n (tunnel_key_of src0 t) now (x_tunnel_rate s)))"
    then obtain src0 t n now where p: "packet_tunnel pkt = Some (src0, t)"
      and x: "x_tunnel_rate s' = fst (snd (count_packet env n (tunnel_key_of src0 t) now (x_tunnel_rate s)))" by blast
    have "length src0 = 4" "(src0, t) \<noteq> (src, teid)"
      using p assms(4) by (auto simp: packet_tunnel_def in_tunnel_def split: option.splits if_splits)
    then have "tunnel_key_of src teid \<noteq> tunnel_key_of src0 t" using tunnel_key_inj assms(2) by blast
    then show ?thesis using count_packet_other [OF ev] x by metis
  qed simp
  have "tunnel_rates src teid (x_events s') = tunnel_rates src teid (x_events s)"
    using r assms(4) by (auto simp: reports_def rates_append in_tunnel_def) (auto simp: tunnel_rates_def filter_empty_conv)
  moreover have "counted_so_far env src teid m s'"
    using assms(5) key st table_blocks_same [OF same] by (auto simp: counted_so_far_def split: option.splits intro: order_trans)
  ultimately show ?thesis by simp
qed

lemma step_tunnel:
  assumes "one_window env" "length src = 4" "teid \<noteq> 0" "in_tunnel src teid pkt" "counted_so_far env src teid m s"
    and "xdp_packet_filter env pkt s = Some (act, s')"
  shows "counted_so_far env src teid (Suc m) s' \<and> tunnel_rates src teid (x_events s') = tunnel_rates src teid (x_events s) @ [of_nat (Suc m)]"
proof -
  define now where "now = ktime_get_ns env (x_ktimes s)"
  define s1 where "s1 = track_signal_rate env src now (s\<lparr>x_ktimes := Suc (x_ktimes s)\<rparr>)"
  let ?key = "tunnel_key_of src teid"
  obtain c s2 where c: "track_tunnel_rate env src teid now s1 = (c, s2)" by fastforce
  note e = track_tunnel_rate_effect [OF c assms(2)]
  have pk: "packet_source pkt = Some src" "packet_teid pkt = teid" using assms(4) by (simp_all add: in_tunnel_def)
  have nb: "\<not> table_blocks s (Some src) teid" using assms(5) by (simp add: counted_so_far_def)
  obtain dst psize mal v where s': "s' = emit_signaling_event env src dst GTPU_PORT psize SignalProtoGTPU mal v teid c s2"
    using xdp_tunnel_packet [OF pk(1) assms(2), of s env] pk(2) nb assms(3,6) c by (auto simp: Let_def now_def [symmetric] s1_def [symmetric])
  have s1: "x_tunnel_rate s1 = x_tunnel_rate s" "x_ktimes s1 = Suc (x_ktimes s)" "x_events s1 = x_events s"
    using counted_tracks(1) [of s env src now "Suc (x_ktimes s)"] by (simp_all add: s1_def quiet_parts counted_only_def)
  have same: "same_blocklists s s'" using xdp_effect [of env pkt s] assms(6) by auto
  have ev: "evicted env n = Some {}" and room: "ringbuf_room env n" for n using assms(1) by (simp_all add: one_window_def)
  have win: "now - ktime_get_ns env i \<le> SIGNALING_RATE_WINDOW_NS" if "i \<le> x_ktimes s" for i using assms(1) that by (simp add: one_window_def now_def)
  have cnt: "c = of_nat (Suc m) \<and> (\<exists>e'. x_tunnel_rate s2 ?key = Some e' \<and> re_Count e' = of_nat (Suc m) \<and> (\<exists>i \<le> x_ktimes s. re_WindowStartNs e' = ktime_get_ns env i))"
  proof (cases "x_tunnel_rate s ?key")
    case None
    then show ?thesis using assms(5) e s1(1) ev by (auto simp: counted_so_far_def count_packet_def bpf_map_update_elem_def now_def)
  next
    case (Some en)
    obtain i where i: "i \<le> x_ktimes s" "re_WindowStartNs en = ktime_get_ns env i" and m: "re_Count en = of_nat m" using assms(5) Some by (auto simp: counted_so_far_def)
    have "\<not> now - re_WindowStartNs en > SIGNALING_RATE_WINDOW_NS" using win [OF i(1)] by (simp add: i(2) not_less)
    then show ?thesis using e s1(1) Some i m by (auto simp: count_packet_def)
  qed
  have "x_events s' = x_events s @ [\<lparr>TimestampNs = ktime_get_ns env (x_ktimes s2), Saddr = le_Uint32 src, Daddr = le_Uint32 dst, r_DestPort = GTPU_PORT,
      r_PayloadSize = psize, r_Protocol = SignalProtoGTPU, r_Malformed = (if mal then 1 else 0), r_VlanID = v, r_TEID = teid, r_TunnelRate = c\<rparr>]"
    using e(4) s1(3) by (simp add: s' emit_defs room Let_def)
  then have "tunnel_rates src teid (x_events s') = tunnel_rates src teid (x_events s) @ [of_nat (Suc m)]"
    using cnt assms(2) by (simp add: rates_append) (simp add: tunnel_rates_def put_u32_le_Uint32)
  moreover have "x_ktimes s \<le> x_ktimes s'" using s1(2) e(3) by (simp add: s' quiet_parts)
  moreover have "x_tunnel_rate s' = x_tunnel_rate s2" by (simp add: s' quiet_parts)
  moreover from cnt obtain e' i where "x_tunnel_rate s2 ?key = Some e'" "re_Count e' = of_nat (Suc m)" "i \<le> x_ktimes s" "re_WindowStartNs e' = ktime_get_ns env i"
    by blast
  ultimately show ?thesis
    using nb table_blocks_same [OF same] unfolding counted_so_far_def by (auto intro!: exI [of _ i])
qed

lemma tunnel_counts:
  assumes "one_window env" "length src = 4" "teid \<noteq> 0"
    and "\<not> table_blocks s (Some src) teid" "x_tunnel_rate s (tunnel_key_of src teid) = None" "xdp_run env pkts s = Some s'"
  shows "tunnel_rates src teid (x_events s') = tunnel_rates src teid (x_events s) @ map of_nat [1..<Suc (length (filter (in_tunnel src teid) pkts))]"
proof -
  have "tunnel_rates src teid (x_events s') = tunnel_rates src teid (x_events s) @ map of_nat [Suc m..<Suc (m + length (filter (in_tunnel src teid) pkts))]"
    if "counted_so_far env src teid m s" "xdp_run env pkts s = Some s'" for m pkts s
    using that
  proof (induction pkts arbitrary: m s)
    case (Cons pkt pkts)
    obtain act s1 where x: "xdp_packet_filter env pkt s = Some (act, s1)" and run: "xdp_run env pkts s1 = Some s'"
      using Cons.prems(2) by (auto split: option.splits)
    show ?case
    proof (cases "in_tunnel src teid pkt")
      case True
      note st = step_tunnel [OF assms(1-3) True Cons.prems(1) x]
      have up: "[Suc m..<Suc (m + Suc l)] = Suc m # [Suc (Suc m)..<Suc (Suc m + l)]" for l by (simp add: upt_conv_Cons)
      show ?thesis using Cons.IH [OF conjunct1 [OF st] run] st True up [of "length (filter (in_tunnel src teid) pkts)"] by (simp del: upt_Suc of_nat_Suc)
    next
      case False
      note st = step_other [OF assms(1-3) False Cons.prems(1) x]
      show ?thesis using Cons.IH [OF conjunct1 [OF st] run] st False by simp
    qed
  qed simp
  from this [of 0 s pkts] show ?thesis using assms(4-6) by (simp add: counted_so_far_def)
qed



definition still_env :: xdp_env where
  "still_env = \<lparr>ktime_get_ns = (\<lambda>_. 0), evicted = (\<lambda>_. Some {}), ringbuf_room = (\<lambda>_. True)\<rparr>"

lemma xdp_run_total: "\<exists>s'. xdp_run env pkts s = Some s'"
proof (induction pkts arbitrary: s)
  case (Cons p pkts)
  obtain act s1 where "xdp_packet_filter env p s = Some (act, s1)" using xdp_effect [of env p s] by blast
  then show ?case using Cons.IH [of s1] by simp
qed simp

lemma still_window: "one_window still_env"
  by (simp add: one_window_def still_env_def)

lemma mem_tables_free:
  "\<not> table_blocks (tables_of mem_kernel) (Some [10, 0, 0, 1]) 7" "x_tunnel_rate (tables_of mem_kernel) key = None" "x_events (tables_of mem_kernel) = []"
  by (simp_all add: table_blocks_def tables_of_def is_blocked_def mem_kernel_def mem_sys_def Let_def)


subsection \<open>A port scan\<close>

fun scan_run :: "xdp_env \<Rightarrow> bytes \<Rightarrow> (u16 \<times> u64) list \<Rightarrow> xdp \<Rightarrow> bool list" where
  "scan_run env src [] s = []"
| "scan_run env src ((port, now) # touches) s = (case track_port_scan env src port now s of (report, s') \<Rightarrow> report # scan_run env src touches s')"

text \<open>The entry of a source that has touched the ports \<open>D\<close> since \<open>t0\<close>.\<close>

definition scan_entry :: "u64 \<Rightarrow> u16 set \<Rightarrow> port_scan_entry \<Rightarrow> bool" where
  "scan_entry t0 D e \<longleftrightarrow> ps_window_start_ns e = t0 \<and> length (ps_ports e) = MULTIPORT_SCAN_THRESHOLD \<and> ps_distinct_count e \<le> MULTIPORT_SCAN_THRESHOLD \<and>
     ps_emitted e = (ps_distinct_count e = MULTIPORT_SCAN_THRESHOLD) \<and> distinct (take (ps_distinct_count e) (ps_ports e)) \<and>
     set (take (ps_distinct_count e) (ps_ports e)) \<subseteq> D \<and> finite D \<and>
     (ps_distinct_count e < MULTIPORT_SCAN_THRESHOLD \<longrightarrow> set (take (ps_distinct_count e) (ps_ports e)) = D)"

lemma scan_entry_card:
  assumes "scan_entry t0 D e"
  shows "ps_distinct_count e < MULTIPORT_SCAN_THRESHOLD \<Longrightarrow> card D = ps_distinct_count e"
    and "ps_distinct_count e = MULTIPORT_SCAN_THRESHOLD \<Longrightarrow> MULTIPORT_SCAN_THRESHOLD \<le> card D"
proof -
  let ?s = "set (take (ps_distinct_count e) (ps_ports e))"
  have c: "card ?s = ps_distinct_count e" using assms by (simp add: scan_entry_def distinct_card)
  have sub: "finite D" "?s \<subseteq> D" using assms by (simp_all add: scan_entry_def)
  show "ps_distinct_count e < MULTIPORT_SCAN_THRESHOLD \<Longrightarrow> card D = ps_distinct_count e" using assms c by (simp add: scan_entry_def)
  show "ps_distinct_count e = MULTIPORT_SCAN_THRESHOLD \<Longrightarrow> MULTIPORT_SCAN_THRESHOLD \<le> card D"
    using c card_mono [OF sub] by simp
qed

lemma scan_step:
  assumes "x_port_scan s src = Some e" "scan_entry t0 D e" "now - t0 \<le> MULTIPORT_SCAN_WINDOW_NS" "track_port_scan env src port now s = (report, s')"
  shows "(report \<longleftrightarrow> card (insert port D) = MULTIPORT_SCAN_THRESHOLD \<and> card D < MULTIPORT_SCAN_THRESHOLD) \<and>
    (\<exists>e'. x_port_scan s' src = Some e' \<and> scan_entry t0 (insert port D) e')"
proof -
  let ?N = MULTIPORT_SCAN_THRESHOLD and ?s = "set (take (ps_distinct_count e) (ps_ports e))"
  note se = assms(2) [unfolded scan_entry_def]
  have win: "\<not> now - ps_window_start_ns e > MULTIPORT_SCAN_WINDOW_NS" using assms(3) se by simp
  show ?thesis
  proof (cases "ps_emitted e")
    case True
    then have "report = False" "x_port_scan s' src = Some e" using assms(1,4) win by (auto simp: track_port_scan_def port_touched_def Let_def)
    moreover have "scan_entry t0 (insert port D) e" using se True by (auto simp: scan_entry_def)
    ultimately show ?thesis using scan_entry_card(2) [OF assms(2)] se True by auto
  next
    case False
    then have lt: "ps_distinct_count e < ?N" and D: "?s = D" using se by auto
    note cD = scan_entry_card(1) [OF assms(2) lt]
    show ?thesis
    proof (cases "port \<in> D")
      case True
      then have "report = False" "x_port_scan s' src = Some e" using assms(1,4) win False D by (auto simp: track_port_scan_def port_touched_def Let_def)
      then show ?thesis using assms(2) True cD lt by (simp add: insert_absorb)
    next
      case new: False
      let ?e = "e\<lparr>ps_ports := (ps_ports e)[ps_distinct_count e := port], ps_distinct_count := Suc (ps_distinct_count e), ps_emitted := (Suc (ps_distinct_count e) = ?N)\<rparr>"
      have tk: "take (Suc (ps_distinct_count e)) ((ps_ports e)[ps_distinct_count e := port]) = take (ps_distinct_count e) (ps_ports e) @ [port]"
        using lt se by (simp add: take_Suc_conv_app_nth)
      have "report = (Suc (ps_distinct_count e) = ?N)" "x_port_scan s' src = Some ?e"
        using assms(1,4) win False D new lt by (auto simp: track_port_scan_def port_touched_def Let_def split: if_splits)
      moreover have "scan_entry t0 (insert port D) ?e"
        unfolding scan_entry_def using se lt new D by (simp add: tk)
      moreover have "card (insert port D) = Suc (ps_distinct_count e)" using new cD se by simp
      ultimately show ?thesis using cD lt by auto
    qed
  qed
qed



definition demo_touches :: "(u16 \<times> u64) list" where
  "demo_touches = map (\<lambda>n. (of_nat n, 0)) [0, 1, 1, 2, 3, 4, 5, 6, 7, 8, 9, 10, 11, 12, 13, 14, 15, 16]"


end
