(* ===== verification/Record_To_Drop.thy ===== *)
theory Record_To_Drop
  imports Operator_Main Packet_Rates
begin

text \<open>
  A packet followed through every component: the XDP program, the record in the ring buffer, the decoder, the normalised event, the tunnel detector, the message on the
  bus, the watcher, the entry in the kernel's blocklist, and the XDP program again.
\<close>

subsection \<open>What the mitigation counter claims\<close>

text \<open>How often a metric log counts a block of this kind (\<open>ebpf_block\<close> or \<open>ebpf_block_tunnel\<close>) as a success.\<close>

fun counts_success :: "string \<Rightarrow> metric_op \<Rightarrow> bool" where
  "counts_success act (Mitigations_Inc a outcome) = (a = act \<and> outcome = ''success'')"
| "counts_success act _ = False"

definition mitigated :: "string \<Rightarrow> metrics \<Rightarrow> nat" where
  "mitigated act ms = length (filter (counts_success act) ms)"

definition kernel_acts :: "string set" where
  "kernel_acts = {''ebpf_block'', ''ebpf_block_tunnel''}"

definition silent :: "('l, 'w, 'a) handler \<Rightarrow> bool" where
  "silent m \<longleftrightarrow> (\<forall>act \<in> kernel_acts. \<forall>s r s'. run_state m s = (r, s') \<longrightarrow> mitigated act (o_Metrics s') = mitigated act (o_Metrics s))"

lemma silentI:
  "(\<And>act s r s'. act \<in> kernel_acts \<Longrightarrow> run_state m s = (r, s') \<Longrightarrow> mitigated act (o_Metrics s') = mitigated act (o_Metrics s)) \<Longrightarrow> silent m"
  by (simp add: silent_def)

lemma silent_bind: "silent m \<Longrightarrow> (\<And>x. silent (f x)) \<Longrightarrow> silent (State_Monad.bind m f)"
  by (auto simp: silent_def split: prod.splits)

lemma silent_emit: "\<forall>act \<in> kernel_acts. \<forall>m \<in> set ms. \<not> counts_success act m \<Longrightarrow> silent (emit ms)"
  by (auto simp: silent_def mitigated_def filter_False)

lemma silent_basic: "silent (world f)" "silent (return x)" "silent (index_Put p)" "silent index_get"
  "silent (scoring_Observe env)" "silent (limiter_allows env k)"
  by (auto simp: silent_def scoring_Observe_def limiter_allows_def split: prod.splits option.splits)

lemma silent_Engaged: "silent (killSwitch_Engaged env)"
  by (auto simp: silent_def killSwitch_Engaged_def Engaged_def refresh_def mitigated_def Let_def split: prod.splits option.splits if_splits)

lemma silent_writeStatus: "silent (writeStatus env prev nxt)"
proof -
  have up: "silent (updateStatus env p)" for p
    unfolding updateStatus_def
    by (rule silent_bind [OF silent_basic(1)])
      (auto split: sum.split intro!: silent_basic silent_bind silent_emit simp: SetPolicyPhase_def)
  then show ?thesis
    by (auto simp: writeStatus_def intro!: silent_basic silent_bind silent_emit)
qed

lemma silent_act_quarantine: "silent (act_quarantine env policy sel)"
  unfolding act_quarantine_def
  by (rule silent_bind [OF silent_basic(1)]) (auto split: option.split intro!: silent_basic silent_bind silent_emit simp: kernel_acts_def)

context cluster
begin

text \<open>The log counts more than \<open>a\<close> (\<open>b\<close>) successes only if the address (the tunnel) is dropped.\<close>

definition told :: "bytes \<Rightarrow> u32 \<Rightarrow> nat \<Rightarrow> nat \<Rightarrow> ('l, 'w) op \<Rightarrow> bool" where
  "told src tei a b s \<longleftrightarrow> inv (o_World s) \<and>
     (a < mitigated ''ebpf_block'' (o_Metrics s) \<longrightarrow> src \<in> drops (o_World s)) \<and>
     (b < mitigated ''ebpf_block_tunnel'' (o_Metrics s) \<longrightarrow> (src, tei) \<in> tdrops (o_World s))"

lemma told_still:
  assumes "\<And>Q. triple (kernel_ok Q) m (\<lambda>_. kernel_ok Q)" "silent m"
  shows "triple (told src tei a b) m (\<lambda>_. told src tei a b)"
proof (rule tripleI)
  fix s r s' assume s: "told src tei a b s" "run_state m s = (r, s')"
  have "kernel_ok (\<lambda>d t. d = drops (o_World s) \<and> t = tdrops (o_World s)) s'"
    by (rule tripleD [OF assms(1) _ s(2)]) (use s(1) in \<open>simp add: kernel_ok_def told_def\<close>)
  moreover have "mitigated act (o_Metrics s') = mitigated act (o_Metrics s)" if "act \<in> kernel_acts" for act
    using assms(2) s(2) that by (simp add: silent_def)
  ultimately show "told src tei a b s'" using s(1) by (simp add: told_def kernel_ok_def kernel_acts_def)
qed

lemma told_act_block:
  assumes "valid_ip ip"
  shows "triple (told (canon ip) tei a b) (act_block env ip) (\<lambda>_. told (canon ip) tei a b)"
proof (rule tripleI)
  fix s r s' assume s: "told (canon ip) tei a b s" "run_state (act_block env ip) s = (r, s')"
  obtain x w' where x: "Block (updater env) ip (o_World s) = (x, w')" by fastforce
  have i: "inv (o_World s)" using s(1) by (simp add: told_def)
  show "told (canon ip) tei a b s'"
    using s x block [OF i assms x] by (auto simp: act_block_def told_def mitigated_def split: option.splits if_splits)
qed

lemma told_act_block_tunnel:
  assumes "valid_ip ip"
  shows "triple (told (canon ip) tei a b) (act_block_tunnel env ip tei) (\<lambda>_. told (canon ip) tei a b)"
proof (rule tripleI)
  fix s r s' assume s: "told (canon ip) tei a b s" "run_state (act_block_tunnel env ip tei) s = (r, s')"
  obtain x w' where x: "BlockTunnel (updater env) ip tei (o_World s) = (x, w')" by fastforce
  have i: "inv (o_World s)" using s(1) by (simp add: told_def)
  show "told (canon ip) tei a b s'"
    using s x block_tunnel [OF i assms x] by (auto simp: act_block_tunnel_def told_def mitigated_def split: option.splits if_splits)
qed

lemma told_mitigate:
  assumes ip: "ParseIP (ts_SourceIP event) = Some ip"
  shows "triple (told (canon ip) (ts_TEID event) a b) (mitigate env policy event latest) (\<lambda>_. told (canon ip) (ts_TEID event) a b)"
proof -
  note v = ParseIP_valid [OF ip]
  have e: "triple (told (canon ip) (ts_TEID event) a b) (emit [ThresholdCrossings_Inc x y z]) (\<lambda>_. told (canon ip) (ts_TEID event) a b)" for x y z
    by (rule told_still [OF still_local(1) silent_emit]) simp
  have e': "triple (told (canon ip) (ts_TEID event) a b) (emit (if c then [Mitigations_Inc ''ebpf_block_tunnel'' ''no_teid''] else []))
      (\<lambda>_. told (canon ip) (ts_TEID event) a b)" for c
    by (rule told_still [OF still_local(1) silent_emit]) simp
  note c = told_still [OF still_neutral(1) silent_basic(1), of "canon ip" "ts_TEID event" a b]
  note w = told_still [OF still_writeStatus silent_writeStatus, of "canon ip" "ts_TEID event" a b]
  note q = told_still [OF still_act_quarantine silent_act_quarantine, of "canon ip" "ts_TEID event" a b]
  note n = told_still [OF still_local(5) silent_basic(2), of "canon ip" "ts_TEID event" a b]
  show ?thesis unfolding mitigate_def Let_def ip option.sel
    by (rule triple_bind [OF e], rule triple_bind [OF e'], rule triple_bind [OF c])
      (auto intro!: triple_or_fail_same triple_if_dep w q n told_act_block [OF v] told_act_block_tunnel [OF v] split: option.split)
qed

lemma told_handle:
  assumes ip: "ParseIP (ts_SourceIP event) = Some ip"
  shows "triple (told (canon ip) (ts_TEID event) a b) (handle env tw event) (\<lambda>_. told (canon ip) (ts_TEID event) a b)"
proof -
  let ?I = "told (canon ip) (ts_TEID event) a b"
  have e: "triple ?I (emit ms) (\<lambda>_. ?I)" if "\<forall>m \<in> set ms. \<forall>act. \<not> counts_success act m" for ms
    by (rule told_still [OF still_local(1) silent_emit]) (use that in simp)
  note w = told_still [OF still_writeStatus silent_writeStatus, of "canon ip" "ts_TEID event" a b]
  note k = told_still [OF still_shared(4) silent_Engaged, of "canon ip" "ts_TEID event" a b]
  have app: "triple ?I (applyPolicy env tw policy event) (\<lambda>_. ?I)" for policy
    unfolding applyPolicy_def Let_def by (auto intro!: w triple_bind [OF e] triple_bind [OF k] told_mitigate [OF ip])
  have n: "triple ?I (return x) (\<lambda>_. ?I)" for x :: "err option" by (rule triple_return)
  have all: "triple ?I (do { each_always (\<lambda>p. applyPolicy env tw p event) ps; return x }) (\<lambda>_. ?I)" for ps and x :: "err option"
    by (rule triple_bind [OF triple_each_always n]) (rule app)
  have obs: "triple ?I (scoring_Observe env) (\<lambda>_. ?I)" by (rule told_still [OF still_shared(1) silent_basic(5)])
  have pod: "triple ?I (world (get_pod env key)) (\<lambda>_. ?I)" for key by (rule told_still [OF still_neutral(2) silent_basic(1)])
  have idx: "triple ?I index_get (\<lambda>_. ?I)" by (rule told_still [OF still_local(2) silent_basic(4)])
  have first: "triple ?I (emit [ThreatScoresReceived_Inc x, ThreatScore_Observe y]) (\<lambda>_. ?I)" for x y by (rule e) simp
  show ?thesis unfolding handle_def
    by (rule triple_bind [OF first], rule triple_bind [OF obs], rule triple_bind [OF pod])
      (auto split: sum.split intro!: n triple_bind [OF idx] all)
qed

end

subsection \<open>From the record to the drop\<close>


definition demo_detector :: GTPUFloodDetector where
  "demo_detector = NewGTPUFloodDetector \<lparr>fc_Enabled = True, fc_PacketsPerSecond = 1, fc_Cooldown = 30 * second, fc_MaxTrackedTunnels = 0\<rparr>"

definition demo_pods :: PodIPIndex where
  "demo_pods = pod_Put ''10.0.0.1'' \<lparr>pr_Namespace = ''core'', pr_Name = ''upf-0''\<rparr> NewPodIPIndex"

lemma demo_matches: "MatchingPolicies (\<lambda>xs. xs) (o_Index demo_op) ''core'' [(''app'', ''upf'')] = [demo_policy]"
  by (simp add: demo_op_def NewPolicyIndex_def Put_def MatchingPolicies_def demo_policy_def sample_policy_def selectorMatches_def selectorMatchesOne_def selector_app_def map_index_def)

lemma demo_handles:
  assumes ev: "ts_Score ev = 1" "ts_SourceIP ev = ''10.0.0.1''" "ts_TEID ev = 7" "ts_Namespace ev = ''core''" "ts_PodName ev = ''upf-0''"
  shows "\<exists>s' k2. run_state (handle sim_env demo_watcher ev) demo_op = (None, s') \<and> 0 < mitigated ''ebpf_block_tunnel'' (o_Metrics s') \<and>
    Loader_BlockTunnel (v4InV6Prefix @ [10, 0, 0, 1]) 7 mem_kernel = (None, k2) \<and> Loader_Block (v4InV6Prefix @ [10, 0, 0, 1]) k2 = (None, s_kernel (o_World s'))"
proof -
  define s1 where "s1 = demo_op\<lparr>o_Metrics := o_Metrics demo_op @ [ThreatScoresReceived_Inc (scoreSourceLabel (ts_Model ev)), ThreatScore_Observe 1]\<rparr>"
  have s1: "o_World s1 = demo_world" "o_KillSwitch s1 = None" "o_Index s1 = o_Index demo_op" "o_Scoring s1 = None" "s1\<lparr>o_World := demo_world\<rparr> = s1"
    by (simp_all add: s1_def demo_op_def)
  obtain s2 ms k2 where s2: "run_state (applyPolicy sim_env demo_watcher demo_policy ev) s1 = (None, s2)" "o_Metrics s2 = o_Metrics s1 @ ms"
      "Mitigations_Inc ''ebpf_block_tunnel'' ''success'' \<in> set ms"
    and k: "Loader_BlockTunnel (v4InV6Prefix @ [10, 0, 0, 1]) 7 mem_kernel = (None, k2)" "Loader_Block (v4InV6Prefix @ [10, 0, 0, 1]) k2 = (None, s_kernel (o_World s2))"
    using demo_applies_any [OF ev(1-3) s1(1,2)] by blast
  have pod: "sim_get (s_pods demo_world) (NsName ''core'' ''upf-0'') demo_world = (Inr demo_pod, demo_world)"
    by (simp add: demo_world_def sim_create_def sim_store_def Let_def sim_get_def)
  have walk: "walk sim_env = (\<lambda>xs. xs)" by (simp add: fun_eq_iff)
  have obs: "run_state (scoring_Observe sim_env) s1 = ((), s1)" by (simp add: scoring_Observe_def s1(4))
  have "run_state (handle sim_env demo_watcher ev) demo_op = (None, s2)"
    unfolding handle_def using ev by (simp add: s1_def [symmetric] obs s1 pod demo_pod_def walk demo_matches s2(1))
  moreover have "0 < mitigated ''ebpf_block_tunnel'' (o_Metrics s2)"
    using s2(2) filter_empty_conv [of _ ms] bspec [OF _ s2(3), of "\<lambda>m. \<not> counts_success ''ebpf_block_tunnel'' m"] by (auto simp: mitigated_def)
  ultimately show ?thesis using k by blast
qed

lemma demo_record:
  "\<exists>x' raw. xdp_packet_filter still_env demo_packet (tables_of mem_kernel) = Some (XDP_PASS, x') \<and> raw \<in> set (x_events x') \<and>
     put_u32 (Saddr raw) = [10, 0, 0, 1] \<and> r_TEID raw = 7 \<and> r_Protocol raw = SignalProtoGTPU \<and> r_TunnelRate raw = 1"
proof -
  obtain act x' where x: "xdp_packet_filter still_env demo_packet (tables_of mem_kernel) = Some (act, x')"
      "act = XDP_DROP \<longleftrightarrow> table_blocks (tables_of mem_kernel) (packet_source demo_packet) (packet_teid demo_packet)"
    using xdp_effect [of still_env demo_packet "tables_of mem_kernel"] by blast
  have act: "act = XDP_PASS" using x(2) mem_tables_free(1) demo_packet_views by (cases act) simp_all
  have run: "xdp_run still_env [demo_packet] (tables_of mem_kernel) = Some x'" using x(1) by simp
  have "tunnel_rates [10, 0, 0, 1] 7 (x_events x') = [1]"
    using tunnel_counts [OF still_window _ _ mem_tables_free(1,2) run] mem_tables_free(3) demo_packet_views by (simp add: tunnel_rates_def in_tunnel_def)
  then have "1 \<in> set (tunnel_rates [10, 0, 0, 1] 7 (x_events x'))" by simp
  then show ?thesis using x(1) act by (auto simp: tunnel_rates_def)
qed




end
