(* ===== verification/Python_Values.thy ===== *)
theory Python_Values
  imports Go_Strconv "HOL-Library.AList"
begin

text \<open>
  The Python values that the AI engine (\<open>cmd/ai-engine\<close>) reads out of JSON documents and writes into them, and the built-in operations it
  uses on them: \<open>dict.get\<close>, \<open>int\<close>, \<open>float\<close>, \<open>bool\<close>, \<open>min\<close>, \<open>max\<close>, division, \<open>str.partition\<close> and \<open>str.rsplit\<close>. An operation that raises an
  exception is \<open>None\<close>. Arithmetic is exact; texts are read for the ASCII digits and spaces.
\<close>

subsection \<open>Values\<close>

text \<open>\<open>PyTime\<close> is a string that is a time in RFC 3339 form, as \<open>JTime\<close> is on the Go side.\<close>

datatype py =
    PyNone
  | PyBool bool
  | PyInt int
  | PyFloat float_value
  | PyStr string
  | PyTime time
  | PyList "py list"
  | PyDict "(string \<times> py) list"

text \<open>A \<open>dict\<close> filled member by member: a repeated key keeps its place and takes the last value.\<close>

definition dict_of :: "(string \<times> py) list \<Rightarrow> (string \<times> py) list" where
  "dict_of ms = fold (\<lambda>(k, v). AList.update k v) ms []"

definition dict_get :: "(string \<times> py) list \<Rightarrow> string \<Rightarrow> py \<Rightarrow> py" where
  "dict_get d k fallback = (case map_of d k of Some v \<Rightarrow> v | None \<Rightarrow> fallback)"

text \<open>\<open>json.loads\<close> of a document.\<close>

primrec loads :: "json \<Rightarrow> py" where
  "loads JNull = PyNone"
| "loads (JBool b) = PyBool b"
| "loads (JInt i) = PyInt i"
| "loads (JNum r) = PyFloat (Finite r)"
| "loads (JString s) = PyStr s"
| "loads (JTime t) = PyTime t"
| "loads (JArray xs) = PyList (map loads xs)"
| "loads (JObject ms) = PyDict (dict_of (map (map_prod id loads) ms))"

text \<open>
  \<open>json.dumps\<close>, as the document another JSON reader sees: a float that is no number is written as \<open>NaN\<close> or \<open>Infinity\<close>, which makes the text no JSON.
\<close>

primrec dumps :: "py \<Rightarrow> json option" where
  "dumps PyNone = Some JNull"
| "dumps (PyBool b) = Some (JBool b)"
| "dumps (PyInt i) = Some (JInt i)"
| "dumps (PyFloat f) = (case f of Finite r \<Rightarrow> Some (JNum r) | _ \<Rightarrow> None)"
| "dumps (PyStr s) = Some (JString s)"
| "dumps (PyTime t) = Some (JTime t)"
| "dumps (PyList xs) = map_option JArray (those (map dumps xs))"
| "dumps (PyDict ms) = map_option JObject (those (map (\<lambda>(k, d). map_option (Pair k) d) (map (map_prod id dumps) ms)))"

subsection \<open>Numbers from texts\<close>

definition is_space :: "char \<Rightarrow> bool" where
  "is_space c \<longleftrightarrow> (let n = of_char c :: nat in 9 \<le> n \<and> n \<le> 13 \<or> 28 \<le> n \<and> n \<le> 32)"

definition strip :: "string \<Rightarrow> string" where
  "strip s = rev (dropWhile is_space (rev (dropWhile is_space s)))"

text \<open>\<open>int(s)\<close>: a sign and decimal digits, single underscores between digits, at most 4300 digits.\<close>

definition int_text :: "string \<Rightarrow> int option" where
  "int_text s =
     (case sign_of (strip s) of
        (neg, t) \<Rightarrow>
          (let digits = filter is_dec t in
           if digits = [] \<or> \<not> list_all (\<lambda>c. is_dec c \<or> c = CHR ''_'') t \<or> \<not> underscores_ok False (CHR ''^'') t \<or> length digits > 4300 then None
           else Some (if neg then - int (dec_value digits) else int (dec_value digits))))"

text \<open>\<open>float(s)\<close>: no hexadecimal form; a number beyond the range is infinite.\<close>

definition float_text :: "string \<Rightarrow> float_value option" where
  "float_text s =
     (case sign_of (map ascii_lower (strip s)) of
        (neg, t) \<Rightarrow>
          if t \<in> {''inf'', ''infinity''} then Some (Infinite neg)
          else if t = ''nan'' then Some NaN
          else if CHR ''x'' \<in> set t \<or> fst (sign_of t) \<or> snd (sign_of t) \<noteq> t then None
          else map_option (\<lambda>r. if r \<ge> 2 ^ 1024 - 2 ^ 970 then Infinite neg else Finite (if neg then - r else r)) (readFloat t))"

subsection \<open>Conversions\<close>

fun py_int :: "py \<Rightarrow> int option" where
  "py_int (PyInt i) = Some i"
| "py_int (PyBool b) = Some (if b then 1 else 0)"
| "py_int (PyFloat (Finite r)) = Some (if r < 0 then \<lceil>r\<rceil> else \<lfloor>r\<rfloor>)"
| "py_int (PyStr s) = int_text s"
| "py_int _ = None"

fun py_float :: "py \<Rightarrow> float_value option" where
  "py_float (PyInt i) = (if \<bar>i\<bar> \<ge> 2 ^ 1024 - 2 ^ 970 then None else Some (Finite (of_int i)))"
| "py_float (PyBool b) = Some (Finite (if b then 1 else 0))"
| "py_float (PyFloat f) = Some f"
| "py_float (PyStr s) = float_text s"
| "py_float _ = None"

fun py_bool :: "py \<Rightarrow> bool" where
  "py_bool PyNone = False"
| "py_bool (PyBool b) = b"
| "py_bool (PyInt i) = (i \<noteq> 0)"
| "py_bool (PyFloat f) = (f \<noteq> Finite 0)"
| "py_bool (PyStr s) = (s \<noteq> [])"
| "py_bool (PyTime t) = True"
| "py_bool (PyList xs) = (xs \<noteq> [])"
| "py_bool (PyDict ms) = (ms \<noteq> [])"

subsection \<open>Float arithmetic\<close>

text \<open>\<open>max(a, b)\<close> and \<open>min(a, b)\<close> keep \<open>a\<close> unless \<open>b\<close> is beyond it, so the place of a \<open>NaN\<close> matters.\<close>

definition py_max :: "float_value \<Rightarrow> float_value \<Rightarrow> float_value" where
  "py_max a b = (if float_less a b then b else a)"

definition py_min :: "float_value \<Rightarrow> float_value \<Rightarrow> float_value" where
  "py_min a b = (if float_less b a then b else a)"

fun float_mul :: "float_value \<Rightarrow> float_value \<Rightarrow> float_value" where
  "float_mul (Finite r) (Finite q) = Finite (r * q)"
| "float_mul (Infinite n) (Infinite m) = Infinite (n \<noteq> m)"
| "float_mul (Infinite n) (Finite q) = (if q = 0 then NaN else Infinite (n \<noteq> (q < 0)))"
| "float_mul (Finite r) (Infinite n) = (if r = 0 then NaN else Infinite (n \<noteq> (r < 0)))"
| "float_mul _ _ = NaN"

text \<open>Division by zero raises, whatever is divided.\<close>

fun float_div :: "float_value \<Rightarrow> float_value \<Rightarrow> float_value option" where
  "float_div (Finite r) (Finite q) = (if q = 0 then None else Some (Finite (r / q)))"
| "float_div (Infinite n) (Finite q) = (if q = 0 then None else Some (Infinite (n \<noteq> (q < 0))))"
| "float_div NaN (Finite q) = (if q = 0 then None else Some NaN)"
| "float_div (Finite r) (Infinite n) = Some (Finite 0)"
| "float_div _ _ = Some NaN"

subsection \<open>Texts\<close>

text \<open>\<open>s.partition(":")\<close> without the separator, and \<open>s.rsplit(":", 1)[-1]\<close>.\<close>

definition partition_colon :: "string \<Rightarrow> string \<times> string" where
  "partition_colon s = (takeWhile (\<lambda>c. c \<noteq> CHR '':'') s, drop 1 (dropWhile (\<lambda>c. c \<noteq> CHR '':'') s))"

definition after_last_colon :: "string \<Rightarrow> string" where
  "after_last_colon s = rev (takeWhile (\<lambda>c. c \<noteq> CHR '':'') (rev s))"

subsection \<open>Lemmas\<close>

lemma dict_of_distinct:
  assumes "distinct (map fst ms)"
  shows "dict_of ms = ms"
proof -
  have "fold (\<lambda>(k, v). AList.update k v) ms d = d @ ms" if "distinct (map fst (d @ ms))" for d ms
    using that
  proof (induction ms arbitrary: d)
    case (Cons m ms)
    obtain k v where m: "m = (k, v)" by fastforce
    have "AList.update k v d = d @ [(k, v)]" using Cons.prems by (induction d) (auto simp: m)
    then show ?case using Cons.IH [of "d @ [m]"] Cons.prems by (simp add: m)
  qed simp
  from this [of "[]" ms] assms show ?thesis by (simp add: dict_of_def)
qed

lemma map_of_dict_of: "map_of (dict_of ms) = map_of (rev ms)"
proof -
  have "map_of (fold (\<lambda>(k, v). AList.update k v) ms d) = map_of d ++ map_of (rev ms)" for d
    by (induction ms arbitrary: d) (auto simp: update_conv' map_add_def fun_eq_iff split: option.splits)
  then show ?thesis by (simp add: dict_of_def)
qed

text \<open>Whatever comes in, \<open>max(0.0, min(1.0, x))\<close> is a number between 0 and 1; a \<open>NaN\<close> becomes 1.\<close>

lemma clamp_range: "\<exists>r. py_max (Finite 0) (py_min (Finite 1) x) = Finite r \<and> 0 \<le> r \<and> r \<le> 1"
  by (cases x) (auto simp: py_max_def py_min_def)

lemma clamp_NaN: "py_max (Finite 0) (py_min (Finite 1) NaN) = Finite 1"
  by (simp add: py_max_def py_min_def)

text \<open>The other way round, as the features are clipped, a \<open>NaN\<close> goes through.\<close>

lemma clip_range:
  assumes "0 < m" "x \<noteq> NaN"
  shows "\<exists>r. py_min (py_max x (Finite 0)) (Finite m) = Finite r \<and> 0 \<le> r \<and> r \<le> m"
  using assms by (cases x) (auto simp: py_max_def py_min_def)

lemma partition_one_colon:
  assumes "CHR '':'' \<in> set s" "CHR '':'' \<notin> set (snd (partition_colon s))"
  shows "after_last_colon s = snd (partition_colon s)"
proof -
  let ?P = "\<lambda>c. c \<noteq> CHR '':''"
  from assms(1) obtain host port where s: "s = host @ CHR '':'' # port" "CHR '':'' \<notin> set host" by (meson split_list_first)
  have host: "\<forall>c \<in> set host. ?P c" using s(2) by auto
  have d: "takeWhile ?P s = host" "dropWhile ?P s = CHR '':'' # port" using host by (simp_all add: s(1) takeWhile_append2 dropWhile_append2)
  have "rev s = rev port @ CHR '':'' # rev host" by (simp add: s(1))
  moreover have "\<forall>c \<in> set (rev port). ?P c" using assms(2) d by (auto simp: partition_colon_def)
  ultimately have "takeWhile ?P (rev s) = rev port" using takeWhile_append2 [of "rev port" ?P "CHR '':'' # rev host"] by simp
  then show ?thesis by (simp add: after_last_colon_def partition_colon_def d)
qed

end
