(* ===== verification/Ai_Features.thy ===== *)
theory Ai_Features
  imports Python_Values
begin

text \<open>
  The feature vector of the AI engine (\<open>cmd/ai-engine/sentinel_ai/features.py\<close>): reading an event out of a decoded JSON object and turning it
  into the twelve numbers the model sees.
\<close>

definition FEATURE_NAMES :: "string list" where
  "FEATURE_NAMES = [''proto_gtpu'', ''proto_sip'', ''proto_smpp'', ''proto_http2'', ''proto_unknown'', ''payload_size_norm'', ''untunneled_rate_norm'',
     ''malformed'', ''dest_port_signaling'', ''dest_port_norm'', ''tunnel_rate_norm'', ''has_teid'']"

definition FEATURE_VECTOR_SIZE :: nat where
  "FEATURE_VECTOR_SIZE = length FEATURE_NAMES"

definition PROTOCOLS :: "string list" where
  "PROTOCOLS = [''GTP-U'', ''SIP'', ''SMPP'', ''HTTP2'']"

definition SIGNALING_PORTS :: "int set" where
  "SIGNALING_PORTS = {2152, 5060}"

text \<open>
  The class \<open>NormalizedEvent\<close> of the Python side. The protocol is \<open>str\<close> of the member: the text of a string, and for every other value
  a text that is none of the protocol names, for which the value itself stands.
\<close>

record features_event =
  fe_protocol :: py
  fe_dest_port :: int
  fe_payload_size :: int
  fe_rate_per_second :: float_value
  fe_malformed :: bool
  fe_observed_at :: time
  fe_teid :: int
  fe_tunnel_rate_per_second :: float_value

text \<open>
  \<open>datetime.fromisoformat\<close> keeps microseconds and knows the years from 1. What it makes of a text that is no RFC 3339 time is the argument \<open>fromiso\<close>; \<open>now\<close> is the clock.
\<close>

definition observed_at :: "(string \<Rightarrow> time option) \<Rightarrow> time \<Rightarrow> (string \<times> py) list \<Rightarrow> time option" where
  "observed_at fromiso now d =
     (case dict_get d ''observedAt'' PyNone of
        PyTime t \<Rightarrow> if t < zero_time then None else Some (t div 1000 * 1000)
      | PyStr s \<Rightarrow> fromiso s
      | _ \<Rightarrow> Some now)"

definition from_dict :: "(string \<Rightarrow> time option) \<Rightarrow> time \<Rightarrow> (string \<times> py) list \<Rightarrow> features_event option" where
  "from_dict fromiso now d =
     (case (observed_at fromiso now d, py_int (dict_get d ''destPort'' (PyInt 0)), py_int (dict_get d ''payloadSize'' (PyInt 0)),
            py_float (dict_get d ''ratePerSecond'' (PyFloat (Finite 0))), py_int (dict_get d ''teid'' (PyInt 0)),
            py_float (dict_get d ''tunnelRatePerSecond'' (PyFloat (Finite 0)))) of
        (Some observed, Some port, Some payload, Some rate, Some teid, Some tunnel) \<Rightarrow>
          Some \<lparr>fe_protocol = dict_get d ''protocol'' (PyStr ''UNKNOWN''), fe_dest_port = port, fe_payload_size = payload, fe_rate_per_second = rate,
            fe_malformed = py_bool (dict_get d ''malformed'' (PyBool False)), fe_observed_at = observed, fe_teid = teid, fe_tunnel_rate_per_second = tunnel\<rparr>
      | _ \<Rightarrow> None)"

definition one_if :: "bool \<Rightarrow> float_value" where
  "one_if b = Finite (if b then 1 else 0)"

text \<open>\<open>min(max(x, 0), bound) / bound\<close> for an integer and for a float.\<close>

definition int_norm :: "int \<Rightarrow> int \<Rightarrow> float_value" where
  "int_norm bound x = Finite (of_int (min (max x 0) bound) / of_int bound)"

definition float_norm :: "float64 \<Rightarrow> float_value \<Rightarrow> float_value" where
  "float_norm bound x = (case py_min (py_max x (Finite 0)) (Finite bound) of Finite r \<Rightarrow> Finite (r / bound) | y \<Rightarrow> y)"

definition extract_features :: "features_event \<Rightarrow> float_value list option" where
  "extract_features event =
     (let protocol_one_hot = map (\<lambda>proto. one_if (fe_protocol event = PyStr proto)) PROTOCOLS @
            [one_if (\<not> list_ex (\<lambda>proto. fe_protocol event = PyStr proto) PROTOCOLS)];
          payload_norm = int_norm 4096 (fe_payload_size event);
          rate_norm = (if fe_teid event \<noteq> 0 then Finite 0 else float_norm 5000 (fe_rate_per_second event));
          tunnel_norm = float_norm 2000 (fe_tunnel_rate_per_second event);
          features = protocol_one_hot @
            [payload_norm, rate_norm, one_if (fe_malformed event), one_if (fe_dest_port event \<in> SIGNALING_PORTS),
             int_norm 65535 (fe_dest_port event), tunnel_norm, one_if (fe_teid event \<noteq> 0)]
      in if length features \<noteq> FEATURE_VECTOR_SIZE then None else Some features)"

subsection \<open>Lemmas\<close>

fun unit_float :: "float_value \<Rightarrow> bool" where
  "unit_float (Finite r) = (0 \<le> r \<and> r \<le> 1)"
| "unit_float _ = False"

lemma unit_one_if: "unit_float (one_if b)"
  by (simp add: one_if_def)

lemma unit_int_norm: "0 < bound \<Longrightarrow> unit_float (int_norm bound x)"
  by (simp add: int_norm_def)

lemma unit_float_norm:
  assumes "0 < bound" "x \<noteq> NaN"
  shows "unit_float (float_norm bound x)"
  using clip_range [OF assms] assms(1) by (auto simp: float_norm_def)

lemma float_norm_NaN: "float_norm bound NaN = NaN"
  by (simp add: float_norm_def py_max_def py_min_def)

lemma extract_features_length:
  "\<exists>fs. extract_features event = Some fs \<and> length fs = 12"
  by (simp add: extract_features_def FEATURE_VECTOR_SIZE_def FEATURE_NAMES_def PROTOCOLS_def Let_def)

lemma extract_features_unit:
  assumes "extract_features event = Some fs" "fe_teid event \<noteq> 0 \<or> fe_rate_per_second event \<noteq> NaN" "fe_tunnel_rate_per_second event \<noteq> NaN"
  shows "list_all unit_float fs"
  using assms by (auto simp: extract_features_def PROTOCOLS_def Let_def unit_one_if unit_int_norm unit_float_norm split: if_splits)

text \<open>The protocol part says exactly one thing: one of the five places is 1 and the others are 0.\<close>

lemma extract_features_protocol:
  assumes "extract_features event = Some fs"
  shows "\<exists>i < 5. take 5 fs = (replicate 5 (Finite 0))[i := Finite 1]"
proof -
  let ?i = "if fe_protocol event = PyStr ''GTP-U'' then 0 else if fe_protocol event = PyStr ''SIP'' then 1
         else if fe_protocol event = PyStr ''SMPP'' then 2 else if fe_protocol event = PyStr ''HTTP2'' then 3 else (4 :: nat)"
  have "take 5 fs = map (\<lambda>proto. one_if (fe_protocol event = PyStr proto)) PROTOCOLS @ [one_if (\<not> list_ex (\<lambda>proto. fe_protocol event = PyStr proto) PROTOCOLS)]"
    using assms by (auto simp: extract_features_def PROTOCOLS_def Let_def split: if_splits)
  moreover have "\<dots> = (replicate 5 (Finite 0))[?i := Finite 1]"
    by (auto simp: PROTOCOLS_def one_if_def eval_nat_numeral)
  ultimately have "take 5 fs = (replicate 5 (Finite 0))[?i := Finite 1]" by simp
  moreover have "?i < 5" by simp
  ultimately show ?thesis by blast
qed

text \<open>A tunnelled packet's vector does not depend on what else its source sends.\<close>

lemma extract_features_tunnelled:
  "fe_teid event \<noteq> 0 \<Longrightarrow> extract_features (event\<lparr>fe_rate_per_second := r\<rparr>) = extract_features event"
  by (simp add: extract_features_def)

end
