(* ===== verification/Ai_Server.thy ===== *)
theory Ai_Server
  imports Ai_Features Operator_Config
begin

text \<open>
  The AI engine's process (\<open>cmd/ai-engine/sentinel_ai/config.py\<close>, \<open>server.py\<close>, \<open>healthcheck.py\<close>): its settings, the scoring engine around the
  model, the worker that turns messages of events into messages of scores, and the start of the process. The ONNX runtime, NumPy and the NATS client
  are arguments; a call that raises an exception gives \<open>None\<close> or \<open>False\<close>.
\<close>

subsection \<open>Settings (\<open>config.py\<close>)\<close>

record Settings =
  st_http_addr :: string
  st_mode :: string
  st_model_path :: string
  st_feature_vector_size :: int
  st_nats_url :: string
  st_nats_stream_name :: string
  st_nats_events_subject :: string
  st_nats_threats_subject :: string
  st_nats_creds_file :: string
  st_nats_username :: string
  st_nats_password :: string
  st_nats_tls_ca_file :: string
  st_nats_tls_cert_file :: string
  st_nats_tls_key_file :: string
  st_nats_allow_unauthenticated :: bool
  st_metrics_addr :: string

definition os_getenv :: "environ \<Rightarrow> string \<Rightarrow> string \<Rightarrow> string" where
  "os_getenv env key fallback = (case env key of Some v \<Rightarrow> v | None \<Rightarrow> fallback)"

definition getenv_bool :: "environ \<Rightarrow> string \<Rightarrow> bool \<Rightarrow> bool" where
  "getenv_bool env key fallback =
     (case env key of
        None \<Rightarrow> fallback
      | Some v \<Rightarrow> if v = [] then fallback else map ascii_lower (strip v) \<in> {''1'', ''t'', ''true'', ''yes''})"

definition load_settings :: "environ \<Rightarrow> Settings option" where
  "load_settings env =
     map_option (\<lambda>size.
       \<lparr>st_http_addr = os_getenv env ''AI_ENGINE_HTTP_ADDR'' ''0.0.0.0:8090'',
        st_mode = os_getenv env ''AI_ENGINE_MODE'' ''http'',
        st_model_path = os_getenv env ''MODEL_PATH'' ''./models/autoencoder.onnx'',
        st_feature_vector_size = size,
        st_nats_url = os_getenv env ''NATS_URL'' ''nats://localhost:4222'',
        st_nats_stream_name = os_getenv env ''NATS_STREAM_NAME'' ''SENTINEL5G'',
        st_nats_events_subject = os_getenv env ''NATS_EVENTS_SUBJECT'' ''sentinel5g.events.normalized'',
        st_nats_threats_subject = os_getenv env ''NATS_THREATS_SUBJECT'' ''sentinel5g.threats.scored'',
        st_nats_creds_file = os_getenv env ''NATS_CREDENTIALS_FILE'' [],
        st_nats_username = os_getenv env ''NATS_USERNAME'' [],
        st_nats_password = os_getenv env ''NATS_PASSWORD'' [],
        st_nats_tls_ca_file = os_getenv env ''NATS_TLS_CA_FILE'' [],
        st_nats_tls_cert_file = os_getenv env ''NATS_TLS_CERT_FILE'' [],
        st_nats_tls_key_file = os_getenv env ''NATS_TLS_KEY_FILE'' [],
        st_nats_allow_unauthenticated = getenv_bool env ''NATS_ALLOW_UNAUTHENTICATED'' False,
        st_metrics_addr = os_getenv env ''AI_ENGINE_METRICS_ADDR'' ''0.0.0.0:9090''\<rparr>)
       (int_text (os_getenv env ''FEATURE_VECTOR_SIZE'' ''12''))"

text \<open>\<open>False\<close>: the \<open>RuntimeError\<close> that refuses to start.\<close>

definition require_nats_credentials :: "Settings \<Rightarrow> bool" where
  "require_nats_credentials st \<longleftrightarrow>
     st_mode st \<noteq> ''nats'' \<or> st_nats_allow_unauthenticated st \<or>
     st_nats_creds_file st \<noteq> [] \<or> st_nats_username st \<noteq> [] \<or> st_nats_tls_cert_file st \<noteq> [] \<or> st_nats_tls_ca_file st \<noteq> []"

subsection \<open>The scoring engine\<close>

text \<open>
  The model: its input width if that is a number, its output for one vector, and \<open>np.mean((reconstruction - batch) ** 2)\<close>.
\<close>

record inference =
  im_input_dim :: "int option"
  im_run :: "float_value list \<Rightarrow> float_value list option"
  im_mean_square :: "float_value list \<Rightarrow> float_value list \<Rightarrow> float_value"

record engine =
  eng_session :: inference
  eng_reference_error :: float_value

definition check_input_dimension :: "inference \<Rightarrow> bool" where
  "check_input_dimension m \<longleftrightarrow> (case im_input_dim m of Some n \<Rightarrow> n = int FEATURE_VECTOR_SIZE | None \<Rightarrow> True)"

text \<open>The sidecar file: \<open>None\<close> if there is none, \<open>Some None\<close> if it cannot be read as JSON.\<close>

definition load_reference_error :: "py option option \<Rightarrow> float_value option" where
  "load_reference_error sidecar =
     (case sidecar of
        None \<Rightarrow> Some (Finite 1)
      | Some (Some (PyDict members)) \<Rightarrow> Option.bind (map_of members ''reference_error'') py_float
      | Some _ \<Rightarrow> None)"

definition ScoringEngine :: "inference option \<Rightarrow> py option option \<Rightarrow> engine option" where
  "ScoringEngine session sidecar =
     (case session of
        None \<Rightarrow> None
      | Some m \<Rightarrow>
          if \<not> check_input_dimension m then None
          else map_option (\<lambda>r. \<lparr>eng_session = m, eng_reference_error = r\<rparr>) (load_reference_error sidecar))"

definition score_features :: "engine \<Rightarrow> float_value list \<Rightarrow> float_value option" where
  "score_features eng features =
     (case im_run (eng_session eng) features of
        None \<Rightarrow> None
      | Some reconstruction \<Rightarrow>
          (let error = im_mean_square (eng_session eng) reconstruction features
           in map_option (\<lambda>normalized. py_max (Finite 0) (py_min (Finite 1) normalized))
                (float_div error (float_mul (eng_reference_error eng) (Finite 4)))))"

definition score_event :: "engine \<Rightarrow> features_event \<Rightarrow> float_value option" where
  "score_event eng event = Option.bind (extract_features event) (score_features eng)"

text \<open>\<open>POST /v1/score\<close>, behind the checks of its typed request body; \<open>None\<close> is the server's answer 500.\<close>

record ScoreRequest =
  rq_protocol :: string
  rq_destPort :: int
  rq_payloadSize :: int
  rq_ratePerSecond :: float_value
  rq_malformed :: bool
  rq_teid :: int
  rq_tunnelRatePerSecond :: float_value

definition model_dump :: "ScoreRequest \<Rightarrow> (string \<times> py) list" where
  "model_dump rq =
     [(''protocol'', PyStr (rq_protocol rq)), (''destPort'', PyInt (rq_destPort rq)), (''payloadSize'', PyInt (rq_payloadSize rq)),
      (''ratePerSecond'', PyFloat (rq_ratePerSecond rq)), (''malformed'', PyBool (rq_malformed rq)), (''teid'', PyInt (rq_teid rq)),
      (''tunnelRatePerSecond'', PyFloat (rq_tunnelRatePerSecond rq))]"

definition http_score :: "engine \<Rightarrow> (string \<Rightarrow> time option) \<Rightarrow> time \<Rightarrow> ScoreRequest \<Rightarrow> float_value option" where
  "http_score eng fromiso now rq = Option.bind (from_dict fromiso now (model_dump rq)) (score_event eng)"

subsection \<open>The worker\<close>

text \<open>\<open>None\<close>: the \<open>ValueError\<close>; the argument is \<open>None\<close> if the bytes are no JSON.\<close>

definition parse_event_batch :: "py option \<Rightarrow> (string \<times> py) list list option" where
  "parse_event_batch data =
     (case data of
        Some (PyList items) \<Rightarrow> those (map (\<lambda>item. case item of PyDict d \<Rightarrow> Some d | _ \<Rightarrow> None) items)
      | Some (PyDict d) \<Rightarrow> Some [d]
      | _ \<Rightarrow> None)"

text \<open>
  What the worker calls: \<open>js.publish\<close> (the message as its reader sees it), \<open>msg.ack\<close>, the counter, the clock, \<open>uuid4\<close> and \<open>fromisoformat\<close>.
\<close>

record 'w worker_env =
  wk_publish :: "string \<Rightarrow> json option \<Rightarrow> 'w \<Rightarrow> bool \<times> 'w"
  wk_ack :: "'w \<Rightarrow> bool \<times> 'w"
  wk_inc :: "string \<Rightarrow> 'w \<Rightarrow> 'w"
  wk_now :: "'w \<Rightarrow> time"
  wk_uuid :: "'w \<Rightarrow> string"
  wk_iso :: "string \<Rightarrow> time option"

definition build_threat_result :: "'w worker_env \<Rightarrow> (string \<times> py) list \<Rightarrow> engine \<Rightarrow> 'w \<Rightarrow> py option" where
  "build_threat_result env payload eng w =
     Option.bind (from_dict (wk_iso env) (wk_now env w) payload) (\<lambda>event.
     map_option (\<lambda>threat_score.
       PyDict [
         (''sourceEventId'', dict_get payload ''eventId'' (PyStr (wk_uuid env w))),
         (''namespace'', dict_get payload ''namespace'' (PyStr [])),
         (''podName'', dict_get payload ''podName'' (PyStr [])),
         (''sourceIp'', dict_get payload ''sourceIp'' (PyStr [])),
         (''teid'', dict_get payload ''teid'' (PyInt 0)),
         (''score'', PyFloat threat_score),
         (''model'', PyStr ''autoencoder-v1''),
         (''detectedAt'', PyTime (wk_now env w div second * second))])
       (score_event eng event))"

fun publish_scores :: "'w worker_env \<Rightarrow> engine \<Rightarrow> string \<Rightarrow> (string \<times> py) list list \<Rightarrow> 'w \<Rightarrow> bool \<times> 'w" where
  "publish_scores env eng subject [] w = (True, w)"
| "publish_scores env eng subject (payload # payloads) w =
     (case build_threat_result env payload eng w of
        None \<Rightarrow> (False, w)
      | Some result \<Rightarrow>
          (case wk_publish env subject (dumps result) w of
             (False, w1) \<Rightarrow> (False, w1)
           | (True, w1) \<Rightarrow> publish_scores env eng subject payloads (wk_inc env ''scored'' w1)))"

text \<open>The subscription's callback \<open>handler\<close>.\<close>

definition on_event_message :: "'w worker_env \<Rightarrow> engine \<Rightarrow> string \<Rightarrow> py option \<Rightarrow> 'w \<Rightarrow> disposition \<times> 'w" where
  "on_event_message env eng subject data w =
     (case parse_event_batch data of
        None \<Rightarrow> (Term, wk_inc env ''malformed'' w)
      | Some payloads \<Rightarrow>
          (case publish_scores env eng subject payloads w of
             (False, w1) \<Rightarrow> (Nak, wk_inc env ''publish_failed'' w1)
           | (True, w1) \<Rightarrow>
               (case wk_ack env w1 of
                  (True, w2) \<Rightarrow> (Ack, w2)
                | (False, w2) \<Rightarrow> (Nak, wk_inc env ''publish_failed'' w2))))"

definition MAX_EVENT_DELIVERIES :: nat where
  "MAX_EVENT_DELIVERIES = 5"

text \<open>A message that is not acknowledged comes again, \<open>n\<close> deliveries in all.\<close>

fun deliver :: "nat \<Rightarrow> 'w worker_env \<Rightarrow> engine \<Rightarrow> string \<Rightarrow> py option \<Rightarrow> 'w \<Rightarrow> disposition \<times> 'w" where
  "deliver 0 env eng subject data w = (Nak, w)"
| "deliver (Suc n) env eng subject data w =
     (case on_event_message env eng subject data w of
        (Nak, w1) \<Rightarrow> deliver n env eng subject data w1
      | (d, w1) \<Rightarrow> (d, w1))"

text \<open>The connection's options, the stream and the subscription, in the order of \<open>run_nats_worker\<close>.\<close>

definition nats_connect_kwargs :: "Settings \<Rightarrow> nats_option list" where
  "nats_connect_kwargs st =
     (if st_nats_creds_file st \<noteq> [] then [UserCredentials (st_nats_creds_file st)]
      else if st_nats_username st \<noteq> [] then [UserInfo (st_nats_username st) (st_nats_password st)] else []) @
     (if st_nats_tls_ca_file st \<noteq> [] \<or> st_nats_tls_cert_file st \<noteq> []
      then (if st_nats_tls_ca_file st \<noteq> [] then [RootCAs (st_nats_tls_ca_file st)] else []) @
           (if st_nats_tls_cert_file st \<noteq> [] then [ClientCert (st_nats_tls_cert_file st) (st_nats_tls_key_file st)] else [])
      else [])"

datatype stream_answer = StreamFound | StreamNotFound | StreamError

record ('c, 'w) nats_py =
  np_connect :: "string \<Rightarrow> nats_option list \<Rightarrow> 'w \<Rightarrow> 'c option \<times> 'w"
  np_stream_info :: "'c \<Rightarrow> string \<Rightarrow> 'w \<Rightarrow> stream_answer \<times> 'w"
  np_add_stream :: "'c \<Rightarrow> string \<Rightarrow> string list \<Rightarrow> duration \<Rightarrow> 'w \<Rightarrow> bool \<times> 'w"
  np_subscribe :: "'c \<Rightarrow> string \<Rightarrow> string \<Rightarrow> string \<Rightarrow> nat \<Rightarrow> 'w \<Rightarrow> bool \<times> 'w"

definition WORKER_GROUP :: string where
  "WORKER_GROUP = ''sentinel5g-ai-engine-workers''"

definition ensure_stream :: "('c, 'w) nats_py \<Rightarrow> 'c \<Rightarrow> Settings \<Rightarrow> 'w \<Rightarrow> bool \<times> 'w" where
  "ensure_stream n js st w =
     (case np_stream_info n js (st_nats_stream_name st) w of
        (StreamFound, w1) \<Rightarrow> (True, w1)
      | (StreamNotFound, w1) \<Rightarrow>
          np_add_stream n js (st_nats_stream_name st) [st_nats_events_subject st, st_nats_threats_subject st] (24 * hour) w1
      | (StreamError, w1) \<Rightarrow> (False, w1))"

definition run_nats_worker :: "('c, 'w) nats_py \<Rightarrow> Settings \<Rightarrow> 'w \<Rightarrow> bool \<times> 'w" where
  "run_nats_worker n st w =
     (case np_connect n (st_nats_url st) (nats_connect_kwargs st) w of
        (None, w1) \<Rightarrow> (False, w1)
      | (Some js, w1) \<Rightarrow>
          (case ensure_stream n js st w1 of
             (False, w2) \<Rightarrow> (False, w2)
           | (True, w2) \<Rightarrow> np_subscribe n js (st_nats_events_subject st) WORKER_GROUP WORKER_GROUP MAX_EVENT_DELIVERIES w2))"

subsection \<open>The process\<close>

datatype ai_process = NatsWorker string int | HttpServer string int

text \<open>\<open>int(port or fallback)\<close> of the text behind the first colon.\<close>

definition bind_addr :: "string \<Rightarrow> int \<Rightarrow> (string \<times> int) option" where
  "bind_addr addr fallback =
     (case partition_colon addr of
        (host, port) \<Rightarrow>
          map_option (Pair (if host = [] then ''0.0.0.0'' else host)) (if port = [] then Some fallback else int_text port))"

definition ai_main :: "environ \<Rightarrow> (string \<Rightarrow> inference option) \<Rightarrow> (string \<Rightarrow> py option option) \<Rightarrow> (engine \<times> ai_process) option" where
  "ai_main env model sidecar =
     (case load_settings env of
        None \<Rightarrow> None
      | Some st \<Rightarrow>
          if \<not> require_nats_credentials st then None
          else case ScoringEngine (model (st_model_path st)) (sidecar (st_model_path st)) of
            None \<Rightarrow> None
          | Some eng \<Rightarrow>
              if st_mode st = ''nats'' then map_option (\<lambda>(host, port). (eng, NatsWorker host port)) (bind_addr (st_metrics_addr st) 9090)
              else map_option (\<lambda>(host, port). (eng, HttpServer host port)) (bind_addr (st_http_addr st) 8090))"

text \<open>The port the container's health check asks, as text.\<close>

definition health_port :: "environ \<Rightarrow> string" where
  "health_port env =
     (let nats = (os_getenv env ''AI_ENGINE_MODE'' ''http'' = ''nats'');
          addr = (if nats then os_getenv env ''AI_ENGINE_METRICS_ADDR'' ''0.0.0.0:9090'' else os_getenv env ''AI_ENGINE_HTTP_ADDR'' ''0.0.0.0:8090'');
          port = after_last_colon addr
      in if port = [] then (if nats then ''9090'' else ''8090'') else port)"

end
