(* ===== verification/Ai_Scores.thy ===== *)
theory Ai_Scores
  imports Ai_Server Operator_Main
begin

text \<open>
  What the AI engine promises to the operator: scores are numbers between 0 and 1 that do not depend on a tunnelled packet's neighbours, the
  worker scores every event of a message at least once, its scores name the events they are about and the operator's decoder reads them, and both
  processes accept the same bus.
\<close>

subsection \<open>Scores\<close>

lemma score_event_range:
  assumes "score_event eng event = Some f"
  shows "\<exists>r. f = Finite r \<and> 0 \<le> r \<and> r \<le> 1"
proof -
  obtain x where "f = py_max (Finite 0) (py_min (Finite 1) x)"
    using assms by (auto simp: score_event_def score_features_def Let_def bind_eq_Some_conv split: option.splits)
  then show ?thesis using clamp_range [of x] by simp
qed

text \<open>
  C22: a score is a score. Whatever model and sidecar file are loaded and whatever an event says, if the engine returns a score for it the model was given the twelve features and the score is
  a number between 0 and 1; and for an event with a tunnel the score stays the same whatever rate its source address has, so one subscriber's flood does not
  raise the scores of the others behind that address.
\<close>

theorem engine_score_sound:
  assumes "score_event eng event = Some f"
  shows "\<exists>features r. extract_features event = Some features \<and> length features = FEATURE_VECTOR_SIZE \<and> score_features eng features = Some f \<and>
    f = Finite r \<and> 0 \<le> r \<and> r \<le> 1 \<and> (fe_teid event \<noteq> 0 \<longrightarrow> (\<forall>rate. score_event eng (event\<lparr>fe_rate_per_second := rate\<rparr>) = Some f))"
proof -
  obtain features where fs: "extract_features event = Some features" "score_features eng features = Some f" using assms by (auto simp: score_event_def bind_eq_Some_conv)
  moreover have "length features = FEATURE_VECTOR_SIZE" using fs(1) by (auto simp: extract_features_def Let_def split: if_splits)
  moreover have "score_event eng (event\<lparr>fe_rate_per_second := rate\<rparr>) = Some f" if "fe_teid event \<noteq> 0" for rate
    using assms extract_features_tunnelled [OF that] by (simp add: score_event_def)
  ultimately show ?thesis using score_event_range [OF assms] by blast
qed

subsection \<open>What reaches the bus\<close>

text \<open>
  The bus as the worker sees it: the messages published so far. A publish that returns has stored the message; one that raises may have stored it, since the answer can get lost.
\<close>

definition scored :: "'w worker_env \<Rightarrow> engine \<Rightarrow> (string \<times> py) list \<Rightarrow> json option \<Rightarrow> bool" where
  "scored env eng payload d \<longleftrightarrow> (\<exists>w result. build_threat_result env payload eng w = Some result \<and> d = dumps result)"

locale score_bus =
  fixes env :: "'w worker_env" and sent :: "'w \<Rightarrow> (string \<times> json option) list"
  assumes publish_returns: "wk_publish env subject d w = (True, w') \<Longrightarrow> sent w' = sent w @ [(subject, d)]"
    and publish_raises: "wk_publish env subject d w = (False, w') \<Longrightarrow> sent w' = sent w \<or> sent w' = sent w @ [(subject, d)]"
    and inc_sends_nothing: "sent (wk_inc env outcome w) = sent w"
    and ack_sends_nothing: "sent (snd (wk_ack env w)) = sent w"
begin

lemma publish_scores_sends:
  assumes "publish_scores env eng subject payloads w = (ok, w')"
  shows "\<exists>new. sent w' = sent w @ map (Pair subject) new \<and> length new \<le> length payloads \<and> (ok \<longrightarrow> length new = length payloads) \<and>
    list_all2 (scored env eng) (take (length new) payloads) new"
  using assms
proof (induction payloads arbitrary: w)
  case (Cons payload payloads)
  show ?case
  proof (cases "build_threat_result env payload eng w")
    case None
    then show ?thesis using Cons.prems by (intro exI [of _ "[]"]) auto
  next
    case (Some result)
    obtain ok1 w1 where p: "wk_publish env subject (dumps result) w = (ok1, w1)" by fastforce
    have s: "scored env eng payload (dumps result)" using Some unfolding scored_def by blast
    show ?thesis
    proof (cases ok1)
      case True
      have "publish_scores env eng subject payloads (wk_inc env ''scored'' w1) = (ok, w')" using Cons.prems Some p True by simp
      from Cons.IH [OF this] obtain new where new: "sent w' = sent w1 @ map (Pair subject) new" "length new \<le> length payloads"
          "ok \<longrightarrow> length new = length payloads" "list_all2 (scored env eng) (take (length new) payloads) new"
        by (auto simp: inc_sends_nothing)
      then show ?thesis using publish_returns p True s by (intro exI [of _ "dumps result # new"]) auto
    next
      case False
      then have "w' = w1" "\<not> ok" using Cons.prems Some p by auto
      moreover from publish_raises [of subject "dumps result" w w1] p False
      have "sent w1 = sent w \<or> sent w1 = sent w @ [(subject, dumps result)]" by simp
      ultimately show ?thesis
        using s by (elim disjE) (rule exI [of _ "[]"], simp, rule exI [of _ "[dumps result]"], simp)
    qed
  qed
qed simp

lemma message_sends:
  assumes "on_event_message env eng subject data w = (disposition, w')"
  shows "(\<exists>payloads new. parse_event_batch data = Some payloads \<and> sent w' = sent w @ map (Pair subject) new \<and> disposition \<noteq> Term \<and>
      length new \<le> length payloads \<and> (disposition = Ack \<longrightarrow> length new = length payloads) \<and> list_all2 (scored env eng) (take (length new) payloads) new) \<or>
    parse_event_batch data = None \<and> disposition = Term \<and> sent w' = sent w"
proof (cases "parse_event_batch data")
  case None
  then show ?thesis using assms by (auto simp: on_event_message_def inc_sends_nothing)
next
  case (Some payloads)
  obtain ok w1 where p: "publish_scores env eng subject payloads w = (ok, w1)" by fastforce
  obtain acked w2 where a: "wk_ack env w1 = (acked, w2)" by fastforce
  have "sent w2 = sent w1" using ack_sends_nothing [of w1] a by simp
  then have "sent w' = sent w1 \<and> disposition \<noteq> Term \<and> (disposition = Ack \<longrightarrow> ok)"
    using assms Some p a by (cases ok; cases acked) (auto simp: on_event_message_def inc_sends_nothing)
  then show ?thesis using publish_scores_sends [OF p] Some by auto
qed

lemma deliver_sends:
  assumes "deliver n env eng subject data w = (disposition, w')" "parse_event_batch data = Some payloads"
  shows "\<exists>new. sent w' = sent w @ map (Pair subject) new \<and> disposition \<noteq> Term \<and> (\<forall>d \<in> set new. \<exists>payload \<in> set payloads. scored env eng payload d) \<and>
    (disposition = Ack \<longrightarrow> (\<exists>before last. new = before @ last \<and> list_all2 (scored env eng) payloads last))"
  using assms(1)
proof (induction n arbitrary: w)
  case (Suc n)
  obtain d1 w1 where m: "on_event_message env eng subject data w = (d1, w1)" by fastforce
  from message_sends [OF m] assms(2) obtain new where new: "sent w1 = sent w @ map (Pair subject) new" "d1 \<noteq> Term"
      "d1 = Ack \<longrightarrow> length new = length payloads" "list_all2 (scored env eng) (take (length new) payloads) new" by auto
  have from_batch: "\<forall>d \<in> set new. \<exists>payload \<in> set payloads. scored env eng payload d"
  proof
    fix d assume "d \<in> set new"
    then obtain i where i: "i < length new" "d = new ! i" by (auto simp: in_set_conv_nth)
    then have "scored env eng (take (length new) payloads ! i) d" using list_all2_nthD2 [OF new(4)] by simp
    moreover have "take (length new) payloads ! i \<in> set payloads"
      using i(1) list_all2_lengthD [OF new(4)] by (metis in_set_takeD nth_mem)
    ultimately show "\<exists>payload \<in> set payloads. scored env eng payload d" by blast
  qed
  show ?case
  proof (cases d1)
    case Ack
    then have "list_all2 (scored env eng) payloads new" "disposition = Ack" "w' = w1" using new(3,4) m Suc.prems by auto
    then show ?thesis using new(1) from_batch by (intro exI [of _ new]) auto
  next
    case Nak
    then have "deliver n env eng subject data w1 = (disposition, w')" using m Suc.prems by simp
    from Suc.IH [OF this] obtain later where later: "sent w' = sent w1 @ map (Pair subject) later" "disposition \<noteq> Term"
        "\<forall>d \<in> set later. \<exists>payload \<in> set payloads. scored env eng payload d"
        "disposition = Ack \<longrightarrow> (\<exists>before last. later = before @ last \<and> list_all2 (scored env eng) payloads last)" by blast
    have "new @ later = (new @ before) @ last" if "later = before @ last" for before last :: "json option list" using that by simp
    then have "disposition = Ack \<longrightarrow> (\<exists>before last. new @ later = before @ last \<and> list_all2 (scored env eng) payloads last)" using later(4) by blast
    moreover have "sent w' = sent w @ map (Pair subject) (new @ later)" using new(1) later(1) by simp
    moreover have "\<forall>d \<in> set (new @ later). \<exists>payload \<in> set payloads. scored env eng payload d" using from_batch later(3) by (simp add: ball_Un)
    ultimately show ?thesis using later(2) by blast
  qed (use new(2) in simp)
qed (auto intro: exI [of _ "[]"])

end

text \<open>
  C19: no event is lost and none is invented. However often a message is delivered, every score published for it is the score of one of its events; once it is acknowledged the last delivery has
  published one score for each event, in order; a message that is not a JSON object or an array of objects is given up at its first delivery, with nothing published.
\<close>

theorem worker_at_least_once:
  assumes "score_bus env sent" "deliver n env eng subject data w = (disposition, w')"
  shows "case parse_event_batch data of
      None \<Rightarrow> sent w' = sent w \<and> disposition = (if n = 0 then Nak else Term)
    | Some payloads \<Rightarrow> \<exists>new. sent w' = sent w @ map (Pair subject) new \<and> disposition \<noteq> Term \<and>
        (\<forall>d \<in> set new. \<exists>payload \<in> set payloads. scored env eng payload d) \<and>
        (disposition = Ack \<longrightarrow> (\<exists>before last. new = before @ last \<and> list_all2 (scored env eng) payloads last))"
proof (cases "parse_event_batch data")
  case None
  then show ?thesis using assms(2) by (cases n) (auto simp: on_event_message_def score_bus.inc_sends_nothing [OF assms(1)])
next
  case (Some payloads)
  then show ?thesis using score_bus.deliver_sends [OF assms Some] by simp
qed

subsection \<open>Across the two languages\<close>

lemma py_float_json_float: "py_float (loads (json_float r)) = Some (Finite r)"
proof (cases "of_int \<lfloor>r\<rfloor> = r \<and> \<bar>r\<bar> < 10 ^ 21")
  case True
  define i where "i = \<lfloor>r\<rfloor>"
  have r: "r = of_int i" unfolding i_def using True by (rule conjunct1 [THEN sym])
  have "of_int \<bar>i\<bar> < (of_int (10 ^ 21) :: rat)" using True by (simp add: r)
  then have "\<bar>i\<bar> < 10 ^ 21" by (simp only: of_int_less_iff)
  then show ?thesis using True by (simp add: json_float_def r)
qed (simp add: json_float_def)

definition go_payload :: "NormalizedEvent \<Rightarrow> (string \<times> py) list" where
  "go_payload e = [
     (''eventId'', PyStr (ne_EventID e)), (''observedAt'', PyTime (ne_ObservedAt e)), (''namespace'', PyStr (ne_Namespace e)),
     (''podName'', PyStr (ne_PodName e)), (''nodeName'', PyStr (ne_NodeName e)), (''sourceIp'', PyStr (ne_SourceIP e)),
     (''destIp'', PyStr (ne_DestIP e)), (''destPort'', PyInt (uint (ne_DestPort e))), (''protocol'', PyStr (protocol_text (ne_Protocol e))),
     (''payloadSize'', PyInt (uint (ne_PayloadSize e))), (''ratePerSecond'', loads (json_float (ne_RatePerSecond e))), (''malformed'', PyBool (ne_Malformed e)),
     (''vlanId'', PyInt (uint (ne_VLANID e))), (''teid'', PyInt (uint (ne_TEID e))), (''tunnelRatePerSecond'', loads (json_float (ne_TunnelRatePerSecond e)))]"

lemma loads_normalized: "loads (marshal_normalized e) = PyDict (go_payload e)"
  by (simp add: marshal_normalized_def go_payload_def dict_of_distinct)

definition go_features :: "NormalizedEvent \<Rightarrow> features_event" where
  "go_features e = \<lparr>fe_protocol = PyStr (protocol_text (ne_Protocol e)), fe_dest_port = uint (ne_DestPort e), fe_payload_size = uint (ne_PayloadSize e),
     fe_rate_per_second = Finite (ne_RatePerSecond e), fe_malformed = ne_Malformed e, fe_observed_at = ne_ObservedAt e div 1000 * 1000,
     fe_teid = uint (ne_TEID e), fe_tunnel_rate_per_second = Finite (ne_TunnelRatePerSecond e)\<rparr>"

lemma go_from_dict: "from_dict fromiso now (go_payload e) = (if ne_ObservedAt e < zero_time then None else Some (go_features e))"
  by (simp add: from_dict_def observed_at_def dict_get_def go_payload_def go_features_def py_float_json_float)

text \<open>The score event the operator's decoder makes of a score for \<open>e\<close>.\<close>

definition score_for :: "NormalizedEvent \<Rightarrow> float64 \<Rightarrow> time \<Rightarrow> ThreatScoreEvent" where
  "score_for e r at_time = \<lparr>ts_SourceEventID = ne_EventID e, ts_Namespace = ne_Namespace e, ts_PodName = ne_PodName e, ts_SourceIP = ne_SourceIP e,
     ts_TEID = ne_TEID e, ts_Score = r, ts_Model = ''autoencoder-v1'', ts_DetectedAt = at_time\<rparr>"

lemma go_scored:
  assumes "scored env eng (go_payload e) d"
  shows "\<exists>r at_time. unmarshal_score d = Inr (score_for e r at_time) \<and> score_event eng (go_features e) = Some (Finite r) \<and> 0 \<le> r \<and> r \<le> 1"
proof -
  obtain w result where res: "build_threat_result env (go_payload e) eng w = Some result" "d = dumps result" using assms by (auto simp: scored_def)
  then obtain f where f: "score_event eng (go_features e) = Some f"
    and result: "result = PyDict [(''sourceEventId'', PyStr (ne_EventID e)), (''namespace'', PyStr (ne_Namespace e)), (''podName'', PyStr (ne_PodName e)),
      (''sourceIp'', PyStr (ne_SourceIP e)), (''teid'', PyInt (uint (ne_TEID e))), (''score'', PyFloat f), (''model'', PyStr ''autoencoder-v1''),
      (''detectedAt'', PyTime (wk_now env w div second * second))]"
    by (auto simp: build_threat_result_def bind_eq_Some_conv go_from_dict split: if_splits) (simp add: go_payload_def dict_get_def)
  obtain r where r: "f = Finite r" "0 \<le> r" "r \<le> 1" using score_event_range [OF f] by blast
  have "unmarshal_score d = Inr (score_for e r (wk_now env w div second * second))"
    using uint_bounded [of "ne_TEID e"]
    by (simp add: res(2) result r(1) unmarshal_score_def dec_score_field_def field_named_def ascii_lower_def score_for_def zero_score_def)
  then show ?thesis using f r by blast
qed

text \<open>What the operator's publisher puts on the bus: one event as an object, or a batch as an array.\<close>

definition event_message :: "NormalizedEvent list \<Rightarrow> json \<Rightarrow> bool" where
  "event_message evs m \<longleftrightarrow> m = JArray (map marshal_normalized evs) \<or> (\<exists>e. evs = [e] \<and> m = marshal_normalized e)"

lemma parse_event_message:
  assumes "event_message evs m"
  shows "parse_event_batch (Some (loads m)) = Some (map go_payload evs)"
proof -
  have "those (map (\<lambda>item. case item of PyDict d \<Rightarrow> Some d | _ \<Rightarrow> None) (map (loads \<circ> marshal_normalized) evs)) = Some (map go_payload evs)"
    by (induction evs) (simp_all add: loads_normalized)
  then show ?thesis using assms by (auto simp: event_message_def parse_event_batch_def loads_normalized)
qed

definition source_ips :: "NormalizedEvent \<Rightarrow> bytes set" where
  "source_ips e = (case ParseIP (ne_SourceIP e) of None \<Rightarrow> {} | Some ip \<Rightarrow> {canon ip})"

text \<open>
  C18: what the AI engine can make the operator do. Take a message of the operator's own publisher, a score the worker publishes for it in any of its deliveries, and let the operator handle that
  score. The operator can read it; it is the engine's score of one event of the message and between 0 and 1; and whatever policies match and whatever fails, at most that event's source
  address, and that address with the event's TEID, become dropped, and nothing stops being dropped.
\<close>

theorem ai_score_blocks_its_event:
  assumes "score_bus wenv sent" "event_message evs m" "deliver n wenv eng subject (Some (loads m)) w = (disposition, w')"
    and "(topic, d) \<in> set (drop (length (sent w)) (sent w'))"
    and "cluster env ins winv drops tdrops stored hist calm" "winv (o_World s)"
    and "on_threat_message (\<lambda>ev. run_state (handle env tw ev)) d s = (verdict, s')"
  shows "\<exists>e \<in> set evs. \<exists>r. topic = subject \<and> verdict \<noteq> Term \<and> score_event eng (go_features e) = Some (Finite r) \<and> 0 \<le> r \<and> r \<le> 1 \<and>
    drops (o_World s) \<subseteq> drops (o_World s') \<and> drops (o_World s') \<subseteq> drops (o_World s) \<union> source_ips e \<and>
    tdrops (o_World s) \<subseteq> tdrops (o_World s') \<and> tdrops (o_World s') \<subseteq> tdrops (o_World s) \<union> source_ips e \<times> {ne_TEID e}"
proof -
  note parsed = parse_event_message [OF assms(2)]
  obtain new where new: "sent w' = sent w @ map (Pair subject) new" "\<forall>d \<in> set new. \<exists>payload \<in> set (map go_payload evs). scored wenv eng payload d"
    using score_bus.deliver_sends [OF assms(1,3) parsed] by blast
  then have d: "topic = subject" "d \<in> set new" using assms(4) by auto
  then obtain e where e: "e \<in> set evs" "scored wenv eng (go_payload e) d" using new(2) by auto
  from go_scored [OF e(2)] obtain r at_time where sc: "unmarshal_score d = Inr (score_for e r at_time)"
      "score_event eng (go_features e) = Some (Finite r)" "0 \<le> r" "r \<le> 1" by blast
  obtain err where run: "run_state (handle env tw (score_for e r at_time)) s = (err, s')"
    using assms(7) sc(1) by (auto simp: on_threat_message_def split: prod.splits option.splits)
  have "verdict \<noteq> Term" using assms(7) sc(1) by (auto simp: on_threat_message_def split: prod.splits option.splits)
  moreover have "event_ips (score_for e r at_time) = source_ips e" "event_tunnels (score_for e r at_time) = source_ips e \<times> {ne_TEID e}"
    by (auto simp: event_ips_def event_tunnels_def source_ips_def score_for_def split: option.splits)
  then have "drops (o_World s) \<subseteq> drops (o_World s') \<and> drops (o_World s') \<subseteq> drops (o_World s) \<union> source_ips e \<and>
      tdrops (o_World s) \<subseteq> tdrops (o_World s') \<and> tdrops (o_World s') \<subseteq> tdrops (o_World s) \<union> source_ips e \<times> {ne_TEID e}"
    using tripleD [OF cluster.adds_handle [OF assms(5), of "drops (o_World s)" "score_for e r at_time" "tdrops (o_World s)"] _ run] assms(6)
    by (simp add: cluster.kernel_ok_def [OF assms(5)])
  ultimately show ?thesis using e(1) d(1) sc(2-4) by blast
qed

subsection \<open>One bus\<close>

lemma Load_bus:
  assumes "Load env = Inr cfg"
  shows "oc_NATSURL cfg = getEnv env ''NATS_URL'' ''nats://localhost:4222'' \<and>
    oc_NATSStreamName cfg = getEnv env ''NATS_STREAM_NAME'' ''SENTINEL5G'' \<and>
    oc_NATSEventsSubject cfg = getEnv env ''NATS_EVENTS_SUBJECT'' ''sentinel5g.events.normalized'' \<and>
    oc_NATSThreatsSubject cfg = getEnv env ''NATS_THREATS_SUBJECT'' ''sentinel5g.threats.scored'' \<and>
    oc_NATSPassword cfg = getEnv env ''NATS_PASSWORD'' [] \<and> oc_NATSTLSKeyFile cfg = getEnv env ''NATS_TLS_KEY_FILE'' [] \<and>
    parseBoolEnv env ''NATS_ALLOW_UNAUTHENTICATED'' False = Inr (oc_NATSAllowUnauthenticated cfg)"
  using assms unfolding Load_def
  by (elim and_thenE) (frule validate_Inr [THEN iffD1, THEN conjunct1], simp)

lemma ParseBool_lower:
  assumes "ParseBool v = Inr b"
  shows "(map ascii_lower (strip v) \<in> {''1'', ''t'', ''true'', ''yes''}) = b"
proof -
  have "b \<and> v \<in> {''1'', ''t'', ''T'', ''true'', ''TRUE'', ''True''} \<or> \<not> b \<and> v \<in> {''0'', ''f'', ''F'', ''false'', ''FALSE'', ''False''}"
    using assms unfolding ParseBool_def by (metis Inl_Inr_False sum.inject(2))
  then show ?thesis
    by (elim disjE conjE insertE emptyE; simp add: strip_def is_space_def ascii_lower_def char_of_def bit_0)
qed

lemma ParseBool_getenv_bool:
  assumes "parseBoolEnv env key False = Inr b"
  shows "getenv_bool env key False = b"
proof (cases "env key")
  case (Some v)
  show ?thesis
  proof (cases "v = []")
    case False
    then have "ParseBool v = Inr b" using assms Some by (auto simp: parseBoolEnv_def split: sum.splits)
    from ParseBool_lower [OF this] show ?thesis using Some False by (simp only: getenv_bool_def option.case if_False)
  qed (use assms Some in \<open>simp add: parseBoolEnv_def getenv_bool_def\<close>)
qed (use assms in \<open>simp add: parseBoolEnv_def getenv_bool_def\<close>)

lemma load_settings_fields:
  assumes "load_settings env = Some st"
  shows "st_mode st = os_getenv env ''AI_ENGINE_MODE'' ''http''"
    "st_http_addr st = os_getenv env ''AI_ENGINE_HTTP_ADDR'' ''0.0.0.0:8090''" "st_metrics_addr st = os_getenv env ''AI_ENGINE_METRICS_ADDR'' ''0.0.0.0:9090''"
    "st_nats_url st = os_getenv env ''NATS_URL'' ''nats://localhost:4222''" "st_nats_stream_name st = os_getenv env ''NATS_STREAM_NAME'' ''SENTINEL5G''"
    "st_nats_events_subject st = os_getenv env ''NATS_EVENTS_SUBJECT'' ''sentinel5g.events.normalized''"
    "st_nats_threats_subject st = os_getenv env ''NATS_THREATS_SUBJECT'' ''sentinel5g.threats.scored''"
    "st_nats_creds_file st = os_getenv env ''NATS_CREDENTIALS_FILE'' []" "st_nats_username st = os_getenv env ''NATS_USERNAME'' []"
    "st_nats_password st = os_getenv env ''NATS_PASSWORD'' []" "st_nats_tls_ca_file st = os_getenv env ''NATS_TLS_CA_FILE'' []"
    "st_nats_tls_cert_file st = os_getenv env ''NATS_TLS_CERT_FILE'' []" "st_nats_tls_key_file st = os_getenv env ''NATS_TLS_KEY_FILE'' []"
    "st_nats_allow_unauthenticated st = getenv_bool env ''NATS_ALLOW_UNAUTHENTICATED'' False"
  using assms unfolding load_settings_def map_option_eq_Some by (elim exE conjE; hypsubst; simp only: Settings.simps)+

lemma os_getenv_getEnv: "os_getenv env key [] = getEnv env key []"
  by (simp add: os_getenv_def getEnv_def split: option.splits)

lemma os_getenv_set: "env key \<noteq> Some [] \<Longrightarrow> os_getenv env key fallback = getEnv env key fallback"
  by (auto simp: os_getenv_def getEnv_def split: option.splits)


lemma int_text_no_colon:
  assumes "int_text s = Some n"
  shows "CHR '':'' \<notin> set s"
proof
  assume c: "CHR '':'' \<in> set s"
  have keep: "x \<in> set (dropWhile P xs)" if "x \<in> set xs" "\<not> P x" for x P and xs :: string using that by (induction xs) auto
  have "\<not> is_space (CHR '':'')" by (simp add: is_space_def)
  then have "CHR '':'' \<in> set (strip s)" using c by (simp add: strip_def keep)
  moreover obtain neg t where t: "sign_of (strip s) = (neg, t)" by fastforce
  moreover have "CHR '':'' \<in> set (snd (sign_of u))" if "CHR '':'' \<in> set u" for u using that by (cases u) (auto simp: sign_of_def)
  ultimately have "CHR '':'' \<in> set t" by (metis snd_conv)
  moreover have "\<not> is_dec (CHR '':'')" by (simp add: is_dec_def dec_val_def)
  ultimately have "\<not> list_all (\<lambda>c. is_dec c \<or> c = CHR ''_'') t" by (auto simp: list_all_iff)
  then show False using assms t by (auto simp: int_text_def Let_def split: if_splits)
qed

text \<open>The health check asks the port that is served, where the address has a colon.\<close>

lemma health_check_asks_served_port:
  assumes "ai_main env model sidecar = Some (eng, process)"
    and "CHR '':'' \<in> set (os_getenv env ''AI_ENGINE_METRICS_ADDR'' ''0.0.0.0:9090'')" "CHR '':'' \<in> set (os_getenv env ''AI_ENGINE_HTTP_ADDR'' ''0.0.0.0:8090'')"
  shows "\<exists>host port. process \<in> {NatsWorker host port, HttpServer host port} \<and> int_text (health_port env) = Some port"
proof -
  have served: "\<exists>host port. x = (host, port) \<and> int_text (let p = after_last_colon addr in if p = [] then text_port else p) = Some port"
    if "CHR '':'' \<in> set addr" "bind_addr addr fallback = Some x" "int_text text_port = Some fallback" for addr fallback text_port x
  proof -
    obtain host port where p: "partition_colon addr = (host, port)" by fastforce
    have "CHR '':'' \<notin> set port" using that(2) p int_text_no_colon by (auto simp: bind_addr_def split: if_splits)
    then have "after_last_colon addr = port" using partition_one_colon [OF that(1)] p by simp
    then show ?thesis using that(2,3) p by (auto simp: bind_addr_def split: if_splits)
  qed
  have ports: "int_text ''9090'' = Some 9090" "int_text ''8090'' = Some 8090"
    by (simp_all add: int_text_def strip_def is_space_def sign_of_def is_dec_def dec_val_def digit_in_def dec_value_def Let_def)
  obtain st where st: "load_settings env = Some st" using assms(1) by (auto simp: ai_main_def split: option.splits)
  note f = load_settings_fields(1-3) [OF st]
  show ?thesis
  proof (cases "st_mode st = ''nats''")
    case True
    then obtain x where "bind_addr (st_metrics_addr st) 9090 = Some x" "process = (case x of (host, port) \<Rightarrow> NatsWorker host port)"
      using assms(1) st by (auto simp: ai_main_def split: option.splits if_splits)
    then show ?thesis using served [OF assms(2) _ ports(1)] True unfolding f health_port_def Let_def by auto
  next
    case False
    then obtain x where "bind_addr (st_http_addr st) 8090 = Some x" "process = (case x of (host, port) \<Rightarrow> HttpServer host port)"
      using assms(1) st by (auto simp: ai_main_def split: option.splits if_splits)
    then show ?thesis using served [OF assms(3) _ ports(2)] False unfolding f health_port_def Let_def by auto
  qed
qed

subsection \<open>A run\<close>

text \<open>A bus that loses the second publish, a model that always answers zeros, and an event of tunnel 7 behind 10.0.0.1.\<close>

definition flaky_worker :: "(nat \<times> (string \<times> json option) list) worker_env" where
  "flaky_worker = \<lparr>wk_publish = (\<lambda>subject d (n, s). if n = 1 then (False, (Suc n, s)) else (True, (Suc n, s @ [(subject, d)]))),
     wk_ack = (\<lambda>w. (True, w)), wk_inc = (\<lambda>outcome w. w), wk_now = (\<lambda>w. 0), wk_uuid = (\<lambda>w. ''u''), wk_iso = (\<lambda>s. None)\<rparr>"

interpretation flaky_bus: score_bus flaky_worker snd
  by unfold_locales (auto simp: flaky_worker_def split: prod.splits if_splits)

definition mean_square :: "float_value list \<Rightarrow> float_value list \<Rightarrow> float_value" where
  "mean_square xs ys =
     Finite (sum_list (map (\<lambda>(x, y). case (x, y) of (Finite a, Finite b) \<Rightarrow> (a - b) ^ 2 | _ \<Rightarrow> 0) (zip xs ys)) / of_nat (length ys))"

definition demo_engine :: engine where
  "demo_engine = \<lparr>eng_session = \<lparr>im_input_dim = Some 12, im_run = (\<lambda>fs. Some (replicate (length fs) (Finite 0))), im_mean_square = mean_square\<rparr>,
     eng_reference_error = Finite (1 / 100)\<rparr>"

definition demo_event :: NormalizedEvent where
  "demo_event = \<lparr>ne_EventID = ''id-1'', ne_ObservedAt = 0, ne_Namespace = ''core'', ne_PodName = ''upf-0'', ne_NodeName = ''node-1'',
     ne_SourceIP = ''10.0.0.1'', ne_DestIP = ''10.0.0.9'', ne_DestPort = 2152, ne_Protocol = ProtocolGTPU, ne_PayloadSize = 1024,
     ne_RatePerSecond = 9000, ne_Malformed = False, ne_VLANID = 0, ne_TEID = 7, ne_TunnelRatePerSecond = 4000\<rparr>"

lemma demo_event_scored: "score_event demo_engine (go_features demo_event) = Some (Finite 1)"
  by (simp add: score_event_def score_features_def demo_engine_def extract_features_def go_features_def demo_event_def PROTOCOLS_def FEATURE_VECTOR_SIZE_def
      FEATURE_NAMES_def one_if_def int_norm_def float_norm_def py_max_def py_min_def SIGNALING_PORTS_def mean_square_def Let_def power2_eq_square)

lemma demo_event_result: "\<exists>result. build_threat_result flaky_worker (go_payload demo_event) demo_engine w = Some result"
  using demo_event_scored by (simp add: build_threat_result_def go_from_dict) (simp add: demo_event_def zero_time_def)

theorem engine_score_sound_witness:
  "\<forall>rate. score_event demo_engine (go_features demo_event\<lparr>fe_rate_per_second := rate\<rparr>) = Some (Finite 1)"
proof -
  have "fe_teid (go_features demo_event) \<noteq> 0" by (simp add: go_features_def demo_event_def)
  then show ?thesis using engine_score_sound [OF demo_event_scored] by blast
qed

lemma flaky_publishes:
  "publish_scores flaky_worker demo_engine subject [] w = (True, w)"
  "\<exists>d. publish_scores flaky_worker demo_engine subject (go_payload demo_event # ps) (n, s) =
     (if n = 1 then (False, (Suc n, s)) else publish_scores flaky_worker demo_engine subject ps (Suc n, s @ [(subject, d)]))"
proof -
  obtain result where r: "build_threat_result flaky_worker (go_payload demo_event) demo_engine (n, s) = Some result" using demo_event_result by blast
  then show "\<exists>d. publish_scores flaky_worker demo_engine subject (go_payload demo_event # ps) (n, s) =
     (if n = 1 then (False, (Suc n, s)) else publish_scores flaky_worker demo_engine subject ps (Suc n, s @ [(subject, d)]))"
    by (intro exI [of _ "dumps result"]) (simp add: flaky_worker_def)
qed simp

text \<open>Two events in one message: the first delivery gets through with one of them, the second with both.\<close>

lemma flaky_delivers:
  assumes parsed: "parse_event_batch data = Some [go_payload demo_event, go_payload demo_event]"
  shows "\<exists>d1 d2 d3. deliver MAX_EVENT_DELIVERIES flaky_worker demo_engine subject data (0, []) = (Ack, (4, [(subject, d1), (subject, d2), (subject, d3)]))"
proof -
  have env: "wk_ack flaky_worker w = (True, w)" "wk_inc flaky_worker outcome w = w" for w outcome by (simp_all add: flaky_worker_def)
  note publish = flaky_publishes(2) [of subject "[go_payload demo_event]"] flaky_publishes(2) [of subject "[]"]
  obtain d1 where "publish_scores flaky_worker demo_engine subject [go_payload demo_event, go_payload demo_event] (0, []) = (False, (2, [(subject, d1)]))"
    using publish(1) [of 0 "[]"] publish(2) [of 1] by (auto simp: numeral_2_eq_2 simp del: publish_scores.simps)
  then have one: "on_event_message flaky_worker demo_engine subject data (0, []) = (Nak, (2, [(subject, d1)]))"
    by (simp add: on_event_message_def parsed env del: publish_scores.simps)
  obtain d2 where again: "publish_scores flaky_worker demo_engine subject [go_payload demo_event, go_payload demo_event] (2, [(subject, d1)]) =
      publish_scores flaky_worker demo_engine subject [go_payload demo_event] (3, [(subject, d1), (subject, d2)])"
    using publish(1) [of 2 "[(subject, d1)]"] by (auto simp del: publish_scores.simps)
  obtain d3 where "publish_scores flaky_worker demo_engine subject [go_payload demo_event] (3, [(subject, d1), (subject, d2)]) =
      (True, (4, [(subject, d1), (subject, d2), (subject, d3)]))"
    using publish(2) [of 3 "[(subject, d1), (subject, d2)]"] by (auto simp: flaky_publishes(1) simp del: publish_scores.simps)
  with again have "publish_scores flaky_worker demo_engine subject [go_payload demo_event, go_payload demo_event] (2, [(subject, d1)]) =
      (True, (4, [(subject, d1), (subject, d2), (subject, d3)]))" by simp
  then have two: "on_event_message flaky_worker demo_engine subject data (2, [(subject, d1)]) = (Ack, (4, [(subject, d1), (subject, d2), (subject, d3)]))"
    by (simp add: on_event_message_def parsed env del: publish_scores.simps)
  have n: "MAX_EVENT_DELIVERIES = Suc (Suc 3)" by (simp add: MAX_EVENT_DELIVERIES_def)
  show ?thesis unfolding n deliver.simps one by (simp add: two)
qed

lemma demo_message:
  "event_message [demo_event, demo_event] (JArray (map marshal_normalized [demo_event, demo_event]))"
  "parse_event_batch (Some (loads (JArray (map marshal_normalized [demo_event, demo_event])))) = Some [go_payload demo_event, go_payload demo_event]"
  using parse_event_message [of "[demo_event, demo_event]"] by (simp_all add: event_message_def)

lemmas demo_delivery = flaky_delivers [OF demo_message(2), of "''threats''"]

theorem worker_at_least_once_witness:
  "\<exists>d1 d2 d3. deliver MAX_EVENT_DELIVERIES flaky_worker demo_engine ''threats'' (Some (loads (JArray (map marshal_normalized [demo_event, demo_event])))) (0, []) =
     (Ack, (4, [(''threats'', d1), (''threats'', d2), (''threats'', d3)])) \<and>
     (\<forall>d \<in> {d1, d2, d3}. scored flaky_worker demo_engine (go_payload demo_event) d)"
proof -
  obtain d1 d2 d3 where run: "deliver MAX_EVENT_DELIVERIES flaky_worker demo_engine ''threats'' (Some (loads (JArray (map marshal_normalized [demo_event, demo_event])))) (0, []) =
     (Ack, (4, [(''threats'', d1), (''threats'', d2), (''threats'', d3)]))" using demo_delivery by blast
  from worker_at_least_once [OF flaky_bus.score_bus_axioms run]
  obtain new where new: "snd (4 :: nat, [(''threats'', d1), (''threats'', d2), (''threats'', d3)]) = snd (0 :: nat, []) @ map (Pair ''threats'') new"
      "\<forall>d \<in> set new. \<exists>payload \<in> set [go_payload demo_event, go_payload demo_event]. scored flaky_worker demo_engine payload d"
    unfolding demo_message(2) option.case by blast
  then have "new = [d1, d2, d3]" by auto
  then show ?thesis using run new(2) by auto
qed

theorem ai_score_blocks_its_event_witness:
  "\<exists>m w' d verdict s'. event_message [demo_event, demo_event] m \<and>
     deliver MAX_EVENT_DELIVERIES flaky_worker demo_engine ''threats'' (Some (loads m)) (0, []) = (Ack, w') \<and> (''threats'', d) \<in> set (snd w') \<and>
     on_threat_message (\<lambda>ev. run_state (handle sim_env demo_watcher ev)) d demo_op = (verdict, s') \<and> verdict \<noteq> Term \<and>
     sim_drops (o_World s') \<subseteq> sim_drops demo_world \<union> source_ips demo_event"
proof -
  obtain d1 d2 d3 where run: "deliver MAX_EVENT_DELIVERIES flaky_worker demo_engine ''threats'' (Some (loads (JArray (map marshal_normalized [demo_event, demo_event])))) (0, []) =
     (Ack, (4, [(''threats'', d1), (''threats'', d2), (''threats'', d3)]))" using demo_delivery by blast
  obtain verdict s' where h: "on_threat_message (\<lambda>ev. run_state (handle sim_env demo_watcher ev)) d1 demo_op = (verdict, s')" by fastforce
  have "verdict \<noteq> Term \<and> sim_drops (o_World s') \<subseteq> sim_drops demo_world \<union> source_ips demo_event"
    using ai_score_blocks_its_event [OF flaky_bus.score_bus_axioms demo_message(1) run _ sim_cluster.cluster_axioms _ h, of "''threats''"] demo_world_inv by auto
  then show ?thesis using demo_message(1) run h by fastforce
qed

lemma demo_settings: "\<exists>st. load_settings demo_environ = Some st"
  by (simp add: load_settings_def os_getenv_def demo_environ_def int_text_def strip_def is_space_def sign_of_def is_dec_def dec_val_def digit_in_def Let_def)


end
