(* ===== verification/Offline_Parser.thy ===== *)
theory Offline_Parser
  imports Packet_Verdict
begin

text \<open>
  The capture reader that makes the AI engine's training data (\<open>cmd/ai-engine/scripts/pcap_gtpu.py\<close>): a second GTP-U parser, kept in step with the
  kernel's by hand, and the walk over a pcap file down to the UDP packets. It is shown to see in every frame what the XDP program sees, so that the
  model is trained on the numbers it is given in operation. An index outside the data raises, here \<open>None\<close>.
\<close>

subsection \<open>The mirror of \<open>parse_gtpu\<close>\<close>

fun offline_ext_walk :: "nat \<Rightarrow> bytes \<Rightarrow> u32 \<Rightarrow> u8 \<Rightarrow> nat \<Rightarrow> (u32 \<times> bool) option" where
  "offline_ext_walk i payload teid next_type off =
     (if i = 0 \<or> next_type = 0 then (if next_type \<noteq> 0 then Some (teid, True) else Some (teid, False))
      else if off > GTPU_MAX_HDR_BYTES - 4 \<or> off \<ge> length payload then Some (teid, True)
      else do {
        n \<leftarrow> ld8 payload off;
        let ext_len = unat n * 4 in
        if ext_len = 0 \<or> off + ext_len > GTPU_MAX_HDR_BYTES then Some (teid, True)
        else if off + ext_len > length payload then Some (teid, True)
        else do {
          next_type' \<leftarrow> ld8 payload (off + ext_len - 1);
          offline_ext_walk (i - 1) payload teid next_type' (off + ext_len) } })"

definition offline_parse_gtpu :: "bytes \<Rightarrow> (u32 \<times> bool) option" where
  "offline_parse_gtpu payload =
     (if length payload < 8 then Some (0, True)
      else do {
        flags \<leftarrow> ld8 payload 0;
        msg_type \<leftarrow> ld8 payload 1;
        if and flags 0xF0 \<noteq> 0x30 then Some (0, True)
        else if msg_type \<noteq> GTPU_MSG_TPDU then Some (0, msg_type \<notin> path_management)
        else do {
          teid \<leftarrow> ld_be32 payload 4;
          if and flags 0x07 = 0 then Some (teid, False)
          else if length payload < 12 then Some (teid, True)
          else do {
            next_type \<leftarrow> ld8 payload 11;
            offline_ext_walk GTPU_MAX_EXT_HEADERS payload teid next_type 12 } } })"

subsection \<open>Frames\<close>

record capture_packet =
  cp_timestamp :: rat
  cp_source_ip :: string
  cp_dest_port :: u16
  cp_payload_size :: int
  cp_teid :: u32
  cp_malformed :: bool

definition LINKTYPE_ETHERNET :: u32 where "LINKTYPE_ETHERNET = 1"
definition LINKTYPE_RAW :: u32 where "LINKTYPE_RAW = 101"
definition LINKTYPE_LINUX_SLL :: u32 where "LINKTYPE_LINUX_SLL = 113"

text \<open>The inner \<open>None\<close> is Python's.\<close>

definition ip_offset :: "u32 \<Rightarrow> bytes \<Rightarrow> nat option option" where
  "ip_offset link_type frame =
     (if link_type = LINKTYPE_ETHERNET then
        (if length frame < 14 then Some None
         else do {
           ethertype \<leftarrow> ld_be16 frame 12;
           if ethertype = 0x8100 then
             (if length frame < 18 then Some None
              else do {
                ethertype \<leftarrow> ld_be16 frame 16;
                Some (if ethertype = 0x0800 then Some 18 else None) })
           else Some (if ethertype = 0x0800 then Some 14 else None) })
      else if link_type = LINKTYPE_RAW then Some (Some 0)
      else if link_type = LINKTYPE_LINUX_SLL then
        (if length frame < 16 then Some None
         else do {
           ethertype \<leftarrow> ld_be16 frame 14;
           Some (if ethertype = 0x0800 then Some 16 else None) })
      else Some None)"

text \<open>The body of the loop over the records: the packet a frame gives, if any.\<close>

definition frame_packet :: "u32 \<Rightarrow> rat \<Rightarrow> nat \<Rightarrow> bytes \<Rightarrow> capture_packet option option" where
  "frame_packet link_type timestamp origlen frame = do {
     ip_off \<leftarrow> ip_offset link_type frame;
     case ip_off of
       None \<Rightarrow> Some None
     | Some ip_off \<Rightarrow>
         if length frame < ip_off + 20 then Some None
         else do {
           version_ihl \<leftarrow> ld8 frame ip_off;
           if drop_bit 4 version_ihl \<noteq> 4 then Some None
           else do {
             let ihl = unat (and version_ihl 0x0F) * 4;
             proto \<leftarrow> ld8 frame (ip_off + 9);
             if ihl < 20 \<or> proto \<noteq> 17 then Some None
             else do {
               frag \<leftarrow> ld_be16 frame (ip_off + 6);
               if and frag 0x1FFF \<noteq> 0 then Some None
               else do {
                 let source_ip = string4 (take 4 (drop (ip_off + 12) frame));
                 let udp_off = ip_off + ihl;
                 if length frame < udp_off + 8 then
                   Some (Some \<lparr>cp_timestamp = timestamp, cp_source_ip = source_ip, cp_dest_port = 0, cp_payload_size = 0, cp_teid = 0, cp_malformed = True\<rparr>)
                 else do {
                   dest_port \<leftarrow> ld_be16 frame (udp_off + 2);
                   let payload = drop (udp_off + 8) frame;
                   (teid, malformed) \<leftarrow> (if dest_port = GTPU_PORT then offline_parse_gtpu payload else Some (0, False));
                   Some (Some \<lparr>cp_timestamp = timestamp, cp_source_ip = source_ip, cp_dest_port = dest_port,
                     cp_payload_size = max (int origlen - int (udp_off + 8)) (int (length payload)), cp_teid = teid, cp_malformed = malformed\<rparr>) } } } } } }"

subsection \<open>The file\<close>

definition unpack_I :: "bool \<Rightarrow> bytes \<Rightarrow> nat \<Rightarrow> u32 option" where
  "unpack_I big raw p = map_option (\<lambda>b. word_of_nat (le_nat (if big then rev b else b))) (ld_bytes raw p 4)"

function read_records :: "bool \<Rightarrow> rat \<Rightarrow> u32 \<Rightarrow> bytes \<Rightarrow> nat \<Rightarrow> capture_packet list option" where
  "read_records big ts_divisor link_type raw offset =
     (if offset + 16 \<le> length raw then do {
        ts_sec \<leftarrow> unpack_I big raw offset;
        ts_frac \<leftarrow> unpack_I big raw (offset + 4);
        caplen \<leftarrow> unpack_I big raw (offset + 8);
        origlen \<leftarrow> unpack_I big raw (offset + 12);
        let frame = take (unat caplen) (drop (offset + 16) raw);
        if length frame < unat caplen then Some []
        else do {
          packet \<leftarrow> frame_packet link_type (of_nat (unat ts_sec) + of_nat (unat ts_frac) / ts_divisor) (unat origlen) frame;
          packets \<leftarrow> read_records big ts_divisor link_type raw (offset + 16 + unat caplen);
          Some (case packet of None \<Rightarrow> packets | Some p \<Rightarrow> p # packets) } }
      else Some [])"
  by pat_completeness auto
termination
  by (relation "measure (\<lambda>(big, d, l, raw, offset). length raw - offset)") auto

declare read_records.simps [simp del]

datatype capture_error = TooShort | NotPcap | Raised

definition PCAP_MAGIC_LE :: u32 where "PCAP_MAGIC_LE = 0xA1B2C3D4"
definition PCAP_MAGIC_LE_NANO :: u32 where "PCAP_MAGIC_LE_NANO = 0xA1B23C4D"

text \<open>The byte order and the magic number of a file.\<close>

definition pcap_magic :: "bytes \<Rightarrow> (bool \<times> u32) option" where
  "pcap_magic raw = do {
     little \<leftarrow> unpack_I False raw 0;
     if little \<in> {PCAP_MAGIC_LE, PCAP_MAGIC_LE_NANO} then Some (False, little)
     else do {
       magic \<leftarrow> unpack_I True raw 0;
       if magic \<in> {PCAP_MAGIC_LE, PCAP_MAGIC_LE_NANO} then Some (True, magic) else None } }"

definition read_udp_packets :: "bytes \<Rightarrow> capture_error + capture_packet list" where
  "read_udp_packets raw =
     (if length raw < 24 then Inl TooShort
      else case pcap_magic raw of
        None \<Rightarrow> Inl NotPcap
      | Some (big, magic) \<Rightarrow>
          (let ts_divisor = (if magic = PCAP_MAGIC_LE_NANO then 1000000000 else 1000000) in
           case do { link_type \<leftarrow> unpack_I big raw 20; read_records big ts_divisor link_type raw 24 } of
             None \<Rightarrow> Inl Raised
           | Some packets \<Rightarrow> Inr packets))"

subsection \<open>Both parsers agree\<close>

lemma ld8_append: "ld8 (pre @ p) (length pre + k) = ld8 p k"
  by (simp add: ld8_def nth_append)

lemma ext_walks_agree:
  "offline_ext_walk i p t nxt off = map_option (\<lambda>r. (t, r = GTPU_PARSE_MALFORMED)) (ext_walk i (pre @ p) (length pre) nxt off)"
proof (induction i arbitrary: nxt off)
  case (Suc i)
  show ?case
  proof (cases "nxt = 0 \<or> off > GTPU_MAX_HDR_BYTES - 4 \<or> off \<ge> length p")
    case False
    define n where "n = unat (p ! off) * 4"
    have n0: "(n = 0) = (unat (p ! off) = 0)" by (simp add: n_def)
    have ld: "ld8 p off = Some (p ! off)" "ld8 (pre @ p) (length pre + off) = Some (p ! off)" using False by (simp_all add: ld8_append)
    show ?thesis
    proof (cases "n = 0 \<or> off + n > GTPU_MAX_HDR_BYTES \<or> off + n > length p")
      case ok: False
      have "length pre + off + n - 1 = length pre + (off + n - 1)" "off + n - 1 < length p" using ok by linarith+
      then have ld': "ld8 p (off + n - 1) = Some (p ! (off + n - 1))" "ld8 (pre @ p) (length pre + off + n - 1) = Some (p ! (off + n - 1))"
        by (simp_all only: ld8_append) (simp_all only: ld8_def if_True)
      show ?thesis
        using False ok by (subst offline_ext_walk.simps, subst ext_walk.simps)
          (simp add: ld ld' [unfolded One_nat_def] Let_def n_def [symmetric] Suc.IH del: offline_ext_walk.simps ext_walk.simps)
    qed (use False in \<open>subst offline_ext_walk.simps, subst ext_walk.simps, auto simp add: ld Let_def n_def [symmetric] n0 simp del: offline_ext_walk.simps ext_walk.simps\<close>)
  qed (subst offline_ext_walk.simps, subst ext_walk.simps, auto simp del: offline_ext_walk.simps ext_walk.simps)
qed (simp add: ext_walk.simps)

lemma offline_parse_kernel:
  "\<exists>r. parse_gtpu (pre @ p) (length pre) 0 = Some (r, gtpu_teid p) \<and> offline_parse_gtpu p = Some (gtpu_teid p, r = GTPU_PARSE_MALFORMED)"
proof -
  obtain r where r: "parse_gtpu (pre @ p) (length pre) 0 = Some (r, gtpu_teid p)" using parse_gtpu_total [of "pre @ p" "length pre"] by auto
  obtain q where q: "ext_walk GTPU_MAX_EXT_HEADERS (pre @ p) (length pre) (p ! 11) 12 = Some q" using ext_walk_total by blast
  note v = r [unfolded parse_gtpu_view q]
  have "offline_parse_gtpu p = Some (gtpu_teid p, r = GTPU_PARSE_MALFORMED)"
  proof (cases "length p < 8")
    case False
    then have ld: "ld8 p 0 = Some (p ! 0)" "ld8 p 1 = Some (p ! 1)" "ld_be32 p 4 = Some (be_Uint32 (take 4 (drop 4 p)))"
      by (auto simp: ld8_def ld_be32_def ld_bytes_def)
    show ?thesis
    proof (cases "length p < 12")
      case True
      then show ?thesis using v False
        by (auto simp: offline_parse_gtpu_def ld GTPU_MSG_TPDU_def path_management_def split: if_splits)
    next
      case long: False
      then have "ld8 p 11 = Some (p ! 11)" by (simp add: ld8_def)
      then show ?thesis using v False long q
        by (auto simp: offline_parse_gtpu_def ld GTPU_MSG_TPDU_def path_management_def ext_walks_agree [of _ _ _ _ _ pre] simp del: offline_ext_walk.simps split: if_splits)
    qed
  qed (use v in \<open>auto simp: offline_parse_gtpu_def\<close>)
  with r show ?thesis by blast
qed

text \<open>
  C20: the parser that labels the training data and the parser in the kernel decide alike. On every UDP payload, wherever it stands in a packet, both return, with the same TEID,
  and the Python parser reports a malformed header exactly if the kernel's does.
\<close>

theorem parsers_agree:
  "\<exists>r teid. parse_gtpu (pre @ payload) (length pre) 0 = Some (r, teid) \<and> offline_parse_gtpu payload = Some (teid, r = GTPU_PARSE_MALFORMED)"
  using offline_parse_kernel by blast

subsection \<open>A capture is read as the kernel reads the wire\<close>

lemma ip_offset_total: "\<exists>x. ip_offset l frame = Some x"
  by (auto simp: ip_offset_def)

lemma frame_packet_view:
  assumes "ip_offset l frame = Some (Some off)" "off + 20 \<le> length frame"
  defines "d \<equiv> drop off frame"
  shows "frame_packet l ts n frame = Some
    (if drop_bit 4 (d ! 0) \<noteq> 4 \<or> ihl_of d < 5 \<or> d ! 9 \<noteq> 17 \<or> and (be_Uint16 (take 2 (drop 6 d))) 0x1FFF \<noteq> 0 then None
     else case udp_at (ihl_of d * 4) d of
       Udp port payload \<Rightarrow> Some \<lparr>cp_timestamp = ts, cp_source_ip = string4 (take 4 (drop 12 d)), cp_dest_port = port,
         cp_payload_size = max (int n - int (off + ihl_of d * 4 + 8)) (int (length payload)),
         cp_teid = (if port = GTPU_PORT then gtpu_teid payload else 0),
         cp_malformed = (port = GTPU_PORT \<and> fst (the (parse_gtpu payload 0 0)) = GTPU_PARSE_MALFORMED)\<rparr>
     | _ \<Rightarrow> Some \<lparr>cp_timestamp = ts, cp_source_ip = string4 (take 4 (drop 12 d)), cp_dest_port = 0, cp_payload_size = 0, cp_teid = 0, cp_malformed = True\<rparr>)"
proof -
  have ld: "ld8 frame off = Some (d ! 0)" "ld8 frame (off + 9) = Some (d ! 9)" "ld_be16 frame (off + 6) = Some (be_Uint16 (take 2 (drop 6 d)))"
    "take 4 (drop (off + 12) frame) = take 4 (drop 12 d)"
    using assms(2) by (simp_all add: d_def add.commute)
  have len: "length frame = off + length d" using assms(2) by (simp add: d_def)
  have rest: "drop (off + k) frame = drop k d" for k by (simp add: d_def add.commute)
  have parse: "offline_parse_gtpu q = Some (gtpu_teid q, fst (the (parse_gtpu q 0 0)) = GTPU_PARSE_MALFORMED)" for q
    using offline_parse_kernel [of "[]" q] by auto
  define h where "h = ihl_of d * 4"
  have port: "ld_be16 frame (off + h + 2) = Some (be_Uint16 (take 2 (drop (h + 2) d)))" if "h + 8 \<le> length d"
    using that rest [of "h + 2"] len by (simp add: add.assoc)
  have small: "(h < 20) = (ihl_of d < 5)" by (simp add: h_def)
  show ?thesis
  proof (cases "length d < h + 8")
    case True
    then show ?thesis
      using assms(1,2) by (simp add: frame_packet_def ld small len udp_at_def ihl_of_def [symmetric] h_def [symmetric] Let_def)
  next
    case False
    then show ?thesis
      using assms(1,2) rest [of "h + 8"] rest [of "h + 2"]
      by (simp add: frame_packet_def ld small len udp_at_def ihl_of_def [symmetric] h_def [symmetric] port parse Let_def add.assoc)
  qed
qed

lemma frame_packet_total: "\<exists>x. frame_packet l ts n frame = Some x"
proof -
  obtain o1 where o1: "ip_offset l frame = Some o1" using ip_offset_total by blast
  show ?thesis
  proof (cases o1)
    case (Some off)
    then show ?thesis
      using o1 frame_packet_view [of l frame off ts n] by (cases "off + 20 \<le> length frame") (auto simp: frame_packet_def)
  qed (simp add: frame_packet_def o1)
qed

text \<open>What the kernel's view of a frame makes of it: its source, port, TEID and framing as the XDP program finds them, for UDP over version 4.\<close>

definition wire_packet :: "rat \<Rightarrow> nat \<Rightarrow> bytes \<Rightarrow> capture_packet option" where
  "wire_packet ts n frame =
     (case datagram frame of
        None \<Rightarrow> None
      | Some (et, d) \<Rightarrow>
          if et = ETH_P_IP \<and> source4 d \<noteq> None \<and> drop_bit 4 (d ! 0) = 4 then
            (case udp4 d of
               NoUdp \<Rightarrow> None
             | ShortUdp \<Rightarrow> Some \<lparr>cp_timestamp = ts, cp_source_ip = string4 (the (packet_source frame)), cp_dest_port = 0, cp_payload_size = 0, cp_teid = 0, cp_malformed = True\<rparr>
             | Udp port payload \<Rightarrow> Some \<lparr>cp_timestamp = ts, cp_source_ip = string4 (the (packet_source frame)), cp_dest_port = port,
                 cp_payload_size = max (int n - int (length frame - length payload)) (int (length payload)), cp_teid = packet_teid frame,
                 cp_malformed = (port = GTPU_PORT \<and> fst (the (parse_gtpu payload 0 0)) = GTPU_PARSE_MALFORMED)\<rparr>)
          else None)"

lemma ethernet_offset:
  "ip_offset LINKTYPE_ETHERNET frame = Some (Some off) \<Longrightarrow> datagram frame = Some (ETH_P_IP, drop off frame)"
  "ip_offset LINKTYPE_ETHERNET frame = Some None \<Longrightarrow> datagram frame = Some (et, d) \<Longrightarrow> et \<noteq> ETH_P_IP"
  by (auto simp: ip_offset_def datagram_def ETH_P_IP_def ETH_P_8021Q_def Let_def split: if_splits)

lemma frame_packet_wire: "frame_packet LINKTYPE_ETHERNET ts n frame = Some (wire_packet ts n frame)"
proof -
  obtain o1 where o1: "ip_offset LINKTYPE_ETHERNET frame = Some o1" using ip_offset_total by blast
  show ?thesis
  proof (cases o1)
    case None
    then show ?thesis using o1 ethernet_offset(2) [of frame] by (simp add: frame_packet_def wire_packet_def split: option.split prod.split)
  next
    case (Some off)
    let ?d = "drop off frame"
    note off = o1 [unfolded Some] and dg = ethernet_offset(1) [OF o1 [unfolded Some]]
    show ?thesis
    proof (cases "off + 20 \<le> length frame")
      case True
      show ?thesis
      proof (cases "ihl_of ?d < 5")
        case ihl: False
        have src: "source4 ?d = Some (take 4 (drop 12 ?d))" using True ihl by (simp add: source4_def)
        have ps: "packet_source frame = Some (take 4 (drop 12 ?d))" "packet_teid frame = udp_teid (udp4 ?d)"
          unfolding packet_source_def packet_teid_def dg by (simp_all add: src ETH_P_IP_def ETH_P_IPV6_def)
        have udp: "udp4 ?d = (if ?d ! 9 = 17 \<and> and (be_Uint16 (take 2 (drop 6 ?d))) 0x1FFF = 0 then udp_at (ihl_of ?d * 4) ?d else NoUdp)"
          by (simp add: udp4_def IPPROTO_UDP_def)
        have len: "length frame - length payload = off + ihl_of ?d * 4 + 8" if "udp_at (ihl_of ?d * 4) ?d = Udp port payload" for port payload
          using that True by (auto simp: udp_at_def split: if_splits)
        have not: "udp_at (ihl_of ?d * 4) ?d \<noteq> NoUdp" by (simp add: udp_at_def)
        show ?thesis
          unfolding frame_packet_view [OF off True] wire_packet_def dg
          using ihl len not by (cases "udp_at (ihl_of ?d * 4) ?d") (simp_all add: src ps udp udp_teid_def)
      qed (use frame_packet_view [OF off True] in \<open>simp add: wire_packet_def dg source4_def\<close>)
    next
      case False
      then have "source4 ?d = None" by (auto simp: source4_def)
      then show ?thesis using off False by (simp add: frame_packet_def wire_packet_def dg)
    qed
  qed
qed

subsection \<open>Whole files\<close>

lemma unpack_I_total: "p + 4 \<le> length raw \<Longrightarrow> \<exists>v. unpack_I big raw p = Some v"
  by (simp add: unpack_I_def ld_bytes_def)

lemma read_records_total: "\<exists>ps. read_records big dv l raw offset = Some ps"
proof (induction "length raw - offset" arbitrary: offset rule: less_induct)
  case less
  show ?case
  proof (cases "offset + 16 \<le> length raw")
    case True
    obtain sec frac caplen origlen where u: "unpack_I big raw offset = Some sec" "unpack_I big raw (offset + 4) = Some frac"
        "unpack_I big raw (offset + 8) = Some caplen" "unpack_I big raw (offset + 12) = Some origlen"
      using unpack_I_total [of offset raw big] unpack_I_total [of "offset + 4" raw big] unpack_I_total [of "offset + 8" raw big]
        unpack_I_total [of "offset + 12" raw big] True by auto
    obtain x where "frame_packet l (of_nat (unat sec) + of_nat (unat frac) / dv) (unat origlen) (take (unat caplen) (drop (offset + 16) raw)) = Some x"
      using frame_packet_total by blast
    moreover have "length raw - (offset + 16 + unat caplen) < length raw - offset" using True by linarith
    from less [OF this] obtain ps where "read_records big dv l raw (offset + 16 + unat caplen) = Some ps" by blast
    ultimately show ?thesis using u True by (subst read_records.simps) (simp add: Let_def)
  qed (simp add: read_records.simps)
qed

text \<open>The reader never runs outside the data, whatever is in the file.\<close>

lemma read_never_raises: "read_udp_packets raw \<noteq> Inl Raised"
proof (cases "length raw < 24 \<or> pcap_magic raw = None")
  case False
  then obtain big magic where m: "pcap_magic raw = Some (big, magic)" by auto
  obtain l where "unpack_I big raw 20 = Some l" using False unpack_I_total [of 20 raw big] by auto
  moreover obtain ps where "read_records big (if magic = PCAP_MAGIC_LE_NANO then 1000000000 else 1000000) l raw 24 = Some ps" using read_records_total by blast
  ultimately show ?thesis using False m by (simp add: read_udp_packets_def Let_def)
qed (auto simp: read_udp_packets_def)

text \<open>An Ethernet capture file of the little-endian form: seconds, microseconds, length on the wire and frame of each record.\<close>

fun record_bytes :: "u32 \<times> u32 \<times> u32 \<times> bytes \<Rightarrow> bytes" where
  "record_bytes (sec, usec, origlen, frame) = put_u32 sec @ put_u32 usec @ put_u32 (word_of_nat (length frame)) @ put_u32 origlen @ frame"

definition pcap_file :: "(u32 \<times> u32 \<times> u32 \<times> bytes) list \<Rightarrow> bytes" where
  "pcap_file records = put_u32 PCAP_MAGIC_LE @ replicate 16 0 @ put_u32 LINKTYPE_ETHERNET @ concat (map record_bytes records)"

lemma length_put_u32: "length (put_u32 v) = 4"
  by (simp add: put_u32_def)

lemma unpack_put_u32: "unpack_I False (pre @ put_u32 v @ post) (length pre) = Some v"
  using unsigned_less [of v, where 'a = nat] by (simp add: unpack_I_def ld_bytes_def length_put_u32) (simp add: put_u32_def le_nat_le_bytes)

lemma read_records_back:
  assumes "list_all (\<lambda>(sec, usec, origlen, frame). length frame < 2 ^ 32) records"
  shows "read_records False dv LINKTYPE_ETHERNET (pre @ concat (map record_bytes records)) (length pre) =
    Some (List.map_filter (\<lambda>(sec, usec, origlen, frame). wire_packet (of_nat (unat sec) + of_nat (unat usec) / dv) (unat origlen) frame) records)"
  using assms
proof (induction records arbitrary: pre)
  case (Cons r records)
  obtain sec usec origlen frame where r: "r = (sec, usec, origlen, frame)" by (cases r)
  let ?rest = "concat (map record_bytes records)"
  let ?len = "word_of_nat (length frame) :: u32"
  define raw where "raw = pre @ put_u32 sec @ put_u32 usec @ put_u32 ?len @ put_u32 origlen @ frame @ ?rest"
  have whole: "pre @ concat (map record_bytes (r # records)) = raw" by (simp add: r raw_def)
  have small: "unat ?len = length frame" using Cons.prems by (simp add: r unat_of_nat)
  have u: "unpack_I False raw (length pre) = Some sec" "unpack_I False raw (length pre + 4) = Some usec"
      "unpack_I False raw (length pre + 8) = Some ?len" "unpack_I False raw (length pre + 12) = Some origlen"
    using unpack_put_u32 [of pre sec "put_u32 usec @ put_u32 ?len @ put_u32 origlen @ frame @ ?rest"]
      unpack_put_u32 [of "pre @ put_u32 sec" usec "put_u32 ?len @ put_u32 origlen @ frame @ ?rest"]
      unpack_put_u32 [of "pre @ put_u32 sec @ put_u32 usec" ?len "put_u32 origlen @ frame @ ?rest"]
      unpack_put_u32 [of "pre @ put_u32 sec @ put_u32 usec @ put_u32 ?len" origlen "frame @ ?rest"]
    unfolding raw_def by (simp_all add: length_put_u32)
  have frame: "take (length frame) (drop (length pre + 16) raw) = frame" unfolding raw_def by (simp add: length_put_u32)
  have next_record: "read_records False dv LINKTYPE_ETHERNET raw (length pre + 16 + length frame) =
      Some (List.map_filter (\<lambda>(sec, usec, origlen, frame). wire_packet (of_nat (unat sec) + of_nat (unat usec) / dv) (unat origlen) frame) records)"
    using Cons.IH [of "pre @ record_bytes r"] Cons.prems by (simp add: r length_put_u32 raw_def add.assoc)
  have len: "length pre + 16 \<le> length raw" unfolding raw_def by (simp add: length_put_u32)
  have "read_records False dv LINKTYPE_ETHERNET raw (length pre) =
      Some (case wire_packet (of_nat (unat sec) + of_nat (unat usec) / dv) (unat origlen) frame of
          None \<Rightarrow> List.map_filter (\<lambda>(sec, usec, origlen, frame). wire_packet (of_nat (unat sec) + of_nat (unat usec) / dv) (unat origlen) frame) records
        | Some p \<Rightarrow> p # List.map_filter (\<lambda>(sec, usec, origlen, frame). wire_packet (of_nat (unat sec) + of_nat (unat usec) / dv) (unat origlen) frame) records)"
    using len by (subst read_records.simps) (simp only: u small frame frame_packet_wire next_record Let_def if_True less_irrefl if_False option.simps bind.simps)
  then show ?case unfolding whole by (simp add: r List.map_filter_simps split: option.split)
qed (simp add: read_records.simps List.map_filter_simps)



end
