(* ===== verification/Spec2Isabelle.thy ===== *)
theory Spec2Isabelle
  imports Record_To_Drop Ai_Scores Offline_Parser
begin

text \<open>
  A model of Sentinel5G and its correctness.

  \<^bold>\<open>The system.\<close> Sentinel5G watches the user-plane and signaling traffic of a 5G core. An XDP program (\<open>bpf/packet_filter.c\<close>) sees every packet of an interface: it drops packets of blocked
  sources and blocked GTP-U tunnels, counts the others and writes records of signaling packets into ring buffers. The operator (\<open>cmd/operator\<close>, \<open>pkg/\<close>) reads the records
  (\<open>pkg/ebpf\<close>), normalises and publishes them over NATS (\<open>pkg/ingestion\<close>, \<open>pkg/events\<close>) and judges them with two flood detectors (\<open>pkg/detect\<close>); Falco alerts and Hubble
  flows come in beside them (\<open>pkg/falco\<close>, \<open>pkg/hubble\<close>). The AI engine (\<open>cmd/ai-engine\<close>) turns the published events into scores. Scores reach the watcher
  (\<open>pkg/controller/threat_score_watcher.go\<close>), which finds the policies that match the workload, records what it intends in their status and then blocks the source or the tunnel in the
  kernel or isolates the Pod through a service mesh (\<open>pkg/mesh\<close>). The policy reconciler takes mitigations back, and the blocklist reconciler
  brings the kernel in line with the statuses.

  \<^bold>\<open>Foundations.\<close>
  \<^item> \<open>Prelude\<close>, \<open>Go_Net\<close>, \<open>Go_Strconv\<close>: errors with wrapping, time, byte order, numerals, \<open>net.IP\<close> parsing and printing, and the number and duration parsers of the Go library.
  \<^item> \<open>Python_Values\<close>: the Python values, conversions, comparisons and divisions that the AI engine uses.
  \<^item> \<open>Bounded_Fifo\<close>: the ring with an index that the flood detectors share, with the queue it implements.
  \<^item> \<open>Api_Types\<close>, \<open>Metrics\<close>, \<open>Operator_Env\<close>, \<open>Operator_State\<close>: the policy types (\<open>api/v1alpha1\<close>), the metrics as a log, the outside world as a record of
    functions over a world that is threaded through (the API server, the kernel maps, the mesh, the clock), and the state of the operator process with a state monad and a triple
    calculus for its handlers.
  \<^item> \<open>Cluster\<close>: the contract of the outside world that the controllers rely on. \<open>Sim_World\<close> is a cluster in which everything runs; it provides the contract, so that every
    theorem that assumes one has an instance.

  \<^bold>\<open>The kernel side.\<close>
  \<^item> \<open>Packet_Filter\<close> is the XDP program, function by function. A packet is a list of bytes and a load outside it is \<open>None\<close>; the maps are partial functions from key bytes; the answers of the
    kernel's helpers (clock, LRU eviction and failing updates, room in a ring buffer) are arbitrary functions of the number of calls made. The GTP-U parser is shown to accept exactly the framed headers.
  \<^item> \<open>Packet_Verdict\<close> shows that the program always reaches a verdict without a load outside the packet, what its records say, and that it drops exactly what the Go loader
    reports as blocked. \<open>Packet_Rates\<close> shows that the rates it reports are exact within a window, and that a port scan is reported once.
  \<^item> \<open>Ebpf_Blocklist\<close>, \<open>Ebpf_Loader\<close>, \<open>Ebpf_Attach\<close> are \<open>pkg/ebpf\<close>: the keys and records byte by byte, blocking and listing over arbitrary kernel maps with stated laws, attaching
    with pinned maps, discarding pins that do not fit, and closing.

  \<^bold>\<open>The operator.\<close>
  \<^item> \<open>Events\<close> (types, JSON form, bus, connector), \<open>Ingestion\<close> (normalisation, publisher loop), \<open>Detect_Tunnel\<close> and \<open>Detect_Source\<close> (the flood detectors), \<open>Hubble\<close>, \<open>Falco\<close> (observer
    and alert bridge, with \<open>cmd/falco-bridge\<close>), \<open>Mesh\<close> (the adapters over an object store with versions).
  \<^item> \<open>Policy_Index\<close>, \<open>Pod_Ip_Index\<close>, \<open>Kill_Switch\<close>, \<open>Reactor_Limiter\<close>, \<open>Scoring_Pipeline\<close>, \<open>Tunnel_Text\<close>: the smaller parts of \<open>pkg/controller\<close>.
  \<^item> \<open>Threat_Watcher\<close>, \<open>Policy_Reconciler\<close>, \<open>Blocklist_Reconciler\<close>: the three controllers, whole handlers with every call that changes state and every early return.
  \<^item> \<open>Operator_Steps\<close> puts them together: a step relation over scores, reconciliations, index warm-ups, blocklist passes, restarts and changes from outside, with the invariant
    that everything the kernel drops is claimed by a stored policy.
  \<^item> \<open>Operator_Config\<close> and \<open>Operator_Main\<close>: \<open>pkg/config\<close> with every variable and check, and the start of \<open>cmd/operator\<close> with its fallbacks and the parts it registers.

  \<^bold>\<open>The AI engine.\<close>
  \<^item> \<open>Ai_Features\<close> and \<open>Ai_Server\<close> are \<open>sentinel_ai/\<close>: the feature vector, the engine around an arbitrary model, the worker, the settings, the process and its health check.
    \<open>Ai_Scores\<close> shows that scores are in range and independent of a tunnel's neighbours, that no event is lost, that the operator reads them as scores of the right events,
    and that both processes accept the same bus.
  \<^item> \<open>Offline_Parser\<close> is the capture reader behind the training data (\<open>scripts/pcap_gtpu.py\<close>). Its GTP-U parser and the kernel's, kept in step by hand, are shown to agree.

  \<^bold>\<open>From end to end.\<close> \<open>Record_To_Drop\<close> follows a packet through all of it: record, decoding, normalisation, detector, bus, watcher, loader, kernel maps, and the next packet of the same
  source or tunnel. Only the packet's own source and tunnel can become dropped; a block counted as a success is in force for every later packet; and a tunnel that floods within one
  window is noticed. \<open>Ai_Scores\<close> does the same for the path through the AI engine.

  \<^bold>\<open>Conventions.\<close> Machine integers keep their width; times are nanoseconds as integers; a \<open>float64\<close> is a rational, and where \<open>NaN\<close> or infinity can come in, a value of \<open>float_value\<close>, so rounding
  is left out. A Go map that is walked is an association list with an arbitrary walk order. A handler runs as one step and one packet runs at a time: the mutexes of the code make its own
  state atomic, other clients of the API server appear as outside steps between handlers and as conflicts in its answers, and
  counters that several CPUs share without a lock are read as if one CPU ran. Loops over data end by a measure on
  it; the search for an existing directory ends since each parent is shorter. The connector's retry loop may run for ever and is a partial function whose \<open>None\<close> is not returning; it is shown to
  return once an attempt succeeds. Loops that only the outside ends (the Hubble observer, the publisher, the reconcilers' timers) run over a list of outside events, and the
  theorems hold for every such list. The redelivery of a message to the AI worker counts down from the limit the subscription asks for, and the theorems hold for every limit.

  \<^bold>\<open>Not modelled.\<close> The NATS client, the Kubernetes API server and client library, the eBPF library, gRPC, ONNX runtime, NumPy and the HTTP servers are arguments of the definitions with their documented
  behaviour as laws where it is needed. Left out are generated and registering code (\<open>zz_generated.deepcopy.go\<close>, \<open>groupversion_info.go\<close>, \<open>SetupWithManager\<close>, the Prometheus
  registrations and help texts), logging, the loader's stub for other systems, \<open>ProgramRunStats\<close> and the reading of the clock offset, which are one system call each, the training of the
  model and the evaluation scripts, the charts and manifests, and the load and integration test tools.
\<close>

end
